(* ===== verification/Sky_Prelude.thy ===== *)
theory Sky_Prelude
  imports Complex_Main "HOL-Library.List_Lexorder" "HOL-Library.Char_ord"
begin

text \<open>
  Shared vocabulary of the development: identifiers, instants and amounts, JSON values,
  the SQL statement forms the services use over a table (a list of rows in insertion
  order), and the Python string operations that occur in the code. The lemmas about
  tables carry most component proofs; they are in the collection \<open>table_simps\<close>.
\<close>

named_theorems table_simps \<open>facts about the SQL statement forms\<close>

subsection \<open>Identifiers, instants, amounts\<close>

text \<open>
  A UUID is a number: the code only compares, stores and orders them. An instant is a
  number of microseconds (the resolution of Python's \<open>datetime\<close> and of Postgres'
  \<open>timestamptz\<close>). A NUMERIC(12,2) column is a whole number of cents.
\<close>

type_synonym uuid = nat
type_synonym time = int
type_synonym cents = int

definition seconds :: "int \<Rightarrow> time" where
  "seconds s = s * 1000000"

lemma seconds_mono [simp]: "seconds a \<le> seconds b \<longleftrightarrow> a \<le> b" "seconds a < seconds b \<longleftrightarrow> a < b"
  by (simp_all add: seconds_def)

lemma seconds_pos [simp]: "0 < seconds a \<longleftrightarrow> 0 < a"
  by (simp add: seconds_def)

subsection \<open>JSON values\<close>

text \<open>
  The values the services put in response bodies and audit details. \<open>JUuid\<close>,
  \<open>JTime\<close> and \<open>JMoney\<close> stand for the strings Python's \<open>str\<close> and \<open>isoformat\<close>
  make of them; nothing in the code parses those strings again.
\<close>

datatype json =
    JNull
  | JBool bool
  | JInt int
  | JStr string
  | JUuid uuid
  | JTime time
  | JMoney cents
  | JList "json list"
  | JObj "(string \<times> json) list"

text \<open>\<open>body.update(extra)\<close> on a dict: later keys win, new keys go to the end.\<close>

fun dict_set :: "string \<Rightarrow> json \<Rightarrow> (string \<times> json) list \<Rightarrow> (string \<times> json) list" where
  "dict_set k v [] = [(k, v)]"
| "dict_set k v ((k', v') # kvs) =
     (if k' = k then (k, v) # kvs else (k', v') # dict_set k v kvs)"

definition dict_update :: "(string \<times> json) list \<Rightarrow> (string \<times> json) list \<Rightarrow> (string \<times> json) list" where
  "dict_update base extra = fold (\<lambda>(k, v) d. dict_set k v d) extra base"

lemma map_of_dict_set [simp]: "map_of (dict_set k v d) = (map_of d)(k \<mapsto> v)"
  by (induction d) auto

lemma map_of_dict_update_other:
  "k \<notin> fst ` set extra \<Longrightarrow> map_of (dict_update base extra) k = map_of base k"
proof (induction extra arbitrary: base)
  case Nil
  then show ?case by (simp add: dict_update_def)
next
  case (Cons kv extra)
  then show ?case by (cases kv) (simp add: dict_update_def)
qed

subsection \<open>SQL over a table\<close>

definition select_where :: "('r \<Rightarrow> bool) \<Rightarrow> 'r list \<Rightarrow> 'r list" where
  "select_where p t = filter p t"

definition select_one :: "('r \<Rightarrow> bool) \<Rightarrow> 'r list \<Rightarrow> 'r option" where
  "select_one p t = find p t"

definition count_where :: "('r \<Rightarrow> bool) \<Rightarrow> 'r list \<Rightarrow> nat" where
  "count_where p t = length (filter p t)"

definition update_where :: "('r \<Rightarrow> bool) \<Rightarrow> ('r \<Rightarrow> 'r) \<Rightarrow> 'r list \<Rightarrow> 'r list" where
  "update_where p f t = map (\<lambda>r. if p r then f r else r) t"

definition delete_where :: "('r \<Rightarrow> bool) \<Rightarrow> 'r list \<Rightarrow> 'r list" where
  "delete_where p t = filter (\<lambda>r. \<not> p r) t"

text \<open>
  \<open>ORDER BY k\<close> and \<open>ORDER BY k DESC\<close>. Rows with equal keys come out in table order,
  one of the orders Postgres may choose; \<open>OFFSET\<close> and \<open>LIMIT\<close> are \<open>drop\<close> and \<open>take\<close>.
\<close>

definition order_by :: "('r \<Rightarrow> 'k::linorder) \<Rightarrow> 'r list \<Rightarrow> 'r list" where
  "order_by k t = sort_key k t"

definition order_by_desc :: "('r \<Rightarrow> 'k::linorder) \<Rightarrow> 'r list \<Rightarrow> 'r list" where
  "order_by_desc k t = rev (sort_key k t)"

text \<open>The table holds each key at most once (a primary key or a unique index).\<close>

definition unique_key :: "('r \<Rightarrow> 'k) \<Rightarrow> 'r list \<Rightarrow> bool" where
  "unique_key k t = distinct (map k t)"

lemma length_update_where [simp, table_simps]: "length (update_where p f t) = length t"
  by (simp add: update_where_def)

lemma update_where_Nil [simp]: "update_where p f [] = []"
  by (simp add: update_where_def)

lemma update_where_Cons:
  "update_where p f (r # t) = (if p r then f r else r) # update_where p f t"
  by (simp add: update_where_def)

lemma set_update_where:
  "set (update_where p f t) = (\<lambda>r. if p r then f r else r) ` set t"
  by (simp add: update_where_def)

lemma in_update_whereE:
  assumes "r \<in> set (update_where p f t)"
  obtains (same) "r \<in> set t" "\<not> p r" | (changed) r0 where "r0 \<in> set t" "p r0" "r = f r0"
  using assms by (auto simp: set_update_where split: if_splits)

lemma map_key_update_where [table_simps]:
  "(\<And>r. r \<in> set t \<Longrightarrow> p r \<Longrightarrow> k (f r) = k r) \<Longrightarrow> map k (update_where p f t) = map k t"
  by (auto simp: update_where_def)

lemma unique_key_update_where [table_simps]:
  "(\<And>r. r \<in> set t \<Longrightarrow> p r \<Longrightarrow> k (f r) = k r) \<Longrightarrow>
   unique_key k (update_where p f t) = unique_key k t"
  by (simp add: unique_key_def map_key_update_where)

lemma update_where_none: "(\<And>r. r \<in> set t \<Longrightarrow> \<not> p r) \<Longrightarrow> update_where p f t = t"
  by (induction t) (auto simp: update_where_Cons)

lemma update_where_cong:
  "(\<And>r. r \<in> set t \<Longrightarrow> p r = q r) \<Longrightarrow> update_where p f t = update_where q f t"
  by (induction t) (auto simp: update_where_Cons)

lemma filter_update_where_other:
  assumes "\<And>r. r \<in> set t \<Longrightarrow> p r \<Longrightarrow> \<not> q r" "\<And>r. r \<in> set t \<Longrightarrow> p r \<Longrightarrow> \<not> q (f r)"
  shows "filter q (update_where p f t) = filter q t"
  using assms by (induction t) (auto simp: update_where_Cons)

lemma select_one_Some:
  "select_one p t = Some r \<Longrightarrow> r \<in> set t \<and> p r"
  by (auto simp: select_one_def find_Some_iff)

lemma select_one_None: "select_one p t = None \<longleftrightarrow> (\<forall>r \<in> set t. \<not> p r)"
  by (auto simp: select_one_def find_None_iff)

lemma select_one_unique:
  assumes "unique_key k t" "r \<in> set t" "k r = x"
  shows "select_one (\<lambda>r. k r = x) t = Some r"
  using assms
proof (induction t)
  case Nil
  then show ?case by simp
next
  case (Cons a t)
  then show ?case by (auto simp: select_one_def unique_key_def)
qed

lemma unique_keyD: "unique_key k t \<Longrightarrow> a \<in> set t \<Longrightarrow> b \<in> set t \<Longrightarrow> k a = k b \<Longrightarrow> a = b"
  by (auto simp: unique_key_def distinct_map inj_on_def)

lemma unique_key_filter: "unique_key k t \<Longrightarrow> unique_key k (filter p t)"
  by (simp add: unique_key_def distinct_map_filter)

lemma unique_key_append_one:
  "unique_key k (t @ [r]) \<longleftrightarrow> unique_key k t \<and> k r \<notin> k ` set t"
  by (auto simp: unique_key_def)

lemma unique_key_delete_where: "unique_key k t \<Longrightarrow> unique_key k (delete_where p t)"
  by (simp add: delete_where_def unique_key_filter)

lemma set_order_by [simp]: "set (order_by k t) = set t"
  by (simp add: order_by_def)

lemma length_order_by [simp]: "length (order_by k t) = length t"
  by (simp add: order_by_def)

lemma length_filter_impl:
  "(\<And>x. x \<in> set xs \<Longrightarrow> p x \<Longrightarrow> q x) \<Longrightarrow> length (filter p xs) \<le> length (filter q xs)"
  by (induction xs) (auto simp: le_Suc_eq)

lemma length_zip_eq: "length xs = length ys \<Longrightarrow> length (zip xs ys) = length xs"
  by simp

subsection \<open>Python strings\<close>

definition upper_char :: "char \<Rightarrow> char" where
  "upper_char c = (if CHR ''a'' \<le> c \<and> c \<le> CHR ''z'' then char_of (of_char c - (32::nat)) else c)"

definition lower_char :: "char \<Rightarrow> char" where
  "lower_char c = (if CHR ''A'' \<le> c \<and> c \<le> CHR ''Z'' then char_of (of_char c + (32::nat)) else c)"

definition upper :: "string \<Rightarrow> string" where
  "upper s = map upper_char s"

definition lower :: "string \<Rightarrow> string" where
  "lower s = map lower_char s"

definition is_space :: "char \<Rightarrow> bool" where
  "is_space c = (c \<in> {CHR '' '', CHR 0x09, CHR 0x0A, CHR 0x0B, CHR 0x0C, CHR 0x0D})"

definition strip :: "string \<Rightarrow> string" where
  "strip s = rev (dropWhile is_space (rev (dropWhile is_space s)))"

text \<open>\<open>s[-4:]\<close> and \<open>s[:n]\<close>.\<close>

definition last4 :: "string \<Rightarrow> string" where
  "last4 s = drop (length s - 4) s"

lemma length_last4 [simp]: "length (last4 s) = min 4 (length s)"
  by (auto simp: last4_def)

definition ends_with :: "string \<Rightarrow> string \<Rightarrow> bool" where
  "ends_with suf s = (length suf \<le> length s \<and> drop (length s - length suf) s = suf)"

text \<open>The empty string is falsy: \<open>s or None\<close>.\<close>

definition or_none :: "string \<Rightarrow> string option" where
  "or_none s = (if s = [] then None else Some s)"

definition digit_char :: "nat \<Rightarrow> char" where
  "digit_char d = char_of (48 + d)"

fun show_nat :: "nat \<Rightarrow> string" where
  "show_nat n = (if n < 10 then [digit_char n] else show_nat (n div 10) @ [digit_char (n mod 10)])"

declare show_nat.simps [simp del]

definition show_int :: "int \<Rightarrow> string" where
  "show_int i = (if i < 0 then ''-'' @ show_nat (nat (- i)) else show_nat (nat i))"

text \<open>
  \<open>str(u)\<close> of a UUID: any injective text does, the decimal numeral is used. Two lemmas say
  that numerals are injective and made of digits.
\<close>

definition uuid_str :: "uuid \<Rightarrow> string" where
  "uuid_str u = show_nat u"

fun numeral_value :: "nat \<Rightarrow> string \<Rightarrow> nat" where
  "numeral_value acc [] = acc"
| "numeral_value acc (c # cs) = numeral_value (acc * 10 + (of_char c - 48)) cs"

lemma numeral_value_append:
  "numeral_value acc (xs @ ys) = numeral_value (numeral_value acc xs) ys"
  by (induction xs arbitrary: acc) auto

lemma of_digit_char: "d < 10 \<Longrightarrow> of_char (digit_char d) = 48 + d"
  by (simp add: digit_char_def)

lemma numeral_value_show: "numeral_value 0 (show_nat n) = n"
proof (induction n rule: show_nat.induct)
  case (1 n)
  then show ?case
    by (subst show_nat.simps) (auto simp: numeral_value_append of_digit_char)
qed

lemma show_nat_inj [simp]: "show_nat a = show_nat b \<longleftrightarrow> a = b"
  by (metis numeral_value_show)

definition is_digit :: "char \<Rightarrow> bool" where
  "is_digit c = (48 \<le> (of_char c :: nat) \<and> (of_char c :: nat) \<le> 57)"

lemma is_digit_digit_char: "d < 10 \<Longrightarrow> is_digit (digit_char d)"
  by (simp add: is_digit_def of_digit_char)

lemma show_nat_digits: "list_all is_digit (show_nat n)"
proof (induction n rule: show_nat.induct)
  case (1 n)
  then show ?case
    by (subst show_nat.simps) (auto simp: is_digit_digit_char)
qed

text \<open>\<open>', '.join(xs)\<close> and the dash of the messages (UTF-8 bytes of U+2014).\<close>

fun join :: "string \<Rightarrow> string list \<Rightarrow> string" where
  "join sep [] = []"
| "join sep [x] = x"
| "join sep (x # xs) = x @ sep @ join sep xs"

definition em_dash :: string where
  "em_dash = [CHR 0xE2, CHR 0x80, CHR 0x94]"

end
