(* ===== verification/Sky_Enums.thy ===== *)
theory Sky_Enums
  imports Sky_Prelude
begin

text \<open>
  The enumerations of \<^verbatim>\<open>app/domain/enums.py\<close>. Each \<open>StrEnum\<close> is a datatype; the
  members of different enumerations that share a name carry a prefix for their class.
  \<open>ALLOWED_TRANSITIONS\<close> is the booking state machine.
\<close>

datatype seat_status = AVAILABLE | HELD | BOOKED

datatype booking_state =
    BS_PENDING
  | BS_PAYMENT_AUTHORIZED
  | BS_TICKETED
  | BS_CONFIRMED
  | BS_PAYMENT_FAILED
  | BS_COMPENSATING
  | BS_VOIDED
  | BS_CANCELLED
  | BS_NEEDS_MANUAL_REVIEW

definition TERMINAL_BOOKING_STATES :: "booking_state set" where
  "TERMINAL_BOOKING_STATES =
     {BS_CONFIRMED, BS_PAYMENT_FAILED, BS_VOIDED, BS_CANCELLED, BS_NEEDS_MANUAL_REVIEW}"

fun ALLOWED_TRANSITIONS :: "booking_state \<Rightarrow> booking_state set" where
  "ALLOWED_TRANSITIONS BS_PENDING = {BS_PAYMENT_AUTHORIZED, BS_PAYMENT_FAILED, BS_COMPENSATING}"
| "ALLOWED_TRANSITIONS BS_PAYMENT_AUTHORIZED = {BS_TICKETED, BS_COMPENSATING}"
| "ALLOWED_TRANSITIONS BS_TICKETED = {BS_CONFIRMED, BS_COMPENSATING}"
| "ALLOWED_TRANSITIONS BS_CONFIRMED = {BS_CANCELLED}"
| "ALLOWED_TRANSITIONS BS_COMPENSATING = {BS_VOIDED, BS_NEEDS_MANUAL_REVIEW}"
| "ALLOWED_TRANSITIONS BS_PAYMENT_FAILED = {}"
| "ALLOWED_TRANSITIONS BS_VOIDED = {}"
| "ALLOWED_TRANSITIONS BS_CANCELLED = {}"
| "ALLOWED_TRANSITIONS BS_NEEDS_MANUAL_REVIEW = {BS_VOIDED, BS_CANCELLED}"

datatype payment_state =
    PS_PENDING | PS_AUTHORIZED | PS_CAPTURED | PS_DECLINED | PS_VOIDED | PS_REFUNDED | PS_UNKNOWN

datatype audit_event =
    AE_BOOKING_CREATED
  | AE_SEATS_LOCKED
  | AE_PAYMENT_AUTHORIZED
  | AE_PAYMENT_DECLINED
  | AE_PAYMENT_UNKNOWN
  | AE_TICKETS_ISSUED
  | AE_TICKETING_FAILED
  | AE_BOOKING_CONFIRMED
  | AE_COMPENSATION_STARTED
  | AE_PAYMENT_VOIDED
  | AE_PAYMENT_REFUNDED
  | AE_COMPENSATION_FAILED
  | AE_SEATS_RELEASED
  | AE_HOLD_LOST
  | AE_BOOKING_CANCELLED
  | AE_PASSENGER_UPDATED

datatype security_event_type =
    SE_LOGIN_SUCCEEDED
  | SE_LOGIN_FAILED
  | SE_ACCOUNT_LOCKED
  | SE_REGISTERED
  | SE_REFRESH_ROTATED
  | SE_REFRESH_REUSE_DETECTED
  | SE_REFRESH_REJECTED
  | SE_AUTHZ_DENIED
  | SE_RATE_LIMITED
  | SE_CARDING_SUSPECTED
  | SE_CARDING_BLOCKED
  | SE_PAYMENT_DECLINED
  | SE_IDEMPOTENCY_KEY_REUSED
  | SE_VALIDATION_REJECTED
  | SE_MANUAL_REVIEW_REQUIRED

datatype severity = SV_INFO | SV_LOW | SV_MEDIUM | SV_HIGH | SV_CRITICAL

datatype idempotency_state = IN_PROGRESS | COMPLETED

datatype decision = ALLOW | CHALLENGE | BLOCK

text \<open>The members' string values, where the code prints or compares them.\<close>

fun booking_state_value :: "booking_state \<Rightarrow> string" where
  "booking_state_value BS_PENDING = ''PENDING''"
| "booking_state_value BS_PAYMENT_AUTHORIZED = ''PAYMENT_AUTHORIZED''"
| "booking_state_value BS_TICKETED = ''TICKETED''"
| "booking_state_value BS_CONFIRMED = ''CONFIRMED''"
| "booking_state_value BS_PAYMENT_FAILED = ''PAYMENT_FAILED''"
| "booking_state_value BS_COMPENSATING = ''COMPENSATING''"
| "booking_state_value BS_VOIDED = ''VOIDED''"
| "booking_state_value BS_CANCELLED = ''CANCELLED''"
| "booking_state_value BS_NEEDS_MANUAL_REVIEW = ''NEEDS_MANUAL_REVIEW''"

fun seat_status_value :: "seat_status \<Rightarrow> string" where
  "seat_status_value AVAILABLE = ''available''"
| "seat_status_value HELD = ''held''"
| "seat_status_value BOOKED = ''booked''"

fun payment_state_value :: "payment_state \<Rightarrow> string" where
  "payment_state_value PS_PENDING = ''PENDING''"
| "payment_state_value PS_AUTHORIZED = ''AUTHORIZED''"
| "payment_state_value PS_CAPTURED = ''CAPTURED''"
| "payment_state_value PS_DECLINED = ''DECLINED''"
| "payment_state_value PS_VOIDED = ''VOIDED''"
| "payment_state_value PS_REFUNDED = ''REFUNDED''"
| "payment_state_value PS_UNKNOWN = ''UNKNOWN''"

fun audit_event_value :: "audit_event \<Rightarrow> string" where
  "audit_event_value AE_BOOKING_CREATED = ''BOOKING_CREATED''"
| "audit_event_value AE_SEATS_LOCKED = ''SEATS_LOCKED''"
| "audit_event_value AE_PAYMENT_AUTHORIZED = ''PAYMENT_AUTHORIZED''"
| "audit_event_value AE_PAYMENT_DECLINED = ''PAYMENT_DECLINED''"
| "audit_event_value AE_PAYMENT_UNKNOWN = ''PAYMENT_UNKNOWN''"
| "audit_event_value AE_TICKETS_ISSUED = ''TICKETS_ISSUED''"
| "audit_event_value AE_TICKETING_FAILED = ''TICKETING_FAILED''"
| "audit_event_value AE_BOOKING_CONFIRMED = ''BOOKING_CONFIRMED''"
| "audit_event_value AE_COMPENSATION_STARTED = ''COMPENSATION_STARTED''"
| "audit_event_value AE_PAYMENT_VOIDED = ''PAYMENT_VOIDED''"
| "audit_event_value AE_PAYMENT_REFUNDED = ''PAYMENT_REFUNDED''"
| "audit_event_value AE_COMPENSATION_FAILED = ''COMPENSATION_FAILED''"
| "audit_event_value AE_SEATS_RELEASED = ''SEATS_RELEASED''"
| "audit_event_value AE_HOLD_LOST = ''HOLD_LOST''"
| "audit_event_value AE_BOOKING_CANCELLED = ''BOOKING_CANCELLED''"
| "audit_event_value AE_PASSENGER_UPDATED = ''PASSENGER_UPDATED''"

fun idempotency_state_value :: "idempotency_state \<Rightarrow> string" where
  "idempotency_state_value IN_PROGRESS = ''IN_PROGRESS''"
| "idempotency_state_value COMPLETED = ''COMPLETED''"

fun decision_value :: "decision \<Rightarrow> string" where
  "decision_value ALLOW = ''allow''"
| "decision_value CHALLENGE = ''challenge''"
| "decision_value BLOCK = ''block''"

fun severity_value :: "severity \<Rightarrow> string" where
  "severity_value SV_INFO = ''info''"
| "severity_value SV_LOW = ''low''"
| "severity_value SV_MEDIUM = ''medium''"
| "severity_value SV_HIGH = ''high''"
| "severity_value SV_CRITICAL = ''critical''"

text \<open>Decisions and severities are ordered by how strongly the code reacts.\<close>

instantiation decision :: linorder
begin

fun decision_rank :: "decision \<Rightarrow> nat" where
  "decision_rank ALLOW = 0"
| "decision_rank CHALLENGE = 1"
| "decision_rank BLOCK = 2"

definition less_eq_decision :: "decision \<Rightarrow> decision \<Rightarrow> bool" where
  "less_eq_decision a b = (decision_rank a \<le> decision_rank b)"

definition less_decision :: "decision \<Rightarrow> decision \<Rightarrow> bool" where
  "less_decision a b = (decision_rank a < decision_rank b)"

instance
proof
  fix a b c :: decision
  show "a < b \<longleftrightarrow> a \<le> b \<and> \<not> b \<le> a"
    by (simp add: less_decision_def less_eq_decision_def less_le_not_le)
  show "a \<le> a"
    by (simp add: less_eq_decision_def)
  show "a \<le> b \<Longrightarrow> b \<le> c \<Longrightarrow> a \<le> c"
    by (simp add: less_eq_decision_def)
  show "a \<le> b \<Longrightarrow> b \<le> a \<Longrightarrow> a = b"
    by (cases a; cases b) (simp_all add: less_eq_decision_def)
  show "a \<le> b \<or> b \<le> a"
    by (simp add: less_eq_decision_def linear)
qed

end

instantiation severity :: linorder
begin

fun severity_rank :: "severity \<Rightarrow> nat" where
  "severity_rank SV_INFO = 0"
| "severity_rank SV_LOW = 1"
| "severity_rank SV_MEDIUM = 2"
| "severity_rank SV_HIGH = 3"
| "severity_rank SV_CRITICAL = 4"

definition less_eq_severity :: "severity \<Rightarrow> severity \<Rightarrow> bool" where
  "less_eq_severity a b = (severity_rank a \<le> severity_rank b)"

definition less_severity :: "severity \<Rightarrow> severity \<Rightarrow> bool" where
  "less_severity a b = (severity_rank a < severity_rank b)"

instance
proof
  fix a b c :: severity
  show "a < b \<longleftrightarrow> a \<le> b \<and> \<not> b \<le> a"
    by (simp add: less_severity_def less_eq_severity_def less_le_not_le)
  show "a \<le> a"
    by (simp add: less_eq_severity_def)
  show "a \<le> b \<Longrightarrow> b \<le> c \<Longrightarrow> a \<le> c"
    by (simp add: less_eq_severity_def)
  show "a \<le> b \<Longrightarrow> b \<le> a \<Longrightarrow> a = b"
    by (cases a; cases b) (simp_all add: less_eq_severity_def)
  show "a \<le> b \<or> b \<le> a"
    by (simp add: less_eq_severity_def linear)
qed

end

end
