(* ===== verification/Sky_Errors.thy ===== *)
theory Sky_Errors
  imports Sky_Enums
begin

text \<open>
  The error classes of \<^verbatim>\<open>app/errors.py\<close> with their status, code and title, the
  problem+json body, the exception handlers, and the state-machine guards of
  \<^verbatim>\<open>app/domain/states.py\<close>. A Python exception is a value of \<open>exn\<close>; an operation that
  can raise returns \<open>exn + 'a\<close>.
\<close>

datatype app_class =
    InvalidCredentials | AccountLocked | InvalidToken | TokenReuseDetected
  | EmailAlreadyRegistered | Forbidden | NotFound | SeatUnavailable | HoldExpired
  | HoldNotOwned | TooManyHolds | PaymentDeclined | BookingCompensated | RequestInFlight
  | IdempotencyKeyReused | InvalidStateTransition | RateLimited | PaymentBlocked

fun status_code :: "app_class \<Rightarrow> int" where
  "status_code InvalidCredentials = 401"
| "status_code AccountLocked = 423"
| "status_code InvalidToken = 401"
| "status_code TokenReuseDetected = 401"
| "status_code EmailAlreadyRegistered = 409"
| "status_code Forbidden = 403"
| "status_code NotFound = 404"
| "status_code SeatUnavailable = 409"
| "status_code HoldExpired = 409"
| "status_code HoldNotOwned = 404"
| "status_code TooManyHolds = 409"
| "status_code PaymentDeclined = 402"
| "status_code BookingCompensated = 409"
| "status_code RequestInFlight = 409"
| "status_code IdempotencyKeyReused = 422"
| "status_code InvalidStateTransition = 409"
| "status_code RateLimited = 429"
| "status_code PaymentBlocked = 403"

fun error_code :: "app_class \<Rightarrow> string" where
  "error_code InvalidCredentials = ''invalid_credentials''"
| "error_code AccountLocked = ''account_locked''"
| "error_code InvalidToken = ''invalid_token''"
| "error_code TokenReuseDetected = ''token_reuse_detected''"
| "error_code EmailAlreadyRegistered = ''email_already_registered''"
| "error_code Forbidden = ''forbidden''"
| "error_code NotFound = ''not_found''"
| "error_code SeatUnavailable = ''seat_unavailable''"
| "error_code HoldExpired = ''hold_expired''"
| "error_code HoldNotOwned = ''not_found''"
| "error_code TooManyHolds = ''too_many_holds''"
| "error_code PaymentDeclined = ''payment_declined''"
| "error_code BookingCompensated = ''booking_compensated''"
| "error_code RequestInFlight = ''request_in_flight''"
| "error_code IdempotencyKeyReused = ''idempotency_key_reused''"
| "error_code InvalidStateTransition = ''invalid_state_transition''"
| "error_code RateLimited = ''rate_limited''"
| "error_code PaymentBlocked = ''payment_blocked''"

fun error_title :: "app_class \<Rightarrow> string" where
  "error_title InvalidCredentials = ''Invalid email or password''"
| "error_title AccountLocked = ''Account temporarily locked''"
| "error_title InvalidToken = ''Invalid or expired token''"
| "error_title TokenReuseDetected = ''Refresh token replay detected; session family revoked''"
| "error_title EmailAlreadyRegistered = ''Email already registered''"
| "error_title Forbidden = ''Forbidden''"
| "error_title NotFound = ''Resource not found''"
| "error_title SeatUnavailable = ''Seat is not available''"
| "error_title HoldExpired = ''Seat hold has expired''"
| "error_title HoldNotOwned = ''Resource not found''"
| "error_title TooManyHolds = ''Too many active seat holds''"
| "error_title PaymentDeclined = ''Payment was declined''"
| "error_title BookingCompensated = ''Booking could not be completed and was reversed''"
| "error_title RequestInFlight = ''An identical request is still being processed''"
| "error_title IdempotencyKeyReused = ''Idempotency key was reused with a different request body''"
| "error_title InvalidStateTransition = ''Operation not allowed in the booking's current state''"
| "error_title RateLimited = ''Too many requests''"
| "error_title PaymentBlocked = ''Payment blocked by fraud controls''"

record app_exception =
  ae_class :: app_class
  ae_detail :: string
  ae_extra :: "(string \<times> json) list"
  ae_retry_after :: int

text \<open>
  \<open>AppError.__init__\<close>: the detail falls back to the title, keyword arguments are kept.
  Only \<open>RateLimited\<close> sets \<open>retry_after\<close>, and passes it on as an extra as well.
\<close>

definition app_error :: "app_class \<Rightarrow> string option \<Rightarrow> (string \<times> json) list \<Rightarrow> app_exception" where
  "app_error c detail extra =
     \<lparr>ae_class = c,
      ae_detail = (case detail of None \<Rightarrow> error_title c
                   | Some d \<Rightarrow> if d = [] then error_title c else d),
      ae_extra = extra, ae_retry_after = 0\<rparr>"

definition rate_limited :: "string option \<Rightarrow> int \<Rightarrow> (string \<times> json) list \<Rightarrow> app_exception" where
  "rate_limited detail retry_after extra =
     (app_error RateLimited detail ((''retry_after'', JInt retry_after) # extra))
       \<lparr>ae_retry_after := retry_after\<rparr>"

definition to_problem :: "app_exception \<Rightarrow> string \<Rightarrow> (string \<times> json) list" where
  "to_problem e inst =
     dict_update
       [(''type'', JStr (''https://skylock.dev/problems/'' @ error_code (ae_class e))),
        (''title'', JStr (error_title (ae_class e))),
        (''status'', JInt (status_code (ae_class e))),
        (''detail'', JStr (ae_detail e)),
        (''code'', JStr (error_code (ae_class e))),
        (''instance'', JStr inst)]
       (ae_extra e)"

text \<open>Exceptions the code raises, and the ones of its libraries it lets through.\<close>

datatype exn =
    App app_exception
  | IllegalTransition booking_state booking_state
  | TicketingFailed string
  | PaymentTimeout string
  | RefundFailed string
  | RuntimeError string
  | ValueError string
  | IntegrityError string
  | DataError string
  | HttpError int string

definition raise_app :: "app_class \<Rightarrow> string \<Rightarrow> exn" where
  "raise_app c detail = App (app_error c (Some detail) [])"

text \<open>\<open>str(exc)\<close> for the exceptions whose text the code reuses.\<close>

fun exn_str :: "exn \<Rightarrow> string" where
  "exn_str (App e) = ae_detail e"
| "exn_str (TicketingFailed s) = s"
| "exn_str (PaymentTimeout s) = s"
| "exn_str (RefundFailed s) = s"
| "exn_str (RuntimeError s) = s"
| "exn_str (ValueError s) = s"
| "exn_str (IntegrityError s) = s"
| "exn_str (DataError s) = s"
| "exn_str (HttpError n s) = s"
| "exn_str (IllegalTransition a b) =
     booking_state_value a @ '' -> '' @ booking_state_value b @ '' is not a legal transition''"

fun is_app :: "app_class \<Rightarrow> exn \<Rightarrow> bool" where
  "is_app c (App e) = (ae_class e = c)"
| "is_app c _ = False"

text \<open>
  The handlers of \<open>register_exception_handlers\<close>: a response is its status, its headers
  and its body. The validation handler takes the pydantic errors as (location, message)
  pairs; the first component of the location names the part of the request and is dropped.
\<close>

record response =
  rsp_status :: int
  rsp_headers :: "(string \<times> string) list"
  rsp_body :: "(string \<times> json) list"

definition app_error_handler :: "app_exception \<Rightarrow> string \<Rightarrow> response" where
  "app_error_handler e path =
     \<lparr>rsp_status = status_code (ae_class e),
      rsp_headers = (if ae_class e = RateLimited
                     then [(''Retry-After'', show_int (ae_retry_after e))] else []),
      rsp_body = to_problem e path\<rparr>"

definition error_field :: "string list \<times> string \<Rightarrow> string" where
  "error_field e = join ''.'' (drop 1 (fst e))"

definition validation_handler :: "(string list \<times> string) list \<Rightarrow> string \<Rightarrow> response" where
  "validation_handler errs path =
     \<lparr>rsp_status = 422, rsp_headers = [],
      rsp_body =
        [(''type'', JStr ''https://skylock.dev/problems/validation_failed''),
         (''title'', JStr ''Request validation failed''),
         (''status'', JInt 422),
         (''code'', JStr ''validation_failed''),
         (''instance'', JStr path),
         (''errors'', JList (map (\<lambda>e. JObj [(''field'', JStr (error_field e)),
                                           (''message'', JStr (snd e))]) errs))]\<rparr>"

definition validation_event_detail :: "(string list \<times> string) list \<Rightarrow> json" where
  "validation_event_detail errs =
     JObj [(''fields'', JList (map JStr (take 20 (map error_field errs)))),
           (''error_count'', JInt (int (length errs)))]"

definition http_error_handler :: "int \<Rightarrow> string \<Rightarrow> (string \<times> string) list \<Rightarrow> string \<Rightarrow> response" where
  "http_error_handler code detail headers path =
     \<lparr>rsp_status = code, rsp_headers = headers,
      rsp_body =
        [(''type'', JStr ''about:blank''),
         (''title'', JStr detail),
         (''status'', JInt code),
         (''code'', JStr ''http_error''),
         (''instance'', JStr path)]\<rparr>"

subsection \<open>The state-machine guards\<close>

text \<open>
  \<open>assert_can_transition\<close> and \<open>require_state\<close>. The column \<open>bookings.state\<close> holds enum
  members only, so the conversion \<open>BookingState(current)\<close> cannot fail here.
\<close>

definition assert_can_transition :: "booking_state \<Rightarrow> booking_state \<Rightarrow> exn + unit" where
  "assert_can_transition current target =
     (if target \<notin> ALLOWED_TRANSITIONS current
      then Inl (IllegalTransition current target) else Inr ())"

definition require_state :: "booking_state \<Rightarrow> booking_state list \<Rightarrow> exn + unit" where
  "require_state current expected =
     (if current \<notin> set expected
      then Inl (raise_app InvalidStateTransition
             (''Booking is '' @ booking_state_value current @ ''; this operation requires '' @
              join '' or '' (map booking_state_value expected)))
      else Inr ())"

lemma assert_can_transition_Inr [simp]:
  "assert_can_transition a b = Inr u \<longleftrightarrow> b \<in> ALLOWED_TRANSITIONS a"
  by (auto simp: assert_can_transition_def)

lemma assert_can_transition_Inl [simp]:
  "assert_can_transition a b = Inl e \<longleftrightarrow> b \<notin> ALLOWED_TRANSITIONS a \<and> e = IllegalTransition a b"
  by (auto simp: assert_can_transition_def)

lemma require_state_Inr [simp]: "require_state s es = Inr u \<longleftrightarrow> s \<in> set es"
  by (auto simp: require_state_def)

lemma require_state_Inl:
  "require_state s es = Inl e \<Longrightarrow> s \<notin> set es \<and> is_app InvalidStateTransition e"
  by (auto simp: require_state_def raise_app_def app_error_def split: if_splits)

lemma ae_class_app_error [simp]: "ae_class (app_error c d x) = c"
  by (simp add: app_error_def)

lemma ae_extra_app_error [simp]: "ae_extra (app_error c d x) = x"
  by (simp add: app_error_def)

lemma is_app_raise_app [simp]: "is_app c (raise_app c' d) \<longleftrightarrow> c = c'"
  by (auto simp: raise_app_def)

subsection \<open>A state machine over its transition relation\<close>

text \<open>
  The contract of a transition table: a ranking that every legal step lowers. Whoever
  keeps to the table makes finitely many steps, whatever the order of events.
\<close>

locale ranked_machine =
  fixes allowed :: "'s \<Rightarrow> 's set"
    and rank :: "'s \<Rightarrow> nat"
  assumes step_lowers: "t \<in> allowed s \<Longrightarrow> rank t < rank s"
begin

fun legal_path :: "'s \<Rightarrow> 's list \<Rightarrow> bool" where
  "legal_path s [] = True"
| "legal_path s (t # ts) = (t \<in> allowed s \<and> legal_path t ts)"

lemma path_length: "legal_path s ts \<Longrightarrow> length ts + rank (last (s # ts)) \<le> rank s"
proof (induction ts arbitrary: s)
  case Nil
  then show ?case by simp
next
  case (Cons t ts)
  then have "length ts + rank (last (t # ts)) \<le> rank t" and "rank t < rank s"
    using step_lowers by auto
  then show ?case by simp
qed

lemma no_return: "legal_path s ts \<Longrightarrow> s \<notin> set ts"
proof -
  have "legal_path s ts \<Longrightarrow> t \<in> set ts \<Longrightarrow> rank t < rank s" for t
    by (induction ts arbitrary: s) (auto dest: step_lowers less_trans)
  then show "legal_path s ts \<Longrightarrow> s \<notin> set ts" by blast
qed

end

fun booking_rank :: "booking_state \<Rightarrow> nat" where
  "booking_rank BS_PENDING = 5"
| "booking_rank BS_PAYMENT_AUTHORIZED = 4"
| "booking_rank BS_TICKETED = 3"
| "booking_rank BS_CONFIRMED = 1"
| "booking_rank BS_COMPENSATING = 2"
| "booking_rank BS_NEEDS_MANUAL_REVIEW = 1"
| "booking_rank BS_PAYMENT_FAILED = 0"
| "booking_rank BS_VOIDED = 0"
| "booking_rank BS_CANCELLED = 0"

interpretation bsm: ranked_machine ALLOWED_TRANSITIONS booking_rank
proof
  fix s t
  show "t \<in> ALLOWED_TRANSITIONS s \<Longrightarrow> booking_rank t < booking_rank s"
    by (cases s) auto
qed

text \<open>A list of states read as the history of one booking: each step is a legal arrow.\<close>

fun legal_history :: "booking_state \<Rightarrow> booking_state list \<Rightarrow> bool" where
  "legal_history s [] = True"
| "legal_history s (t # ts) = (assert_can_transition s t = Inr () \<and> legal_history t ts)"

lemma legal_history_path: "legal_history s ts \<longleftrightarrow> bsm.legal_path s ts"
  by (induction ts arbitrary: s) auto

text \<open>
  C35: a booking that moves only along \<open>assert_can_transition\<close> makes at most five moves
  from PENDING and never comes back to a state it has left.
\<close>

theorem booking_history_bounded:
  assumes "legal_history s ts"
  shows "length ts \<le> booking_rank s \<and> s \<notin> set ts \<and> length ts \<le> 5"
proof -
  have p: "bsm.legal_path s ts"
    using assms by (simp add: legal_history_path)
  have "length ts \<le> booking_rank s"
    using bsm.path_length [OF p] by simp
  moreover have "booking_rank s \<le> 5"
    by (cases s) auto
  ultimately show ?thesis
    using bsm.no_return [OF p] by auto
qed

theorem booking_history_bounded_witness:
  "legal_history BS_PENDING
     [BS_PAYMENT_AUTHORIZED, BS_TICKETED, BS_COMPENSATING, BS_NEEDS_MANUAL_REVIEW, BS_VOIDED] \<and>
   BS_PENDING \<notin> {BS_PAYMENT_AUTHORIZED, BS_TICKETED, BS_COMPENSATING, BS_NEEDS_MANUAL_REVIEW, BS_VOIDED}"
proof -
  have h: "legal_history BS_PENDING
     [BS_PAYMENT_AUTHORIZED, BS_TICKETED, BS_COMPENSATING, BS_NEEDS_MANUAL_REVIEW, BS_VOIDED]"
    by simp
  show ?thesis
    using h booking_history_bounded [OF h] by simp
qed

end
