(* ===== verification/Sky_Money.thy ===== *)
theory Sky_Money
  imports Sky_Prelude
begin

text \<open>
  \<^verbatim>\<open>app/domain/money.py\<close> and \<^verbatim>\<open>app/domain/pnr.py\<close>. A \<open>Decimal\<close> is the rational it
  denotes (the amounts of this service stay far below the 28 digits of the default
  context, where \<open>quantize\<close> would raise). The random draws of \<open>secrets.choice\<close> are
  arguments: the positions chosen in the alphabet.
\<close>

definition of_cents :: "cents \<Rightarrow> rat" where
  "of_cents c = of_int c / 100"

text \<open>\<open>quantize(CENTS, rounding=ROUND_HALF_UP)\<close>: to the nearest cent, halves away from zero.\<close>

definition money :: "rat \<Rightarrow> cents" where
  "money x = (if x < 0 then - \<lfloor>- x * 100 + 1 / 2\<rfloor> else \<lfloor>x * 100 + 1 / 2\<rfloor>)"

definition total :: "rat list \<Rightarrow> cents" where
  "total amounts = money (sum_list amounts)"

definition show_cents :: "cents \<Rightarrow> string" where
  "show_cents c =
     (let a = nat \<bar>c\<bar>; frac = a mod 100 in
      (if c < 0 then ''-'' else []) @ show_nat (a div 100) @ ''.'' @
      [digit_char (frac div 10), digit_char (frac mod 10)])"

definition format_money :: "rat \<Rightarrow> string \<Rightarrow> string" where
  "format_money x currency = show_cents (money x) @ '' '' @ currency"

lemma money_of_cents [simp]: "money (of_cents c) = c"
  by (cases "c < 0") (simp_all add: money_def of_cents_def floor_eq_iff)

lemma money_uminus: "money (- x) = - money x"
proof -
  have "\<lfloor>(1 :: rat) / 2\<rfloor> = 0"
    by (simp add: floor_eq_iff)
  then show ?thesis by (cases "x = 0") (auto simp: money_def)
qed

lemma money_nonneg: "0 \<le> x \<Longrightarrow> 0 \<le> money x"
  by (simp add: money_def)

text \<open>The sum of a list of amounts that already are whole cents is not rounded.\<close>

lemma total_of_cents: "total (map of_cents cs) = sum_list cs"
proof -
  have "sum_list (map of_cents cs) = of_cents (sum_list cs)"
    by (induction cs) (simp_all add: of_cents_def add_divide_distrib)
  then show ?thesis by (simp add: total_def)
qed

lemma money_error_nonneg:
  assumes "0 \<le> x"
  shows "\<bar>of_cents (money x) - x\<bar> \<le> 1 / 200"
proof -
  let ?n = "\<lfloor>x * 100 + 1 / 2\<rfloor>"
  have "of_int ?n \<le> x * 100 + 1 / 2" and "x * 100 + 1 / 2 < of_int ?n + 1"
    using of_int_floor_le [of "x * 100 + 1 / 2"] floor_correct [of "x * 100 + 1 / 2"] by auto
  then have "of_int ?n / 100 - x \<le> 1 / 200" and "x - of_int ?n / 100 \<le> 1 / 200"
    by (simp_all add: field_simps)
  then have "\<bar>of_int ?n / 100 - x\<bar> \<le> 1 / 200"
    by linarith
  moreover have "of_cents (money x) = of_int ?n / 100"
    using assms by (simp add: money_def of_cents_def)
  ultimately show ?thesis by (simp only:)
qed

lemma money_error: "\<bar>of_cents (money x) - x\<bar> \<le> 1 / 200"
proof (cases "0 \<le> x")
  case True
  then show ?thesis by (rule money_error_nonneg)
next
  case False
  then have "\<bar>of_cents (money (- x)) - (- x)\<bar> \<le> 1 / 200"
    by (intro money_error_nonneg) simp
  then show ?thesis
    by (simp add: money_uminus of_cents_def abs_minus_commute)
qed

lemma money_mono: "x \<le> y \<Longrightarrow> money x \<le> money y"
proof -
  assume le: "x \<le> y"
  consider "0 \<le> x" | "x < 0" "0 \<le> y" | "y < 0"
    by linarith
  then show "money x \<le> money y"
  proof cases
    case 1
    with le show ?thesis
      by (auto simp: money_def intro!: floor_mono)
  next
    case 2
    then have "0 \<le> money (- x)" and "0 \<le> money y"
      by (auto intro: money_nonneg)
    then show ?thesis by (simp add: money_uminus)
  next
    case 3
    with le show ?thesis
      by (auto simp: money_def intro!: floor_mono)
  qed
qed

text \<open>
  \<open>money\<close> keeps an amount that has two decimals, is never more than half a cent
  away from the amount it rounds, is monotone, and rounds halves away from zero; totalling
  seat prices loses nothing.
\<close>

theorem money_correct:
  "money (of_cents c) = c \<and> \<bar>of_cents (money x) - x\<bar> \<le> 1 / 200 \<and>
   money (- x) = - money x \<and> money (of_cents c + 1 / 200) = (if 0 \<le> c then c + 1 else c) \<and>
   total (map of_cents cs) = sum_list cs"
proof -
  have "money (of_cents c + 1 / 200) = (if 0 \<le> c then c + 1 else c)"
  proof (cases "0 \<le> c")
    case True
    then show ?thesis
      by (simp add: money_def of_cents_def floor_eq_iff field_simps)
  next
    case False
    then have "of_int c \<le> (-1 :: rat)" by (simp add: of_int_le_iff [of c "-1", simplified])
    then have "of_cents c + 1 / 200 < 0" by (simp add: of_cents_def)
    then show ?thesis
      using False by (simp add: money_def of_cents_def floor_eq_iff field_simps)
  qed
  then show ?thesis
    using money_error money_uminus total_of_cents by simp
qed

subsection \<open>Record locators and ticket numbers\<close>

definition PNR_ALPHABET :: string where
  "PNR_ALPHABET = ''23456789ACDEFGHJKLMNPQRSTUVWXYZ''"

definition PNR_LENGTH :: nat where
  "PNR_LENGTH = 6"

definition E_TICKET_PREFIX :: string where
  "E_TICKET_PREFIX = ''014''"

text \<open>\<open>secrets.choice(xs)\<close> with the drawn number: any position of the sequence.\<close>

definition choice :: "'a list \<Rightarrow> nat \<Rightarrow> 'a" where
  "choice xs k = xs ! (k mod length xs)"

definition generate_pnr :: "(nat \<Rightarrow> nat) \<Rightarrow> string" where
  "generate_pnr draw = map (\<lambda>i. choice PNR_ALPHABET (draw i)) [0..<PNR_LENGTH]"

definition generate_eticket_number :: "(nat \<Rightarrow> nat) \<Rightarrow> string" where
  "generate_eticket_number draw =
     E_TICKET_PREFIX @ map (\<lambda>i. choice ''0123456789'' (draw i)) [0..<10]"

text \<open>The path parameter \<open>BookingRef\<close>: what the router accepts as a record locator.\<close>

definition valid_ref :: "string \<Rightarrow> bool" where
  "valid_ref s = (length s = 6 \<and> list_all (\<lambda>c. c \<in> set PNR_ALPHABET) s)"

lemma choice_in_set: "xs \<noteq> [] \<Longrightarrow> choice xs k \<in> set xs"
  by (simp add: choice_def)

lemma upper_PNR: "list_all (\<lambda>c. upper_char c = c) PNR_ALPHABET"
  by code_simp

lemma upper_valid_ref: "valid_ref s \<Longrightarrow> upper s = s"
  using upper_PNR by (auto simp: valid_ref_def upper_def list_all_iff intro: map_idI)

text \<open>
  Every generated record locator is one the booking routes accept, and upper-casing
  (which \<open>owned_booking\<close> applies before the lookup) leaves it as it is.
\<close>

theorem generated_pnr_accepted:
  "valid_ref (generate_pnr draw) \<and> upper (generate_pnr draw) = generate_pnr draw"
proof -
  have "PNR_ALPHABET \<noteq> []"
    by (simp add: PNR_ALPHABET_def)
  then have "valid_ref (generate_pnr draw)"
    by (auto simp: valid_ref_def generate_pnr_def PNR_LENGTH_def list_all_iff intro: choice_in_set)
  then show ?thesis
    using upper_valid_ref by blast
qed

lemma length_eticket: "length (generate_eticket_number draw) = 13"
  by (simp add: generate_eticket_number_def E_TICKET_PREFIX_def)

end
