(* ===== verification/Sky_Models.thy ===== *)
theory Sky_Models
  imports Sky_Errors Sky_Money
begin

text \<open>
  The tables of \<^verbatim>\<open>app/domain/models.py\<close>: one record per mapped class, one list of rows
  per table, and the constraints Postgres enforces (primary keys, unique and partial
  unique indexes, CHECK constraints, column widths). \<open>db_ok\<close> is the conjunction of the
  constraints; an insert or flush that could break one returns the error Postgres raises.
  Bytes columns that the services only write are left out where no operation reads them.
\<close>

record user =
  u_id :: uuid
  u_email :: string
  u_password_hash :: string
  u_full_name :: "string option"
  u_is_admin :: bool
  u_is_active :: bool
  u_failed_login_count :: int
  u_locked_until :: "time option"
  u_created_at :: time

record refresh_token =
  rt_id :: uuid
  rt_family_id :: uuid
  rt_user_id :: uuid
  rt_token_hash :: string
  rt_parent_id :: "uuid option"
  rt_issued_at :: time
  rt_used_at :: "time option"
  rt_revoked_at :: "time option"
  rt_revoked_reason :: "string option"
  rt_expires_at :: time
  rt_user_agent :: "string option"
  rt_ip :: "string option"

record airport =
  ap_iata :: string
  ap_icao :: "string option"
  ap_name :: string
  ap_city :: "string option"
  ap_country :: "string option"
  ap_coords :: "(rat \<times> rat) option"

record airline =
  al_iata :: string
  al_icao :: "string option"
  al_name :: string
  al_country :: "string option"
  al_active :: bool

record route =
  ro_airline_iata :: string
  ro_src_iata :: string
  ro_dst_iata :: string
  ro_equipment :: "string option"

record flight =
  fl_id :: uuid
  fl_flight_no :: string
  fl_airline_iata :: string
  fl_src_iata :: string
  fl_dst_iata :: string
  fl_depart_at :: time
  fl_arrive_at :: time
  fl_aircraft_type :: string
  fl_base_fare :: cents
  fl_currency :: string

record fare_class =
  fc_id :: uuid
  fc_flight_id :: uuid
  fc_code :: string
  fc_cabin :: string
  fc_multiplier :: rat
  fc_seats_total :: nat

record seat =
  s_id :: uuid
  s_flight_id :: uuid
  s_seat_no :: string
  s_row_no :: nat
  s_letter :: string
  s_cabin :: string
  s_fare_class_id :: uuid
  s_is_exit_row :: bool
  s_price :: cents
  s_status :: seat_status
  s_held_by :: "uuid option"
  s_hold_id :: "uuid option"
  s_hold_expires_at :: "time option"
  s_booking_id :: "uuid option"
  s_version :: nat

record booking =
  b_id :: uuid
  b_ref :: string
  b_user_id :: uuid
  b_flight_id :: uuid
  b_state :: booking_state
  b_total_amount :: cents
  b_currency :: string
  b_idempotency_key :: "string option"
  b_created_at :: time

record passenger =
  p_id :: uuid
  p_booking_id :: uuid
  p_given_name :: string
  p_family_name :: string
  p_dob_enc :: "string option"
  p_passport_enc :: "string option"
  p_passport_last4 :: "string option"
  p_seat_inventory_id :: "uuid option"

record payment =
  pay_id :: uuid
  pay_booking_id :: uuid
  pay_provider :: string
  pay_provider_ref :: "string option"
  pay_card_token :: string
  pay_card_fingerprint :: string
  pay_card_last4 :: "string option"
  pay_amount :: cents
  pay_currency :: string
  pay_state :: payment_state
  pay_failure_code :: "string option"
  pay_idempotency_key :: string
  pay_created_at :: time

record ticket =
  t_id :: uuid
  t_booking_id :: uuid
  t_passenger_id :: uuid
  t_seat_id :: uuid
  t_e_ticket_no :: string
  t_issued_at :: time
  t_voided_at :: "time option"

record idempotency_key =
  ik_key :: string
  ik_user_id :: uuid
  ik_endpoint :: string
  ik_request_hash :: string
  ik_state :: idempotency_state
  ik_response_status :: "int option"
  ik_response_body :: "(string \<times> json) list option"
  ik_booking_id :: "uuid option"
  ik_expires_at :: time

record booking_audit =
  a_id :: nat
  a_booking_id :: uuid
  a_seq :: nat
  a_event_type :: audit_event
  a_actor_type :: string
  a_actor_id :: "uuid option"
  a_from_state :: "booking_state option"
  a_to_state :: "booking_state option"
  a_detail :: json

record security_event =
  se_id :: nat
  se_occurred_at :: time
  se_event_type :: security_event_type
  se_severity :: severity
  se_actor_user_id :: "uuid option"
  se_actor_email :: "string option"
  se_ip :: "string option"
  se_user_agent :: "string option"
  se_method :: "string option"
  se_path :: "string option"
  se_resource_type :: "string option"
  se_resource_id :: "string option"
  se_decision :: "string option"
  se_detail :: json

record db =
  d_users :: "user list"
  d_tokens :: "refresh_token list"
  d_airports :: "airport list"
  d_airlines :: "airline list"
  d_routes :: "route list"
  d_flights :: "flight list"
  d_fares :: "fare_class list"
  d_seats :: "seat list"
  d_bookings :: "booking list"
  d_passengers :: "passenger list"
  d_payments :: "payment list"
  d_tickets :: "ticket list"
  d_idem :: "idempotency_key list"
  d_audit :: "booking_audit list"
  d_events :: "security_event list"

definition empty_db :: db where
  "empty_db = \<lparr>d_users = [], d_tokens = [], d_airports = [], d_airlines = [], d_routes = [],
     d_flights = [], d_fares = [], d_seats = [], d_bookings = [], d_passengers = [],
     d_payments = [], d_tickets = [], d_idem = [], d_audit = [], d_events = []\<rparr>"

subsection \<open>Constraints\<close>

text \<open>\<open>ck_held_seat_has_holder\<close> and \<open>ck_booked_seat_has_booking\<close>.\<close>

definition seat_ok :: "seat \<Rightarrow> bool" where
  "seat_ok s =
     ((s_status s \<noteq> HELD \<or>
         (s_held_by s \<noteq> None \<and> s_hold_expires_at s \<noteq> None \<and> s_hold_id s \<noteq> None)) \<and>
      (s_status s \<noteq> BOOKED \<or> s_booking_id s \<noteq> None))"

text \<open>\<open>ck_flight_times\<close>, \<open>ck_flight_fare_nonneg\<close>; \<open>ck_booking_total_nonneg\<close> with the widths.\<close>

definition flight_ok :: "flight \<Rightarrow> bool" where
  "flight_ok f = (fl_depart_at f < fl_arrive_at f \<and> 0 \<le> fl_base_fare f)"

definition booking_ok :: "booking \<Rightarrow> bool" where
  "booking_ok b =
     (0 \<le> b_total_amount b \<and> b_total_amount b < 10 ^ 12 \<and> length (b_ref b) \<le> 6 \<and>
      (case b_idempotency_key b of None \<Rightarrow> True | Some k \<Rightarrow> length k \<le> 128))"

text \<open>The widths of \<open>payments\<close>: a longer value makes Postgres refuse the statement.\<close>

definition payment_ok :: "payment \<Rightarrow> bool" where
  "payment_ok p =
     (length (pay_provider p) \<le> 32 \<and> length (pay_card_token p) \<le> 64 \<and>
      length (pay_card_fingerprint p) \<le> 64 \<and> length (pay_idempotency_key p) \<le> 128)"

text \<open>
  \<open>uq_ticket_live_per_seat\<close> and \<open>uq_ticket_live_per_passenger\<close>: unique among the tickets
  that are not voided. The ticket number is unique among all.
\<close>

definition live_ticket :: "ticket \<Rightarrow> bool" where
  "live_ticket t = (t_voided_at t = None)"

definition tickets_ok :: "ticket list \<Rightarrow> bool" where
  "tickets_ok ts =
     (unique_key t_id ts \<and> unique_key t_e_ticket_no ts \<and>
      unique_key t_seat_id (filter live_ticket ts) \<and>
      unique_key t_passenger_id (filter live_ticket ts))"

definition seats_ok :: "seat list \<Rightarrow> bool" where
  "seats_ok ss =
     (unique_key s_id ss \<and> unique_key (\<lambda>s. (s_flight_id s, s_seat_no s)) ss \<and> list_all seat_ok ss)"

definition audit_ok :: "booking_audit list \<Rightarrow> bool" where
  "audit_ok as = (unique_key a_id as \<and> unique_key (\<lambda>a. (a_booking_id a, a_seq a)) as)"

definition db_ok :: "db \<Rightarrow> bool" where
  "db_ok d =
     (unique_key u_id (d_users d) \<and> unique_key u_email (d_users d) \<and>
      unique_key rt_id (d_tokens d) \<and> unique_key rt_token_hash (d_tokens d) \<and>
      unique_key fl_id (d_flights d) \<and> list_all flight_ok (d_flights d) \<and>
      seats_ok (d_seats d) \<and>
      unique_key b_id (d_bookings d) \<and> unique_key b_ref (d_bookings d) \<and>
      list_all booking_ok (d_bookings d) \<and>
      unique_key p_id (d_passengers d) \<and>
      unique_key pay_id (d_payments d) \<and> list_all payment_ok (d_payments d) \<and>
      tickets_ok (d_tickets d) \<and>
      unique_key (\<lambda>k. (ik_key k, ik_user_id k)) (d_idem d) \<and>
      audit_ok (d_audit d) \<and> unique_key se_id (d_events d))"

subsection \<open>Statements that can break a constraint\<close>

definition insert_user :: "user \<Rightarrow> db \<Rightarrow> exn + db" where
  "insert_user u d =
     (if u_email u \<in> u_email ` set (d_users d) \<or> u_id u \<in> u_id ` set (d_users d)
      then Inl (IntegrityError ''users'')
      else Inr (d\<lparr>d_users := d_users d @ [u]\<rparr>))"

definition insert_token :: "refresh_token \<Rightarrow> db \<Rightarrow> exn + db" where
  "insert_token r d =
     (if rt_token_hash r \<in> rt_token_hash ` set (d_tokens d) \<or> rt_id r \<in> rt_id ` set (d_tokens d)
      then Inl (IntegrityError ''refresh_tokens'')
      else Inr (d\<lparr>d_tokens := d_tokens d @ [r]\<rparr>))"

definition insert_booking :: "booking \<Rightarrow> db \<Rightarrow> exn + db" where
  "insert_booking b d =
     (if b_ref b \<in> b_ref ` set (d_bookings d) \<or> b_id b \<in> b_id ` set (d_bookings d)
      then Inl (IntegrityError ''bookings'')
      else if \<not> booking_ok b then Inl (DataError ''bookings'')
      else Inr (d\<lparr>d_bookings := d_bookings d @ [b]\<rparr>))"

definition insert_payment :: "payment \<Rightarrow> db \<Rightarrow> exn + db" where
  "insert_payment p d =
     (if pay_id p \<in> pay_id ` set (d_payments d) then Inl (IntegrityError ''payments'')
      else if \<not> payment_ok p then Inl (DataError ''payments'')
      else Inr (d\<lparr>d_payments := d_payments d @ [p]\<rparr>))"

definition insert_ticket :: "ticket \<Rightarrow> db \<Rightarrow> exn + db" where
  "insert_ticket t d =
     (if t_id t \<in> t_id ` set (d_tickets d) \<or> t_e_ticket_no t \<in> t_e_ticket_no ` set (d_tickets d) \<or>
         t_seat_id t \<in> t_seat_id ` set (filter live_ticket (d_tickets d)) \<or>
         t_passenger_id t \<in> t_passenger_id ` set (filter live_ticket (d_tickets d))
      then Inl (IntegrityError ''tickets'')
      else Inr (d\<lparr>d_tickets := d_tickets d @ [t]\<rparr>))"

text \<open>\<open>UPDATE seat_inventory\<close>: the statement fails if a row it writes breaks a CHECK.\<close>

definition update_seats :: "(seat \<Rightarrow> bool) \<Rightarrow> (seat \<Rightarrow> seat) \<Rightarrow> db \<Rightarrow> exn + db" where
  "update_seats p f d =
     (if list_all (\<lambda>s. p s \<longrightarrow> seat_ok (f s)) (d_seats d)
      then Inr (d\<lparr>d_seats := update_where p f (d_seats d)\<rparr>)
      else Inl (IntegrityError ''seat_inventory''))"

subsection \<open>The constraints stay true\<close>

lemma insert_user_ok: "db_ok d \<Longrightarrow> insert_user u d = Inr d' \<Longrightarrow> db_ok d'"
  by (auto simp: insert_user_def db_ok_def unique_key_append_one split: if_splits)

lemma insert_token_ok: "db_ok d \<Longrightarrow> insert_token r d = Inr d' \<Longrightarrow> db_ok d'"
  by (auto simp: insert_token_def db_ok_def unique_key_append_one split: if_splits)

lemma insert_booking_ok: "db_ok d \<Longrightarrow> insert_booking b d = Inr d' \<Longrightarrow> db_ok d'"
  by (auto simp: insert_booking_def db_ok_def unique_key_append_one split: if_splits)

lemma insert_payment_ok: "db_ok d \<Longrightarrow> insert_payment p d = Inr d' \<Longrightarrow> db_ok d'"
  by (auto simp: insert_payment_def db_ok_def unique_key_append_one split: if_splits)

lemma insert_ticket_ok: "db_ok d \<Longrightarrow> insert_ticket t d = Inr d' \<Longrightarrow> db_ok d'"
  by (auto simp: insert_ticket_def db_ok_def tickets_ok_def unique_key_append_one split: if_splits)

text \<open>An update that writes legal rows and keeps the identifying columns keeps \<open>seats_ok\<close>.\<close>

lemma seats_ok_update_where:
  assumes "seats_ok ss"
    and "\<And>s. s \<in> set ss \<Longrightarrow> p s \<Longrightarrow> seat_ok (f s)"
    and "\<And>s. s_id (f s) = s_id s" "\<And>s. s_flight_id (f s) = s_flight_id s"
        "\<And>s. s_seat_no (f s) = s_seat_no s"
  shows "seats_ok (update_where p f ss)"
  using assms
  by (auto simp: seats_ok_def table_simps list_all_iff set_update_where)

lemma update_seats_ok:
  assumes "db_ok d" "update_seats p f d = Inr d'"
    and "\<And>s. s_id (f s) = s_id s" "\<And>s. s_flight_id (f s) = s_flight_id s"
        "\<And>s. s_seat_no (f s) = s_seat_no s"
  shows "db_ok d'"
  using assms seats_ok_update_where [of "d_seats d" p f]
  by (auto simp: update_seats_def db_ok_def list_all_iff split: if_splits)

lemma db_ok_seatsI:
  "db_ok d \<Longrightarrow> seats_ok ss \<Longrightarrow> db_ok (d\<lparr>d_seats := ss\<rparr>)"
  by (simp add: db_ok_def)

lemma db_ok_seats: "db_ok d \<Longrightarrow> seats_ok (d_seats d)"
  by (simp add: db_ok_def)

lemma seats_ok_ids: "seats_ok ss \<Longrightarrow> unique_key s_id ss"
  by (simp add: seats_ok_def)

lemma seats_ok_seat: "seats_ok ss \<Longrightarrow> s \<in> set ss \<Longrightarrow> seat_ok s"
  by (simp add: seats_ok_def list_all_iff)

text \<open>Voiding tickets only takes rows out of the partial indexes.\<close>

lemma tickets_ok_void:
  assumes "tickets_ok ts"
  shows "tickets_ok (update_where p (\<lambda>t. t\<lparr>t_voided_at := Some now\<rparr>) ts)"
proof -
  let ?f = "\<lambda>t. t\<lparr>t_voided_at := Some now\<rparr>"
  have f: "filter live_ticket (update_where p ?f us) =
             filter (\<lambda>t. \<not> p t) (filter live_ticket us)" for us
    by (induction us) (auto simp: update_where_Cons live_ticket_def)
  show ?thesis
    using assms unfolding tickets_ok_def f
    by (auto simp: table_simps simp del: filter_filter intro: unique_key_filter)
qed

lemma db_ok_ticketsI: "db_ok d \<Longrightarrow> tickets_ok ts \<Longrightarrow> db_ok (d\<lparr>d_tickets := ts\<rparr>)"
  by (simp add: db_ok_def)

lemma db_ok_tickets: "db_ok d \<Longrightarrow> tickets_ok (d_tickets d)"
  by (simp add: db_ok_def)

lemmas insert_ok = insert_user_ok insert_token_ok insert_booking_ok insert_payment_ok insert_ticket_ok

end
