(* ===== verification/Sky_Holds.thy ===== *)
theory Sky_Holds
  imports Sky_Models
begin

text \<open>
  \<^verbatim>\<open>app/services/holds.py\<close> and \<^verbatim>\<open>app/jobs/sweep.py\<close>: the predicate that says a seat is
  free, the conditional UPDATE that takes one, the releases and the sweep. Every function
  is the work of one transaction on the database it sees; \<open>now\<close> is the transaction's
  \<open>now()\<close>. An \<open>Inl\<close> result leaves the database as it was (nothing was written before the
  raise).
\<close>

record settings =
  hold_ttl_seconds :: int
  max_active_holds_per_user :: nat
  login_max_failures :: int
  login_lockout_seconds :: int
  access_token_ttl_seconds :: int
  refresh_token_ttl_seconds :: int
  idempotency_ttl_seconds :: int
  rate_limit_enabled :: bool
  dashboard_enabled :: bool
  dashboard_user :: string
  dashboard_password :: string

definition default_settings :: settings where
  "default_settings =
     \<lparr>hold_ttl_seconds = 600, max_active_holds_per_user = 6,
      login_max_failures = 5, login_lockout_seconds = 900,
      access_token_ttl_seconds = 600, refresh_token_ttl_seconds = 1209600,
      idempotency_ttl_seconds = 24 * 3600, rate_limit_enabled = True,
      dashboard_enabled = True, dashboard_user = ''dash'',
      dashboard_password = ''dash-dev-password''\<rparr>"

text \<open>A comparison with a NULL column is not true.\<close>

definition before :: "time option \<Rightarrow> time \<Rightarrow> bool" where
  "before c now = (case c of None \<Rightarrow> False | Some t \<Rightarrow> t < now)"

definition after :: "time option \<Rightarrow> time \<Rightarrow> bool" where
  "after c now = (case c of None \<Rightarrow> False | Some t \<Rightarrow> t > now)"

definition takeable :: "time \<Rightarrow> seat \<Rightarrow> bool" where
  "takeable now s =
     (s_status s = AVAILABLE \<or> (s_status s = HELD \<and> before (s_hold_expires_at s) now))"

definition hold_is_live :: "time \<Rightarrow> seat \<Rightarrow> bool" where
  "hold_is_live now s = (s_status s = HELD \<and> after (s_hold_expires_at s) now)"

definition count_active_holds :: "time \<Rightarrow> uuid \<Rightarrow> db \<Rightarrow> nat" where
  "count_active_holds now user_id d =
     count_where (\<lambda>s. s_held_by s = Some user_id \<and> s_status s = HELD \<and>
                      after (s_hold_expires_at s) now) (d_seats d)"

text \<open>The row written by the UPDATE of \<open>acquire_hold\<close>.\<close>

definition take_seat :: "uuid \<Rightarrow> uuid \<Rightarrow> time \<Rightarrow> seat \<Rightarrow> seat" where
  "take_seat user_id hold_id expires s =
     s\<lparr>s_status := HELD, s_held_by := Some user_id, s_hold_id := Some hold_id,
       s_hold_expires_at := Some expires, s_booking_id := None, s_version := s_version s + 1\<rparr>"

definition seat_matches :: "uuid \<Rightarrow> string \<Rightarrow> seat \<Rightarrow> bool" where
  "seat_matches flight_id seat_no s = (s_flight_id s = flight_id \<and> s_seat_no s = upper seat_no)"

definition effective_ttl :: "settings \<Rightarrow> int option \<Rightarrow> int" where
  "effective_ttl st ttl = (case ttl of None \<Rightarrow> hold_ttl_seconds st
                           | Some t \<Rightarrow> if t = 0 then hold_ttl_seconds st else t)"

text \<open>
  The conditional UPDATE ... RETURNING of \<open>acquire_hold\<close>: the row it wrote, if any, and
  the new table. The WHERE clause is evaluated on the rows as they are when the row lock
  is granted, so the UPDATE is one atomic step.
\<close>

definition hold_update ::
  "time \<Rightarrow> int \<Rightarrow> uuid \<Rightarrow> uuid \<Rightarrow> uuid \<Rightarrow> string \<Rightarrow> db \<Rightarrow> seat option \<times> db" where
  "hold_update now ttl hold_id user_id flight_id seat_no d =
     (let hit = (\<lambda>s. seat_matches flight_id seat_no s \<and> takeable now s);
          upd = take_seat user_id hold_id (now + seconds ttl)
      in (map_option upd (select_one hit (d_seats d)),
          d\<lparr>d_seats := update_where hit upd (d_seats d)\<rparr>))"

text \<open>The part of \<open>acquire_hold\<close> after the cap: UPDATE, and on zero rows the two errors.\<close>

definition acquire_after_cap ::
  "time \<Rightarrow> int \<Rightarrow> uuid \<Rightarrow> uuid \<Rightarrow> uuid \<Rightarrow> string \<Rightarrow> db \<Rightarrow> exn + (seat \<times> db)" where
  "acquire_after_cap now ttl hold_id user_id flight_id seat_no d =
     (case hold_update now ttl hold_id user_id flight_id seat_no d of
        (Some s, d') \<Rightarrow> Inr (s, d')
      | (None, d') \<Rightarrow>
          (if count_where (seat_matches flight_id seat_no) (d_seats d') = 0
           then Inl (raise_app NotFound (''Flight has no seat '' @ upper seat_no))
           else Inl (raise_app SeatUnavailable
                       (''Seat '' @ upper seat_no @ '' is already taken''))))"

definition acquire_hold ::
  "settings \<Rightarrow> time \<Rightarrow> uuid \<Rightarrow> uuid \<Rightarrow> uuid \<Rightarrow> string \<Rightarrow> int option \<Rightarrow> db \<Rightarrow> exn + (seat \<times> db)" where
  "acquire_hold st now hold_id user_id flight_id seat_no ttl_seconds d =
     (let ttl = effective_ttl st ttl_seconds;
          active = count_active_holds now user_id d
      in if active \<ge> max_active_holds_per_user st
         then Inl (raise_app TooManyHolds
                (''You already hold '' @ show_nat active @
                 '' seats; release one or wait for a hold to expire.''))
         else acquire_after_cap now ttl hold_id user_id flight_id seat_no d)"

definition free_hold :: "seat \<Rightarrow> seat" where
  "free_hold s =
     s\<lparr>s_status := AVAILABLE, s_held_by := None, s_hold_id := None, s_hold_expires_at := None,
       s_version := s_version s + 1\<rparr>"

definition release_hold :: "uuid \<Rightarrow> uuid option \<Rightarrow> db \<Rightarrow> bool \<times> db" where
  "release_hold hold_id user_id d =
     (let hit = (\<lambda>s. s_hold_id s = Some hold_id \<and> s_status s = HELD \<and>
                     (case user_id of None \<Rightarrow> True | Some u \<Rightarrow> s_held_by s = Some u))
      in (count_where hit (d_seats d) > 0,
          d\<lparr>d_seats := update_where hit free_hold (d_seats d)\<rparr>))"

text \<open>Releasing the seats of a booking voids its tickets in the same transaction.\<close>

definition void_ticket :: "time \<Rightarrow> ticket \<Rightarrow> ticket" where
  "void_ticket now t = t\<lparr>t_voided_at := Some now\<rparr>"

definition free_seat :: "seat \<Rightarrow> seat" where
  "free_seat s = (free_hold s)\<lparr>s_booking_id := None\<rparr>"

definition release_seats_for_booking :: "time \<Rightarrow> uuid \<Rightarrow> db \<Rightarrow> nat \<times> db" where
  "release_seats_for_booking now booking_id d =
     (count_where (\<lambda>s. s_booking_id s = Some booking_id) (d_seats d),
      d\<lparr>d_tickets := update_where (\<lambda>t. t_booking_id t = booking_id \<and> t_voided_at t = None)
                       (void_ticket now) (d_tickets d),
        d_seats := update_where (\<lambda>s. s_booking_id s = Some booking_id) free_seat (d_seats d)\<rparr>)"

definition get_flight_or_404 :: "uuid \<Rightarrow> db \<Rightarrow> exn + flight" where
  "get_flight_or_404 flight_id d =
     (case select_one (\<lambda>f. fl_id f = flight_id) (d_flights d) of
        None \<Rightarrow> Inl (raise_app NotFound ''No such flight'')
      | Some f \<Rightarrow> Inr f)"

text \<open>\<^verbatim>\<open>sweep_expired_holds\<close>: its own transaction; seats of a booking are left alone.\<close>

definition sweepable :: "time \<Rightarrow> seat \<Rightarrow> bool" where
  "sweepable now s =
     (s_status s = HELD \<and> before (s_hold_expires_at s) now \<and> s_booking_id s = None)"

definition sweep_expired_holds :: "time \<Rightarrow> db \<Rightarrow> nat \<times> db" where
  "sweep_expired_holds now d =
     (count_where (sweepable now) (d_seats d),
      d\<lparr>d_seats := update_where (sweepable now) free_hold (d_seats d)\<rparr>)"

subsection \<open>What the predicates say\<close>

lemma before_after: "before c now \<Longrightarrow> \<not> after c now"
  by (auto simp: before_def after_def split: option.splits)

lemma takeable_not_live: "takeable now s \<Longrightarrow> \<not> hold_is_live now s"
  by (auto simp: takeable_def hold_is_live_def dest: before_after)

lemma take_seat_live: "0 < ttl \<Longrightarrow> hold_is_live now (take_seat u h (now + seconds ttl) s)"
  by (simp add: hold_is_live_def take_seat_def after_def)

lemma free_hold_takeable [simp]: "takeable now (free_hold s)" "takeable now (free_seat s)"
  by (simp_all add: takeable_def free_hold_def free_seat_def)

lemma seat_ok_writes [simp]:
  "seat_ok (take_seat u h e s)" "seat_ok (free_hold s)" "seat_ok (free_seat s)"
  by (simp_all add: seat_ok_def take_seat_def free_hold_def free_seat_def)

lemma seat_keys_writes [simp]:
  "s_id (take_seat u h e s) = s_id s" "s_id (free_hold s) = s_id s" "s_id (free_seat s) = s_id s"
  "s_flight_id (take_seat u h e s) = s_flight_id s" "s_flight_id (free_hold s) = s_flight_id s"
  "s_flight_id (free_seat s) = s_flight_id s"
  "s_seat_no (take_seat u h e s) = s_seat_no s" "s_seat_no (free_hold s) = s_seat_no s"
  "s_seat_no (free_seat s) = s_seat_no s"
  by (simp_all add: take_seat_def free_hold_def free_seat_def)

text \<open>At most one row has a given flight and seat number, so the UPDATE writes one row.\<close>

lemma seats_ok_unique_hit:
  assumes "seats_ok ss" "a \<in> set ss" "b \<in> set ss" "seat_matches f n a" "seat_matches f n b"
  shows "a = b"
  using assms unique_keyD [of "\<lambda>s. (s_flight_id s, s_seat_no s)" ss a b]
  by (simp add: seats_ok_def seat_matches_def)

lemma hold_update_cases:
  assumes "seats_ok (d_seats d)" "hold_update now ttl h u f n d = (r, d')"
  obtains (lost) "r = None" "d' = d" "\<forall>s \<in> set (d_seats d). \<not> (seat_matches f n s \<and> takeable now s)"
  | (won) s where "s \<in> set (d_seats d)" "seat_matches f n s" "takeable now s"
      "r = Some (take_seat u h (now + seconds ttl) s)"
      "d' = d\<lparr>d_seats := update_where (\<lambda>s'. s' = s) (take_seat u h (now + seconds ttl)) (d_seats d)\<rparr>"
proof (cases "select_one (\<lambda>s. seat_matches f n s \<and> takeable now s) (d_seats d)")
  case None
  then have no: "\<forall>s \<in> set (d_seats d). \<not> (seat_matches f n s \<and> takeable now s)"
    by (simp add: select_one_None)
  have upd: "update_where (\<lambda>s. seat_matches f n s \<and> takeable now s)
      (take_seat u h (now + seconds ttl)) (d_seats d) = d_seats d"
    by (rule update_where_none) (use no in blast)
  have "hold_update now ttl h u f n d = (None, d)"
    unfolding hold_update_def Let_def None upd by simp
  with assms(2) have "r = None" "d' = d"
    by auto
  from lost [OF this no] show ?thesis .
next
  case (Some s)
  then have s: "s \<in> set (d_seats d)" "seat_matches f n s" "takeable now s"
    using select_one_Some [OF Some] by auto
  let ?g = "take_seat u h (now + seconds ttl)"
  have upd: "update_where (\<lambda>s. seat_matches f n s \<and> takeable now s) ?g (d_seats d) =
        update_where (\<lambda>s'. s' = s) ?g (d_seats d)"
    by (rule update_where_cong) (use s seats_ok_unique_hit [OF assms(1) _ s(1) _ s(2)] in blast)
  have "hold_update now ttl h u f n d =
      (Some (?g s), d\<lparr>d_seats := update_where (\<lambda>s'. s' = s) ?g (d_seats d)\<rparr>)"
    unfolding hold_update_def Let_def Some upd by simp
  with assms(2) have "r = Some (?g s)"
    "d' = d\<lparr>d_seats := update_where (\<lambda>s'. s' = s) ?g (d_seats d)\<rparr>"
    by auto
  from won [OF s this] show ?thesis .
qed

text \<open>Only the selected row changes.\<close>

lemma update_one_row:
  assumes "unique_key s_id ss" "s \<in> set ss" "s_id (g s) = s_id s"
  shows "select_one (\<lambda>r. s_id r = s_id s) (update_where (\<lambda>s'. s' = s) g ss) = Some (g s)"
    and "\<And>i. i \<noteq> s_id s \<Longrightarrow> select_one (\<lambda>r. s_id r = i) (update_where (\<lambda>s'. s' = s) g ss) =
           select_one (\<lambda>r. s_id r = i) ss"
proof -
  have u: "unique_key s_id (update_where (\<lambda>s'. s' = s) g ss)"
    using assms by (subst unique_key_update_where) auto
  have "g s \<in> set (update_where (\<lambda>s'. s' = s) g ss)"
    using assms(2) by (force simp: set_update_where)
  then show "select_one (\<lambda>r. s_id r = s_id s) (update_where (\<lambda>s'. s' = s) g ss) = Some (g s)"
    using select_one_unique [OF u] assms(3) by auto
next
  fix i
  assume "i \<noteq> s_id s"
  then show "select_one (\<lambda>r. s_id r = i) (update_where (\<lambda>s'. s' = s) g ss) =
      select_one (\<lambda>r. s_id r = i) ss"
    using assms(3) by (induction ss) (auto simp: select_one_def update_where_Cons)
qed

subsection \<open>Constraints are kept\<close>

lemma hold_update_ok:
  assumes "db_ok d" "hold_update now ttl h u f n d = (r, d')"
  shows "db_ok d'"
  using assms
  by (auto simp: hold_update_def Let_def intro!: db_ok_seatsI seats_ok_update_where dest: db_ok_seats)

lemma acquire_after_cap_Inr:
  "acquire_after_cap now ttl h u f n d = Inr (s, d') \<Longrightarrow>
   hold_update now ttl h u f n d = (Some s, d')"
  by (auto simp: acquire_after_cap_def split: prod.splits option.splits if_splits)

lemma acquire_hold_Inr:
  "acquire_hold st now h u f n ttl d = Inr (s, d') \<Longrightarrow>
   count_active_holds now u d < max_active_holds_per_user st \<and>
   hold_update now (effective_ttl st ttl) h u f n d = (Some s, d')"
  by (auto simp: acquire_hold_def Let_def dest: acquire_after_cap_Inr split: if_splits)

lemma release_hold_ok: "db_ok d \<Longrightarrow> release_hold h u d = (r, d') \<Longrightarrow> db_ok d'"
  by (auto simp: release_hold_def Let_def intro!: db_ok_seatsI seats_ok_update_where dest: db_ok_seats)

lemma sweep_ok: "db_ok d \<Longrightarrow> sweep_expired_holds now d = (r, d') \<Longrightarrow> db_ok d'"
  by (auto simp: sweep_expired_holds_def intro!: db_ok_seatsI seats_ok_update_where dest: db_ok_seats)

lemma release_seats_ok:
  assumes "db_ok d" "release_seats_for_booking now b d = (r, d')"
  shows "db_ok d'"
proof -
  let ?ss = "update_where (\<lambda>s. s_booking_id s = Some b) free_seat (d_seats d)"
  let ?ts = "update_where (\<lambda>t. t_booking_id t = b \<and> t_voided_at t = None) (void_ticket now) (d_tickets d)"
  have "seats_ok ?ss"
    using assms(1) by (auto intro!: seats_ok_update_where dest: db_ok_seats)
  moreover have "tickets_ok ?ts"
    using tickets_ok_void [OF db_ok_tickets [OF assms(1)]] by (simp add: void_ticket_def [abs_def])
  moreover have "d' = d\<lparr>d_tickets := ?ts, d_seats := ?ss\<rparr>"
    using assms(2) by (simp add: release_seats_for_booking_def)
  ultimately show ?thesis
    using assms(1) by (auto intro: db_ok_seatsI db_ok_ticketsI)
qed

subsection \<open>Racing for one seat\<close>

text \<open>
  Racers are requests for the same seat, in the order in which Postgres grants them the
  row lock: instant, hold id and user. A request that fails leaves the table alone. The
  result lists the users whose request returned a hold.
\<close>

fun race :: "settings \<Rightarrow> uuid \<Rightarrow> string \<Rightarrow> (time \<times> uuid \<times> uuid) list \<Rightarrow> db \<Rightarrow> uuid list \<times> db" where
  "race st f n [] d = ([], d)"
| "race st f n ((now, h, u) # rs) d =
     (case acquire_hold st now h u f n None d of
        Inl e \<Rightarrow> race st f n rs d
      | Inr (s, d') \<Rightarrow> (case race st f n rs d' of (ws, d'') \<Rightarrow> (u # ws, d'')))"

text \<open>While a hold on the seat has not expired, nobody gets it.\<close>

definition seat_taken_until :: "time \<Rightarrow> uuid \<Rightarrow> string \<Rightarrow> db \<Rightarrow> bool" where
  "seat_taken_until t f n d =
     (\<forall>s \<in> set (d_seats d). seat_matches f n s \<longrightarrow>
        s_status s = BOOKED \<or> (s_status s = HELD \<and> (\<exists>e. s_hold_expires_at s = Some e \<and> t \<le> e)))"

lemma taken_not_takeable:
  "seat_taken_until t f n d \<Longrightarrow> now \<le> t \<Longrightarrow> s \<in> set (d_seats d) \<Longrightarrow> seat_matches f n s \<Longrightarrow>
   \<not> takeable now s"
  by (fastforce simp: seat_taken_until_def takeable_def before_def)

lemma taken_refuses:
  assumes "seats_ok (d_seats d)" "seat_taken_until t f n d" "now \<le> t"
  shows "acquire_hold st now h u f n ttl d \<noteq> Inr (s, d')"
proof
  assume "acquire_hold st now h u f n ttl d = Inr (s, d')"
  then have up: "hold_update now (effective_ttl st ttl) h u f n d = (Some s, d')"
    by (auto dest: acquire_hold_Inr)
  show False
    by (rule hold_update_cases [OF assms(1) up]) (use assms taken_not_takeable in auto)
qed

lemma race_taken:
  assumes "seats_ok (d_seats d)" "seat_taken_until t f n d" "\<forall>(now, h, u) \<in> set rs. now \<le> t"
  shows "race st f n rs d = ([], d)"
  using assms(3)
proof (induction rs)
  case Nil
  then show ?case by simp
next
  case (Cons r rs)
  obtain now h u where r: "r = (now, h, u)" by (cases r)
  with Cons.prems have "now \<le> t" by auto
  then have "acquire_hold st now h u f n None d \<noteq> Inr (s, d')" for s d'
    using taken_refuses [OF assms(1,2)] by blast
  then obtain e where "acquire_hold st now h u f n None d = Inl e"
    by (metis old.prod.exhaust sum.exhaust)
  then show ?case
    using Cons r by simp
qed

lemma acquire_takes:
  assumes ok: "seats_ok (d_seats d)"
    and acq: "acquire_hold st now h u f n None d = Inr (s, d')"
    and t: "t \<le> now + seconds (hold_ttl_seconds st)"
  shows "seats_ok (d_seats d') \<and> seat_taken_until t f n d'"
proof -
  have up: "hold_update now (hold_ttl_seconds st) h u f n d = (Some s, d')"
    using acquire_hold_Inr [OF acq] by (simp add: effective_ttl_def)
  show ?thesis
  proof (rule hold_update_cases [OF ok up])
    assume "Some s = None"
    then show ?thesis by simp
  next
    fix s0
    let ?g = "take_seat u h (now + seconds (hold_ttl_seconds st))"
    assume s0: "s0 \<in> set (d_seats d)" "seat_matches f n s0"
      and d': "d' = d\<lparr>d_seats := update_where (\<lambda>s'. s' = s0) ?g (d_seats d)\<rparr>"
    have "seats_ok (d_seats d')"
      using ok d' by (auto intro!: seats_ok_update_where)
    moreover have "seat_taken_until t f n d'"
      unfolding seat_taken_until_def d'
    proof (intro ballI impI)
      fix r
      assume r: "r \<in> set (d_seats (d\<lparr>d_seats := update_where (\<lambda>s'. s' = s0) ?g (d_seats d)\<rparr>))"
        and m: "seat_matches f n r"
      from r have "r \<in> set (update_where (\<lambda>s'. s' = s0) ?g (d_seats d))" by simp
      then show "s_status r = BOOKED \<or>
          s_status r = HELD \<and> (\<exists>e. s_hold_expires_at r = Some e \<and> t \<le> e)"
      proof (cases rule: in_update_whereE)
        case same
        with seats_ok_unique_hit [OF ok _ s0(1) m s0(2)] show ?thesis by blast
      next
        case (changed r0)
        with t show ?thesis by (simp add: take_seat_def)
      qed
    qed
    ultimately show ?thesis ..
  qed
qed

text \<open>
  C5: however many requests race for one seat within the lifetime of a hold, at most one
  of them gets it.
\<close>

theorem race_at_most_one_winner:
  assumes ok: "db_ok d"
    and window: "\<forall>(now, h, u) \<in> set rs. t \<le> now \<and> now \<le> t + seconds (hold_ttl_seconds st)"
    and res: "race st f n rs d = (winners, d')"
  shows "length winners \<le> 1"
  using window res db_ok_seats [OF ok]
proof (induction rs arbitrary: winners)
  case Nil
  then show ?case by simp
next
  case (Cons r rs)
  obtain now h u where r: "r = (now, h, u)" by (cases r)
  show ?case
  proof (cases "acquire_hold st now h u f n None d")
    case (Inl e)
    then show ?thesis using Cons r by simp
  next
    case (Inr sd)
    obtain s d1 where sd: "sd = (s, d1)" by (cases sd)
    let ?t = "t + seconds (hold_ttl_seconds st)"
    have "seats_ok (d_seats d1) \<and> seat_taken_until ?t f n d1"
      using acquire_takes [OF Cons.prems(3) Inr [unfolded sd], of ?t] Cons.prems(1) r by simp
    then have "race st f n rs d1 = ([], d1)"
      using race_taken [of d1 ?t f n rs st] Cons.prems(1) by auto
    then show ?thesis
      using Cons.prems(2) r Inr sd by auto
  qed
qed

theorem race_at_most_one_winner_witness:
  "length (fst (race default_settings 1 ''1a'' [(5, 90, 7), (6, 91, 8)] empty_db)) \<le> 1"
proof -
  have ok: "db_ok empty_db"
    by (simp add: db_ok_def empty_db_def seats_ok_def tickets_ok_def audit_ok_def unique_key_def)
  have w: "\<forall>(now, h, u) \<in> set [(5 :: time, 90 :: uuid, 7 :: uuid), (6, 91, 8)].
      5 \<le> now \<and> now \<le> 5 + seconds (hold_ttl_seconds default_settings)"
    by (simp add: seconds_def default_settings_def)
  obtain ws d' where res: "race default_settings 1 ''1a'' [(5, 90, 7), (6, 91, 8)] empty_db = (ws, d')"
    by (cases "race default_settings 1 ''1a'' [(5, 90, 7), (6, 91, 8)] empty_db")
  show ?thesis
    using race_at_most_one_winner [OF ok w res] res by simp
qed

lemma acquire_free_seat:
  assumes ok: "seats_ok (d_seats d)"
    and s: "s \<in> set (d_seats d)" "seat_matches f n s" "takeable now s"
    and cap: "count_active_holds now u d < max_active_holds_per_user st"
  shows "acquire_hold st now h u f n ttl d =
     Inr (take_seat u h (now + seconds (effective_ttl st ttl)) s,
          d\<lparr>d_seats := update_where (\<lambda>s'. s' = s)
              (take_seat u h (now + seconds (effective_ttl st ttl))) (d_seats d)\<rparr>)"
proof -
  let ?ttl = "effective_ttl st ttl"
  obtain r d' where up: "hold_update now ?ttl h u f n d = (r, d')"
    by (cases "hold_update now ?ttl h u f n d")
  show ?thesis
  proof (rule hold_update_cases [OF ok up])
    assume "\<forall>s \<in> set (d_seats d). \<not> (seat_matches f n s \<and> takeable now s)"
    with s show ?thesis by blast
  next
    fix s0
    assume s0: "s0 \<in> set (d_seats d)" "seat_matches f n s0"
      "r = Some (take_seat u h (now + seconds ?ttl) s0)"
      "d' = d\<lparr>d_seats := update_where (\<lambda>s'. s' = s0) (take_seat u h (now + seconds ?ttl)) (d_seats d)\<rparr>"
    moreover have "s0 = s"
      using seats_ok_unique_hit [OF ok s0(1) s(1) s0(2) s(2)] .
    ultimately show ?thesis
      using up cap by (simp add: acquire_hold_def acquire_after_cap_def)
  qed
qed

text \<open>
  C21: when the seat is free and the first racer is below the cap on holds, that racer and
  nobody else gets the seat, and the row names the racer, the hold and its expiry.
\<close>

theorem race_first_racer_wins:
  assumes ok: "db_ok d"
    and seat: "s \<in> set (d_seats d)" "seat_matches f n s" "takeable now s"
    and cap: "count_active_holds now u d < max_active_holds_per_user st"
    and window: "\<forall>(now', h', u') \<in> set rs. now' \<le> now + seconds (hold_ttl_seconds st)"
  shows "race st f n ((now, h, u) # rs) d =
     ([u], d\<lparr>d_seats := update_where (\<lambda>s'. s' = s)
              (take_seat u h (now + seconds (hold_ttl_seconds st))) (d_seats d)\<rparr>)"
proof -
  note acq = acquire_free_seat [OF db_ok_seats [OF ok] seat cap, of h None]
  let ?t = "now + seconds (hold_ttl_seconds st)"
  let ?d = "d\<lparr>d_seats := update_where (\<lambda>s'. s' = s) (take_seat u h ?t) (d_seats d)\<rparr>"
  have acq': "acquire_hold st now h u f n None d = Inr (take_seat u h ?t s, ?d)"
    using acq by (simp add: effective_ttl_def)
  have "race st f n rs ?d = ([], ?d)"
    using acquire_takes [OF db_ok_seats [OF ok] acq', of ?t] window by (intro race_taken) auto
  then show ?thesis
    using acq' by simp
qed

text \<open>A small inventory for the witnesses: one flight, two seats, one of them free.\<close>

definition demo_seat :: "uuid \<Rightarrow> string \<Rightarrow> nat \<Rightarrow> string \<Rightarrow> seat" where
  "demo_seat i no row letter =
     \<lparr>s_id = i, s_flight_id = 1, s_seat_no = no, s_row_no = row, s_letter = letter,
      s_cabin = ''economy'', s_fare_class_id = 2, s_is_exit_row = False, s_price = 19900,
      s_status = AVAILABLE, s_held_by = None, s_hold_id = None, s_hold_expires_at = None,
      s_booking_id = None, s_version = 0\<rparr>"

definition demo_db :: db where
  "demo_db = empty_db\<lparr>d_seats := [demo_seat 10 ''12A'' 12 ''A'', demo_seat 11 ''12B'' 12 ''B'']\<rparr>"

lemma demo_db_ok: "db_ok demo_db"
  by (simp add: db_ok_def demo_db_def empty_db_def seats_ok_def tickets_ok_def audit_ok_def
      unique_key_def demo_seat_def seat_ok_def)

lemma upper_12A: "upper ''12a'' = ''12A''"
  by code_simp

theorem race_first_racer_wins_witness:
  "fst (race default_settings 1 ''12a'' [(0, 90, 7), (3, 91, 8), (4, 92, 9)] demo_db) = [7]"
proof -
  have s: "demo_seat 10 ''12A'' 12 ''A'' \<in> set (d_seats demo_db)"
      "seat_matches 1 ''12a'' (demo_seat 10 ''12A'' 12 ''A'')"
      "takeable 0 (demo_seat 10 ''12A'' 12 ''A'')"
    by (simp_all add: demo_db_def seat_matches_def upper_12A takeable_def demo_seat_def)
  have c: "count_active_holds 0 7 demo_db < max_active_holds_per_user default_settings"
    by (simp add: count_active_holds_def count_where_def demo_db_def demo_seat_def default_settings_def)
  have w: "\<forall>(now', h', u') \<in> set [(3 :: time, 91 :: uuid, 8 :: uuid), (4, 92, 9)].
      now' \<le> 0 + seconds (hold_ttl_seconds default_settings)"
    by (simp add: seconds_def default_settings_def)
  show ?thesis
    using race_first_racer_wins [OF demo_db_ok s c w, of 90] by simp
qed

subsection \<open>The cap on holds\<close>

lemma count_update_one:
  assumes "distinct ss"
  shows "count_where p (update_where (\<lambda>s'. s' = s) g ss) \<le> count_where p ss + 1"
  using assms
proof (induction ss)
  case Nil
  then show ?case by (simp add: count_where_def)
next
  case (Cons a ss)
  have "a = s \<Longrightarrow> update_where (\<lambda>s'. s' = s) g ss = ss"
    using Cons.prems by (intro update_where_none) auto
  with Cons show ?case
    by (auto simp: update_where_Cons count_where_def)
qed

text \<open>
  One request after another, no account gets past the cap: a successful acquisition
  leaves the account with at most \<open>max_active_holds_per_user\<close> live holds, and at the cap
  the request is refused and nothing is written.
\<close>

theorem acquire_hold_respects_cap:
  assumes ok: "db_ok d" and acq: "acquire_hold st now h u f n ttl d = Inr (s, d')"
  shows "count_active_holds now u d < max_active_holds_per_user st \<and>
         count_active_holds now u d' \<le> max_active_holds_per_user st"
proof -
  have up: "hold_update now (effective_ttl st ttl) h u f n d = (Some s, d')"
    and cap: "count_active_holds now u d < max_active_holds_per_user st"
    using acquire_hold_Inr [OF acq] by auto
  have dist: "distinct (d_seats d)"
    using db_ok_seats [OF ok] by (auto simp: seats_ok_def unique_key_def distinct_map)
  have "count_active_holds now u d' \<le> count_active_holds now u d + 1"
    by (rule hold_update_cases [OF db_ok_seats [OF ok] up])
       (auto simp: count_active_holds_def count_update_one [OF dist, simplified])
  with cap show ?thesis by simp
qed

theorem acquire_hold_respects_cap_witness:
  "\<exists>s d'. acquire_hold default_settings 0 90 7 1 ''12a'' None demo_db = Inr (s, d') \<and>
     count_active_holds 0 7 d' \<le> 6"
proof -
  let ?s = "demo_seat 10 ''12A'' 12 ''A''"
  have s: "?s \<in> set (d_seats demo_db)" "seat_matches 1 ''12a'' ?s" "takeable 0 ?s"
    by (simp_all add: demo_db_def seat_matches_def upper_12A takeable_def demo_seat_def)
  have c: "count_active_holds 0 7 demo_db < max_active_holds_per_user default_settings"
    by (simp add: count_active_holds_def count_where_def demo_db_def demo_seat_def default_settings_def)
  note acq = acquire_free_seat [OF db_ok_seats [OF demo_db_ok] s c, of 90 None]
  show ?thesis
    using acq acquire_hold_respects_cap [OF demo_db_ok acq] by (auto simp: default_settings_def)
qed

end
