(* ===== verification/Sky_Redis.thy ===== *)
theory Sky_Redis
  imports Sky_Holds "HOL-Library.Product_Lexorder"
begin

text \<open>
  The Redis commands the rate limiter and the fraud rules use (\<^verbatim>\<open>app/redis_client.py\<close>
  hands out the client): sorted sets ordered by score and then by member, string values,
  and keys that expire. Scores and instants are milliseconds. A pipeline runs its commands
  in order at one instant.
\<close>

type_synonym zset = "(string \<times> int) list"

record redis =
  r_zsets :: "string \<Rightarrow> zset"
  r_strings :: "string \<Rightarrow> string option"
  r_expiry :: "string \<Rightarrow> int option"

definition empty_redis :: redis where
  "empty_redis = \<lparr>r_zsets = (\<lambda>_. []), r_strings = (\<lambda>_. None), r_expiry = (\<lambda>_. None)\<rparr>"

text \<open>A key whose time has come is deleted before any command sees it.\<close>

definition expired :: "int \<Rightarrow> string \<Rightarrow> redis \<Rightarrow> bool" where
  "expired now k r = (case r_expiry r k of None \<Rightarrow> False | Some e \<Rightarrow> e \<le> now)"

definition purge :: "int \<Rightarrow> string \<Rightarrow> redis \<Rightarrow> redis" where
  "purge now k r =
     (if expired now k r
      then r\<lparr>r_zsets := (r_zsets r)(k := []), r_strings := (r_strings r)(k := None),
             r_expiry := (r_expiry r)(k := None)\<rparr>
      else r)"

definition zscore_key :: "string \<times> int \<Rightarrow> int \<times> string" where
  "zscore_key e = (snd e, fst e)"

definition zremrangebyscore :: "int \<Rightarrow> string \<Rightarrow> int \<Rightarrow> int \<Rightarrow> redis \<Rightarrow> redis" where
  "zremrangebyscore now k lo hi r =
     (let r = purge now k r
      in r\<lparr>r_zsets := (r_zsets r)(k := filter (\<lambda>e. \<not> (lo \<le> snd e \<and> snd e \<le> hi)) (r_zsets r k))\<rparr>)"

definition zadd :: "int \<Rightarrow> string \<Rightarrow> string \<Rightarrow> int \<Rightarrow> redis \<Rightarrow> redis" where
  "zadd now k m score r =
     (let r = purge now k r
      in r\<lparr>r_zsets := (r_zsets r)(k := insort_key zscore_key (m, score)
                                       (filter (\<lambda>e. fst e \<noteq> m) (r_zsets r k)))\<rparr>)"

definition zcard :: "int \<Rightarrow> string \<Rightarrow> redis \<Rightarrow> nat" where
  "zcard now k r = length (r_zsets (purge now k r) k)"

definition zrange_all :: "int \<Rightarrow> string \<Rightarrow> redis \<Rightarrow> string list" where
  "zrange_all now k r = map fst (r_zsets (purge now k r) k)"

definition expire :: "int \<Rightarrow> string \<Rightarrow> int \<Rightarrow> redis \<Rightarrow> redis" where
  "expire now k secs r =
     (let r = purge now k r in r\<lparr>r_expiry := (r_expiry r)(k \<mapsto> now + secs * 1000)\<rparr>)"

definition redis_set :: "int \<Rightarrow> string \<Rightarrow> string \<Rightarrow> int \<Rightarrow> redis \<Rightarrow> redis" where
  "redis_set now k v ex r =
     r\<lparr>r_strings := (r_strings r)(k \<mapsto> v), r_expiry := (r_expiry r)(k \<mapsto> now + ex * 1000)\<rparr>"

definition redis_get :: "int \<Rightarrow> string \<Rightarrow> redis \<Rightarrow> string option" where
  "redis_get now k r = r_strings (purge now k r) k"

text \<open>No command on sorted sets makes a string value appear.\<close>

lemma no_string_commands:
  assumes "r_strings r k = None"
  shows "r_strings (purge now k' r) k = None" "r_strings (zremrangebyscore now k' lo hi r) k = None"
    "r_strings (zadd now k' m sc r) k = None" "r_strings (expire now k' n r) k = None"
  using assms by (simp_all add: purge_def zremrangebyscore_def zadd_def expire_def Let_def)

subsection \<open>The window of a key\<close>

text \<open>
  The entries of a key that a window of \<open>w\<close> seconds ending at \<open>now\<close> still counts.
\<close>

definition in_window :: "int \<Rightarrow> int \<Rightarrow> string \<times> int \<Rightarrow> bool" where
  "in_window now w e = (now - w * 1000 < snd e)"

definition window :: "int \<Rightarrow> int \<Rightarrow> string \<Rightarrow> redis \<Rightarrow> zset" where
  "window now w k r = filter (in_window now w) (r_zsets r k)"

text \<open>
  A key written only by the trim-add-count-expire pipeline with window \<open>w\<close>: members are
  distinct, scores are non-negative and not in the future, and the expiry is more than a
  window after every entry.
\<close>

definition window_key :: "int \<Rightarrow> int \<Rightarrow> string \<Rightarrow> redis \<Rightarrow> bool" where
  "window_key now w k r =
     (distinct (map fst (r_zsets r k)) \<and>
      (\<forall>e \<in> set (r_zsets r k). 0 \<le> snd e \<and> snd e \<le> now) \<and>
      (case r_expiry r k of None \<Rightarrow> True
       | Some t \<Rightarrow> \<forall>e \<in> set (r_zsets r k). snd e + (w + 1) * 1000 \<le> t))"

definition trim :: "int \<Rightarrow> int \<Rightarrow> string \<Rightarrow> redis \<Rightarrow> redis" where
  "trim now w k r = zremrangebyscore now k 0 (now - w * 1000) r"

text \<open>The four commands of one pipeline, and the count the third one returns.\<close>

definition touch_pipe :: "int \<Rightarrow> int \<Rightarrow> string \<Rightarrow> string \<Rightarrow> redis \<Rightarrow> nat \<times> redis" where
  "touch_pipe now w k m r =
     (let r1 = trim now w k r;
          r2 = zadd now k m now r1
      in (zcard now k r2, expire now k (w + 1) r2))"

lemma window_key_initial: "window_key now w k empty_redis"
  by (simp add: window_key_def empty_redis_def)

lemma window_key_later: "window_key now w k r \<Longrightarrow> now \<le> now' \<Longrightarrow> window_key now' w k r"
  by (force simp: window_key_def)

lemma purge_key_window:
  assumes "window_key now w k r"
  shows "filter (in_window now w) (r_zsets (purge now k r) k) = window now w k r"
proof (cases "expired now k r")
  case True
  then have "\<forall>e \<in> set (r_zsets r k). \<not> in_window now w e"
    using assms by (fastforce simp: expired_def window_key_def in_window_def split: option.splits)
  then have "window now w k r = []"
    by (simp add: window_def filter_empty_conv)
  with True show ?thesis
    by (simp add: purge_def)
next
  case False
  then show ?thesis by (simp add: purge_def window_def)
qed

lemma trim_entries:
  assumes "window_key now w k r"
  shows "r_zsets (trim now w k r) k = window now w k r"
    and "r_expiry (trim now w k r) k = None \<or> (\<exists>t. r_expiry (trim now w k r) k = Some t \<and> now < t)"
proof -
  have nonneg: "\<forall>e \<in> set (r_zsets (purge now k r) k). 0 \<le> snd e"
    using assms by (auto simp: window_key_def purge_def)
  have "filter (\<lambda>e. \<not> (0 \<le> snd e \<and> snd e \<le> now - w * 1000)) (r_zsets (purge now k r) k) =
        filter (in_window now w) (r_zsets (purge now k r) k)"
    using nonneg by (intro filter_cong) (auto simp: in_window_def)
  then show "r_zsets (trim now w k r) k = window now w k r"
    using purge_key_window [OF assms] by (simp add: trim_def zremrangebyscore_def Let_def)
  show "r_expiry (trim now w k r) k = None \<or> (\<exists>t. r_expiry (trim now w k r) k = Some t \<and> now < t)"
    by (auto simp: trim_def zremrangebyscore_def Let_def purge_def expired_def split: option.splits)
qed

lemma set_insort_zscore: "set (insort_key zscore_key e z) = insert e (set z)"
  by (simp add: set_insort_key)

lemma distinct_insort_zscore:
  assumes "distinct (map fst z)"
  shows "distinct (map fst (insort_key zscore_key (m, s) (filter (\<lambda>e. fst e \<noteq> m) z)))"
proof -
  have ins: "distinct (map fst (insort_key zscore_key e z'))"
    if "fst e \<notin> fst ` set z'" "distinct (map fst z')" for e z'
    using that
  proof (induction z')
    case Nil
    then show ?case by simp
  next
    case (Cons a z')
    then show ?case by (auto simp: set_insort_key)
  qed
  show ?thesis
    by (rule ins) (use assms in \<open>auto simp: distinct_map_filter\<close>)
qed

lemma touch_pipe_spec:
  assumes wk: "window_key now w k r" and t: "touch_pipe now w k m r = (n, r')" and now: "0 \<le> now"
    and w: "0 \<le> w"
  shows "n = length (r_zsets r' k)"
    and "r_zsets r' k =
           insort_key zscore_key (m, now) (filter (\<lambda>e. fst e \<noteq> m) (window now w k r))"
    and "window_key now w k r'"
    and "k' \<noteq> k \<Longrightarrow> r_zsets r' k' = r_zsets r k' \<and> r_expiry r' k' = r_expiry r k'"
proof -
  let ?r1 = "trim now w k r"
  let ?z = "insort_key zscore_key (m, now) (filter (\<lambda>e. fst e \<noteq> m) (window now w k r))"
  have nx: "\<not> expired now k ?r1"
    using trim_entries(2) [OF wk] by (auto simp: expired_def)
  let ?r2 = "zadd now k m now ?r1"
  have r2: "r_zsets ?r2 k = ?z" "r_expiry ?r2 k = r_expiry ?r1 k"
    using nx trim_entries(1) [OF wk] by (simp_all add: zadd_def purge_def Let_def)
  then have nx2: "\<not> expired now k ?r2"
    using nx by (simp add: expired_def)
  have r': "r' = expire now k (w + 1) ?r2" and n: "n = length ?z"
    using t nx2 r2 by (auto simp: touch_pipe_def Let_def zcard_def purge_def)
  have z': "r_zsets r' k = ?z"
    using r' nx2 r2 by (simp add: expire_def purge_def Let_def)
  show "r_zsets r' k = ?z" by (rule z')
  show "n = length (r_zsets r' k)" using n z' by simp
  have ex: "r_expiry r' k = Some (now + (w + 1) * 1000)"
    using r' by (simp add: expire_def Let_def)
  have "distinct (map fst (window now w k r))"
    using wk by (simp add: window_def window_key_def distinct_map_filter)
  then have "distinct (map fst ?z)"
    by (rule distinct_insort_zscore)
  moreover have "\<forall>e \<in> set ?z. 0 \<le> snd e \<and> snd e \<le> now"
    using wk now by (auto simp: set_insort_key window_def window_key_def)
  ultimately show "window_key now w k r'"
    unfolding window_key_def z' ex by simp
  show "k' \<noteq> k \<Longrightarrow> r_zsets r' k' = r_zsets r k' \<and> r_expiry r' k' = r_expiry r k'"
    unfolding r' expire_def zadd_def trim_def zremrangebyscore_def Let_def purge_def
    by simp
qed

end
