(* ===== verification/Sky_Gateway.thy ===== *)
theory Sky_Gateway
  imports Sky_Holds
begin

text \<open>
  The payment gateway: \<^verbatim>\<open>app/services/demo_triggers.py\<close>, the protocol and exceptions of
  \<^verbatim>\<open>app/services/payments/base.py\<close> and the \<open>FakePaymentGateway\<close> of
  \<^verbatim>\<open>app/services/payments/fake.py\<close> that \<open>get_gateway\<close> returns. The locale \<open>charge_once\<close>
  is what the saga relies on: a call with a known idempotency key replays the first
  answer. It is interpreted on the fake gateway.
\<close>

datatype trigger =
    APPROVE | DECLINE_INSUFFICIENT_FUNDS | DECLINE_DO_NOT_HONOR
  | TICKETING_FAILURE | GATEWAY_TIMEOUT_THEN_OK | REFUND_FAILURE

definition SUFFIX_TRIGGERS :: "(string \<times> trigger) list" where
  "SUFFIX_TRIGGERS =
     [(''0000'', APPROVE), (''0002'', DECLINE_INSUFFICIENT_FUNDS), (''0069'', DECLINE_DO_NOT_HONOR),
      (''9995'', TICKETING_FAILURE), (''0119'', GATEWAY_TIMEOUT_THEN_OK), (''5309'', REFUND_FAILURE)]"

fun DECLINE_CODES :: "trigger \<Rightarrow> string option" where
  "DECLINE_CODES DECLINE_INSUFFICIENT_FUNDS = Some ''insufficient_funds''"
| "DECLINE_CODES DECLINE_DO_NOT_HONOR = Some ''do_not_honor''"
| "DECLINE_CODES _ = None"

definition trigger_for :: "string \<Rightarrow> trigger" where
  "trigger_for card_token =
     (case map_of SUFFIX_TRIGGERS (last4 card_token) of None \<Rightarrow> APPROVE | Some t \<Rightarrow> t)"

record auth_result =
  ar_provider_ref :: string
  ar_approved :: bool
  ar_failure_code :: "string option"
  ar_message :: "string option"

text \<open>
  The gateway's memory. The dict of authorizations is a list of pairs in insertion order:
  a key is only ever inserted when it is absent.
\<close>

record gateway =
  g_authorizations :: "(string \<times> auth_result) list"
  g_timed_out_once :: "string set"
  g_captured :: "string set"
  g_voided :: "string set"
  g_refunded :: "string set"
  g_refund_failures :: "string set"

definition empty_gateway :: gateway where
  "empty_gateway = \<lparr>g_authorizations = [], g_timed_out_once = {}, g_captured = {}, g_voided = {},
                    g_refunded = {}, g_refund_failures = {}\<rparr>"

text \<open>The answer to a card that does not time out; \<open>hex\<close> is \<open>uuid4().hex[:16]\<close>.\<close>

definition auth_answer :: "trigger \<Rightarrow> string \<Rightarrow> cents \<Rightarrow> string \<Rightarrow> auth_result" where
  "auth_answer t hex amount currency =
     (case DECLINE_CODES t of
        Some code \<Rightarrow> \<lparr>ar_provider_ref = ''auth_'' @ hex, ar_approved = False,
                      ar_failure_code = Some code,
                      ar_message = Some (''card declined ('' @ code @ '')'')\<rparr>
      | None \<Rightarrow> \<lparr>ar_provider_ref = ''auth_'' @ hex, ar_approved = True, ar_failure_code = None,
                 ar_message = Some (''authorized '' @ show_cents amount @ '' '' @ currency)\<rparr>)"

definition authorize ::
  "string \<Rightarrow> string \<Rightarrow> cents \<Rightarrow> string \<Rightarrow> string \<Rightarrow> gateway \<Rightarrow> (exn + auth_result) \<times> gateway" where
  "authorize hex card_token amount currency key g =
     (case map_of (g_authorizations g) key of
        Some r \<Rightarrow> (Inr r, g)
      | None \<Rightarrow>
          (let t = trigger_for card_token in
           if t = GATEWAY_TIMEOUT_THEN_OK \<and> key \<notin> g_timed_out_once g
           then (Inl (PaymentTimeout ''gateway did not respond within the deadline''),
                 g\<lparr>g_timed_out_once := insert key (g_timed_out_once g)\<rparr>)
           else let r = auth_answer t hex amount currency
                in (Inr r, g\<lparr>g_authorizations := g_authorizations g @ [(key, r)]\<rparr>)))"

definition capture :: "string \<Rightarrow> string \<Rightarrow> gateway \<Rightarrow> auth_result \<times> gateway" where
  "capture ref key g =
     (\<lparr>ar_provider_ref = ref, ar_approved = True, ar_failure_code = None,
       ar_message = Some ''captured''\<rparr>,
      g\<lparr>g_captured := insert ref (g_captured g)\<rparr>)"

definition void :: "string \<Rightarrow> string \<Rightarrow> gateway \<Rightarrow> (exn + unit) \<times> gateway" where
  "void ref key g = (Inr (), g\<lparr>g_voided := insert ref (g_voided g)\<rparr>)"

definition refund :: "string \<Rightarrow> cents \<Rightarrow> string \<Rightarrow> gateway \<Rightarrow> (exn + unit) \<times> gateway" where
  "refund ref amount key g =
     (if ref \<in> g_refund_failures g
      then (Inl (RefundFailed (''refund rejected for '' @ ref)), g)
      else (Inr (), g\<lparr>g_refunded := insert ref (g_refunded g)\<rparr>))"

definition arm_refund_failure :: "string \<Rightarrow> gateway \<Rightarrow> gateway" where
  "arm_refund_failure ref g = g\<lparr>g_refund_failures := insert ref (g_refund_failures g)\<rparr>"

definition was_voided :: "string \<Rightarrow> gateway \<Rightarrow> bool" where
  "was_voided ref g = (ref \<in> g_voided g)"

definition was_refunded :: "string \<Rightarrow> gateway \<Rightarrow> bool" where
  "was_refunded ref g = (ref \<in> g_refunded g)"

definition authorization_count :: "gateway \<Rightarrow> nat" where
  "authorization_count g = length (g_authorizations g)"

definition reset :: "gateway \<Rightarrow> gateway" where
  "reset g = empty_gateway"

text \<open>\<open>get_gateway\<close>: the only provider there is is the fake one.\<close>

definition get_gateway :: "string \<Rightarrow> exn + gateway" where
  "get_gateway payment_provider =
     (if payment_provider = ''fake'' then Inr empty_gateway
      else Inl (RuntimeError (''Unknown PAYMENT_PROVIDER '' @ payment_provider)))"

subsection \<open>The idempotent gateway as an interface\<close>

text \<open>
  \<open>auth\<close> takes the draw for a new reference, the key and the state; \<open>known\<close> reads the
  answer stored for a key and \<open>charges\<close> counts the authorizations made. The laws: a known
  key is replayed with nothing changed, a new key is answered and stored once or fails
  without a charge, and no call touches the other keys.
\<close>

locale charge_once =
  fixes auth :: "'d \<Rightarrow> 'k \<Rightarrow> 'g \<Rightarrow> ('e + 'r) \<times> 'g"
    and known :: "'g \<Rightarrow> 'k \<Rightarrow> 'r option"
    and charges :: "'g \<Rightarrow> nat"
  assumes replay: "known g k = Some r \<Longrightarrow> auth d k g = (Inr r, g)"
    and answered: "known g k = None \<Longrightarrow> auth d k g = (Inr r, g') \<Longrightarrow>
           known g' k = Some r \<and> charges g' = Suc (charges g)"
    and failed: "auth d k g = (Inl e, g') \<Longrightarrow>
           known g' k = None \<and> known g k = None \<and> charges g' = charges g"
    and frame: "auth d k g = (x, g') \<Longrightarrow> k' \<noteq> k \<Longrightarrow> known g' k' = known g k'"
begin

text \<open>Any number of attempts with one key: the answers, oldest first.\<close>

fun attempts :: "'d list \<Rightarrow> 'k \<Rightarrow> 'g \<Rightarrow> ('e + 'r) list \<times> 'g" where
  "attempts [] k g = ([], g)"
| "attempts (d # ds) k g =
     (case auth d k g of (x, g1) \<Rightarrow> (case attempts ds k g1 of (xs, g2) \<Rightarrow> (x # xs, g2)))"

lemma attempts_known:
  "known g k = Some r \<Longrightarrow> attempts ds k g = (map (\<lambda>_. Inr r) ds, g)"
  by (induction ds) (simp_all add: replay)

lemma attempts_answers:
  assumes "attempts ds k g = (xs, g')" "known g k = None"
  shows "(\<forall>x \<in> set xs. \<exists>e. x = Inl e) \<and> charges g' = charges g \<and> known g' k = None \<or>
         (\<exists>r. (\<forall>x \<in> set xs. (\<exists>e. x = Inl e) \<or> x = Inr r) \<and>
              charges g' = Suc (charges g) \<and> known g' k = Some r)"
  using assms
proof (induction ds arbitrary: g xs)
  case Nil
  then show ?case by simp
next
  case (Cons d ds)
  obtain x g1 where x: "auth d k g = (x, g1)" by (cases "auth d k g")
  obtain ys where ys: "attempts ds k g1 = (ys, g')" "xs = x # ys"
    using Cons.prems(1) x by (auto split: prod.splits)
  show ?case
  proof (cases x)
    case (Inl e)
    then have "known g1 k = None" "charges g1 = charges g"
      using failed x by auto
    with Cons.IH [OF ys(1)] ys(2) Inl show ?thesis by auto
  next
    case (Inr r)
    then have "known g1 k = Some r" "charges g1 = Suc (charges g)"
      using answered [OF Cons.prems(2)] x by auto
    with attempts_known [of g1 k r ds] ys Inr show ?thesis by auto
  qed
qed

lemma charged_at_most_once:
  assumes "attempts ds k g = (xs, g')"
  shows "charges g' \<le> Suc (charges g)"
    and "Inr r \<in> set xs \<Longrightarrow> Inr r' \<in> set xs \<Longrightarrow> r = r'"
proof -
  show "charges g' \<le> Suc (charges g)"
  proof (cases "known g k")
    case None
    with attempts_answers [OF assms] show ?thesis by auto
  next
    case (Some q)
    with attempts_known [OF Some, of ds] assms show ?thesis by simp
  qed
  assume in_xs: "Inr r \<in> set xs" "Inr r' \<in> set xs"
  show "r = r'"
  proof (cases "known g k")
    case None
    from attempts_answers [OF assms None] obtain q where "\<forall>x \<in> set xs. (\<exists>e. x = Inl e) \<or> x = Inr q"
      by blast
    with in_xs have "Inr r = (Inr q :: 'e + 'r)" "Inr r' = (Inr q :: 'e + 'r)"
      by blast+
    then show ?thesis by simp
  next
    case (Some q)
    with attempts_known [OF Some, of ds] assms in_xs show ?thesis by auto
  qed
qed

end

text \<open>The fake gateway keeps the contract; the draw carries the card and the amount.\<close>

definition authorize_with :: "string \<times> string \<times> cents \<times> string \<Rightarrow> string \<Rightarrow> gateway \<Rightarrow> (exn + auth_result) \<times> gateway" where
  "authorize_with d key g = (case d of (hex, card_token, amount, currency) \<Rightarrow>
     authorize hex card_token amount currency key g)"

definition stored_auth :: "gateway \<Rightarrow> string \<Rightarrow> auth_result option" where
  "stored_auth g key = map_of (g_authorizations g) key"

lemma map_of_snoc_None: "map_of xs k = None \<Longrightarrow> ([k \<mapsto> v] ++ map_of xs) k = Some v"
  by (simp add: map_add_def)

interpretation fake: charge_once authorize_with stored_auth authorization_count
proof
  fix g k r d
  assume "stored_auth g k = Some r"
  then show "authorize_with d k g = (Inr r, g)"
    by (cases d) (simp add: authorize_with_def authorize_def stored_auth_def)
next
  fix g k r d g'
  assume "stored_auth g k = None" "authorize_with d k g = (Inr r, g')"
  then show "stored_auth g' k = Some r \<and> authorization_count g' = Suc (authorization_count g)"
    by (cases d)
       (auto simp: authorize_with_def authorize_def stored_auth_def authorization_count_def Let_def
          map_of_snoc_None split: if_splits)
next
  fix g k e d g'
  assume "authorize_with d k g = (Inl e, g')"
  then show "stored_auth g' k = None \<and> stored_auth g k = None \<and> authorization_count g' = authorization_count g"
    by (cases d)
       (auto simp: authorize_with_def authorize_def stored_auth_def authorization_count_def Let_def
          split: option.splits if_splits)
next
  fix g k x d g' k'
  assume "authorize_with d k g = (x, g')" "k' \<noteq> (k :: string)"
  then show "stored_auth g' k' = stored_auth g k'"
    by (cases d)
       (auto simp: authorize_with_def authorize_def stored_auth_def Let_def map_add_def
          split: option.splits if_splits)
qed

text \<open>A sequence of authorize calls with one key, as the saga and its retries make them.\<close>

fun authorize_all ::
  "(string \<times> string \<times> cents \<times> string) list \<Rightarrow> string \<Rightarrow> gateway \<Rightarrow> (exn + auth_result) list \<times> gateway" where
  "authorize_all [] key g = ([], g)"
| "authorize_all ((hex, token, amount, currency) # ds) key g =
     (case authorize hex token amount currency key g of
        (x, g1) \<Rightarrow> (case authorize_all ds key g1 of (xs, g2) \<Rightarrow> (x # xs, g2)))"

lemma authorize_all_attempts: "authorize_all ds key g = fake.attempts ds key g"
  by (induction ds arbitrary: g) (auto simp: authorize_with_def split: prod.splits)

text \<open>
  C24: however often \<open>authorize\<close> is called with one idempotency key, whatever the cards and
  amounts, at most one authorization is made and every answer is that one.
\<close>

theorem authorize_charges_once:
  assumes "authorize_all ds key g = (xs, g')"
  shows "authorization_count g' \<le> Suc (authorization_count g) \<and>
         (\<forall>r r'. Inr r \<notin> set xs \<or> Inr r' \<notin> set xs \<or> r = r')"
  using fake.charged_at_most_once assms [unfolded authorize_all_attempts] by blast

theorem authorize_charges_once_witness:
  "authorization_count (snd (authorize_all
     [(''a'', ''tok_test_aaaa11110119'', 100, ''CAD''), (''b'', ''tok_test_aaaa11110119'', 100, ''CAD'')]
     ''k:auth'' empty_gateway)) \<le> Suc (authorization_count empty_gateway)"
proof -
  obtain xs g' where r: "authorize_all
     [(''a'', ''tok_test_aaaa11110119'', 100, ''CAD''), (''b'', ''tok_test_aaaa11110119'', 100, ''CAD'')]
     ''k:auth'' empty_gateway = (xs, g')"
    by (cases "authorize_all
     [(''a'', ''tok_test_aaaa11110119'', 100, ''CAD''), (''b'', ''tok_test_aaaa11110119'', 100, ''CAD'')]
     ''k:auth'' empty_gateway")
  show ?thesis
    using authorize_charges_once [OF r] r by simp
qed

lemma trigger_values:
  "trigger_for ''tok_test_aaaa11110000'' = APPROVE"
  "trigger_for ''tok_test_aaaa11110002'' = DECLINE_INSUFFICIENT_FUNDS"
  "trigger_for ''tok_test_aaaa11110119'' = GATEWAY_TIMEOUT_THEN_OK"
  "trigger_for ''tok_test_aaaa11119995'' = TICKETING_FAILURE"
  "trigger_for ''tok_test_aaaa11115309'' = REFUND_FAILURE"
  by (simp_all add: trigger_for_def SUFFIX_TRIGGERS_def last4_def)

end
