(* ===== verification/Sky_World.thy ===== *)
theory Sky_World
  imports Sky_Redis Sky_Gateway
begin

text \<open>
  The state the handlers run in: the committed database, the database as the session of
  the running request sees it, the gateway, Redis and the supply of fresh UUIDs
  (\<^verbatim>\<open>app/db.py\<close>: one session per request, rolled back on an exception). On top of it, the
  security event log (\<^verbatim>\<open>app/security/events.py\<close>) and the booking audit trail
  (\<^verbatim>\<open>app/services/audit.py\<close>).
\<close>

record world =
  w_com :: db
  w_cur :: db
  w_gw :: gateway
  w_redis :: redis
  w_fresh :: nat

definition commit :: "world \<Rightarrow> world" where
  "commit w = w\<lparr>w_com := w_cur w\<rparr>"

definition rollback :: "world \<Rightarrow> world" where
  "rollback w = w\<lparr>w_cur := w_com w\<rparr>"

text \<open>The session works on the committed rows (a new transaction has begun).\<close>

definition idle :: "world \<Rightarrow> bool" where
  "idle w = (w_cur w = w_com w)"

definition map_cur :: "(db \<Rightarrow> db) \<Rightarrow> world \<Rightarrow> world" where
  "map_cur f w = w\<lparr>w_cur := f (w_cur w)\<rparr>"

text \<open>\<open>uuid4()\<close> never repeats a value: the supply is a counter.\<close>

definition uuid4 :: "world \<Rightarrow> uuid \<times> world" where
  "uuid4 w = (w_fresh w, w\<lparr>w_fresh := Suc (w_fresh w)\<rparr>)"

lemma commit_simps [simp]:
  "w_com (commit w) = w_cur w" "w_cur (commit w) = w_cur w" "w_gw (commit w) = w_gw w"
  "w_redis (commit w) = w_redis w" "w_fresh (commit w) = w_fresh w"
  by (simp_all add: commit_def)

lemma rollback_simps [simp]:
  "w_com (rollback w) = w_com w" "w_cur (rollback w) = w_com w" "w_gw (rollback w) = w_gw w"
  "w_redis (rollback w) = w_redis w" "w_fresh (rollback w) = w_fresh w"
  by (simp_all add: rollback_def)

lemma map_cur_simps [simp]:
  "w_com (map_cur f w) = w_com w" "w_cur (map_cur f w) = f (w_cur w)" "w_gw (map_cur f w) = w_gw w"
  "w_redis (map_cur f w) = w_redis w" "w_fresh (map_cur f w) = w_fresh w"
  by (simp_all add: map_cur_def)

text \<open>\<open>session_scope\<close>: commit on a normal end, roll back and re-raise on an exception.\<close>

definition session_scope :: "(world \<Rightarrow> (exn + 'a) \<times> world) \<Rightarrow> world \<Rightarrow> (exn + 'a) \<times> world" where
  "session_scope body w =
     (case body w of
        (Inl e, w') \<Rightarrow> (Inl e, rollback w')
      | (Inr x, w') \<Rightarrow> (Inr x, commit w'))"

text \<open>\<open>get_db\<close>: the request's session is rolled back on an exception, and never committed here.\<close>

definition get_db :: "(world \<Rightarrow> (exn + 'a) \<times> world) \<Rightarrow> world \<Rightarrow> (exn + 'a) \<times> world" where
  "get_db handler w =
     (case handler w of (x, w') \<Rightarrow> (x, rollback w'))"

text \<open>
  One transaction of a handler: its work on the database it sees, committed at the end; an
  exception leaves it to \<open>get_db\<close> (or the handler) to roll back.
\<close>

definition transact :: "(db \<Rightarrow> exn + ('a \<times> db)) \<Rightarrow> world \<Rightarrow> (exn + 'a) \<times> world" where
  "transact body w =
     (case body (w_cur w) of
        Inl e \<Rightarrow> (Inl e, rollback w)
      | Inr (x, d) \<Rightarrow> (Inr x, commit (map_cur (\<lambda>_. d) w)))"

subsection \<open>Requests and the security event log\<close>

record request =
  rq_client :: "string option"
  rq_user_agent :: string
  rq_method :: string
  rq_path :: string

definition client_ip :: "request option \<Rightarrow> string option" where
  "client_ip rq = (case rq of None \<Rightarrow> None | Some r \<Rightarrow> rq_client r)"

record event_args =
  ev_actor_user_id :: "uuid option"
  ev_actor_email :: "string option"
  ev_resource_type :: "string option"
  ev_resource_id :: "string option"
  ev_decision :: "string option"
  ev_detail :: json

definition no_args :: event_args where
  "no_args = \<lparr>ev_actor_user_id = None, ev_actor_email = None, ev_resource_type = None,
             ev_resource_id = None, ev_decision = None, ev_detail = JObj []\<rparr>"

definition request_fields ::
  "request option \<Rightarrow> string option \<times> string option \<times> string option \<times> string option" where
  "request_fields rq =
     (case rq of
        None \<Rightarrow> (None, None, None, None)
      | Some r \<Rightarrow> (client_ip rq, or_none (take 400 (rq_user_agent r)), Some (rq_method r),
                   Some (take 200 (rq_path r))))"

definition add_event ::
  "time \<Rightarrow> request option \<Rightarrow> security_event_type \<Rightarrow> severity \<Rightarrow> event_args \<Rightarrow> db \<Rightarrow> db" where
  "add_event now rq et sv a d =
     (case request_fields rq of (ip, ua, meth, path) \<Rightarrow>
        d\<lparr>d_events := d_events d @
            [\<lparr>se_id = Suc (length (d_events d)), se_occurred_at = now, se_event_type = et,
              se_severity = sv, se_actor_user_id = ev_actor_user_id a,
              se_actor_email = ev_actor_email a, se_ip = ip, se_user_agent = ua,
              se_method = meth, se_path = path, se_resource_type = ev_resource_type a,
              se_resource_id = ev_resource_id a, se_decision = ev_decision a,
              se_detail = ev_detail a\<rparr>]\<rparr>)"

text \<open>In the caller's transaction: the caller commits.\<close>

definition record_security_event ::
  "time \<Rightarrow> request option \<Rightarrow> security_event_type \<Rightarrow> severity \<Rightarrow> event_args \<Rightarrow> world \<Rightarrow> world" where
  "record_security_event now rq et sv a w = map_cur (add_event now rq et sv a) w"

text \<open>
  In a transaction of its own (\<open>session_scope\<close> on another connection): the row is committed
  whatever the surrounding transaction does, and that transaction sees it.
\<close>

definition record_security_event_bg ::
  "time \<Rightarrow> request option \<Rightarrow> security_event_type \<Rightarrow> severity \<Rightarrow> event_args \<Rightarrow> world \<Rightarrow> world" where
  "record_security_event_bg now rq et sv a w =
     w\<lparr>w_com := add_event now rq et sv a (w_com w), w_cur := add_event now rq et sv a (w_cur w)\<rparr>"

lemma event_bg_simps [simp]:
  "w_com (record_security_event_bg now rq et sv a w) = add_event now rq et sv a (w_com w)"
  "w_cur (record_security_event_bg now rq et sv a w) = add_event now rq et sv a (w_cur w)"
  "w_gw (record_security_event_bg now rq et sv a w) = w_gw w"
  "w_redis (record_security_event_bg now rq et sv a w) = w_redis w"
  "w_fresh (record_security_event_bg now rq et sv a w) = w_fresh w"
  by (simp_all add: record_security_event_bg_def)

lemma add_event_frame [simp]:
  "d_users (add_event now rq et sv a d) = d_users d" "d_tokens (add_event now rq et sv a d) = d_tokens d"
  "d_airports (add_event now rq et sv a d) = d_airports d"
  "d_airlines (add_event now rq et sv a d) = d_airlines d" "d_routes (add_event now rq et sv a d) = d_routes d"
  "d_flights (add_event now rq et sv a d) = d_flights d" "d_fares (add_event now rq et sv a d) = d_fares d"
  "d_seats (add_event now rq et sv a d) = d_seats d" "d_bookings (add_event now rq et sv a d) = d_bookings d"
  "d_passengers (add_event now rq et sv a d) = d_passengers d"
  "d_payments (add_event now rq et sv a d) = d_payments d" "d_tickets (add_event now rq et sv a d) = d_tickets d"
  "d_idem (add_event now rq et sv a d) = d_idem d" "d_audit (add_event now rq et sv a d) = d_audit d"
  by (simp_all add: add_event_def split: prod.splits)

text \<open>
  The row of a denial survives the rollback of the transaction that did the denying,
  the row of an event written in the caller's session does not.
\<close>

theorem bg_event_survives_rollback:
  "d_events (w_com (rollback (record_security_event_bg now rq et sv a w))) =
     d_events (w_com w) @ [last (d_events (w_com (record_security_event_bg now rq et sv a w)))] \<and>
   d_events (w_com (rollback (record_security_event now rq et sv a w))) = d_events (w_com w) \<and>
   se_event_type (last (d_events (w_com (record_security_event_bg now rq et sv a w)))) = et \<and>
   se_severity (last (d_events (w_com (record_security_event_bg now rq et sv a w)))) = sv"
  by (simp add: record_security_event_def add_event_def split: prod.splits)

subsection \<open>The audit trail\<close>

definition audit_rows :: "uuid \<Rightarrow> db \<Rightarrow> booking_audit list" where
  "audit_rows b d = filter (\<lambda>a. a_booking_id a = b) (d_audit d)"

text \<open>\<open>coalesce(max(seq), 0) + 1\<close> over the rows of the booking.\<close>

definition next_seq :: "uuid \<Rightarrow> db \<Rightarrow> nat" where
  "next_seq b d = fold max (map a_seq (audit_rows b d)) 0 + 1"

record audit_args =
  au_actor_type :: string
  au_actor_id :: "uuid option"
  au_from :: "booking_state option"
  au_to :: "booking_state option"
  au_detail :: json

definition system_args :: audit_args where
  "system_args = \<lparr>au_actor_type = ''system'', au_actor_id = None, au_from = None, au_to = None,
                  au_detail = JObj []\<rparr>"

definition audit_record :: "uuid \<Rightarrow> audit_event \<Rightarrow> audit_args \<Rightarrow> db \<Rightarrow> db" where
  "audit_record b et a d =
     d\<lparr>d_audit := d_audit d @
         [\<lparr>a_id = Suc (length (d_audit d)), a_booking_id = b, a_seq = next_seq b d,
           a_event_type = et, a_actor_type = au_actor_type a, a_actor_id = au_actor_id a,
           a_from_state = au_from a, a_to_state = au_to a, a_detail = au_detail a\<rparr>]\<rparr>"

lemma audit_frame [simp]:
  "d_users (audit_record b et a d) = d_users d" "d_tokens (audit_record b et a d) = d_tokens d"
  "d_airports (audit_record b et a d) = d_airports d"
  "d_airlines (audit_record b et a d) = d_airlines d" "d_routes (audit_record b et a d) = d_routes d"
  "d_flights (audit_record b et a d) = d_flights d" "d_fares (audit_record b et a d) = d_fares d"
  "d_seats (audit_record b et a d) = d_seats d" "d_bookings (audit_record b et a d) = d_bookings d"
  "d_passengers (audit_record b et a d) = d_passengers d"
  "d_payments (audit_record b et a d) = d_payments d" "d_tickets (audit_record b et a d) = d_tickets d"
  "d_idem (audit_record b et a d) = d_idem d" "d_events (audit_record b et a d) = d_events d"
  by (simp_all add: audit_record_def)

text \<open>The history of a booking is numbered 1, 2, 3, ... in the order it was written.\<close>

definition gap_free :: "db \<Rightarrow> bool" where
  "gap_free d = (\<forall>b. map a_seq (audit_rows b d) = [1..<Suc (length (audit_rows b d))])"

definition audit_ids :: "db \<Rightarrow> bool" where
  "audit_ids d = (map a_id (d_audit d) = [1..<Suc (length (d_audit d))])"

lemma fold_max_upt: "fold max [1..<Suc n] (0::nat) = n"
  by (induction n) auto

lemma next_seq_gap_free: "gap_free d \<Longrightarrow> next_seq b d = Suc (length (audit_rows b d))"
  using fold_max_upt by (simp add: next_seq_def gap_free_def del: upt_Suc)

lemma audit_rows_record:
  "audit_rows b' (audit_record b et a d) =
     audit_rows b' d @ (if b' = b then [last (d_audit (audit_record b et a d))] else [])"
  by (simp add: audit_rows_def audit_record_def)

lemma gap_free_record: "gap_free d \<Longrightarrow> gap_free (audit_record b et a d)"
  unfolding gap_free_def [of "audit_record b et a d"] audit_rows_record
  using next_seq_gap_free [of d b] by (auto simp: gap_free_def audit_record_def)

lemma gap_free_other: "d_audit d' = d_audit d \<Longrightarrow> gap_free d' = gap_free d"
  by (simp add: gap_free_def audit_rows_def)

lemma audit_ids_record: "audit_ids d \<Longrightarrow> audit_ids (audit_record b et a d)"
  by (simp add: audit_ids_def audit_record_def)

lemma distinct_trail:
  assumes "gap_free d" "r \<in> set (d_audit d)" "r' \<in> set (d_audit d)"
    "a_booking_id r = a_booking_id r'" "a_seq r = a_seq r'"
  shows "r = r'"
proof -
  have "distinct (map a_seq (audit_rows (a_booking_id r) d))"
    using assms(1) by (simp add: gap_free_def del: upt_Suc)
  moreover have "r \<in> set (audit_rows (a_booking_id r) d)" "r' \<in> set (audit_rows (a_booking_id r) d)"
    using assms by (auto simp: audit_rows_def)
  ultimately show ?thesis
    using assms(5) by (auto simp: distinct_map inj_on_def)
qed

text \<open>A run of \<open>record\<close> calls, as the transactions that touch several bookings make them.\<close>

definition record_all :: "(uuid \<times> audit_event \<times> audit_args) list \<Rightarrow> db \<Rightarrow> db" where
  "record_all es d = fold (\<lambda>(b, et, a). audit_record b et a) es d"

lemma record_all_append: "\<exists>rows. d_audit (record_all es d) = d_audit d @ rows \<and> length rows = length es"
proof (induction es arbitrary: d)
  case Nil
  then show ?case by (simp add: record_all_def)
next
  case (Cons e es)
  obtain b et a where e: "e = (b, et, a)" by (cases e)
  obtain rows where "d_audit (record_all es (audit_record b et a d)) = d_audit (audit_record b et a d) @ rows"
      "length rows = length es"
    using Cons by blast
  then show ?case
    using e by (auto simp: record_all_def audit_record_def)
qed

text \<open>
  The trail only grows, and however the records of different bookings interleave each
  booking's rows stay numbered 1, 2, 3, ... without a gap; a row is identified by its
  booking and number.
\<close>

theorem audit_trail_gap_free:
  assumes "gap_free d"
  shows "gap_free (record_all es d) \<and>
         (\<exists>rows. d_audit (record_all es d) = d_audit d @ rows \<and> length rows = length es) \<and>
         (unique_key a_id (d_audit (record_all es d)) \<longrightarrow> audit_ok (d_audit (record_all es d)))"
proof -
  have g: "gap_free (record_all es d)"
    using assms by (induction es arbitrary: d) (auto simp: record_all_def gap_free_record)
  have "unique_key a_id (d_audit (record_all es d)) \<Longrightarrow> audit_ok (d_audit (record_all es d))"
  proof -
    assume u: "unique_key a_id (d_audit (record_all es d))"
    then have "distinct (d_audit (record_all es d))"
      by (simp add: unique_key_def distinct_map)
    then have "unique_key (\<lambda>a. (a_booking_id a, a_seq a)) (d_audit (record_all es d))"
      unfolding unique_key_def distinct_map inj_on_def using distinct_trail [OF g] by auto
    with u show "audit_ok (d_audit (record_all es d))"
      by (simp add: audit_ok_def)
  qed
  with g show ?thesis
    using record_all_append by blast
qed

theorem audit_trail_gap_free_witness:
  "gap_free (record_all [(4, AE_BOOKING_CREATED, system_args), (9, AE_BOOKING_CREATED, system_args),
                         (4, AE_SEATS_LOCKED, system_args)] empty_db)"
proof -
  have "gap_free empty_db"
    by (simp add: gap_free_def audit_rows_def empty_db_def)
  from audit_trail_gap_free [OF this] show ?thesis by blast
qed

subsection \<open>A sound database\<close>

text \<open>
  The constraints of the schema together with what the append-only tables add: the
  identity columns count up from one and the history of each booking is gap-free. Every
  operation of the services keeps this.
\<close>

definition event_ids :: "db \<Rightarrow> bool" where
  "event_ids d = (map se_id (d_events d) = [1..<Suc (length (d_events d))])"

definition sound :: "db \<Rightarrow> bool" where
  "sound d = (db_ok d \<and> gap_free d \<and> audit_ids d \<and> event_ids d)"

lemma soundD:
  assumes "sound d"
  shows "db_ok d" "gap_free d" "seats_ok (d_seats d)" "unique_key s_id (d_seats d)" "tickets_ok (d_tickets d)"
  using assms by (auto simp: sound_def db_ok_def seats_ok_def)

lemma audit_ok_record:
  assumes "gap_free d" "audit_ids d"
  shows "audit_ok (d_audit (audit_record b et a d))"
proof -
  have ids: "audit_ids (audit_record b et a d)"
    using assms(2) by (simp add: audit_ids_def audit_record_def)
  then have u: "unique_key a_id (d_audit (audit_record b et a d))"
    by (simp add: unique_key_def audit_ids_def del: upt_Suc)
  have g: "gap_free (audit_record b et a d)"
    using assms(1) by (simp add: gap_free_record)
  have "distinct (d_audit (audit_record b et a d))"
    using u by (simp add: unique_key_def distinct_map)
  then have "unique_key (\<lambda>a. (a_booking_id a, a_seq a)) (d_audit (audit_record b et a d))"
    unfolding unique_key_def distinct_map inj_on_def using distinct_trail [OF g] by auto
  with u show ?thesis
    by (simp add: audit_ok_def)
qed

lemma sound_audit [simp]:
  assumes "sound d"
  shows "sound (audit_record b et a d)"
proof -
  have "audit_ok (d_audit (audit_record b et a d))"
    using assms by (simp add: sound_def audit_ok_record)
  moreover have "audit_ids (audit_record b et a d)"
    using assms by (simp add: sound_def audit_ids_def audit_record_def)
  ultimately show ?thesis
    using assms by (simp add: sound_def gap_free_record db_ok_def event_ids_def)
qed

lemma sound_event [simp]:
  assumes "sound d"
  shows "sound (add_event now rq et sv a d)"
proof -
  have "event_ids (add_event now rq et sv a d)"
    using assms by (auto simp: sound_def event_ids_def add_event_def split: prod.splits)
  moreover from this have "unique_key se_id (d_events (add_event now rq et sv a d))"
    by (simp add: unique_key_def event_ids_def del: upt_Suc)
  ultimately show ?thesis
    using assms by (simp add: sound_def db_ok_def gap_free_def audit_ids_def audit_rows_def)
qed

text \<open>An operation that leaves the two logs alone only has to keep the constraints.\<close>

lemma sound_same_logs:
  assumes "sound d" "db_ok d'" "d_audit d' = d_audit d" "d_events d' = d_events d"
  shows "sound d'"
  using assms by (simp add: sound_def gap_free_def audit_ids_def event_ids_def audit_rows_def)

lemma insert_frames:
  "insert_user u d = Inr d' \<Longrightarrow> d_audit d' = d_audit d \<and> d_events d' = d_events d"
  "insert_token r d = Inr d' \<Longrightarrow> d_audit d' = d_audit d \<and> d_events d' = d_events d"
  "insert_booking b d = Inr d' \<Longrightarrow> d_audit d' = d_audit d \<and> d_events d' = d_events d"
  "insert_payment p d = Inr d' \<Longrightarrow> d_audit d' = d_audit d \<and> d_events d' = d_events d"
  "insert_ticket t d = Inr d' \<Longrightarrow> d_audit d' = d_audit d \<and> d_events d' = d_events d"
  "update_seats q f d = Inr d' \<Longrightarrow> d_audit d' = d_audit d \<and> d_events d' = d_events d"
  by (auto simp: insert_user_def insert_token_def insert_booking_def insert_payment_def
      insert_ticket_def update_seats_def split: if_splits)

lemma sound_inserts:
  "sound d \<Longrightarrow> insert_user u d = Inr d' \<Longrightarrow> sound d'"
  "sound d \<Longrightarrow> insert_token r d = Inr d' \<Longrightarrow> sound d'"
  "sound d \<Longrightarrow> insert_booking b d = Inr d' \<Longrightarrow> sound d'"
  "sound d \<Longrightarrow> insert_payment p d = Inr d' \<Longrightarrow> sound d'"
  "sound d \<Longrightarrow> insert_ticket t d = Inr d' \<Longrightarrow> sound d'"
  by (metis sound_same_logs soundD(1) insert_ok insert_frames)+

lemma sound_update_seats:
  assumes "sound d" "update_seats p f d = Inr d'"
    and "\<And>s. s_id (f s) = s_id s" "\<And>s. s_flight_id (f s) = s_flight_id s"
        "\<And>s. s_seat_no (f s) = s_seat_no s"
  shows "sound d'"
  using sound_same_logs [OF assms(1)] update_seats_ok [OF soundD(1) [OF assms(1)] assms(2-5)]
    insert_frames(6) [OF assms(2)] by blast

lemma sound_seatsI:
  "sound d \<Longrightarrow> seats_ok ss \<Longrightarrow> sound (d\<lparr>d_seats := ss\<rparr>)"
  by (rule sound_same_logs) (auto intro: db_ok_seatsI dest: soundD)

lemma sound_passengers:
  "sound d \<Longrightarrow> unique_key p_id ps \<Longrightarrow> sound (d\<lparr>d_passengers := ps\<rparr>)"
  by (rule sound_same_logs) (auto simp: db_ok_def dest: soundD)

lemma sound_release_seats:
  assumes "sound d" "release_seats_for_booking now b d = (r, d')"
  shows "sound d'"
  using sound_same_logs [OF assms(1) release_seats_ok [OF soundD(1) [OF assms(1)] assms(2)]] assms(2)
  by (auto simp: release_seats_for_booking_def)

lemma empty_sound [simp]: "sound empty_db"
  by (simp add: sound_def db_ok_def empty_db_def seats_ok_def tickets_ok_def audit_ok_def
      unique_key_def gap_free_def audit_rows_def audit_ids_def event_ids_def)

end
