(* ===== verification/Sky_Carding.thy ===== *)
theory Sky_Carding
  imports Sky_World
begin

text \<open>
  \<^verbatim>\<open>app/security/carding.py\<close>: card-testing detection. The windows are Redis sorted sets;
  \<open>ms\<close> gives the successive readings of the clock (\<open>_now_ms\<close>) within one call, \<open>hx\<close> the
  successive \<open>uuid4().hex\<close> draws, \<open>up\<close> whether Redis answers.
\<close>

definition W_DISTINCT_CARDS :: int where "W_DISTINCT_CARDS = 3600"
definition W_CARD_ACROSS_ACCOUNTS :: int where "W_CARD_ACROSS_ACCOUNTS = 86400"
definition W_DECLINES :: int where "W_DECLINES = 600"
definition W_OUTCOME_SEQUENCE :: int where "W_OUTCOME_SEQUENCE = 900"
definition W_RAPID_BOOKINGS :: int where "W_RAPID_BOOKINGS = 120"
definition W_SMALL_AMOUNTS :: int where "W_SMALL_AMOUNTS = 3600"
definition W_RISK_FLAG :: int where "W_RISK_FLAG = 1800"

definition T_DISTINCT_CARDS :: nat where "T_DISTINCT_CARDS = 4"
definition T_DECLINES_PER_ACCOUNT :: nat where "T_DECLINES_PER_ACCOUNT = 5"
definition T_DECLINES_PER_IP :: nat where "T_DECLINES_PER_IP = 8"
definition T_DECLINE_BURST :: nat where "T_DECLINE_BURST = 3"
definition T_CARD_ACCOUNTS :: nat where "T_CARD_ACCOUNTS = 3"
definition T_RAPID_BOOKINGS :: nat where "T_RAPID_BOOKINGS = 3"
definition T_SMALL_AMOUNTS :: nat where "T_SMALL_AMOUNTS = 5"
definition SMALL_AMOUNT_CEILING :: cents where "SMALL_AMOUNT_CEILING = 4000"

definition SCORE_BLOCK :: int where "SCORE_BLOCK = 60"
definition SCORE_CHALLENGE :: int where "SCORE_CHALLENGE = 30"

lemmas carding_constants =
  W_DISTINCT_CARDS_def W_CARD_ACROSS_ACCOUNTS_def W_DECLINES_def W_OUTCOME_SEQUENCE_def
  W_RAPID_BOOKINGS_def W_SMALL_AMOUNTS_def W_RISK_FLAG_def T_DISTINCT_CARDS_def
  T_DECLINES_PER_ACCOUNT_def T_DECLINES_PER_IP_def T_DECLINE_BURST_def T_CARD_ACCOUNTS_def
  T_RAPID_BOOKINGS_def T_SMALL_AMOUNTS_def SMALL_AMOUNT_CEILING_def SCORE_BLOCK_def
  SCORE_CHALLENGE_def

record rule_hit =
  rh_rule :: string
  rh_score :: int
  rh_observed :: nat
  rh_threshold :: nat
  rh_window_seconds :: int
  rh_note :: string

definition rule_hit_dict :: "rule_hit \<Rightarrow> json" where
  "rule_hit_dict h =
     JObj [(''rule'', JStr (rh_rule h)), (''score'', JInt (rh_score h)),
           (''observed'', JInt (int (rh_observed h))), (''threshold'', JInt (int (rh_threshold h))),
           (''window_seconds'', JInt (rh_window_seconds h)), (''note'', JStr (rh_note h))]"

record assessment =
  as_score :: int
  as_hits :: "rule_hit list"

definition as_decision :: "assessment \<Rightarrow> decision" where
  "as_decision a =
     (if as_score a \<ge> SCORE_BLOCK then BLOCK
      else if as_score a \<ge> SCORE_CHALLENGE then CHALLENGE else ALLOW)"

definition as_severity :: "assessment \<Rightarrow> severity" where
  "as_severity a =
     (if as_score a \<ge> SCORE_BLOCK then SV_HIGH
      else if as_score a \<ge> SCORE_CHALLENGE then SV_MEDIUM else SV_INFO)"

definition as_dict :: "assessment \<Rightarrow> json" where
  "as_dict a =
     JObj [(''score'', JInt (as_score a)), (''decision'', JStr (decision_value (as_decision a))),
           (''rules_hit'', JList (map (\<lambda>h. JStr (rh_rule h)) (as_hits a))),
           (''hits'', JList (map rule_hit_dict (as_hits a)))]"

subsection \<open>Redis helpers and key layout\<close>

definition carding_touch :: "int \<Rightarrow> string \<Rightarrow> string \<Rightarrow> int \<Rightarrow> redis \<Rightarrow> nat \<times> redis" where
  "carding_touch now key member win r =
     (let r1 = zremrangebyscore now key 0 (now - win * 1000) r;
          r2 = zadd now key member now r1
      in (zcard now key r2, expire now key (win + 1) r2))"

definition carding_count :: "int \<Rightarrow> string \<Rightarrow> int \<Rightarrow> redis \<Rightarrow> nat \<times> redis" where
  "carding_count now key win r =
     (let r1 = zremrangebyscore now key 0 (now - win * 1000) r in (zcard now key r1, r1))"

definition carding_members :: "int \<Rightarrow> string \<Rightarrow> int \<Rightarrow> redis \<Rightarrow> string list \<times> redis" where
  "carding_members now key win r =
     (let r1 = zremrangebyscore now key 0 (now - win * 1000) r in (zrange_all now key r1, r1))"

definition k_distinct_cards :: "uuid \<Rightarrow> string" where "k_distinct_cards u = ''cd:cards:u:'' @ uuid_str u"
definition k_card_accounts :: "string \<Rightarrow> string" where "k_card_accounts fp = ''cd:accts:fp:'' @ fp"
definition k_declines_user :: "uuid \<Rightarrow> string" where "k_declines_user u = ''cd:dec:u:'' @ uuid_str u"
definition k_declines_ip :: "string \<Rightarrow> string" where "k_declines_ip ip = ''cd:dec:ip:'' @ ip"
definition k_outcomes :: "uuid \<Rightarrow> string" where "k_outcomes u = ''cd:out:u:'' @ uuid_str u"
definition k_bookings :: "uuid \<Rightarrow> string" where "k_bookings u = ''cd:bk:u:'' @ uuid_str u"
definition k_small :: "uuid \<Rightarrow> string" where "k_small u = ''cd:small:u:'' @ uuid_str u"
definition k_risk :: "uuid \<Rightarrow> string" where "k_risk u = ''cd:risk:u:'' @ uuid_str u"

text \<open>\<open>if ip\<close>: neither absent nor empty.\<close>

definition truthy_ip :: "string option \<Rightarrow> bool" where
  "truthy_ip ip = (case ip of None \<Rightarrow> False | Some i \<Rightarrow> i \<noteq> [])"

subsection \<open>The rules\<close>

record signals =
  sg_distinct_cards :: nat
  sg_card_accounts :: nat
  sg_rapid_bookings :: nat
  sg_declines_user :: nat
  sg_declines_ip :: nat
  sg_small_count :: nat
  sg_risk_flag :: bool

text \<open>The seven readings of one assessment, in the order of the code.\<close>

definition read_signals ::
  "(nat \<Rightarrow> int) \<Rightarrow> (nat \<Rightarrow> string) \<Rightarrow> uuid \<Rightarrow> string option \<Rightarrow> string \<Rightarrow> cents \<Rightarrow> redis \<Rightarrow> signals \<times> redis" where
  "read_signals ms hx user_id ip fp amount r0 =
     (case carding_touch (ms 0) (k_distinct_cards user_id) fp W_DISTINCT_CARDS r0 of (dc, r1) \<Rightarrow>
      case carding_touch (ms 1) (k_card_accounts fp) (uuid_str user_id) W_CARD_ACROSS_ACCOUNTS r1 of (ca, r2) \<Rightarrow>
      case carding_touch (ms 2) (k_bookings user_id) (hx 0) W_RAPID_BOOKINGS r2 of (rb, r3) \<Rightarrow>
      case carding_count (ms 3) (k_declines_user user_id) W_DECLINES r3 of (du, r4) \<Rightarrow>
      case (if truthy_ip ip then carding_count (ms 4) (k_declines_ip (the ip)) W_DECLINES r4 else (0, r4)) of (di, r5) \<Rightarrow>
      case (if amount \<le> SMALL_AMOUNT_CEILING
            then carding_touch (ms 5) (k_small user_id) (hx 1) W_SMALL_AMOUNTS r5
            else carding_count (ms 5) (k_small user_id) W_SMALL_AMOUNTS r5) of (sc, r6) \<Rightarrow>
      (\<lparr>sg_distinct_cards = dc, sg_card_accounts = ca, sg_rapid_bookings = rb, sg_declines_user = du,
        sg_declines_ip = di, sg_small_count = sc,
        sg_risk_flag = (case redis_get (ms 6) (k_risk user_id) r6 of None \<Rightarrow> False | Some v \<Rightarrow> v \<noteq> [])\<rparr>,
       r6))"

definition hit_when :: "bool \<Rightarrow> rule_hit \<Rightarrow> rule_hit list" where
  "hit_when b h = (if b then [h] else [])"

definition rule_hits :: "signals \<Rightarrow> rule_hit list" where
  "rule_hits s =
     hit_when (sg_distinct_cards s \<ge> T_DISTINCT_CARDS)
       \<lparr>rh_rule = ''distinct_cards_per_account'', rh_score = 40, rh_observed = sg_distinct_cards s,
        rh_threshold = T_DISTINCT_CARDS, rh_window_seconds = W_DISTINCT_CARDS,
        rh_note = ''account has attempted an unusual number of different cards''\<rparr> @
     hit_when (sg_declines_user s \<ge> T_DECLINES_PER_ACCOUNT)
       \<lparr>rh_rule = ''declines_per_account'', rh_score = 35, rh_observed = sg_declines_user s,
        rh_threshold = T_DECLINES_PER_ACCOUNT, rh_window_seconds = W_DECLINES,
        rh_note = ''repeated declines on this account''\<rparr> @
     hit_when (sg_declines_ip s \<ge> T_DECLINES_PER_IP)
       \<lparr>rh_rule = ''declines_per_ip'', rh_score = 30, rh_observed = sg_declines_ip s,
        rh_threshold = T_DECLINES_PER_IP, rh_window_seconds = W_DECLINES,
        rh_note = ''repeated declines from this address''\<rparr> @
     hit_when (sg_card_accounts s \<ge> T_CARD_ACCOUNTS)
       \<lparr>rh_rule = ''card_across_accounts'', rh_score = 45, rh_observed = sg_card_accounts s,
        rh_threshold = T_CARD_ACCOUNTS, rh_window_seconds = W_CARD_ACROSS_ACCOUNTS,
        rh_note = ''this card has been used on multiple accounts''\<rparr> @
     hit_when (sg_rapid_bookings s \<ge> T_RAPID_BOOKINGS)
       \<lparr>rh_rule = ''rapid_fire_bookings'', rh_score = 25, rh_observed = sg_rapid_bookings s,
        rh_threshold = T_RAPID_BOOKINGS, rh_window_seconds = W_RAPID_BOOKINGS,
        rh_note = ''booking attempts faster than a human checkout''\<rparr> @
     hit_when (sg_small_count s \<ge> T_SMALL_AMOUNTS)
       \<lparr>rh_rule = ''small_amount_velocity'', rh_score = 20, rh_observed = sg_small_count s,
        rh_threshold = T_SMALL_AMOUNTS, rh_window_seconds = W_SMALL_AMOUNTS,
        rh_note = ''many auths at or below '' @ show_cents SMALL_AMOUNT_CEILING\<rparr> @
     hit_when (sg_risk_flag s)
       \<lparr>rh_rule = ''recent_card_validation'', rh_score = 50, rh_observed = 1, rh_threshold = 1,
        rh_window_seconds = W_RISK_FLAG,
        rh_note = ''a decline burst was recently followed by a success on this account''\<rparr>"

definition assess :: "signals \<Rightarrow> assessment" where
  "assess s = \<lparr>as_score = sum_list (map rh_score (rule_hits s)), as_hits = rule_hits s\<rparr>"

definition assess_payment_attempt ::
  "bool \<Rightarrow> (nat \<Rightarrow> int) \<Rightarrow> (nat \<Rightarrow> string) \<Rightarrow> time \<Rightarrow> request option \<Rightarrow> uuid \<Rightarrow> string option \<Rightarrow>
   string \<Rightarrow> cents \<Rightarrow> world \<Rightarrow> assessment \<times> world" where
  "assess_payment_attempt up ms hx now rq user_id ip fp amount w =
     (if \<not> up then (\<lparr>as_score = 0, as_hits = []\<rparr>, w)
      else
        (case read_signals ms hx user_id ip fp amount (w_redis w) of
           (s, r') \<Rightarrow>
             let a = assess s; w' = w\<lparr>w_redis := r'\<rparr> in
             if as_decision a \<noteq> ALLOW
             then (a, record_security_event_bg now rq
                        (if as_decision a = BLOCK then SE_CARDING_BLOCKED else SE_CARDING_SUSPECTED)
                        (as_severity a)
                        (no_args\<lparr>ev_actor_user_id := Some user_id,
                           ev_resource_type := Some ''payment_attempt'',
                           ev_resource_id := Some (take 12 fp),
                           ev_decision := Some (decision_value (as_decision a)),
                           ev_detail := as_dict a\<rparr>) w')
             else (a, w')))"

definition outcome_member :: "int \<Rightarrow> bool \<Rightarrow> string" where
  "outcome_member now approved =
     show_int now @ '':'' @ (if approved then ''approve'' else ''decline'')"

text \<open>The loop over \<open>reversed(members[:-1])\<close> that stops at the first non-decline.\<close>

fun leading_declines :: "string list \<Rightarrow> nat" where
  "leading_declines [] = 0"
| "leading_declines (m # ms) = (if ends_with '':decline'' m then Suc (leading_declines ms) else 0)"

definition trailing_declines :: "string list \<Rightarrow> nat" where
  "trailing_declines members = leading_declines (rev (butlast members))"

definition record_outcome ::
  "bool \<Rightarrow> (nat \<Rightarrow> int) \<Rightarrow> (nat \<Rightarrow> string) \<Rightarrow> time \<Rightarrow> request option \<Rightarrow> uuid \<Rightarrow> string option \<Rightarrow>
   string \<Rightarrow> bool \<Rightarrow> world \<Rightarrow> world" where
  "record_outcome up ms hx now rq user_id ip fp approved w =
     (if \<not> up then w
      else
        (case carding_touch (ms 1) (k_outcomes user_id) (outcome_member (ms 0) approved)
                W_OUTCOME_SEQUENCE (w_redis w) of
           (_, r1) \<Rightarrow>
             if \<not> approved
             then (case carding_touch (ms 2) (k_declines_user user_id) (hx 0) W_DECLINES r1 of
                     (_, r2) \<Rightarrow>
                       w\<lparr>w_redis :=
                          (if truthy_ip ip
                           then snd (carding_touch (ms 3) (k_declines_ip (the ip)) (hx 1) W_DECLINES r2)
                           else r2)\<rparr>)
             else
               (case carding_members (ms 2) (k_outcomes user_id) W_OUTCOME_SEQUENCE r1 of
                  (members, r2) \<Rightarrow>
                    if trailing_declines members \<ge> T_DECLINE_BURST
                    then record_security_event_bg now rq SE_CARDING_SUSPECTED SV_HIGH
                           (no_args\<lparr>ev_actor_user_id := Some user_id,
                              ev_resource_type := Some ''payment_attempt'',
                              ev_resource_id := Some (take 12 fp),
                              ev_decision := Some ''flag_account'',
                              ev_detail := JObj
                                [(''rule'', JStr ''decline_burst_then_success''),
                                 (''trailing_declines'', JInt (int (trailing_declines members))),
                                 (''threshold'', JInt (int T_DECLINE_BURST)),
                                 (''window_seconds'', JInt W_OUTCOME_SEQUENCE),
                                 (''note'', JStr (''a card was validated after a run of failures; account flagged for '' @
                                    show_int W_RISK_FLAG @ ''s''))]\<rparr>)
                           (w\<lparr>w_redis := redis_set (ms 3) (k_risk user_id) ''card_validated'' W_RISK_FLAG r2\<rparr>)
                    else w\<lparr>w_redis := r2\<rparr>)))"

subsection \<open>The scoring\<close>

lemma score_assess:
  "as_score (assess s) =
     (if sg_distinct_cards s \<ge> 4 then 40 else 0) + (if sg_declines_user s \<ge> 5 then 35 else 0) +
     (if sg_declines_ip s \<ge> 8 then 30 else 0) + (if sg_card_accounts s \<ge> 3 then 45 else 0) +
     (if sg_rapid_bookings s \<ge> 3 then 25 else 0) + (if sg_small_count s \<ge> 5 then 20 else 0) +
     (if sg_risk_flag s then 50 else 0)"
  by (simp add: assess_def rule_hits_def hit_when_def carding_constants)

definition signals_le :: "signals \<Rightarrow> signals \<Rightarrow> bool" where
  "signals_le a b =
     (sg_distinct_cards a \<le> sg_distinct_cards b \<and> sg_card_accounts a \<le> sg_card_accounts b \<and>
      sg_rapid_bookings a \<le> sg_rapid_bookings b \<and> sg_declines_user a \<le> sg_declines_user b \<and>
      sg_declines_ip a \<le> sg_declines_ip b \<and> sg_small_count a \<le> sg_small_count b \<and>
      (sg_risk_flag a \<longrightarrow> sg_risk_flag b))"

lemma score_mono: "signals_le a b \<Longrightarrow> as_score (assess a) \<le> as_score (assess b)"
  unfolding score_assess signals_le_def by (intro add_mono) auto

lemma decision_mono: "as_score a \<le> as_score b \<Longrightarrow> as_decision a \<le> as_decision b \<and> as_severity a \<le> as_severity b"
  by (auto simp: as_decision_def as_severity_def less_eq_decision_def less_eq_severity_def carding_constants)

lemma hits_score:
  "(\<forall>h \<in> set (rule_hits s). 20 \<le> rh_score h \<and> rh_score h \<le> 50)"
  by (auto simp: rule_hits_def hit_when_def)

text \<open>
  C32: more suspicious signals never lower the decision or its severity; no rule on its own
  blocks a payment; a flagged account is challenged, and blocked as soon as any other rule
  fires as well.
\<close>

theorem carding_decision_sound:
  assumes "signals_le s s'"
  shows "as_decision (assess s) \<le> as_decision (assess s') \<and>
         as_severity (assess s) \<le> as_severity (assess s') \<and>
         (as_decision (assess s) = BLOCK \<longrightarrow> 2 \<le> length (as_hits (assess s))) \<and>
         (sg_risk_flag s \<longrightarrow> as_decision (assess s) \<noteq> ALLOW \<and>
            (2 \<le> length (as_hits (assess s)) \<longrightarrow> as_decision (assess s) = BLOCK))"
proof -
  have one: "as_decision (assess s) \<noteq> BLOCK" if "length (rule_hits s) \<le> 1"
  proof (cases "rule_hits s")
    case Nil
    then show ?thesis by (simp add: assess_def as_decision_def carding_constants)
  next
    case (Cons h hs)
    with that have "rule_hits s = [h]" by simp
    with hits_score [of s] show ?thesis
      by (simp add: assess_def as_decision_def carding_constants)
  qed
  have flag: "sg_risk_flag s \<Longrightarrow> as_decision (assess s) \<noteq> ALLOW \<and>
      (2 \<le> length (as_hits (assess s)) \<longrightarrow> as_decision (assess s) = BLOCK)"
    unfolding as_decision_def score_assess
    by (simp add: assess_def rule_hits_def hit_when_def carding_constants)
  have blk: "2 \<le> length (as_hits (assess s))" if "as_decision (assess s) = BLOCK"
  proof (rule ccontr)
    assume "\<not> 2 \<le> length (as_hits (assess s))"
    then have "length (rule_hits s) \<le> 1" by (simp add: assess_def)
    with one that show False by blast
  qed
  from decision_mono [OF score_mono [OF assms]] blk flag show ?thesis by blast
qed

theorem carding_decision_sound_witness:
  "as_decision (assess \<lparr>sg_distinct_cards = 1, sg_card_accounts = 1, sg_rapid_bookings = 1,
      sg_declines_user = 4, sg_declines_ip = 4, sg_small_count = 0, sg_risk_flag = False\<rparr>) \<le>
   as_decision (assess \<lparr>sg_distinct_cards = 5, sg_card_accounts = 1, sg_rapid_bookings = 3,
      sg_declines_user = 4, sg_declines_ip = 4, sg_small_count = 0, sg_risk_flag = False\<rparr>)"
proof -
  have "signals_le \<lparr>sg_distinct_cards = 1, sg_card_accounts = 1, sg_rapid_bookings = 1,
      sg_declines_user = 4, sg_declines_ip = 4, sg_small_count = 0, sg_risk_flag = False\<rparr>
     \<lparr>sg_distinct_cards = 5, sg_card_accounts = 1, sg_rapid_bookings = 3,
      sg_declines_user = 4, sg_declines_ip = 4, sg_small_count = 0, sg_risk_flag = False\<rparr>"
    by (simp add: signals_le_def)
  from carding_decision_sound [OF this] show ?thesis by blast
qed

subsection \<open>What the saga needs of the fraud controls\<close>

text \<open>Neither call touches the tables, the gateway or the supply of identifiers.\<close>

definition business_tables :: "db \<Rightarrow> db" where
  "business_tables d = d\<lparr>d_events := []\<rparr>"

lemma add_event_business [simp]: "business_tables (add_event now rq et sv a d) = business_tables d"
  by (simp add: business_tables_def add_event_def split: prod.splits)

lemma assess_frame:
  assumes "assess_payment_attempt up ms hx now rq u ip fp amount w = (a, w')"
  shows "business_tables (w_com w') = business_tables (w_com w)"
    "business_tables (w_cur w') = business_tables (w_cur w)"
    "w_gw w' = w_gw w" "w_fresh w' = w_fresh w" "idle w \<Longrightarrow> idle w'"
  using assms
  by (auto simp: assess_payment_attempt_def Let_def idle_def split: if_splits prod.splits)

lemma outcome_frame:
  "business_tables (w_com (record_outcome up ms hx now rq u ip fp ok w)) = business_tables (w_com w)"
  "business_tables (w_cur (record_outcome up ms hx now rq u ip fp ok w)) = business_tables (w_cur w)"
  "w_gw (record_outcome up ms hx now rq u ip fp ok w) = w_gw w"
  "w_fresh (record_outcome up ms hx now rq u ip fp ok w) = w_fresh w"
  "idle w \<Longrightarrow> idle (record_outcome up ms hx now rq u ip fp ok w)"
  by (auto simp: record_outcome_def Let_def idle_def split: prod.splits)

subsection \<open>Decline bursts\<close>

text \<open>
  The outcome log of an account: one entry per recorded payment, in time order, each at an
  instant of its own.
\<close>

definition outcome_entry :: "int \<times> bool \<Rightarrow> string \<times> int" where
  "outcome_entry x = (outcome_member (fst x) (snd x), fst x)"

definition outcome_log :: "int \<Rightarrow> uuid \<Rightarrow> (int \<times> bool) list \<Rightarrow> redis \<Rightarrow> bool" where
  "outcome_log now u hist r =
     (window_key now W_OUTCOME_SEQUENCE (k_outcomes u) r \<and>
      r_zsets r (k_outcomes u) = map outcome_entry hist \<and> sorted_wrt (<) (map fst hist))"

lemma insort_key_last:
  "(\<And>y. y \<in> set ys \<Longrightarrow> f y < f x) \<Longrightarrow> insort_key f x ys = ys @ [x]"
proof (induction ys)
  case Nil
  then show ?case by simp
next
  case (Cons a ys)
  have "f a < f x" using Cons.prems by simp
  then have "\<not> f x \<le> f a" by (simp add: not_le)
  then show ?case using Cons by simp
qed

lemma digits_no_colon: "list_all is_digit s \<Longrightarrow> takeWhile (\<lambda>c. c \<noteq> CHR '':'') (s @ CHR '':'' # t) = s"
  by (induction s) (auto simp: is_digit_def)

lemma outcome_member_inj:
  assumes "0 \<le> t" "0 \<le> t'" "outcome_member t ok = outcome_member t' ok'"
  shows "t = t'"
proof -
  have "takeWhile (\<lambda>c. c \<noteq> CHR '':'') (outcome_member t ok) = show_nat (nat t)"
    "takeWhile (\<lambda>c. c \<noteq> CHR '':'') (outcome_member t' ok') = show_nat (nat t')"
    using assms(1,2) digits_no_colon [OF show_nat_digits]
    by (simp_all add: outcome_member_def show_int_def)
  with assms show ?thesis by simp
qed

lemma ends_with_member: "ends_with '':decline'' (outcome_member t ok) \<longleftrightarrow> \<not> ok"
  by (auto simp: ends_with_def outcome_member_def)

lemma carding_touch_pipe: "carding_touch now key m win r = touch_pipe now win key m r"
  by (simp add: carding_touch_def touch_pipe_def trim_def Let_def)

lemma outcome_log_touch:
  assumes log: "outcome_log now u hist r" and t: "0 \<le> t" "now < t"
    and win: "\<forall>x \<in> set hist. t - W_OUTCOME_SEQUENCE * 1000 < fst x"
    and touch: "carding_touch t (k_outcomes u) (outcome_member t ok) W_OUTCOME_SEQUENCE r = (n, r')"
  shows "outcome_log t u (hist @ [(t, ok)]) r'"
proof -
  let ?w = W_OUTCOME_SEQUENCE and ?k = "k_outcomes u"
  have wk: "window_key t ?w ?k r"
    using log t window_key_later by (auto simp: outcome_log_def)
  have past: "\<forall>x \<in> set hist. 0 \<le> fst x \<and> fst x < t"
    using log t(2) by (force simp: outcome_log_def window_key_def outcome_entry_def)
  note spec = touch_pipe_spec [OF wk touch [unfolded carding_touch_pipe] t(1)]
  have w: "window t ?w ?k r = map outcome_entry hist"
    using log win by (auto simp: outcome_log_def window_def in_window_def outcome_entry_def filter_id_conv)
  have new: "filter (\<lambda>e. fst e \<noteq> outcome_member t ok) (map outcome_entry hist) = map outcome_entry hist"
    using past t(1) outcome_member_inj by (fastforce simp: filter_id_conv outcome_entry_def)
  have "r_zsets r' ?k = insort_key zscore_key (outcome_member t ok, t) (map outcome_entry hist)"
    using spec(2) w new by (simp add: W_OUTCOME_SEQUENCE_def)
  also have "\<dots> = map outcome_entry (hist @ [(t, ok)])"
    using past by (subst insort_key_last) (auto simp: zscore_key_def outcome_entry_def less_prod_def)
  finally show ?thesis
    using spec(3) log past by (auto simp: outcome_log_def sorted_wrt_append W_OUTCOME_SEQUENCE_def)
qed

lemma leading_declines_map:
  "leading_declines (map (\<lambda>x. fst (outcome_entry x)) hist) = length (takeWhile (\<lambda>x. \<not> snd x) hist)"
  by (induction hist) (auto simp: outcome_entry_def ends_with_member)

lemma carding_members_log:
  assumes "outcome_log t u hist r" "\<forall>x \<in> set hist. t - W_OUTCOME_SEQUENCE * 1000 < fst x"
    and "carding_members t (k_outcomes u) W_OUTCOME_SEQUENCE r = (ms, r')"
  shows "ms = map (\<lambda>x. fst (outcome_entry x)) hist"
proof -
  let ?w = W_OUTCOME_SEQUENCE and ?k = "k_outcomes u"
  have wk: "window_key t ?w ?k r"
    using assms(1) by (simp add: outcome_log_def)
  have nx: "\<not> expired t ?k (trim t ?w ?k r)"
    using trim_entries(2) [OF wk] by (auto simp: expired_def)
  have "window t ?w ?k r = map outcome_entry hist"
    using assms(1,2)
    by (auto simp: outcome_log_def window_def in_window_def outcome_entry_def filter_id_conv)
  then show ?thesis
    using assms(3) trim_entries(1) [OF wk] nx
    by (auto simp: carding_members_def zrange_all_def purge_def trim_def Let_def)
qed



end
