(* ===== verification/Sky_Schemas.thy ===== *)
theory Sky_Schemas
  imports Sky_Models
begin

text \<open>
  The request bodies of \<^verbatim>\<open>app/schemas\<close>: the fields as records, the pydantic constraints
  (lengths, patterns, validators) as bool-valued functions and, per body, the parser that
  strips surrounding blanks and then checks, \<open>None\<close> standing for a 422. Strings are
  sequences of Latin-1 code points. A pattern \<open>^...$\<close> is matched against the whole string.
\<close>

definition is_upper :: "char \<Rightarrow> bool" where
  "is_upper c = (CHR ''A'' \<le> c \<and> c \<le> CHR ''Z'')"

definition is_alpha :: "char \<Rightarrow> bool" where
  "is_alpha c = (is_upper c \<or> (CHR ''a'' \<le> c \<and> c \<le> CHR ''z''))"

definition is_alnum :: "char \<Rightarrow> bool" where
  "is_alnum c = (is_alpha c \<or> is_digit c)"

text \<open>The letters of names: ASCII and the accented letters U+00C0 to U+00FF.\<close>

definition name_letter :: "char \<Rightarrow> bool" where
  "name_letter c = (is_alpha c \<or>
     (let n = of_char c :: nat in 192 \<le> n \<and> n \<noteq> 215 \<and> n \<noteq> 247))"

definition name_char :: "char \<Rightarrow> bool" where
  "name_char c = (name_letter c \<or> c \<in> {CHR ''-'', CHR 0x27, CHR ''.'', CHR '' ''})"

definition name_ok :: "string \<Rightarrow> bool" where
  "name_ok s = (1 \<le> length s \<and> length s \<le> 100 \<and> s \<noteq> [] \<and> name_letter (hd s) \<and> list_all name_char (tl s))"

definition card_token_ok :: "string \<Rightarrow> bool" where
  "card_token_ok s =
     (12 \<le> length s \<and> length s \<le> 64 \<and>
      (take 9 s = ''tok_test_'' \<or> take 9 s = ''tok_live_'') \<and>
      8 \<le> length (drop 9 s) \<and> length (drop 9 s) \<le> 48 \<and> list_all is_alnum (drop 9 s))"

definition passport_ok :: "string \<Rightarrow> bool" where
  "passport_ok s = (6 \<le> length s \<and> length s \<le> 12 \<and> list_all is_alnum s)"

text \<open>\<open>^[A-Za-z0-9_.:-]+$\<close> with 8 to 128 characters.\<close>

definition idem_key_ok :: "string \<Rightarrow> bool" where
  "idem_key_ok s = (8 \<le> length s \<and> length s \<le> 128 \<and>
     list_all (\<lambda>c. is_alnum c \<or> c \<in> set ''_.:-'') s)"

definition iata_ok :: "string \<Rightarrow> bool" where
  "iata_ok s = (length s = 3 \<and> list_all is_alpha s)"

text \<open>\<open>^[0-9]{1,3}[A-Za-z]$\<close> with 2 to 4 characters.\<close>

definition seat_number_ok :: "string \<Rightarrow> bool" where
  "seat_number_ok s = (2 \<le> length s \<and> length s \<le> 4 \<and>
     list_all is_digit (butlast s) \<and> is_alpha (last s))"

definition password_ok :: "string \<Rightarrow> bool" where
  "password_ok s = (12 \<le> length s \<and> length s \<le> 128 \<and>
     lower s \<notin> {''password1234'', ''letmeinplease'', ''qwertyuiop12''})"

subsection \<open>Bookings\<close>

text \<open>A date is year, month and day, ordered as such; \<open>show_date\<close> is \<open>isoformat\<close>.\<close>

type_synonym date = "nat \<times> nat \<times> nat"

definition date_le :: "date \<Rightarrow> date \<Rightarrow> bool" where
  "date_le a b = (case a of (y, m, d) \<Rightarrow> case b of (y', m', d') \<Rightarrow>
     y < y' \<or> (y = y' \<and> (m < m' \<or> (m = m' \<and> d \<le> d'))))"

definition pad2 :: "nat \<Rightarrow> string" where
  "pad2 n = (if n < 10 then ''0'' else []) @ show_nat n"

definition show_date :: "date \<Rightarrow> string" where
  "show_date x = (case x of (y, m, d) \<Rightarrow>
     (if y < 1000 then ''0'' else []) @ (if y < 100 then ''0'' else []) @ pad2 y @
     ''-'' @ pad2 m @ ''-'' @ pad2 d)"

record passenger_in =
  pi_given_name :: string
  pi_family_name :: string
  pi_dob :: "date option"
  pi_passport_number :: "string option"

record booking_create =
  bc_hold_ids :: "uuid list"
  bc_passengers :: "passenger_in list"
  bc_card_token :: string
  bc_contact_email :: "string option"

definition plausible_dob :: "date \<Rightarrow> date \<Rightarrow> bool" where
  "plausible_dob today v = (\<not> (\<not> date_le v today \<or> fst v < 1900))"

definition passenger_in_ok :: "date \<Rightarrow> passenger_in \<Rightarrow> bool" where
  "passenger_in_ok today p =
     (name_ok (pi_given_name p) \<and> name_ok (pi_family_name p) \<and>
      (case pi_dob p of None \<Rightarrow> True | Some v \<Rightarrow> plausible_dob today v) \<and>
      (case pi_passport_number p of None \<Rightarrow> True | Some n \<Rightarrow> passport_ok n))"

definition one_seat_per_passenger :: "booking_create \<Rightarrow> bool" where
  "one_seat_per_passenger b =
     (length (bc_hold_ids b) = length (bc_passengers b) \<and> distinct (bc_hold_ids b))"

definition strip_passenger :: "passenger_in \<Rightarrow> passenger_in" where
  "strip_passenger p =
     p\<lparr>pi_given_name := strip (pi_given_name p), pi_family_name := strip (pi_family_name p),
       pi_passport_number := map_option strip (pi_passport_number p)\<rparr>"

definition parse_booking_create :: "date \<Rightarrow> booking_create \<Rightarrow> booking_create option" where
  "parse_booking_create today b =
     (let b' = b\<lparr>bc_passengers := map strip_passenger (bc_passengers b),
                 bc_card_token := strip (bc_card_token b),
                 bc_contact_email := map_option strip (bc_contact_email b)\<rparr>
      in if 1 \<le> length (bc_hold_ids b') \<and> length (bc_hold_ids b') \<le> 6 \<and>
            1 \<le> length (bc_passengers b') \<and> length (bc_passengers b') \<le> 6 \<and>
            list_all (passenger_in_ok today) (bc_passengers b') \<and>
            card_token_ok (bc_card_token b') \<and>
            (case bc_contact_email b' of None \<Rightarrow> True | Some e \<Rightarrow> length e \<le> 320) \<and>
            one_seat_per_passenger b'
         then Some b' else None)"

record passenger_update =
  pu_passenger_id :: uuid
  pu_given_name :: "string option"
  pu_family_name :: "string option"

definition option_name_ok :: "string option \<Rightarrow> bool" where
  "option_name_ok x = (case x of None \<Rightarrow> True | Some s \<Rightarrow> name_ok s)"

definition parse_booking_patch :: "passenger_update list \<Rightarrow> passenger_update list option" where
  "parse_booking_patch us =
     (let us' = map (\<lambda>u. u\<lparr>pu_given_name := map_option strip (pu_given_name u),
                            pu_family_name := map_option strip (pu_family_name u)\<rparr>) us
      in if 1 \<le> length us' \<and> length us' \<le> 6 \<and>
            list_all (\<lambda>u. option_name_ok (pu_given_name u) \<and> option_name_ok (pu_family_name u)) us'
         then Some us' else None)"

subsection \<open>Accounts and holds\<close>

record register_request =
  rr_email :: string
  rr_password :: string
  rr_full_name :: "string option"

record login_request =
  lr_email :: string
  lr_password :: string

text \<open>\<open>valid_email\<close> is the check of the email-validator package behind \<open>EmailStr\<close>.\<close>

definition parse_register :: "(string \<Rightarrow> bool) \<Rightarrow> register_request \<Rightarrow> register_request option" where
  "parse_register valid_email r =
     (let r' = r\<lparr>rr_email := strip (rr_email r), rr_password := strip (rr_password r),
                 rr_full_name := map_option strip (rr_full_name r)\<rparr>
      in if valid_email (rr_email r') \<and> password_ok (rr_password r') \<and>
            (case rr_full_name r' of None \<Rightarrow> True | Some n \<Rightarrow> length n \<le> 200)
         then Some r' else None)"

definition parse_login :: "(string \<Rightarrow> bool) \<Rightarrow> login_request \<Rightarrow> login_request option" where
  "parse_login valid_email r =
     (let r' = r\<lparr>lr_email := strip (lr_email r), lr_password := strip (lr_password r)\<rparr>
      in if valid_email (lr_email r') \<and> 1 \<le> length (lr_password r') \<and> length (lr_password r') \<le> 128
         then Some r' else None)"

definition parse_refresh :: "string \<Rightarrow> string option" where
  "parse_refresh t = (let t' = strip t in if 16 \<le> length t' \<and> length t' \<le> 512 then Some t' else None)"

definition parse_hold_request :: "uuid \<times> string \<Rightarrow> (uuid \<times> string) option" where
  "parse_hold_request r =
     (let n = strip (snd r) in if seat_number_ok n then Some (fst r, n) else None)"

subsection \<open>What an accepted body guarantees\<close>

definition create_ok :: "booking_create \<Rightarrow> bool" where
  "create_ok b = (1 \<le> length (bc_hold_ids b) \<and> length (bc_hold_ids b) \<le> 6 \<and>
     one_seat_per_passenger b \<and> card_token_ok (bc_card_token b))"

lemma parse_create_ok: "parse_booking_create today b = Some b' \<Longrightarrow> create_ok b'"
  by (auto simp: parse_booking_create_def create_ok_def Let_def split: if_splits)

lemma create_okD:
  assumes "create_ok b"
  shows "bc_hold_ids b \<noteq> []" "length (bc_hold_ids b) = length (bc_passengers b)"
    "distinct (bc_hold_ids b)" "card_token_ok (bc_card_token b)" "length (bc_passengers b) \<le> 6"
  using assms by (auto simp: create_ok_def one_seat_per_passenger_def)

lemma card_token_letter: "card_token_ok s \<Longrightarrow> \<exists>c \<in> set s. \<not> is_digit c"
proof -
  assume "card_token_ok s"
  then have l: "12 \<le> length s" and t: "take 9 s = ''tok_test_'' \<or> take 9 s = ''tok_live_''"
    by (auto simp: card_token_ok_def)
  from t have "hd (take 9 s) = CHR ''t''" by (elim disjE) (simp_all only: list.sel)
  moreover have "hd (take 9 s) \<in> set (take 9 s)" using l by (intro hd_in_set) auto
  ultimately have "CHR ''t'' \<in> set s" using set_take_subset [of 9 s] by auto
  moreover have "\<not> is_digit (CHR ''t'')" by (simp add: is_digit_def)
  ultimately show ?thesis by blast
qed

lemma name_char_digit: "name_char c \<Longrightarrow> \<not> is_digit c"
  unfolding name_char_def name_letter_def is_alpha_def is_upper_def is_digit_def less_eq_char_def Let_def
  by (elim disjE) auto

lemma markup_not_name_char: "list_all (\<lambda>c. \<not> name_char c) ''<>&;%{}''"
  by code_simp


definition demo_create :: "uuid list \<Rightarrow> string \<Rightarrow> booking_create" where
  "demo_create hs token =
     \<lparr>bc_hold_ids = hs,
      bc_passengers = map (\<lambda>_. \<lparr>pi_given_name = ''Ada'', pi_family_name = ''King'', pi_dob = Some (1990, 12, 10),
                                pi_passport_number = Some ''AB123456''\<rparr>) hs,
      bc_card_token = token, bc_contact_email = None\<rparr>"

lemma demo_create_parses:
  "parse_booking_create (2026, 1, 1) (demo_create [90] ''tok_test_aaaa11110000'') =
     Some (demo_create [90] ''tok_test_aaaa11110000'')"
  by code_simp


end
