(* ===== verification/Sky_Saga.thy ===== *)
theory Sky_Saga
  imports Sky_Carding Sky_Schemas
begin

text \<open>
  The booking saga, \<^verbatim>\<open>app/services/booking_saga.py\<close>: hold, charge, issue tickets, confirm.
  Each transaction of the saga is a function on the database it sees (\<open>create_step\<close>,
  \<open>start_payment\<close>, \<open>issue_tickets\<close>, ...); \<open>transact\<close> commits its result or rolls back, and
  \<open>run\<close> composes them with the gateway and the fraud controls in the order of the code.

  The ORM objects a saga keeps between its transactions are values: the booking, the
  payment, the passengers and the seats as the session last saw them. What a later SELECT
  hands back for a seat the session already holds is the library's business, not the
  code's: it is the parameter \<open>reread\<close>, applied to the object in memory and the row. With
  \<open>stale\<close> the session keeps its own copy, which is what SQLAlchemy documents for a query
  without \<open>populate_existing\<close>; with \<open>fresh_row\<close> it takes the row. A flush writes the
  columns whose value has changed since the object was loaded.
\<close>

subsection \<open>The session and its objects\<close>

definition stale :: "seat \<Rightarrow> seat \<Rightarrow> seat" where
  "stale mem row = mem"

definition fresh_row :: "seat \<Rightarrow> seat \<Rightarrow> seat" where
  "fresh_row mem row = row"

definition recall :: "(seat \<Rightarrow> seat \<Rightarrow> seat) \<Rightarrow> seat list \<Rightarrow> seat \<Rightarrow> seat" where
  "recall reread mem row =
     (case find (\<lambda>m. s_id m = s_id row) mem of None \<Rightarrow> row | Some m \<Rightarrow> reread m row)"

definition flush_seat :: "seat \<Rightarrow> seat \<Rightarrow> seat \<Rightarrow> seat" where
  "flush_seat old new row =
     row\<lparr>s_status := (if s_status new = s_status old then s_status row else s_status new),
         s_held_by := (if s_held_by new = s_held_by old then s_held_by row else s_held_by new),
         s_hold_id := (if s_hold_id new = s_hold_id old then s_hold_id row else s_hold_id new),
         s_hold_expires_at := (if s_hold_expires_at new = s_hold_expires_at old
                               then s_hold_expires_at row else s_hold_expires_at new),
         s_booking_id := (if s_booking_id new = s_booking_id old then s_booking_id row
                          else s_booking_id new),
         s_version := (if s_version new = s_version old then s_version row else s_version new)\<rparr>"

fun flush_seats :: "(seat \<times> seat) list \<Rightarrow> db \<Rightarrow> exn + db" where
  "flush_seats [] d = Inr d"
| "flush_seats ((old, new) # ps) d =
     (case update_seats (\<lambda>r. s_id r = s_id old) (flush_seat old new) d of
        Inl e \<Rightarrow> Inl e
      | Inr d' \<Rightarrow> flush_seats ps d')"

fun insert_tickets :: "ticket list \<Rightarrow> db \<Rightarrow> exn + db" where
  "insert_tickets [] d = Inr d"
| "insert_tickets (t # ts) d =
     (case insert_ticket t d of Inl e \<Rightarrow> Inl e | Inr d' \<Rightarrow> insert_tickets ts d')"

definition set_booking_state :: "uuid \<Rightarrow> booking_state \<Rightarrow> db \<Rightarrow> db" where
  "set_booking_state bid st d =
     d\<lparr>d_bookings := update_where (\<lambda>b. b_id b = bid) (\<lambda>b. b\<lparr>b_state := st\<rparr>) (d_bookings d)\<rparr>"

definition set_payment :: "payment \<Rightarrow> db \<Rightarrow> db" where
  "set_payment p d =
     d\<lparr>d_payments := update_where (\<lambda>q. pay_id q = pay_id p)
         (\<lambda>q. q\<lparr>pay_state := pay_state p, pay_provider_ref := pay_provider_ref p,
                pay_failure_code := pay_failure_code p\<rparr>) (d_payments d)\<rparr>"

subsection \<open>Helpers\<close>

definition MAX_PNR_ATTEMPTS :: nat where
  "MAX_PNR_ATTEMPTS = 6"

definition hold_in :: "uuid list \<Rightarrow> uuid \<Rightarrow> seat \<Rightarrow> bool" where
  "hold_in hold_ids user_id s =
     ((case s_hold_id s of None \<Rightarrow> False | Some h \<Rightarrow> h \<in> set hold_ids) \<and> s_held_by s = Some user_id)"

definition lock_seats_for_holds :: "uuid list \<Rightarrow> uuid \<Rightarrow> db \<Rightarrow> seat list" where
  "lock_seats_for_holds hold_ids user_id d =
     order_by s_id (select_where (hold_in hold_ids user_id) (d_seats d))"

text \<open>In microseconds; minus one second when there is no expiry.\<close>

definition seconds_left :: "time \<Rightarrow> seat \<Rightarrow> int" where
  "seconds_left clock s =
     (case s_hold_expires_at s of None \<Rightarrow> - seconds 1 | Some e \<Rightarrow> e - clock)"

fun unique_pnr :: "nat \<Rightarrow> nat \<Rightarrow> (nat \<Rightarrow> nat \<Rightarrow> nat) \<Rightarrow> db \<Rightarrow> exn + string" where
  "unique_pnr 0 i draw d = Inl (RuntimeError ''could not allocate a unique PNR'')"
| "unique_pnr (Suc n) i draw d =
     (let candidate = generate_pnr (draw i) in
      if select_one (\<lambda>b. b_ref b = candidate) (d_bookings d) = None then Inr candidate
      else unique_pnr n (Suc i) draw d)"

definition opt_str :: "string option \<Rightarrow> json" where
  "opt_str x = (case x of None \<Rightarrow> JNull | Some s \<Rightarrow> JStr s)"

definition booking_passengers :: "uuid \<Rightarrow> db \<Rightarrow> passenger list" where
  "booking_passengers bid d = select_where (\<lambda>p. p_booking_id p = bid) (d_passengers d)"

definition booking_tickets :: "uuid \<Rightarrow> db \<Rightarrow> ticket list" where
  "booking_tickets bid d = select_where (\<lambda>t. t_booking_id t = bid) (d_tickets d)"

definition booking_payload :: "db \<Rightarrow> booking \<Rightarrow> (uuid \<times> string) list \<Rightarrow> (string \<times> json) list" where
  "booking_payload d b seats_by_passenger =
     [(''ref'', JStr (b_ref b)),
      (''state'', JStr (booking_state_value (b_state b))),
      (''flight_id'', JUuid (b_flight_id b)),
      (''total_amount'', JMoney (b_total_amount b)),
      (''currency'', JStr (b_currency b)),
      (''passengers'', JList (map (\<lambda>p. JObj
         [(''id'', JUuid (p_id p)), (''given_name'', JStr (p_given_name p)),
          (''family_name'', JStr (p_family_name p)),
          (''seat_no'', opt_str (map_of seats_by_passenger (p_id p))),
          (''passport_last4'', opt_str (p_passport_last4 p))]) (booking_passengers (b_id b) d))),
      (''tickets'', JList (map (\<lambda>t. JObj
         [(''e_ticket_no'', JStr (t_e_ticket_no t)),
          (''seat_no'', opt_str (map_of seats_by_passenger (t_passenger_id t))),
          (''issued_at'', JTime (t_issued_at t))])
         (filter live_ticket (booking_tickets (b_id b) d)))),
      (''created_at'', JTime (b_created_at b))]"

subsection \<open>Step 1: lock the seats and create the booking\<close>

record draft =
  dft_booking :: booking
  dft_passengers :: "passenger list"
  dft_seats :: "seat list"

definition pin_seat :: "uuid \<Rightarrow> seat \<Rightarrow> seat" where
  "pin_seat bid s = s\<lparr>s_booking_id := Some bid, s_version := s_version s + 1\<rparr>"

definition passenger_row :: "uuid \<Rightarrow> uuid \<Rightarrow> passenger_in \<Rightarrow> seat \<Rightarrow> passenger" where
  "passenger_row i bid p s =
     \<lparr>p_id = i, p_booking_id = bid, p_given_name = pi_given_name p,
      p_family_name = pi_family_name p, p_dob_enc = map_option show_date (pi_dob p),
      p_passport_enc = Option.bind (pi_passport_number p) or_none,
      p_passport_last4 = map_option last4 (Option.bind (pi_passport_number p) or_none),
      p_seat_inventory_id = Some (s_id s)\<rparr>"

text \<open>\<open>zip\<close> of passengers and ordered seats, with \<open>fresh\<close>, \<open>fresh + 1\<close>, ... as the new ids.\<close>

fun passenger_rows :: "uuid \<Rightarrow> uuid \<Rightarrow> passenger_in list \<Rightarrow> seat list \<Rightarrow> passenger list" where
  "passenger_rows i bid (p # ps) (s # ss) = passenger_row i bid p s # passenger_rows (Suc i) bid ps ss"
| "passenger_rows i bid _ _ = []"

definition ordered_seats :: "seat list \<Rightarrow> seat list" where
  "ordered_seats seats = sort_key (\<lambda>s. (s_row_no s, s_letter s)) seats"

definition new_booking ::
  "uuid \<Rightarrow> string \<Rightarrow> uuid \<Rightarrow> flight \<Rightarrow> cents \<Rightarrow> string \<Rightarrow> time \<Rightarrow> booking" where
  "new_booking i ref user_id fl amount key now =
     \<lparr>b_id = i, b_ref = ref, b_user_id = user_id, b_flight_id = fl_id fl, b_state = BS_PENDING,
      b_total_amount = amount, b_currency = fl_currency fl, b_idempotency_key = Some key,
      b_created_at = now\<rparr>"

definition created_args :: "uuid \<Rightarrow> booking \<Rightarrow> seat list \<Rightarrow> string \<Rightarrow> audit_args" where
  "created_args user_id b ordered key =
     system_args\<lparr>au_actor_type := ''user'', au_actor_id := Some user_id, au_to := Some BS_PENDING,
       au_detail := JObj
         [(''flight_id'', JUuid (b_flight_id b)),
          (''seats'', JList (map (\<lambda>s. JStr (s_seat_no s)) ordered)),
          (''total_amount'', JMoney (b_total_amount b)), (''currency'', JStr (b_currency b)),
          (''idempotency_key'', JStr key)]\<rparr>"

definition locked_args :: "seat list \<Rightarrow> audit_args" where
  "locked_args ordered =
     system_args\<lparr>au_detail := JObj [(''seat_ids'', JList (map (\<lambda>s. JUuid (s_id s)) ordered))]\<rparr>"

definition book_seats ::
  "uuid \<Rightarrow> uuid \<Rightarrow> booking_create \<Rightarrow> string \<Rightarrow> booking \<Rightarrow> seat list \<Rightarrow> db \<Rightarrow> exn + (draft \<times> db)" where
  "book_seats fresh user_id payload key b seats d =
     (case insert_booking b d of
        Inl e \<Rightarrow> Inl e
      | Inr d1 \<Rightarrow>
          (let ordered = ordered_seats seats in
           if length (bc_passengers payload) \<noteq> length ordered
           then Inl (ValueError ''zip() arguments have different lengths'')
           else
             let rows = passenger_rows (Suc fresh) (b_id b) (bc_passengers payload) ordered;
                 pinned = map (pin_seat (b_id b)) ordered
             in case flush_seats (zip ordered pinned) d1 of
                  Inl e \<Rightarrow> Inl e
                | Inr d2 \<Rightarrow>
                    (let d3 = d2\<lparr>d_passengers := d_passengers d2 @ rows\<rparr>;
                         d4 = audit_record (b_id b) AE_BOOKING_CREATED (created_args user_id b ordered key) d3;
                         d5 = audit_record (b_id b) AE_SEATS_LOCKED (locked_args ordered) d4
                     in Inr (\<lparr>dft_booking = b, dft_passengers = rows, dft_seats = pinned\<rparr>, d5))))"

definition create_step ::
  "time \<Rightarrow> time \<Rightarrow> uuid \<Rightarrow> (nat \<Rightarrow> nat \<Rightarrow> nat) \<Rightarrow> uuid \<Rightarrow> booking_create \<Rightarrow> string \<Rightarrow> db \<Rightarrow>
   exn + (draft \<times> db)" where
  "create_step clock now fresh draw user_id payload key d =
     (let seats = lock_seats_for_holds (bc_hold_ids payload) user_id d;
          expired = map s_seat_no (filter (\<lambda>s. seconds_left clock s \<le> 0 \<or> s_status s \<noteq> HELD) seats)
      in
      if length seats \<noteq> length (bc_hold_ids payload)
      then Inl (raise_app NotFound ''One or more holds do not exist or are not yours'')
      else if expired \<noteq> []
      then Inl (raise_app HoldExpired
             (''Seat hold expired before checkout completed: '' @ join '', '' expired @
              ''. Re-select your seats.''))
      else if length (remdups (map s_flight_id seats)) \<noteq> 1
      then Inl (raise_app SeatUnavailable ''All seats in one booking must be on the same flight'')
      else
        case get_flight_or_404 (s_flight_id (hd seats)) d of
          Inl e \<Rightarrow> Inl e
        | Inr fl \<Rightarrow>
            (case unique_pnr MAX_PNR_ATTEMPTS 0 draw d of
               Inl e \<Rightarrow> Inl e
             | Inr ref \<Rightarrow>
                 book_seats fresh user_id payload key
                   (new_booking fresh ref user_id fl
                      (money (sum_list (map (\<lambda>s. of_cents (s_price s)) seats))) key now)
                   seats d))"

subsection \<open>A payment that fails before any charge\<close>

definition change_args :: "booking_state \<Rightarrow> booking_state \<Rightarrow> (string \<times> json) list \<Rightarrow> audit_args" where
  "change_args from_state to_state detail =
     system_args\<lparr>au_from := Some from_state, au_to := Some to_state, au_detail := JObj detail\<rparr>"

definition note_args :: "(string \<times> json) list \<Rightarrow> audit_args" where
  "note_args detail = system_args\<lparr>au_detail := JObj detail\<rparr>"

definition unpin_seat :: "seat \<Rightarrow> seat" where
  "unpin_seat s = s\<lparr>s_booking_id := None, s_version := s_version s + 1\<rparr>"

definition fail_payment ::
  "(seat \<Rightarrow> seat \<Rightarrow> seat) \<Rightarrow> seat list \<Rightarrow> booking \<Rightarrow> string \<Rightarrow> (string \<times> json) list \<Rightarrow> audit_event \<Rightarrow>
   db \<Rightarrow> exn + (unit \<times> db)" where
  "fail_payment reread mem b failure_code detail event d =
     (case assert_can_transition (b_state b) BS_PAYMENT_FAILED of
        Inl e \<Rightarrow> Inl e
      | Inr _ \<Rightarrow>
          (let d1 = audit_record (b_id b) event
                 (change_args (b_state b) BS_PAYMENT_FAILED
                    (dict_update [(''failure_code'', JStr failure_code)] detail)) d;
               pinned = map (recall reread mem)
                 (select_where (\<lambda>s. s_booking_id s = Some (b_id b)) (d_seats d1))
           in case flush_seats (map (\<lambda>s. (s, unpin_seat s)) pinned) d1 of
                Inl e \<Rightarrow> Inl e
              | Inr d2 \<Rightarrow> Inr ((), set_booking_state (b_id b) BS_PAYMENT_FAILED d2)))"

subsection \<open>Step 3: the charge\<close>

definition new_payment :: "uuid \<Rightarrow> booking \<Rightarrow> string \<Rightarrow> string \<Rightarrow> string \<Rightarrow> time \<Rightarrow> payment" where
  "new_payment i b card_token fp gateway_key now =
     \<lparr>pay_id = i, pay_booking_id = b_id b, pay_provider = ''fake'', pay_provider_ref = None,
      pay_card_token = card_token, pay_card_fingerprint = fp, pay_card_last4 = Some (last4 card_token),
      pay_amount = b_total_amount b, pay_currency = b_currency b, pay_state = PS_PENDING,
      pay_failure_code = None, pay_idempotency_key = gateway_key, pay_created_at = now\<rparr>"

definition gateway_key_of :: "string \<Rightarrow> string" where
  "gateway_key_of idempotency_key = idempotency_key @ '':auth''"

definition start_payment :: "payment \<Rightarrow> db \<Rightarrow> exn + (payment \<times> db)" where
  "start_payment p d = (case insert_payment p d of Inl e \<Rightarrow> Inl e | Inr d' \<Rightarrow> Inr (p, d'))"

definition mark_unknown :: "payment \<Rightarrow> db \<Rightarrow> exn + (payment \<times> db)" where
  "mark_unknown p d =
     (let p' = p\<lparr>pay_state := PS_UNKNOWN\<rparr> in
      Inr (p', audit_record (pay_booking_id p) AE_PAYMENT_UNKNOWN
             (note_args [(''note'', JStr ''gateway timed out; retrying with the same idempotency key'')])
             (set_payment p' d)))"

text \<open>\<open>authorize\<close> with the retry of the \<open>except PaymentTimeout\<close> branch.\<close>

definition call_gateway :: "string \<Rightarrow> payment \<Rightarrow> world \<Rightarrow> (exn + auth_result) \<times> world" where
  "call_gateway hex p w =
     (case authorize hex (pay_card_token p) (pay_amount p) (pay_currency p) (pay_idempotency_key p) (w_gw w) of
        (r, g) \<Rightarrow> (r, w\<lparr>w_gw := g\<rparr>))"

definition charge :: "(nat \<Rightarrow> string) \<Rightarrow> payment \<Rightarrow> world \<Rightarrow> (exn + (payment \<times> auth_result)) \<times> world" where
  "charge hex p w =
     (case call_gateway (hex 0) p w of
        (Inr r, w1) \<Rightarrow> (Inr (p, r), w1)
      | (Inl (PaymentTimeout m), w1) \<Rightarrow>
          (case transact (mark_unknown p) w1 of
             (Inl e, w2) \<Rightarrow> (Inl e, w2)
           | (Inr p', w2) \<Rightarrow>
               (case call_gateway (hex 1) p' w2 of
                  (Inr r, w3) \<Rightarrow> (Inr (p', r), w3)
                | (Inl e, w3) \<Rightarrow> (Inl e, w3)))
      | (Inl e, w1) \<Rightarrow> (Inl e, w1))"

definition decline_step ::
  "(seat \<Rightarrow> seat \<Rightarrow> seat) \<Rightarrow> draft \<Rightarrow> payment \<Rightarrow> auth_result \<Rightarrow> assessment \<Rightarrow> db \<Rightarrow> exn + (unit \<times> db)" where
  "decline_step reread dft p r a d =
     fail_payment reread (dft_seats dft) (dft_booking dft)
       (case ar_failure_code r of None \<Rightarrow> ''declined'' | Some c \<Rightarrow> if c = [] then ''declined'' else c)
       [(''gateway_message'', opt_str (ar_message r)), (''carding'', as_dict a)] AE_PAYMENT_DECLINED
       (set_payment (p\<lparr>pay_state := PS_DECLINED, pay_provider_ref := Some (ar_provider_ref r),
                      pay_failure_code := ar_failure_code r\<rparr>) d)"

definition approve_step :: "booking \<Rightarrow> payment \<Rightarrow> auth_result \<Rightarrow> db \<Rightarrow> exn + ((booking \<times> payment) \<times> db)" where
  "approve_step b p r d =
     (case assert_can_transition (b_state b) BS_PAYMENT_AUTHORIZED of
        Inl e \<Rightarrow> Inl e
      | Inr _ \<Rightarrow>
          (let p' = p\<lparr>pay_state := PS_AUTHORIZED, pay_provider_ref := Some (ar_provider_ref r)\<rparr>;
               d1 = audit_record (b_id b) AE_PAYMENT_AUTHORIZED
                 (change_args (b_state b) BS_PAYMENT_AUTHORIZED
                    [(''provider_ref'', JStr (ar_provider_ref r)), (''amount'', JMoney (b_total_amount b)),
                     (''currency'', JStr (b_currency b))]) (set_payment p' d)
           in Inr ((b\<lparr>b_state := BS_PAYMENT_AUTHORIZED\<rparr>, p'),
                   set_booking_state (b_id b) BS_PAYMENT_AUTHORIZED d1)))"

subsection \<open>Step 4: re-verify the seats and issue the tickets\<close>

definition locked_seats :: "(seat \<Rightarrow> seat \<Rightarrow> seat) \<Rightarrow> seat list \<Rightarrow> db \<Rightarrow> seat list" where
  "locked_seats reread mem d =
     map (recall reread mem)
       (order_by s_id (select_where (\<lambda>r. s_id r \<in> s_id ` set mem) (d_seats d)))"

definition still_ours :: "uuid \<Rightarrow> uuid \<Rightarrow> seat \<Rightarrow> bool" where
  "still_ours bid user_id s = (s_booking_id s = Some bid \<and> s_held_by s = Some user_id)"

definition is_lost :: "uuid \<Rightarrow> uuid \<Rightarrow> seat \<Rightarrow> bool" where
  "is_lost bid user_id s =
     (\<not> still_ours bid user_id s \<or> (s_status s = BOOKED \<and> s_booking_id s \<noteq> Some bid))"

text \<open>The loop over the locked seats: the lost ones, and an audit row per lapsed hold.\<close>

fun verify_seats :: "time \<Rightarrow> uuid \<Rightarrow> uuid \<Rightarrow> seat list \<Rightarrow> db \<Rightarrow> string list \<times> db" where
  "verify_seats clock bid user_id [] d = ([], d)"
| "verify_seats clock bid user_id (s # ss) d =
     (if is_lost bid user_id s
      then (case verify_seats clock bid user_id ss d of (l, d') \<Rightarrow> (s_seat_no s # l, d'))
      else verify_seats clock bid user_id ss
        (if seconds_left clock s \<le> 0
         then audit_record bid AE_HOLD_LOST (note_args
                [(''seat_no'', JStr (s_seat_no s)),
                 (''note'', JStr ''hold expired during payment but seat was still free; reclaimed'')]) d
         else d))"

definition new_ticket :: "uuid \<Rightarrow> uuid \<Rightarrow> passenger \<Rightarrow> seat \<Rightarrow> string \<Rightarrow> time \<Rightarrow> ticket" where
  "new_ticket i bid p s e_ticket now =
     \<lparr>t_id = i, t_booking_id = bid, t_passenger_id = p_id p, t_seat_id = s_id s,
      t_e_ticket_no = e_ticket, t_issued_at = now, t_voided_at = None\<rparr>"

definition book_seat :: "uuid \<Rightarrow> seat \<Rightarrow> seat" where
  "book_seat bid s =
     s\<lparr>s_status := BOOKED, s_hold_id := None, s_hold_expires_at := None, s_booking_id := Some bid,
       s_version := s_version s + 1\<rparr>"

text \<open>
  The loop over the passengers: tickets and (loaded, changed) seats that the next flush
  writes, and the error that stopped it, if any.
\<close>

fun issue_loop ::
  "time \<Rightarrow> (nat \<Rightarrow> nat \<Rightarrow> nat) \<Rightarrow> uuid \<Rightarrow> uuid \<Rightarrow> nat \<Rightarrow> seat list \<Rightarrow> passenger list \<Rightarrow>
   exn option \<times> ticket list \<times> (seat \<times> seat) list" where
  "issue_loop now draw fresh bid k locked [] = (None, [], [])"
| "issue_loop now draw fresh bid k locked (p # ps) =
     (case Option.bind (p_seat_inventory_id p) (\<lambda>i. find (\<lambda>s. s_id s = i) locked) of
        None \<Rightarrow> (Some (TicketingFailed (''passenger '' @ uuid_str (p_id p) @
                    '' has no seat assigned; refusing to issue a ticket'')), [], [])
      | Some s \<Rightarrow>
          (case issue_loop now draw fresh bid (Suc k) locked ps of
             (e, ts, ws) \<Rightarrow>
               (e, new_ticket (fresh + k) bid p s (generate_eticket_number (draw k)) now # ts,
                (s, book_seat bid s) # ws)))"

definition flush_issued :: "ticket list \<Rightarrow> (seat \<times> seat) list \<Rightarrow> db \<Rightarrow> exn + db" where
  "flush_issued ts ws d =
     (case flush_seats ws d of Inl e \<Rightarrow> Inl e | Inr d' \<Rightarrow> insert_tickets ts d')"

definition issued_json :: "ticket list \<Rightarrow> (seat \<times> seat) list \<Rightarrow> json" where
  "issued_json ts ws =
     JList (map (\<lambda>(t, s, _). JObj [(''seat_no'', JStr (s_seat_no s)),
                                   (''e_ticket_no'', JStr (t_e_ticket_no t))]) (zip ts ws))"

text \<open>
  The result carries the database as the session sees it: the handler of the saga goes on
  in the same transaction after an error, so what was flushed before it stays.
\<close>

definition issue_tickets ::
  "(seat \<Rightarrow> seat \<Rightarrow> seat) \<Rightarrow> time \<Rightarrow> time \<Rightarrow> (nat \<Rightarrow> nat \<Rightarrow> nat) \<Rightarrow> uuid \<Rightarrow> booking \<Rightarrow> passenger list \<Rightarrow>
   seat list \<Rightarrow> uuid \<Rightarrow> string \<Rightarrow> db \<Rightarrow> (exn + booking) \<times> db" where
  "issue_tickets reread clock now draw fresh b passengers seats user_id card_token d =
     (let locked = locked_seats reread seats d in
      case verify_seats clock (b_id b) user_id locked d of
        (lost, d1) \<Rightarrow>
          if lost \<noteq> [] then
            (Inl (raise_app SeatUnavailable
                (''Seat(s) '' @ join '', '' lost @ '' were taken while your payment was processing.'')),
             audit_record (b_id b) AE_HOLD_LOST (note_args
                [(''seats'', JList (map JStr lost)),
                 (''note'', JStr ''seats taken by another booking during payment'')]) d1)
          else if trigger_for card_token = TICKETING_FAILURE then
            (Inl (TicketingFailed ''Ticket issuance failed after payment was authorized.''),
             audit_record (b_id b) AE_TICKETING_FAILED (note_args
                [(''reason'', JStr ''downstream ticketing system rejected the request'')]) d1)
          else
            case issue_loop now draw fresh (b_id b) 0 locked passengers of
              (err, ts, ws) \<Rightarrow>
                (case flush_issued ts ws d1 of
                   Inl e \<Rightarrow> (Inl e, d1)
                 | Inr d2 \<Rightarrow>
                     (case err of
                        Some e \<Rightarrow> (Inl e, d2)
                      | None \<Rightarrow>
                          (case assert_can_transition (b_state b) BS_TICKETED of
                             Inl e \<Rightarrow> (Inl e, d2)
                           | Inr _ \<Rightarrow>
                               (Inr (b\<lparr>b_state := BS_TICKETED\<rparr>),
                                set_booking_state (b_id b) BS_TICKETED
                                  (audit_record (b_id b) AE_TICKETS_ISSUED
                                     (change_args (b_state b) BS_TICKETED
                                        [(''tickets'', issued_json ts ws)]) d2))))))"

subsection \<open>Compensation\<close>

definition opt_ref :: "string option \<Rightarrow> string" where
  "opt_ref x = (case x of None \<Rightarrow> [] | Some s \<Rightarrow> s)"

definition begin_compensation :: "booking \<Rightarrow> payment \<Rightarrow> string \<Rightarrow> db \<Rightarrow> exn + (booking \<times> db)" where
  "begin_compensation b p reason d =
     (case assert_can_transition (b_state b) BS_COMPENSATING of
        Inl e \<Rightarrow> Inl e
      | Inr _ \<Rightarrow>
          Inr (b\<lparr>b_state := BS_COMPENSATING\<rparr>,
               set_booking_state (b_id b) BS_COMPENSATING
                 (audit_record (b_id b) AE_COMPENSATION_STARTED
                    (change_args (b_state b) BS_COMPENSATING
                       [(''reason'', JStr reason), (''provider_ref'', opt_str (pay_provider_ref p))]) d)))"

text \<open>Refund what was captured, void what was only authorized.\<close>

definition reverse_charge :: "payment \<Rightarrow> gateway \<Rightarrow> (exn + (payment \<times> audit_event)) \<times> gateway" where
  "reverse_charge p g =
     (if pay_state p = PS_CAPTURED
      then (case refund (opt_ref (pay_provider_ref p)) (pay_amount p) (pay_idempotency_key p @ '':refund'') g of
              (Inl e, g') \<Rightarrow> (Inl e, g')
            | (Inr _, g') \<Rightarrow> (Inr (p\<lparr>pay_state := PS_REFUNDED\<rparr>, AE_PAYMENT_REFUNDED), g'))
      else (case void (opt_ref (pay_provider_ref p)) (pay_idempotency_key p @ '':void'') g of
              (Inl e, g') \<Rightarrow> (Inl e, g')
            | (Inr _, g') \<Rightarrow> (Inr (p\<lparr>pay_state := PS_VOIDED\<rparr>, AE_PAYMENT_VOIDED), g')))"

definition review_step :: "time \<Rightarrow> booking \<Rightarrow> payment \<Rightarrow> exn \<Rightarrow> db \<Rightarrow> exn + (booking \<times> db)" where
  "review_step now b p err d =
     (let d1 = audit_record (b_id b) AE_COMPENSATION_FAILED
            (change_args (b_state b) BS_NEEDS_MANUAL_REVIEW
               [(''error'', JStr (exn_str err)), (''provider_ref'', opt_str (pay_provider_ref p)),
                (''amount'', JMoney (pay_amount p)),
                (''note'', JStr ''money is still with the provider; requires operator action'')]) d
      in case release_seats_for_booking now (b_id b) (set_booking_state (b_id b) BS_NEEDS_MANUAL_REVIEW d1) of
           (released, d2) \<Rightarrow>
             Inr (b\<lparr>b_state := BS_NEEDS_MANUAL_REVIEW\<rparr>,
                  audit_record (b_id b) AE_SEATS_RELEASED (note_args
                    [(''seats_released'', JInt (int released)),
                     (''note'', JStr ''released despite refund failure'')]) d2))"

definition void_step :: "time \<Rightarrow> booking \<Rightarrow> payment \<Rightarrow> audit_event \<Rightarrow> db \<Rightarrow> exn + (booking \<times> db)" where
  "void_step now b p event d =
     (let d1 = audit_record (b_id b) event (note_args [(''provider_ref'', opt_str (pay_provider_ref p))])
                 (set_payment p d)
      in case release_seats_for_booking now (b_id b) d1 of
           (released, d2) \<Rightarrow>
             (let d3 = audit_record (b_id b) AE_SEATS_RELEASED
                         (note_args [(''seats_released'', JInt (int released))]) d2
              in case assert_can_transition (b_state b) BS_VOIDED of
                   Inl e \<Rightarrow> Inl e
                 | Inr _ \<Rightarrow> Inr (b\<lparr>b_state := BS_VOIDED\<rparr>, set_booking_state (b_id b) BS_VOIDED d3)))"

fun refund_error :: "exn \<Rightarrow> bool" where
  "refund_error (RefundFailed m) = True"
| "refund_error (PaymentTimeout m) = True"
| "refund_error e = False"

definition arm_if_injected :: "string \<Rightarrow> payment \<Rightarrow> gateway \<Rightarrow> gateway" where
  "arm_if_injected card_token p g =
     (if trigger_for card_token = REFUND_FAILURE
      then arm_refund_failure (opt_ref (pay_provider_ref p)) g else g)"

definition review_event :: "time \<Rightarrow> request option \<Rightarrow> uuid \<Rightarrow> booking \<Rightarrow> exn \<Rightarrow> world \<Rightarrow> world" where
  "review_event now rq user_id b err w =
     record_security_event_bg now rq SE_MANUAL_REVIEW_REQUIRED SV_CRITICAL
       (no_args\<lparr>ev_actor_user_id := Some user_id, ev_resource_type := Some ''booking'',
          ev_resource_id := Some (b_ref b), ev_decision := Some ''manual_review'',
          ev_detail := JObj [(''reason'', JStr ''compensation_failed''),
                             (''error'', JStr (exn_str err))]\<rparr>) w"

definition compensate ::
  "time \<Rightarrow> request option \<Rightarrow> uuid \<Rightarrow> string \<Rightarrow> booking \<Rightarrow> payment \<Rightarrow> string \<Rightarrow> world \<Rightarrow>
   (exn + booking) \<times> world" where
  "compensate now rq user_id card_token b p reason w =
     (case transact (begin_compensation b p reason) w of
        (Inl e, w1) \<Rightarrow> (Inl e, w1)
      | (Inr b1, w1) \<Rightarrow>
          (case reverse_charge p (arm_if_injected card_token p (w_gw w1)) of
             (Inr (p2, event), g) \<Rightarrow> transact (void_step now b1 p2 event) (w1\<lparr>w_gw := g\<rparr>)
           | (Inl e, g) \<Rightarrow>
               if refund_error e
               then (case transact (review_step now b1 p e) (w1\<lparr>w_gw := g\<rparr>) of
                       (Inl e', w2) \<Rightarrow> (Inl e', w2)
                     | (Inr b2, w2) \<Rightarrow> (Inr b2, review_event now rq user_id b e w2))
               else (Inl e, w1\<lparr>w_gw := g\<rparr>)))"

subsection \<open>Step 5: confirm; the saga\<close>

definition confirm_step :: "booking \<Rightarrow> payment \<Rightarrow> db \<Rightarrow> exn + (booking \<times> db)" where
  "confirm_step b p d =
     (case assert_can_transition (b_state b) BS_CONFIRMED of
        Inl e \<Rightarrow> Inl e
      | Inr _ \<Rightarrow>
          Inr (b\<lparr>b_state := BS_CONFIRMED\<rparr>,
               set_booking_state (b_id b) BS_CONFIRMED
                 (audit_record (b_id b) AE_BOOKING_CONFIRMED
                    (change_args (b_state b) BS_CONFIRMED [(''pnr'', JStr (b_ref b))])
                    (set_payment (p\<lparr>pay_state := PS_CAPTURED\<rparr>) d))))"

text \<open>\<open>session.refresh(booking)\<close>: the row as it is now.\<close>

definition refresh_booking :: "booking \<Rightarrow> db \<Rightarrow> booking" where
  "refresh_booking b d = (case select_one (\<lambda>r. b_id r = b_id b) (d_bookings d) of None \<Rightarrow> b | Some r \<Rightarrow> r)"

definition compensable :: "exn \<Rightarrow> bool" where
  "compensable e = (case e of TicketingFailed m \<Rightarrow> True | _ \<Rightarrow> is_app SeatUnavailable e)"

text \<open>What one request draws from clocks, random sources and Redis' availability.\<close>

record draws =
  dr_clock :: "nat \<Rightarrow> time"
  dr_now :: "nat \<Rightarrow> time"
  dr_pnr :: "nat \<Rightarrow> nat \<Rightarrow> nat"
  dr_eticket :: "nat \<Rightarrow> nat \<Rightarrow> nat"
  dr_hex :: "nat \<Rightarrow> string"
  dr_up :: "nat \<Rightarrow> bool"
  dr_ms :: "nat \<Rightarrow> nat \<Rightarrow> int"
  dr_member :: "nat \<Rightarrow> nat \<Rightarrow> string"

definition decline_event ::
  "time \<Rightarrow> request option \<Rightarrow> uuid \<Rightarrow> booking \<Rightarrow> string \<Rightarrow> auth_result \<Rightarrow> assessment \<Rightarrow> world \<Rightarrow> world" where
  "decline_event now rq user_id b fp r a w =
     record_security_event_bg now rq SE_PAYMENT_DECLINED SV_LOW
       (no_args\<lparr>ev_actor_user_id := Some user_id, ev_resource_type := Some ''booking'',
          ev_resource_id := Some (b_ref b),
          ev_detail := JObj [(''failure_code'', opt_str (ar_failure_code r)),
                             (''card_fingerprint'', JStr (take 12 fp)),
                             (''risk_score'', JInt (as_score a))]\<rparr>) w"

definition declined_error :: "auth_result \<Rightarrow> exn" where
  "declined_error r =
     raise_app PaymentDeclined
       (''Payment was declined ('' @ (case ar_failure_code r of None \<Rightarrow> ''None'' | Some c \<Rightarrow> c) @
        ''). Your seat hold is still active '' @ em_dash @ '' you can try another card.'')"

definition compensated_error :: "exn \<Rightarrow> exn" where
  "compensated_error e =
     raise_app BookingCompensated
       (exn_str e @ '' Your card was not charged '' @ em_dash @ '' the authorization has been reversed.'')"

definition blocked_error :: "assessment \<Rightarrow> exn" where
  "blocked_error a =
     App (app_error PaymentBlocked
       (Some ''This payment was blocked by our fraud controls. Contact support if you believe this is an error.'')
       [(''risk_score'', JInt (as_score a)), (''rules'', JList (map (\<lambda>h. JStr (rh_rule h)) (as_hits a)))])"

text \<open>Steps 4 and 5, from the committed authorization on.\<close>

definition ticket_and_confirm ::
  "(seat \<Rightarrow> seat \<Rightarrow> seat) \<Rightarrow> draws \<Rightarrow> request option \<Rightarrow> uuid \<Rightarrow> string \<Rightarrow> draft \<Rightarrow> booking \<Rightarrow> payment \<Rightarrow>
   world \<Rightarrow> (exn + (int \<times> (string \<times> json) list)) \<times> world" where
  "ticket_and_confirm reread dr rq user_id card_token dft b p w =
     (let n = length (dft_passengers dft) in
      case issue_tickets reread (dr_clock dr 1) (dr_now dr 3) (dr_eticket dr) (w_fresh w) b
             (dft_passengers dft) (dft_seats dft) user_id card_token (w_cur w) of
        (Inl e, d) \<Rightarrow>
          (let w1 = map_cur (\<lambda>_. d) w\<lparr>w_fresh := w_fresh w + n\<rparr> in
           if compensable e
           then (case compensate (dr_now dr 4) rq user_id card_token b p (exn_str e) w1 of
                   (Inl e', w2) \<Rightarrow> (Inl e', w2)
                 | (Inr _, w2) \<Rightarrow> (Inl (compensated_error e), w2))
           else (Inl e, w1))
      | (Inr b1, d) \<Rightarrow>
          (let w1 = commit (map_cur (\<lambda>_. d) w\<lparr>w_fresh := w_fresh w + n\<rparr>);
               w2 = w1\<lparr>w_gw := snd (capture (opt_ref (pay_provider_ref p))
                                   (pay_idempotency_key p @ '':cap'') (w_gw w1))\<rparr>
           in case transact (confirm_step b1 p) w2 of
                (Inl e, w3) \<Rightarrow> (Inl e, w3)
              | (Inr b2, w3) \<Rightarrow>
                  (Inr (201, booking_payload (w_cur w3) (refresh_booking b2 (w_cur w3))
                          (zip (map p_id (dft_passengers dft)) (map s_seat_no (dft_seats dft)))), w3)))"

text \<open>Step 3, from the payment row to the committed outcome.\<close>

definition take_payment ::
  "(seat \<Rightarrow> seat \<Rightarrow> seat) \<Rightarrow> draws \<Rightarrow> request option \<Rightarrow> uuid \<Rightarrow> string \<Rightarrow> string \<Rightarrow> string \<Rightarrow> assessment \<Rightarrow>
   draft \<Rightarrow> world \<Rightarrow> (exn + (booking \<times> payment)) \<times> world" where
  "take_payment reread dr rq user_id card_token fp key a dft w =
     (let b = dft_booking dft;
          p0 = new_payment (w_fresh w) b card_token fp (gateway_key_of key) (dr_now dr 1)
      in case transact (start_payment p0) (w\<lparr>w_fresh := Suc (w_fresh w)\<rparr>) of
           (Inl e, w1) \<Rightarrow> (Inl e, w1)
         | (Inr p, w1) \<Rightarrow>
             (case charge (dr_hex dr) p w1 of
                (Inl e, w2) \<Rightarrow> (Inl e, w2)
              | (Inr (p', r), w2) \<Rightarrow>
                  (let w3 = record_outcome (dr_up dr 1) (dr_ms dr 1) (dr_member dr 1) (dr_now dr 2) rq
                              user_id (client_ip rq) fp (ar_approved r) w2
                   in if \<not> ar_approved r
                      then (case transact (decline_step reread dft p' r a) w3 of
                              (Inl e, w4) \<Rightarrow> (Inl e, w4)
                            | (Inr _, w4) \<Rightarrow>
                                (Inl (declined_error r), decline_event (dr_now dr 2) rq user_id b fp r a w4))
                      else transact (approve_step b p' r) w3)))"

definition run ::
  "(string \<Rightarrow> string) \<Rightarrow> (seat \<Rightarrow> seat \<Rightarrow> seat) \<Rightarrow> draws \<Rightarrow> request option \<Rightarrow> uuid \<Rightarrow> booking_create \<Rightarrow>
   string \<Rightarrow> world \<Rightarrow> (exn + (int \<times> (string \<times> json) list)) \<times> world" where
  "run card_fingerprint reread dr rq user_id payload key w =
     (case transact (create_step (dr_clock dr 0) (dr_now dr 0) (w_fresh w) (dr_pnr dr) user_id payload key)
             (w\<lparr>w_fresh := w_fresh w + Suc (length (bc_passengers payload))\<rparr>) of
        (Inl e, w1) \<Rightarrow> (Inl e, w1)
      | (Inr dft, w1) \<Rightarrow>
          (let fp = card_fingerprint (bc_card_token payload); b = dft_booking dft in
           case assess_payment_attempt (dr_up dr 0) (dr_ms dr 0) (dr_member dr 0) (dr_now dr 1) rq user_id
                  (client_ip rq) fp (b_total_amount b) w1 of
             (a, w2) \<Rightarrow>
               if as_decision a = BLOCK
               then (case transact (fail_payment reread (dft_seats dft) b ''blocked_by_fraud_controls''
                              [(''carding'', as_dict a)] AE_PAYMENT_DECLINED) w2 of
                       (Inl e, w3) \<Rightarrow> (Inl e, w3)
                     | (Inr _, w3) \<Rightarrow> (Inl (blocked_error a), w3))
               else
                 (case take_payment reread dr rq user_id (bc_card_token payload) fp key a dft w2 of
                    (Inl e, w3) \<Rightarrow> (Inl e, w3)
                  | (Inr (b1, p), w3) \<Rightarrow>
                      ticket_and_confirm reread dr rq user_id (bc_card_token payload) dft b1 p w3)))"

subsection \<open>Cancellation\<close>

definition refundable :: "uuid \<Rightarrow> payment \<Rightarrow> bool" where
  "refundable bid p = (pay_booking_id p = bid \<and> pay_state p \<in> {PS_AUTHORIZED, PS_CAPTURED})"

definition payment_to_refund :: "uuid \<Rightarrow> db \<Rightarrow> payment option" where
  "payment_to_refund bid d =
     (case order_by_desc pay_created_at (select_where (refundable bid) (d_payments d)) of
        [] \<Rightarrow> None | p # _ \<Rightarrow> Some p)"

definition cancel_review_step :: "booking \<Rightarrow> exn \<Rightarrow> db \<Rightarrow> exn + (booking \<times> db)" where
  "cancel_review_step b err d =
     Inr (b\<lparr>b_state := BS_NEEDS_MANUAL_REVIEW\<rparr>,
          set_booking_state (b_id b) BS_NEEDS_MANUAL_REVIEW
            (audit_record (b_id b) AE_COMPENSATION_FAILED
               (change_args (b_state b) BS_NEEDS_MANUAL_REVIEW
                  [(''error'', JStr (exn_str err)), (''stage'', JStr ''cancellation_refund'')]) d))"

text \<open>The rest of the transaction: payment row, seats, state; \<open>refunded\<close> as reported.\<close>

definition cancel_step ::
  "time \<Rightarrow> booking \<Rightarrow> uuid \<Rightarrow> payment option \<Rightarrow> db \<Rightarrow> exn + ((booking \<times> nat) \<times> db)" where
  "cancel_step now b user_id paid d =
     (let d1 = (case paid of None \<Rightarrow> d | Some p \<Rightarrow> set_payment (p\<lparr>pay_state := PS_REFUNDED\<rparr>) d)
      in case release_seats_for_booking now (b_id b) d1 of
           (released, d2) \<Rightarrow>
             (case assert_can_transition (b_state b) BS_CANCELLED of
                Inl e \<Rightarrow> Inl e
              | Inr _ \<Rightarrow>
                  Inr ((b\<lparr>b_state := BS_CANCELLED\<rparr>, released),
                       set_booking_state (b_id b) BS_CANCELLED
                         (audit_record (b_id b) AE_BOOKING_CANCELLED
                            ((change_args (b_state b) BS_CANCELLED
                               [(''seats_released'', JInt (int released)),
                                (''refunded'', JBool (paid \<noteq> None))])
                             \<lparr>au_actor_type := ''user'', au_actor_id := Some user_id\<rparr>) d2))))"

definition cancel_body :: "booking \<Rightarrow> bool \<Rightarrow> nat \<Rightarrow> (string \<times> json) list" where
  "cancel_body b refunded released =
     [(''ref'', JStr (b_ref b)), (''state'', JStr (booking_state_value (b_state b))),
      (''refunded'', JBool refunded), (''seats_released'', JInt (int released))]"

definition finish_cancel ::
  "time \<Rightarrow> booking \<Rightarrow> uuid \<Rightarrow> payment option \<Rightarrow> world \<Rightarrow> (exn + (string \<times> json) list) \<times> world" where
  "finish_cancel now b user_id paid w =
     (case transact (cancel_step now b user_id paid) w of
        (Inl e, w') \<Rightarrow> (Inl e, w')
      | (Inr (b', released), w') \<Rightarrow> (Inr (cancel_body b' (paid \<noteq> None) released), w'))"

definition cancel ::
  "time \<Rightarrow> booking \<Rightarrow> uuid \<Rightarrow> world \<Rightarrow> (exn + (string \<times> json) list) \<times> world" where
  "cancel now b user_id w =
     (case payment_to_refund (b_id b) (w_cur w) of
        None \<Rightarrow> finish_cancel now b user_id None w
      | Some p \<Rightarrow>
          (case refund (opt_ref (pay_provider_ref p)) (pay_amount p)
                  (pay_idempotency_key p @ '':cancel-refund'') (w_gw w) of
             (Inr _, g) \<Rightarrow> finish_cancel now b user_id (Some p) (w\<lparr>w_gw := g\<rparr>)
           | (Inl e, g) \<Rightarrow>
               if refund_error e
               then (case transact (cancel_review_step b e) (w\<lparr>w_gw := g\<rparr>) of
                       (Inl e', w') \<Rightarrow> (Inl e', w')
                     | (Inr _, w') \<Rightarrow>
                         (Inl (raise_app BookingCompensated
                            ''We could not process the refund automatically. Your booking is flagged for manual review.''),
                          w'))
               else (Inl e, w\<lparr>w_gw := g\<rparr>)))"

definition count_confirmed_seats :: "uuid \<Rightarrow> db \<Rightarrow> nat" where
  "count_confirmed_seats flight_id d =
     count_where (\<lambda>s. s_flight_id s = flight_id \<and> s_status s = BOOKED) (d_seats d)"

end
