(* ===== verification/Sky_SagaFacts.thy ===== *)
theory Sky_SagaFacts
  imports Sky_Saga
begin

text \<open>
  What the steps of the saga do: each keeps the database sound, the flush of an undisturbed
  session writes exactly the changed seats, and the booking, payment and seat rows after
  each step are the ones the code means to write. The properties of the whole saga are in
  \<^verbatim>\<open>Sky_SagaRun\<close>.
\<close>

subsection \<open>Every step keeps the database sound\<close>

lemma flush_seat_keys [simp]:
  "s_id (flush_seat old new row) = s_id row" "s_flight_id (flush_seat old new row) = s_flight_id row"
  "s_seat_no (flush_seat old new row) = s_seat_no row"
  by (simp_all add: flush_seat_def)

lemma sound_flush_seats: "sound d \<Longrightarrow> flush_seats ps d = Inr d' \<Longrightarrow> sound d'"
proof (induction ps arbitrary: d)
  case Nil
  then show ?case by simp
next
  case (Cons p ps)
  obtain old new where p: "p = (old, new)" by (cases p)
  with Cons.prems obtain d1 where
    d1: "update_seats (\<lambda>r. s_id r = s_id old) (flush_seat old new) d = Inr d1" "flush_seats ps d1 = Inr d'"
    by (auto split: sum.splits)
  show ?case
    using Cons.IH [OF sound_update_seats [OF Cons.prems(1) d1(1)] d1(2)] by simp
qed

lemma sound_insert_tickets: "sound d \<Longrightarrow> insert_tickets ts d = Inr d' \<Longrightarrow> sound d'"
  by (induction ts arbitrary: d) (auto dest: sound_inserts split: sum.splits)

lemma sound_booking_state [simp]:
  assumes "sound d"
  shows "sound (set_booking_state bid st d)"
proof (rule sound_same_logs [OF assms])
  let ?f = "\<lambda>b. b\<lparr>b_state := st\<rparr>"
  have "db_ok d" using assms by (rule soundD)
  moreover have "list_all booking_ok (update_where (\<lambda>b. b_id b = bid) ?f (d_bookings d))"
    using \<open>db_ok d\<close> by (auto simp: db_ok_def list_all_iff set_update_where booking_ok_def)
  ultimately show "db_ok (set_booking_state bid st d)"
    by (simp add: db_ok_def set_booking_state_def table_simps)
qed (simp_all add: set_booking_state_def)

lemma sound_set_payment [simp]:
  assumes "sound d"
  shows "sound (set_payment p d)"
proof (rule sound_same_logs [OF assms])
  let ?f = "\<lambda>q. q\<lparr>pay_state := pay_state p, pay_provider_ref := pay_provider_ref p,
                 pay_failure_code := pay_failure_code p\<rparr>"
  have "db_ok d" using assms by (rule soundD)
  moreover have "list_all payment_ok (update_where (\<lambda>q. pay_id q = pay_id p) ?f (d_payments d))"
    using \<open>db_ok d\<close> by (auto simp: db_ok_def list_all_iff set_update_where payment_ok_def)
  ultimately show "db_ok (set_payment p d)"
    by (simp add: db_ok_def set_payment_def table_simps)
qed (simp_all add: set_payment_def)

lemma passenger_rows_ids:
  "map p_id (passenger_rows i bid ps ss) = [i..<i + min (length ps) (length ss)]"
  by (induction i bid ps ss rule: passenger_rows.induct) (auto simp: passenger_row_def upt_rec)

text \<open>Identifiers below \<open>fresh\<close> are the ones in use.\<close>

definition fresh_for :: "uuid \<Rightarrow> db \<Rightarrow> bool" where
  "fresh_for n d =
     ((\<forall>b \<in> set (d_bookings d). b_id b < n) \<and> (\<forall>p \<in> set (d_passengers d). p_id p < n) \<and>
      (\<forall>p \<in> set (d_payments d). pay_id p < n \<and> pay_booking_id p < n) \<and>
      (\<forall>t \<in> set (d_tickets d). t_id t < n \<and> t_passenger_id t < n) \<and>
      (\<forall>p \<in> set (d_passengers d). p_booking_id p < n) \<and>
      (\<forall>t \<in> set (d_tickets d). t_booking_id t < n) \<and>
      (\<forall>s \<in> set (d_seats d). \<forall>b. s_booking_id s = Some b \<longrightarrow> b < n))"

lemma fresh_for_audit [simp]: "fresh_for n (audit_record b et a d) = fresh_for n d"
  by (simp add: fresh_for_def)

lemma fresh_for_event [simp]: "fresh_for n (add_event now rq et sv a d) = fresh_for n d"
  by (simp add: fresh_for_def)

lemma flush_seats_frame:
  "flush_seats ps d = Inr d' \<Longrightarrow> \<exists>ss. d' = d\<lparr>d_seats := ss\<rparr> \<and> map s_id ss = map s_id (d_seats d)"
proof (induction ps arbitrary: d)
  case Nil
  then show ?case by (auto intro: exI [of _ "d_seats d"])
next
  case (Cons p ps)
  obtain old new where p: "p = (old, new)" by (cases p)
  with Cons.prems obtain d1 where
    d1: "update_seats (\<lambda>r. s_id r = s_id old) (flush_seat old new) d = Inr d1" "flush_seats ps d1 = Inr d'"
    by (auto split: sum.splits)
  then have e: "d1 = d\<lparr>d_seats := update_where (\<lambda>r. s_id r = s_id old) (flush_seat old new) (d_seats d)\<rparr>"
    by (auto simp: update_seats_def split: if_splits)
  have m: "map s_id (d_seats d1) = map s_id (d_seats d)"
    unfolding e by (simp add: map_key_update_where)
  from Cons.IH [OF d1(2)] e m show ?case by auto
qed

lemma sound_create_step:
  assumes "sound d" "fresh_for n d" "create_step clock now n draw u payload key d = Inr (dft, d')"
  shows "sound d'"
proof -
  obtain b seats where bs: "book_seats n u payload key b seats d = Inr (dft, d')"
    using assms(3) by (auto simp: create_step_def Let_def split: if_splits sum.splits)
  obtain d1 where d1: "insert_booking b d = Inr d1"
    using bs by (auto simp: book_seats_def split: sum.splits)
  let ?o = "ordered_seats seats"
  let ?r = "passenger_rows (Suc n) (b_id b) (bc_passengers payload) ?o"
  obtain d2 where d2: "flush_seats (zip ?o (map (pin_seat (b_id b)) ?o)) d1 = Inr d2"
    using bs d1 by (auto simp: book_seats_def Let_def split: sum.splits if_splits)
  have d': "d' = audit_record (b_id b) AE_SEATS_LOCKED (locked_args ?o)
      (audit_record (b_id b) AE_BOOKING_CREATED (created_args u b ?o key)
        (d2\<lparr>d_passengers := d_passengers d2 @ ?r\<rparr>))"
    using bs d1 d2 by (auto simp: book_seats_def Let_def split: sum.splits if_splits)
  have s2: "sound d2"
    using sound_flush_seats [OF sound_inserts(3) [OF assms(1) d1] d2] .
  have dp: "d_passengers d2 = d_passengers d"
    using flush_seats_frame [OF d2] d1 by (auto simp: insert_booking_def split: if_splits)
  have "unique_key p_id (d_passengers d)"
    using assms(1) by (simp add: sound_def db_ok_def)
  moreover have "p_id ` set ?r \<inter> p_id ` set (d_passengers d) = {}"
  proof -
    have "p_id ` set ?r = set (map p_id ?r)" by simp
    then have "p_id ` set ?r \<subseteq> {Suc n..}"
      unfolding passenger_rows_ids by auto
    moreover have "p_id ` set (d_passengers d) \<subseteq> {..<n}"
      using assms(2) by (auto simp: fresh_for_def)
    ultimately show ?thesis by fastforce
  qed
  ultimately have "unique_key p_id (d_passengers d2 @ ?r)"
    unfolding unique_key_def dp map_append distinct_append
    by (simp add: passenger_rows_ids [symmetric] Int_commute) (simp add: passenger_rows_ids)
  then show ?thesis
    unfolding d' using s2 by (simp add: sound_passengers)
qed

lemma sound_fail_payment:
  assumes "sound d" "fail_payment reread mem b c det ev d = Inr (u, d')"
  shows "sound d'"
proof -
  obtain e a ps d2 where "flush_seats ps (audit_record (b_id b) e a d) = Inr d2"
      "d' = set_booking_state (b_id b) BS_PAYMENT_FAILED d2"
    using assms(2) by (auto simp: fail_payment_def Let_def split: sum.splits)
  with assms(1) show ?thesis
    by (auto dest: sound_flush_seats [rotated])
qed

lemma sound_start_payment: "sound d \<Longrightarrow> start_payment p d = Inr (q, d') \<Longrightarrow> sound d'"
  by (auto simp: start_payment_def dest: sound_inserts split: sum.splits)

lemma sound_mark_unknown: "sound d \<Longrightarrow> mark_unknown p d = Inr (q, d') \<Longrightarrow> sound d'"
  by (auto simp: mark_unknown_def Let_def)

lemma sound_decline_step:
  "sound d \<Longrightarrow> decline_step reread dft p r a d = Inr (u, d') \<Longrightarrow> sound d'"
  by (auto simp: decline_step_def dest: sound_fail_payment [rotated])

lemma sound_approve_step: "sound d \<Longrightarrow> approve_step b p r d = Inr (q, d') \<Longrightarrow> sound d'"
  by (auto simp: approve_step_def Let_def split: sum.splits)

lemma sound_begin_compensation: "sound d \<Longrightarrow> begin_compensation b p m d = Inr (q, d') \<Longrightarrow> sound d'"
  by (auto simp: begin_compensation_def split: sum.splits)

lemma sound_review_step: "sound d \<Longrightarrow> review_step now b p e d = Inr (q, d') \<Longrightarrow> sound d'"
  by (auto simp: review_step_def Let_def dest!: sound_release_seats [rotated] split: prod.splits)

lemma sound_void_step: "sound d \<Longrightarrow> void_step now b p ev d = Inr (q, d') \<Longrightarrow> sound d'"
  by (auto simp: void_step_def Let_def dest!: sound_release_seats [rotated] split: prod.splits sum.splits)

lemma sound_confirm_step: "sound d \<Longrightarrow> confirm_step b p d = Inr (q, d') \<Longrightarrow> sound d'"
  by (auto simp: confirm_step_def split: sum.splits)

lemma sound_cancel_review_step: "sound d \<Longrightarrow> cancel_review_step b e d = Inr (q, d') \<Longrightarrow> sound d'"
  by (auto simp: cancel_review_step_def)

lemma sound_cancel_step: "sound d \<Longrightarrow> cancel_step now b u paid d = Inr (q, d') \<Longrightarrow> sound d'"
  by (auto simp: cancel_step_def Let_def dest!: sound_release_seats [rotated]
      split: prod.splits sum.splits option.splits)

lemma sound_verify_seats: "sound d \<Longrightarrow> verify_seats clock bid u ss d = (l, d') \<Longrightarrow> sound d'"
proof (induction ss arbitrary: d l)
  case Nil
  then show ?case by simp
next
  case (Cons s ss)
  show ?case
  proof (cases "is_lost bid u s")
    case True
    with Cons show ?thesis by (auto split: prod.splits)
  next
    case False
    show ?thesis
      by (rule Cons.IH [OF _ Cons.prems(2) [unfolded verify_seats.simps(2) if_not_P [OF False]]])
         (use Cons.prems(1) in simp)
  qed
qed

lemma sound_flush_issued: "sound d \<Longrightarrow> flush_issued ts ws d = Inr d' \<Longrightarrow> sound d'"
  by (auto simp: flush_issued_def dest: sound_flush_seats sound_insert_tickets split: sum.splits)

lemma sound_issue_tickets:
  assumes "sound d" "issue_tickets rr clock now draw n b ps mem u tok d = (r, d')"
  shows "sound d'"
proof -
  obtain lost d1 where v: "verify_seats clock (b_id b) u (locked_seats rr mem d) d = (lost, d1)"
    by (cases "verify_seats clock (b_id b) u (locked_seats rr mem d) d")
  have s1: "sound d1" by (rule sound_verify_seats [OF assms(1) v])
  obtain err ts ws where il: "issue_loop now draw n (b_id b) 0 (locked_seats rr mem d) ps = (err, ts, ws)"
    by (cases "issue_loop now draw n (b_id b) 0 (locked_seats rr mem d) ps")
  show ?thesis
    using assms(2) v il s1 sound_flush_issued [OF s1]
    by (auto simp: issue_tickets_def Let_def split: if_splits sum.splits option.splits)
qed

lemmas sound_steps = sound_create_step sound_fail_payment sound_start_payment sound_mark_unknown
  sound_decline_step sound_approve_step sound_begin_compensation sound_review_step sound_void_step
  sound_confirm_step sound_cancel_review_step sound_cancel_step

subsection \<open>The flush of an undisturbed session\<close>

lemma zip_map_self: "zip xs (map f xs) = map (\<lambda>x. (x, f x)) xs"
  by (induction xs) auto

text \<open>When the rows are as the session loaded them, a flush replaces them by the changed ones.\<close>

definition mutates :: "(seat \<Rightarrow> seat) \<Rightarrow> bool" where
  "mutates g = (\<forall>s. flush_seat s (g s) s = g s)"

lemma mutates_writes [simp]:
  "mutates (pin_seat bid)" "mutates unpin_seat" "mutates (book_seat bid)"
  by (simp_all add: mutates_def flush_seat_def pin_seat_def unpin_seat_def book_seat_def)

lemma write_keys [simp]:
  "s_id (pin_seat bid s) = s_id s" "s_id (unpin_seat s) = s_id s" "s_id (book_seat bid s) = s_id s"
  "s_seat_no (pin_seat bid s) = s_seat_no s" "s_seat_no (book_seat bid s) = s_seat_no s"
  "s_flight_id (pin_seat bid s) = s_flight_id s" "s_flight_id (book_seat bid s) = s_flight_id s"
  "s_held_by (pin_seat bid s) = s_held_by s" "s_status (pin_seat bid s) = s_status s"
  "s_booking_id (pin_seat bid s) = Some bid" "s_hold_expires_at (pin_seat bid s) = s_hold_expires_at s"
  "s_hold_id (pin_seat bid s) = s_hold_id s" "s_price (pin_seat bid s) = s_price s"
  by (simp_all add: pin_seat_def unpin_seat_def book_seat_def)

lemma mutates_id: "mutates g \<Longrightarrow> s_id (g s) = s_id s"
  by (metis mutates_def flush_seat_keys(1))

lemma flush_map:
  assumes "unique_key s_id (d_seats d)" "set olds \<subseteq> set (d_seats d)" "distinct (map s_id olds)"
    and g: "mutates g" and ok: "\<forall>s \<in> set olds. seat_ok (g s)"
  shows "flush_seats (map (\<lambda>s. (s, g s)) olds) d =
           Inr (d\<lparr>d_seats := update_where (\<lambda>r. r \<in> set olds) g (d_seats d)\<rparr>)"
  using assms(1,2,3) ok
proof (induction olds arbitrary: d)
  case Nil
  then show ?case by (simp add: update_where_none)
next
  case (Cons s0 olds)
  let ?T = "d_seats d"
  let ?p = "\<lambda>r. s_id r = s_id s0"
  let ?T1 = "update_where ?p (flush_seat s0 (g s0)) ?T"
  have s0: "s0 \<in> set ?T" using Cons.prems by simp
  have only: "r = s0" if "r \<in> set ?T" "?p r" for r
    using unique_keyD [OF Cons.prems(1) that(1) s0 that(2)] .
  have g0: "flush_seat s0 (g s0) s0 = g s0" using g by (simp add: mutates_def)
  have step: "update_seats ?p (flush_seat s0 (g s0)) d = Inr (d\<lparr>d_seats := ?T1\<rparr>)"
    using only g0 Cons.prems(4) by (force simp: update_seats_def list_all_iff)
  have u1: "unique_key s_id ?T1"
    using Cons.prems(1) by (simp add: unique_key_update_where)
  have notin: "s_id s0 \<notin> s_id ` set olds" using Cons.prems(3) by simp
  have sub: "set olds \<subseteq> set ?T1"
  proof
    fix s assume s: "s \<in> set olds"
    then have "s \<in> set ?T" using Cons.prems(2) by auto
    moreover have "\<not> ?p s" using notin s by (metis image_eqI)
    ultimately have "s \<in> set ?T" "\<not> ?p s" by blast+
    then show "s \<in> set ?T1" by (auto simp: set_update_where)
  qed
  have pt: "(if (if ?p r then flush_seat s0 (g s0) r else r) \<in> set olds
         then g (if ?p r then flush_seat s0 (g s0) r else r)
         else (if ?p r then flush_seat s0 (g s0) r else r)) =
       (if r \<in> set (s0 # olds) then g r else r)" if r: "r \<in> set ?T" for r
  proof (cases "?p r")
    case True
    then have "r = s0" using only r by blast
    moreover have "g s0 \<notin> set olds" using notin mutates_id [OF g, of s0] by (metis image_eqI)
    ultimately show ?thesis using g0 by simp
  next
    case False
    then have "r \<noteq> s0" by auto
    with False show ?thesis by simp
  qed
  have upd: "update_where (\<lambda>r. r \<in> set olds) g ?T1 = update_where (\<lambda>r. r \<in> set (s0 # olds)) g ?T"
    unfolding update_where_def map_map comp_def by (rule map_cong [OF refl]) (rule pt)
  have "flush_seats (map (\<lambda>s. (s, g s)) olds) (d\<lparr>d_seats := ?T1\<rparr>) =
      Inr (d\<lparr>d_seats := update_where (\<lambda>r. r \<in> set olds) g ?T1\<rparr>)"
    using Cons.IH [of "d\<lparr>d_seats := ?T1\<rparr>"] u1 sub Cons.prems(3,4) by simp
  with step upd show ?case by simp
qed

text \<open>
  The one law the saga needs of the session: a row that has not changed since it was loaded
  is read as it is.
\<close>

definition coherent :: "(seat \<Rightarrow> seat \<Rightarrow> seat) \<Rightarrow> bool" where
  "coherent reread = (\<forall>s. reread s s = s)"

lemma recall_same:
  assumes "unique_key s_id T" "set mem \<subseteq> set T" "row \<in> set T" "coherent reread"
  shows "recall reread mem row = row"
proof (cases "find (\<lambda>m. s_id m = s_id row) mem")
  case None
  then show ?thesis by (simp add: recall_def)
next
  case (Some m)
  then have "m \<in> set mem" "s_id m = s_id row"
    by (auto simp: find_Some_iff)
  then have "m = row"
    using assms(1-3) by (meson subsetD unique_keyD)
  with Some assms(4) show ?thesis by (simp add: recall_def coherent_def)
qed

text \<open>Both readings of a row the session already holds agree while the row is unchanged.\<close>

lemma reread_modes [simp]: "coherent stale" "coherent fresh_row"
  by (simp_all add: coherent_def stale_def fresh_row_def)

lemma locked_seats_same:
  assumes "unique_key s_id (d_seats d)" "set mem \<subseteq> set (d_seats d)" "coherent reread"
  shows "locked_seats reread mem d = order_by s_id (select_where (\<lambda>r. r \<in> set mem) (d_seats d))"
    and "set (locked_seats reread mem d) = set mem"
proof -
  have f: "select_where (\<lambda>r. s_id r \<in> s_id ` set mem) (d_seats d) = select_where (\<lambda>r. r \<in> set mem) (d_seats d)"
    unfolding select_where_def
  proof (rule filter_cong [OF refl])
    fix r assume "r \<in> set (d_seats d)"
    then show "(s_id r \<in> s_id ` set mem) = (r \<in> set mem)"
      using assms(1,2) by (auto dest: unique_keyD)
  qed
  let ?o = "order_by s_id (select_where (\<lambda>r. r \<in> set mem) (d_seats d))"
  have "set ?o \<subseteq> set (d_seats d)"
    by (auto simp: select_where_def)
  then have "map (recall reread mem) ?o = ?o"
    using recall_same [OF assms(1,2) _ assms(3)] by (intro map_idI) blast
  then show e: "locked_seats reread mem d = ?o"
    unfolding locked_seats_def f .
  show "set (locked_seats reread mem d) = set mem"
    unfolding e using assms(2) by (auto simp: select_where_def)
qed

end
