(* ===== verification/Sky_SagaRun.thy ===== *)
theory Sky_SagaRun
  imports Sky_SagaFacts
begin

text \<open>
  The saga as a whole, run without interference: what a success means for the rows and the
  gateway, what every reported failure leaves behind, and where the code keeps a charge it
  means to reverse. \<open>draft_in\<close> is what the saga knows of the database between its steps.
\<close>

subsection \<open>Transactions on a quiet world\<close>

definition at_db :: "world \<Rightarrow> db \<Rightarrow> world" where
  "at_db w d = w\<lparr>w_com := d, w_cur := d\<rparr>"

lemma at_db_simps [simp]:
  "w_com (at_db w d) = d" "w_cur (at_db w d) = d" "w_gw (at_db w d) = w_gw w"
  "w_redis (at_db w d) = w_redis w" "w_fresh (at_db w d) = w_fresh w" "idle (at_db w d)"
  by (simp_all add: at_db_def idle_def)

lemma transact_Inr:
  assumes "idle w" "transact body w = (Inr x, w')"
  obtains d where "body (w_com w) = Inr (x, d)" "w' = at_db w d"
  using assms
  by (auto simp: transact_def idle_def at_db_def commit_def map_cur_def split: sum.splits prod.splits)

lemma transact_Inl:
  assumes "idle w" "transact body w = (Inl e, w')"
  shows "body (w_com w) = Inl e" "w' = w"
  using assms
  by (auto simp: transact_def idle_def rollback_def split: sum.splits prod.splits)

lemma business_simps:
  "d_seats (business_tables d) = d_seats d" "d_bookings (business_tables d) = d_bookings d"
  "d_payments (business_tables d) = d_payments d" "d_tickets (business_tables d) = d_tickets d"
  "d_passengers (business_tables d) = d_passengers d" "d_audit (business_tables d) = d_audit d"
  "d_flights (business_tables d) = d_flights d" "d_idem (business_tables d) = d_idem d"
  by (simp_all add: business_tables_def)

lemma business_eqD:
  assumes "business_tables d = business_tables d'"
  shows "d_seats d = d_seats d'" "d_bookings d = d_bookings d'" "d_payments d = d_payments d'"
    "d_tickets d = d_tickets d'" "d_passengers d = d_passengers d'" "d_audit d = d_audit d'"
    "d_flights d = d_flights d'" "d_idem d = d_idem d'"
  using assms by (metis business_simps)+

lemma assess_sound:
  assumes "assess_payment_attempt up ms hx now rq u ip fp amount w = (a, w')"
    and "sound (w_com w)"
  shows "sound (w_com w')"
  using assms by (auto simp: assess_payment_attempt_def Let_def split: if_splits prod.splits)

lemma outcome_sound:
  "sound (w_com w) \<Longrightarrow> sound (w_com (record_outcome up ms hx now rq u ip fp ok w))"
  by (auto simp: record_outcome_def Let_def split: prod.splits)

subsection \<open>What the saga knows of the database\<close>

definition payments_of :: "uuid \<Rightarrow> db \<Rightarrow> payment list" where
  "payments_of bid d = select_where (\<lambda>p. pay_booking_id p = bid) (d_payments d)"

definition booking_row :: "uuid \<Rightarrow> db \<Rightarrow> booking option" where
  "booking_row bid d = select_one (\<lambda>b. b_id b = bid) (d_bookings d)"

definition draft_seats_in :: "uuid \<Rightarrow> draft \<Rightarrow> db \<Rightarrow> bool" where
  "draft_seats_in u dft d =
     (let bid = b_id (dft_booking dft); mem = dft_seats dft in
      set mem \<subseteq> set (d_seats d) \<and> distinct (map s_id mem) \<and>
      (\<forall>s \<in> set mem. s_booking_id s = Some bid \<and> s_held_by s = Some u \<and> s_status s = HELD) \<and>
      (\<forall>s \<in> set (d_seats d). s_booking_id s = Some bid \<longrightarrow> s \<in> set mem) \<and>
      map p_seat_inventory_id (dft_passengers dft) = map (\<lambda>s. Some (s_id s)) mem \<and>
      distinct (map p_id (dft_passengers dft)))"

definition draft_in :: "uuid \<Rightarrow> draft \<Rightarrow> booking_state \<Rightarrow> payment list \<Rightarrow> db \<Rightarrow> bool" where
  "draft_in u dft st ps d =
     (let bid = b_id (dft_booking dft) in
      sound d \<and> draft_seats_in u dft d \<and>
      (\<forall>t \<in> set (d_tickets d). t_booking_id t \<noteq> bid) \<and>
      booking_row bid d = Some ((dft_booking dft)\<lparr>b_state := st\<rparr>) \<and>
      booking_passengers bid d = dft_passengers dft \<and> payments_of bid d = ps)"

lemma draft_inD:
  assumes "draft_in u dft st ps d"
  shows "sound d" "draft_seats_in u dft d" "\<forall>t \<in> set (d_tickets d). t_booking_id t \<noteq> b_id (dft_booking dft)"
    "booking_row (b_id (dft_booking dft)) d = Some ((dft_booking dft)\<lparr>b_state := st\<rparr>)"
    "booking_passengers (b_id (dft_booking dft)) d = dft_passengers dft"
    "payments_of (b_id (dft_booking dft)) d = ps"
  using assms by (simp_all add: draft_in_def Let_def)

lemma draft_seatsD:
  assumes "draft_seats_in u dft d"
  shows "set (dft_seats dft) \<subseteq> set (d_seats d)" "distinct (map s_id (dft_seats dft))"
    "\<And>s. s \<in> set (dft_seats dft) \<Longrightarrow> s_booking_id s = Some (b_id (dft_booking dft)) \<and> s_held_by s = Some u \<and> s_status s = HELD"
    "\<And>s. s \<in> set (d_seats d) \<Longrightarrow> s_booking_id s = Some (b_id (dft_booking dft)) \<Longrightarrow> s \<in> set (dft_seats dft)"
    "map p_seat_inventory_id (dft_passengers dft) = map (\<lambda>s. Some (s_id s)) (dft_seats dft)"
    "distinct (map p_id (dft_passengers dft))"
  using assms by (simp_all add: draft_seats_in_def Let_def)

text \<open>The six tables \<open>draft_in\<close> reads; what leaves them alone keeps it.\<close>

lemma draft_in_same:
  assumes "draft_in u dft st ps d" "sound d'" "d_seats d' = d_seats d" "d_tickets d' = d_tickets d"
    "d_bookings d' = d_bookings d" "d_passengers d' = d_passengers d" "d_payments d' = d_payments d"
  shows "draft_in u dft st ps d'"
  using assms by (simp add: draft_in_def draft_seats_in_def Let_def booking_row_def payments_of_def
      booking_passengers_def)

lemma draft_in_audit [simp]: "draft_in u dft st ps d \<Longrightarrow> draft_in u dft st ps (audit_record b et a d)"
  by (rule draft_in_same) (auto simp: draft_in_def Let_def)

lemma set_booking_state_frame [simp]:
  "d_seats (set_booking_state b st d) = d_seats d" "d_tickets (set_booking_state b st d) = d_tickets d"
  "d_passengers (set_booking_state b st d) = d_passengers d"
  "d_payments (set_booking_state b st d) = d_payments d" "d_idem (set_booking_state b st d) = d_idem d"
  "d_audit (set_booking_state b st d) = d_audit d"
  by (simp_all add: set_booking_state_def)

lemma set_payment_frame [simp]:
  "d_seats (set_payment p d) = d_seats d" "d_tickets (set_payment p d) = d_tickets d"
  "d_passengers (set_payment p d) = d_passengers d" "d_bookings (set_payment p d) = d_bookings d"
  "d_idem (set_payment p d) = d_idem d" "d_audit (set_payment p d) = d_audit d"
  by (simp_all add: set_payment_def)

lemma booking_row_state:
  "booking_row bid (set_booking_state bid st d) = map_option (\<lambda>b. b\<lparr>b_state := st\<rparr>) (booking_row bid d)"
proof -
  have "find (\<lambda>b. b_id b = bid) (update_where (\<lambda>b. b_id b = bid) (\<lambda>b. b\<lparr>b_state := st\<rparr>) bs) =
      map_option (\<lambda>b. b\<lparr>b_state := st\<rparr>) (find (\<lambda>b. b_id b = bid) bs)" for bs
    by (induction bs) (auto simp: update_where_Cons)
  then show ?thesis
    by (simp add: booking_row_def set_booking_state_def select_one_def)
qed

lemma booking_row_frame [simp]:
  "booking_row bid (audit_record b et a d) = booking_row bid d"
  "booking_row bid (set_payment p d) = booking_row bid d"
  by (simp_all add: booking_row_def)

lemma payments_of_frame [simp]:
  "payments_of bid (audit_record b et a d) = payments_of bid d"
  "payments_of bid (set_booking_state b st d) = payments_of bid d"
  by (simp_all add: payments_of_def)

lemma draft_in_state [simp]:
  assumes "draft_in u dft st ps d"
  shows "draft_in u dft st' ps (set_booking_state (b_id (dft_booking dft)) st' d)"
  using assms
  by (simp add: draft_in_def draft_seats_in_def Let_def booking_row_state booking_passengers_def
      booking.defs)

definition same_payment :: "payment \<Rightarrow> payment \<Rightarrow> bool" where
  "same_payment p q = (q = p\<lparr>pay_state := pay_state q, pay_provider_ref := pay_provider_ref q,
                             pay_failure_code := pay_failure_code q\<rparr>)"

lemma payments_of_set:
  assumes "sound d" "payments_of bid d = [p]" "same_payment p q"
  shows "payments_of bid (set_payment q d) = [q]"
proof -
  let ?f = "\<lambda>r. r\<lparr>pay_state := pay_state q, pay_provider_ref := pay_provider_ref q,
                 pay_failure_code := pay_failure_code q\<rparr>"
  have same: "pay_booking_id (if pay_id r = pay_id q then ?f r else r) = pay_booking_id r" for r by simp
  have "select_where (\<lambda>p. pay_booking_id p = bid) (update_where (\<lambda>r. pay_id r = pay_id q) ?f (d_payments d)) =
      map (\<lambda>r. if pay_id r = pay_id q then ?f r else r) (payments_of bid d)"
    by (simp add: payments_of_def select_where_def update_where_def filter_map comp_def same)
  moreover note eq = assms(3) [unfolded same_payment_def]
  moreover have "pay_id q = pay_id p"
    using arg_cong [OF eq, of pay_id] by simp
  ultimately show ?thesis
    using assms(2) by (simp add: payments_of_def set_payment_def)
qed

subsection \<open>After each step\<close>

lemma lock_seats_facts:
  assumes "sound d"
  shows "set (lock_seats_for_holds hs u d) = {s \<in> set (d_seats d). hold_in hs u s}"
    "distinct (map s_id (lock_seats_for_holds hs u d))"
proof -
  show "set (lock_seats_for_holds hs u d) = {s \<in> set (d_seats d). hold_in hs u s}"
    by (auto simp: lock_seats_for_holds_def select_where_def)
  have "unique_key s_id (filter (hold_in hs u) (d_seats d))"
    by (rule unique_key_filter [OF soundD(4) [OF assms]])
  then show "distinct (map s_id (lock_seats_for_holds hs u d))"
    by (simp add: lock_seats_for_holds_def select_where_def order_by_def unique_key_def distinct_map)
qed

lemma money_sum: "money (sum_list (map (\<lambda>s. of_cents (s_price s)) ss)) = sum_list (map s_price ss)"
proof -
  have "sum_list (map (\<lambda>s. of_cents (s_price s)) ss) = of_cents (sum_list (map s_price ss))"
    by (induction ss) (auto simp: of_cents_def add_divide_distrib)
  then show ?thesis by simp
qed

lemma sum_ordered:
  fixes f :: "seat \<Rightarrow> int"
  assumes "distinct ss"
  shows "sum_list (map f (ordered_seats ss)) = sum_list (map f ss)"
  using assms by (simp add: ordered_seats_def sum_list_distinct_conv_sum_set)

lemma length_remdups_one:
  assumes "length (remdups xs) = 1"
  shows "\<forall>x \<in> set xs. x = hd xs"
proof -
  obtain a where a: "remdups xs = [a]"
    using assms by (auto simp: length_Suc_conv)
  then have "set xs = {a}" using set_remdups [of xs] by simp
  then show ?thesis by (cases xs) auto
qed

lemma create_step_split:
  assumes "create_step clock now n draw u payload key d = Inr (dft, d')"
  obtains fl ref d1 d2 where
    "length (lock_seats_for_holds (bc_hold_ids payload) u d) = length (bc_hold_ids payload)"
    "\<forall>s \<in> set (lock_seats_for_holds (bc_hold_ids payload) u d). 0 < seconds_left clock s \<and> s_status s = HELD"
    "\<forall>s \<in> set (lock_seats_for_holds (bc_hold_ids payload) u d). s_flight_id s = fl_id fl"
    "insert_booking (dft_booking dft) d = Inr d1"
    "dft_booking dft = new_booking n ref u fl
       (sum_list (map s_price (lock_seats_for_holds (bc_hold_ids payload) u d))) key now"
    "dft_seats dft = map (pin_seat n) (ordered_seats (lock_seats_for_holds (bc_hold_ids payload) u d))"
    "dft_passengers dft = passenger_rows (Suc n) n (bc_passengers payload)
       (ordered_seats (lock_seats_for_holds (bc_hold_ids payload) u d))"
    "length (bc_passengers payload) = length (bc_hold_ids payload)"
    "flush_seats (map (\<lambda>s. (s, pin_seat n s)) (ordered_seats (lock_seats_for_holds (bc_hold_ids payload) u d))) d1 = Inr d2"
    "d' = audit_record n AE_SEATS_LOCKED (locked_args (ordered_seats (lock_seats_for_holds (bc_hold_ids payload) u d)))
       (audit_record n AE_BOOKING_CREATED (created_args u (dft_booking dft)
            (ordered_seats (lock_seats_for_holds (bc_hold_ids payload) u d)) key)
         (d2\<lparr>d_passengers := d_passengers d2 @ dft_passengers dft\<rparr>))"
proof -
  let ?ss = "lock_seats_for_holds (bc_hold_ids payload) u d"
  have len: "length ?ss = length (bc_hold_ids payload)"
    and live: "\<forall>s \<in> set ?ss. 0 < seconds_left clock s \<and> s_status s = HELD"
    and one: "length (remdups (map s_flight_id ?ss)) = 1"
    using assms by (auto simp: create_step_def Let_def filter_empty_conv not_le split: if_splits)
  have r: "(case get_flight_or_404 (s_flight_id (hd ?ss)) d of Inl e \<Rightarrow> Inl e
      | Inr fl \<Rightarrow> (case unique_pnr MAX_PNR_ATTEMPTS 0 draw d of Inl e \<Rightarrow> Inl e
         | Inr ref \<Rightarrow> book_seats n u payload key
             (new_booking n ref u fl (sum_list (map s_price ?ss)) key now) ?ss d)) = Inr (dft, d')"
    using assms unfolding create_step_def Let_def money_sum by (simp split: if_splits)
  obtain fl where fl: "get_flight_or_404 (s_flight_id (hd ?ss)) d = Inr fl"
    using r by (cases "get_flight_or_404 (s_flight_id (hd ?ss)) d") auto
  obtain ref where ref: "unique_pnr MAX_PNR_ATTEMPTS 0 draw d = Inr ref"
    using r fl by (cases "unique_pnr MAX_PNR_ATTEMPTS 0 draw d") auto
  let ?b = "new_booking n ref u fl (sum_list (map s_price ?ss)) key now"
  have bs: "book_seats n u payload key ?b ?ss d = Inr (dft, d')"
    using r fl ref by simp
  have bid: "b_id ?b = n" by (simp add: new_booking_def)
  obtain d1 where d1: "insert_booking ?b d = Inr d1"
    using bs by (cases "insert_booking ?b d") (auto simp: book_seats_def)
  have pl: "length (bc_passengers payload) = length (ordered_seats ?ss)"
    using bs d1 by (auto simp: book_seats_def Let_def split: if_splits)
  obtain d2 where d2: "flush_seats (map (\<lambda>s. (s, pin_seat n s)) (ordered_seats ?ss)) d1 = Inr d2"
    using bs d1 pl unfolding book_seats_def Let_def zip_map_self bid
    by (cases "flush_seats (map (\<lambda>s. (s, pin_seat n s)) (ordered_seats ?ss)) d1") auto
  note eq = bs [unfolded book_seats_def Let_def zip_map_self bid]
  have fid: "fl_id fl = s_flight_id (hd ?ss)"
    using fl by (auto simp: get_flight_or_404_def dest: select_one_Some split: option.splits)
  have "\<forall>s \<in> set ?ss. s_flight_id s = fl_id fl"
  proof
    fix s assume s: "s \<in> set ?ss"
    then have "s_flight_id s = hd (map s_flight_id ?ss)"
      using length_remdups_one [OF one] by simp
    with s show "s_flight_id s = fl_id fl" unfolding fid by (cases ?ss) auto
  qed
  from that [OF len live this] d1 d2 pl eq len show thesis
    by (auto simp: ordered_seats_def)
qed

lemma passenger_rows_facts:
  assumes "length ps = length ss"
  shows "map p_seat_inventory_id (passenger_rows i bid ps ss) = map (\<lambda>s. Some (s_id s)) ss"
    "length (passenger_rows i bid ps ss) = length ss"
    "\<And>p. p \<in> set (passenger_rows i bid ps ss) \<Longrightarrow> p_booking_id p = bid \<and> i \<le> p_id p \<and> p_id p < i + length ss"
  using assms
proof (induction i bid ps ss rule: passenger_rows.induct)
  case (1 i bid p ps s ss)
  case 1 then show ?case using "1.IH" by (simp add: passenger_row_def)
next
  case (1 i bid p ps s ss)
  case 2 then show ?case using "1.IH" by simp
next
  case (1 i bid p ps s ss)
  case (3 q) then show ?case using "1.IH"(3) [of q] by (auto simp: passenger_row_def)
qed auto

lemma ordered_seats_facts:
  assumes "sound d" "os = ordered_seats (lock_seats_for_holds hs u d)"
  shows "set os = {s \<in> set (d_seats d). hold_in hs u s}" "distinct (map s_id os)" "distinct os"
    "length os = length (lock_seats_for_holds hs u d)"
proof -
  note l = lock_seats_facts [OF assms(1), of hs u]
  show "set os = {s \<in> set (d_seats d). hold_in hs u s}"
    using l(1) assms(2) by (simp add: ordered_seats_def)
  show "distinct (map s_id os)"
    using l(2) assms(2) by (simp add: ordered_seats_def distinct_map)
  then show "distinct os" by (simp add: distinct_map)
  show "length os = length (lock_seats_for_holds hs u d)"
    using assms(2) by (simp add: ordered_seats_def)
qed

lemma find_snoc: "find p (xs @ [x]) = (case find p xs of None \<Rightarrow> if p x then Some x else None | Some y \<Rightarrow> Some y)"
  by (induction xs) auto

text \<open>
  A created booking: the rows of the draft, and the seats of the holds pinned to it. Every
  seat was held by the caller with time left.
\<close>

lemma create_draft:
  assumes ok: "sound d" and fr: "fresh_for n d"
    and cr: "create_step clock now n draw u payload key d = Inr (dft, d')"
  defines "os \<equiv> ordered_seats (lock_seats_for_holds (bc_hold_ids payload) u d)"
  shows "draft_in u dft BS_PENDING [] d'"
    "d_seats d' = update_where (\<lambda>r. r \<in> set os) (pin_seat n) (d_seats d)"
    "dft_seats dft = map (pin_seat n) os"
    "b_id (dft_booking dft) = n" "b_user_id (dft_booking dft) = u" "b_state (dft_booking dft) = BS_PENDING"
    "b_total_amount (dft_booking dft) = sum_list (map s_price os)"
    "length os = length (bc_hold_ids payload)"
    "set os = {s \<in> set (d_seats d). hold_in (bc_hold_ids payload) u s}"
    "\<forall>s \<in> set os. s_status s = HELD \<and> 0 < seconds_left clock s"
proof -
  let ?ls = "lock_seats_for_holds (bc_hold_ids payload) u d"
  note o = ordered_seats_facts [OF ok, of os, OF os_def [THEN meta_eq_to_obj_eq]]
  obtain fl ref d1 d2 where c:
    "length ?ls = length (bc_hold_ids payload)"
    "\<forall>s \<in> set ?ls. 0 < seconds_left clock s \<and> s_status s = HELD"
    "\<forall>s \<in> set ?ls. s_flight_id s = fl_id fl"
    "insert_booking (dft_booking dft) d = Inr d1"
    "dft_booking dft = new_booking n ref u fl (sum_list (map s_price ?ls)) key now"
    "dft_seats dft = map (pin_seat n) os"
    "dft_passengers dft = passenger_rows (Suc n) n (bc_passengers payload) os"
    "length (bc_passengers payload) = length (bc_hold_ids payload)"
    "flush_seats (map (\<lambda>s. (s, pin_seat n s)) os) d1 = Inr d2"
    "d' = audit_record n AE_SEATS_LOCKED (locked_args os)
       (audit_record n AE_BOOKING_CREATED (created_args u (dft_booking dft) os key)
         (d2\<lparr>d_passengers := d_passengers d2 @ dft_passengers dft\<rparr>))"
    unfolding os_def by (rule create_step_split [OF cr]) 
  have d1: "d1 = d\<lparr>d_bookings := d_bookings d @ [dft_booking dft]\<rparr>"
    using c(4) by (auto simp: insert_booking_def split: if_splits)
  have held: "\<forall>s \<in> set os. s_status s = HELD \<and> 0 < seconds_left clock s"
    using c(2) by (simp add: os_def ordered_seats_def)
  have "seat_ok (pin_seat n s)" if "s \<in> set os" for s
  proof -
    have "seat_ok s" using that o(1) seats_ok_seat [OF soundD(3) [OF ok]] by auto
    with held that show ?thesis by (auto simp: seat_ok_def pin_seat_def)
  qed
  then have "flush_seats (map (\<lambda>s. (s, pin_seat n s)) os) d1 =
      Inr (d1\<lparr>d_seats := update_where (\<lambda>r. r \<in> set os) (pin_seat n) (d_seats d1)\<rparr>)"
    using o(1,2) soundD(4) [OF ok] d1 by (intro flush_map) auto
  with c(9) have d2: "d2 = d1\<lparr>d_seats := update_where (\<lambda>r. r \<in> set os) (pin_seat n) (d_seats d)\<rparr>"
    using d1 by simp
  show seats: "d_seats d' = update_where (\<lambda>r. r \<in> set os) (pin_seat n) (d_seats d)"
    unfolding c(10) d2 by simp
  show mem: "dft_seats dft = map (pin_seat n) os" by (rule c(6))
  show bid: "b_id (dft_booking dft) = n" and "b_user_id (dft_booking dft) = u"
    and st: "b_state (dft_booking dft) = BS_PENDING"
    unfolding c(5) by (simp_all add: new_booking_def)
  show "b_total_amount (dft_booking dft) = sum_list (map s_price os)"
    unfolding c(5) os_def using lock_seats_facts(2) [OF ok] by (simp add: new_booking_def sum_ordered distinct_map)
  show lo: "length os = length (bc_hold_ids payload)" using o(4) c(1) by simp
  show "set os = {s \<in> set (d_seats d). hold_in (bc_hold_ids payload) u s}" by (rule o(1))
  show "\<forall>s \<in> set os. s_status s = HELD \<and> 0 < seconds_left clock s" by (rule held)
  note pr = passenger_rows_facts [where ps = "bc_passengers payload" and ss = os and i = "Suc n" and bid = n]
  have ps: "map p_seat_inventory_id (dft_passengers dft) = map (\<lambda>s. Some (s_id s)) os"
    "\<And>p. p \<in> set (dft_passengers dft) \<Longrightarrow> p_booking_id p = n"
    using pr c(7,8) lo by auto
  have "distinct (map p_id (dft_passengers dft))"
    unfolding c(7) passenger_rows_ids by simp
  moreover have "s_held_by s = Some u" if "s \<in> set os" for s
    using that o(1) by (simp add: hold_in_def)
  moreover have "s \<in> set (map (pin_seat n) os)" if "s \<in> set (d_seats d')" "s_booking_id s = Some n" for s
    using that(1) [unfolded seats]
  proof (cases rule: in_update_whereE)
    case same
    with that(2) fr show ?thesis by (auto simp: fresh_for_def)
  qed auto
  moreover have "set (map (pin_seat n) os) \<subseteq> set (d_seats d')"
    unfolding seats using o(1) by (auto simp: set_update_where)
  ultimately have dsi: "draft_seats_in u dft d'"
    unfolding draft_seats_in_def Let_def bid mem using o(2) held ps(1) by (auto simp: comp_def)
  have "\<forall>t \<in> set (d_tickets d'). t_booking_id t \<noteq> n"
    unfolding c(10) d2 d1 using fr by (auto simp: fresh_for_def)
  moreover have "booking_row n d' = Some (dft_booking dft)"
  proof -
    have "find (\<lambda>b. b_id b = n) (d_bookings d) = None"
      using fr by (auto simp: find_None_iff fresh_for_def)
    then have "find (\<lambda>b. b_id b = n) (d_bookings d @ [dft_booking dft]) = Some (dft_booking dft)"
      using bid by (simp add: find_snoc)
    then show ?thesis
      unfolding c(10) d2 d1 by (simp add: booking_row_def select_one_def)
  qed
  moreover have "booking_passengers n d' = dft_passengers dft"
  proof -
    have "filter (\<lambda>p. p_booking_id p = n) (d_passengers d) = []"
      using fr by (auto simp: filter_empty_conv fresh_for_def)
    moreover have "filter (\<lambda>p. p_booking_id p = n) (dft_passengers dft) = dft_passengers dft"
      using ps(2) by (simp add: filter_id_conv)
    ultimately show ?thesis
      unfolding c(10) d2 d1 by (simp add: booking_passengers_def select_where_def)
  qed
  moreover have "payments_of n d' = []"
    unfolding c(10) d2 d1 using fr by (auto simp: payments_of_def select_where_def filter_empty_conv fresh_for_def)
  moreover have "(dft_booking dft)\<lparr>b_state := BS_PENDING\<rparr> = dft_booking dft"
    using st by simp
  ultimately show "draft_in u dft BS_PENDING [] d'"
    unfolding draft_in_def Let_def bid using sound_create_step [OF ok fr cr] dsi by simp
qed

text \<open>A payment that fails hands the pinned seats back to their holds, which stay as they were.\<close>

lemma fail_payment_draft:
  assumes dr: "draft_in u dft BS_PENDING ps d" and st: "b_state (dft_booking dft) = BS_PENDING"
    and rr: "coherent reread"
  defines "bid \<equiv> b_id (dft_booking dft)"
  obtains d' where
    "fail_payment reread (dft_seats dft) (dft_booking dft) c det ev d = Inr ((), d')"
    "sound d'" "d_seats d' = update_where (\<lambda>s. s \<in> set (dft_seats dft)) unpin_seat (d_seats d)"
    "\<forall>s \<in> set (d_seats d'). s_booking_id s \<noteq> Some bid"
    "booking_row bid d' = Some ((dft_booking dft)\<lparr>b_state := BS_PAYMENT_FAILED\<rparr>)"
    "payments_of bid d' = ps" "d_tickets d' = d_tickets d"
proof -
  define e where "e = audit_record bid ev (change_args (b_state (dft_booking dft)) BS_PAYMENT_FAILED
      (dict_update [(''failure_code'', JStr c)] det)) d"
  note D = draft_inD [OF dr] and S = draft_seatsD [OF draft_inD(2) [OF dr]]
  have ed: "d_seats e = d_seats d" "d_tickets e = d_tickets d" "d_bookings e = d_bookings d"
    by (simp_all add: e_def audit_record_def)
  let ?mem = "dft_seats dft"
  let ?sel = "select_where (\<lambda>s. s_booking_id s = Some bid) (d_seats e)"
  have u: "unique_key s_id (d_seats e)" using soundD(4) [OF D(1)] ed by simp
  have sub: "set ?sel \<subseteq> set (d_seats e)" by (auto simp: select_where_def)
  have setsel: "set ?sel = set ?mem"
    using S(1,3,4) by (auto simp: select_where_def ed bid_def)
  have mp: "map (recall reread ?mem) ?sel = ?sel"
  proof (rule map_idI)
    fix s assume "s \<in> set ?sel"
    then have "s \<in> set (d_seats e)" using sub by blast
    moreover have "set ?mem \<subseteq> set (d_seats e)" using S(1) ed by simp
    ultimately show "recall reread ?mem s = s"
      using recall_same [of "d_seats e" ?mem s reread] u rr by blast
  qed
  have dist: "distinct (map s_id ?sel)"
    using unique_key_filter [OF u] by (simp add: select_where_def unique_key_def)
  have seatok: "\<forall>s \<in> set ?sel. seat_ok (unpin_seat s)"
  proof
    fix s assume "s \<in> set ?sel"
    then have s: "s \<in> set ?mem" using setsel by simp
    then have "seat_ok s" using S(1) seats_ok_seat [OF soundD(3) [OF D(1)]] by blast
    with S(3) [OF s] show "seat_ok (unpin_seat s)" by (auto simp: seat_ok_def unpin_seat_def)
  qed
  let ?ss = "update_where (\<lambda>r. r \<in> set ?mem) unpin_seat (d_seats d)"
  have fl: "flush_seats (map (\<lambda>s. (s, unpin_seat s)) ?sel) e = Inr (e\<lparr>d_seats := ?ss\<rparr>)"
    using flush_map [OF u sub dist _ seatok] setsel ed by simp
  have t: "assert_can_transition (b_state (dft_booking dft)) BS_PAYMENT_FAILED = Inr ()"
    using st by simp
  have run: "fail_payment reread ?mem (dft_booking dft) c det ev d =
      Inr ((), set_booking_state bid BS_PAYMENT_FAILED (e\<lparr>d_seats := ?ss\<rparr>))"
    unfolding fail_payment_def Let_def e_def [symmetric] bid_def [symmetric] mp t
    by (simp add: fl)
  moreover have "sound (set_booking_state bid BS_PAYMENT_FAILED (e\<lparr>d_seats := ?ss\<rparr>))"
    by (rule sound_fail_payment [OF D(1) run])
  moreover have "\<forall>s \<in> set ?ss. s_booking_id s \<noteq> Some bid"
  proof
    fix s assume "s \<in> set ?ss"
    then show "s_booking_id s \<noteq> Some bid"
      by (cases rule: in_update_whereE) (use S(4) in \<open>auto simp: bid_def unpin_seat_def\<close>)
  qed
  moreover have "booking_row bid (set_booking_state bid BS_PAYMENT_FAILED (e\<lparr>d_seats := ?ss\<rparr>)) =
      Some ((dft_booking dft)\<lparr>b_state := BS_PAYMENT_FAILED\<rparr>)"
  proof -
    have "booking_row bid (e\<lparr>d_seats := ?ss\<rparr>) = Some ((dft_booking dft)\<lparr>b_state := BS_PENDING\<rparr>)"
      using D(4) ed by (simp add: booking_row_def bid_def)
    then show ?thesis by (simp add: booking_row_state)
  qed
  moreover have "payments_of bid (set_booking_state bid BS_PAYMENT_FAILED (e\<lparr>d_seats := ?ss\<rparr>)) = ps"
    using D(6) by (simp add: payments_of_def bid_def e_def)
  ultimately show thesis
    using that ed by simp
qed

lemma start_payment_draft:
  assumes "draft_in u dft st [] d" "start_payment p d = Inr (q, d')"
    "pay_booking_id p = b_id (dft_booking dft)"
  shows "q = p" "draft_in u dft st [p] d'"
proof -
  have ins: "insert_payment p d = Inr d'" and "q = p"
    using assms(2) by (auto simp: start_payment_def split: sum.splits)
  then show "q = p" by simp
  have "sound d'" by (rule sound_inserts(4) [OF _ ins]) (use assms(1) in \<open>simp add: draft_in_def Let_def\<close>)
  moreover have "d' = d\<lparr>d_payments := d_payments d @ [p]\<rparr>"
    using ins by (auto simp: insert_payment_def split: if_splits)
  ultimately show "draft_in u dft st [p] d'"
    using assms(1,3)
    by (simp add: draft_in_def draft_seats_in_def Let_def booking_row_def booking_passengers_def
        payments_of_def select_where_def)
qed

lemma set_payment_draft:
  assumes "draft_in u dft st [p] d" "same_payment p q"
  shows "draft_in u dft st [q] (set_payment q d)"
proof -
  have "sound d" "payments_of (b_id (dft_booking dft)) d = [p]"
    using assms(1) by (auto simp: draft_in_def Let_def)
  from payments_of_set [OF this assms(2)] assms(1) show ?thesis
    by (simp add: draft_in_def draft_seats_in_def Let_def booking_row_def booking_passengers_def)
qed

lemma same_payment_updates [simp]:
  "same_payment p (p\<lparr>pay_state := s\<rparr>)"
  "same_payment p (p\<lparr>pay_state := s, pay_provider_ref := r\<rparr>)"
  "same_payment p (p\<lparr>pay_state := s, pay_provider_ref := r, pay_failure_code := c\<rparr>)"
  by (simp_all add: same_payment_def)

lemma mark_unknown_draft:
  assumes "draft_in u dft st [p] d" "mark_unknown p d = Inr (q, d')"
  shows "q = p\<lparr>pay_state := PS_UNKNOWN\<rparr>" "draft_in u dft st [q] d'"
  using assms(2) set_payment_draft [OF assms(1), of "p\<lparr>pay_state := PS_UNKNOWN\<rparr>"]
  by (auto simp: mark_unknown_def Let_def)

lemma approve_draft:
  assumes "draft_in u dft st [p] d" "approve_step (dft_booking dft) p r d = Inr ((b, q), d')"
  shows "q = p\<lparr>pay_state := PS_AUTHORIZED, pay_provider_ref := Some (ar_provider_ref r)\<rparr>"
    "b = (dft_booking dft)\<lparr>b_state := BS_PAYMENT_AUTHORIZED\<rparr>"
    "draft_in u dft BS_PAYMENT_AUTHORIZED [q] d'"
  using assms(2) set_payment_draft [OF assms(1), of "p\<lparr>pay_state := PS_AUTHORIZED, pay_provider_ref := Some (ar_provider_ref r)\<rparr>"]
  by (auto simp: approve_step_def Let_def split: sum.splits intro: draft_in_state draft_in_audit)

subsection \<open>Issuing tickets\<close>

lemma seat_ok_book [simp]: "seat_ok (book_seat bid s)"
  by (simp add: seat_ok_def book_seat_def)

lemma verify_frame: "verify_seats clock bid u ss d = (l, d') \<Longrightarrow> \<exists>as. d' = d\<lparr>d_audit := as\<rparr>"
proof (induction ss arbitrary: d l)
  case Nil
  then show ?case by (auto intro: exI [of _ "d_audit d"])
next
  case (Cons s ss)
  show ?case
  proof (cases "is_lost bid u s")
    case True
    with Cons show ?thesis by (auto split: prod.splits)
  next
    case False
    note v = Cons.prems [unfolded verify_seats.simps(2) if_not_P [OF False]]
    from Cons.IH [OF v] show ?thesis
      by (auto simp: audit_record_def split: if_splits)
  qed
qed

lemma verify_lost: "fst (verify_seats clock bid u ss d) = map s_seat_no (filter (is_lost bid u) ss)"
proof (induction ss arbitrary: d)
  case Nil
  then show ?case by simp
next
  case (Cons s ss)
  then show ?case by (simp add: case_prod_unfold)
qed

lemma insert_tickets_rows: "insert_tickets ts d = Inr d' \<Longrightarrow> d' = d\<lparr>d_tickets := d_tickets d @ ts\<rparr>"
proof (induction ts arbitrary: d)
  case Nil
  then show ?case by simp
next
  case (Cons t ts)
  then have "insert_tickets ts (d\<lparr>d_tickets := d_tickets d @ [t]\<rparr>) = Inr d'"
    by (auto simp: insert_ticket_def split: sum.splits if_splits)
  from Cons.IH [OF this] show ?case by simp
qed

lemma issue_loop_all:
  assumes "map p_seat_inventory_id ps = map (\<lambda>s. Some (s_id s)) mem" "set mem \<subseteq> set locked"
    "unique_key s_id locked"
  obtains ts where
    "issue_loop now draw n bid k locked ps = (None, ts, map (\<lambda>s. (s, book_seat bid s)) mem)"
    "map t_seat_id ts = map s_id mem" "map t_passenger_id ts = map p_id ps"
    "\<forall>t \<in> set ts. t_booking_id t = bid \<and> live_ticket t"
    "map t_id ts = map (\<lambda>i. n + i) [k..<k + length ps]"
    "map t_e_ticket_no ts = map (\<lambda>i. generate_eticket_number (draw i)) [k..<k + length ps]"
  using assms(1,2)
proof (induction ps arbitrary: k mem thesis)
  case Nil
  then show ?case by simp
next
  case (Cons p ps)
  obtain s mem' where mem: "mem = s # mem'" and ps: "p_seat_inventory_id p = Some (s_id s)"
      "map p_seat_inventory_id ps = map (\<lambda>s. Some (s_id s)) mem'"
    using Cons.prems(2) by auto
  have s: "find (\<lambda>r. s_id r = s_id s) locked = Some s"
    using select_one_unique [OF assms(3), of s "s_id s"] Cons.prems(3) mem by (simp add: select_one_def)
  have sub: "set mem' \<subseteq> set locked" using Cons.prems(3) mem by simp
  obtain ts where ts:
    "issue_loop now draw n bid (Suc k) locked ps = (None, ts, map (\<lambda>s. (s, book_seat bid s)) mem')"
    "map t_seat_id ts = map s_id mem'" "map t_passenger_id ts = map p_id ps"
    "\<forall>t \<in> set ts. t_booking_id t = bid \<and> live_ticket t"
    "map t_id ts = map (\<lambda>i. n + i) [Suc k..<Suc k + length ps]"
    "map t_e_ticket_no ts = map (\<lambda>i. generate_eticket_number (draw i)) [Suc k..<Suc k + length ps]"
    by (rule Cons.IH [OF _ ps(2) sub, of "Suc k"])
  let ?t = "new_ticket (n + k) bid p s (generate_eticket_number (draw k)) now"
  have up: "[k..<k + length (p # ps)] = k # [Suc k..<Suc k + length ps]"
    by (simp add: upt_rec)
  show ?case
  proof (rule Cons.prems(1) [of "?t # ts"])
    show "issue_loop now draw n bid k locked (p # ps) = (None, ?t # ts, map (\<lambda>s. (s, book_seat bid s)) mem)"
      using ts(1) s ps(1) mem by simp
  qed (use ts mem in \<open>simp_all only: up list.map, simp_all add: new_ticket_def live_ticket_def\<close>)
qed

text \<open>
  Undisturbed, the re-verification finds every seat in place; what is left is the injected
  failure and the unique indexes of the tickets.
\<close>

lemma issue_eq:
  assumes dr: "draft_in u dft BS_PAYMENT_AUTHORIZED pays d" and rr: "coherent reread"
    and b: "b = (dft_booking dft)\<lparr>b_state := BS_PAYMENT_AUTHORIZED\<rparr>"
  defines "bid \<equiv> b_id (dft_booking dft)"
  obtains ts as a where
    "issue_tickets reread clock now draw n b (dft_passengers dft) (dft_seats dft) u tok d =
       (if trigger_for tok = TICKETING_FAILURE
        then (Inl (TicketingFailed ''Ticket issuance failed after payment was authorized.''),
              audit_record bid AE_TICKETING_FAILED (note_args
                [(''reason'', JStr ''downstream ticketing system rejected the request'')])
                (d\<lparr>d_audit := as\<rparr>))
        else case insert_tickets ts (d\<lparr>d_audit := as,
                  d_seats := update_where (\<lambda>r. r \<in> set (dft_seats dft)) (book_seat bid) (d_seats d)\<rparr>) of
               Inl e \<Rightarrow> (Inl e, d\<lparr>d_audit := as\<rparr>)
             | Inr d2 \<Rightarrow> (Inr (b\<lparr>b_state := BS_TICKETED\<rparr>),
                 set_booking_state bid BS_TICKETED (audit_record bid AE_TICKETS_ISSUED a d2)))"
    "map t_seat_id ts = map s_id (dft_seats dft)" "map t_passenger_id ts = map p_id (dft_passengers dft)"
    "\<forall>t \<in> set ts. t_booking_id t = bid \<and> live_ticket t"
    "map t_id ts = map (\<lambda>i. n + i) [0..<length (dft_passengers dft)]"
    "map t_e_ticket_no ts = map (\<lambda>i. generate_eticket_number (draw i)) [0..<length (dft_passengers dft)]"
proof -
  note D = draft_inD [OF dr] and S = draft_seatsD [OF draft_inD(2) [OF dr]]
  let ?mem = "dft_seats dft" and ?ps = "dft_passengers dft"
  let ?L = "locked_seats reread ?mem d"
  have u: "unique_key s_id (d_seats d)" by (rule soundD(4) [OF D(1)])
  note L = locked_seats_same [OF u S(1) rr]
  have bb: "b_id b = bid" "b_state b = BS_PAYMENT_AUTHORIZED" by (simp_all add: b bid_def)
  have "filter (is_lost bid u) ?L = []"
    using L(2) S(3) by (auto simp: filter_empty_conv is_lost_def still_ours_def bid_def)
  then have "fst (verify_seats clock bid u ?L d) = []"
    by (simp add: verify_lost)
  then obtain d1 where d1: "verify_seats clock bid u ?L d = ([], d1)"
    by (cases "verify_seats clock bid u ?L d") auto
  then obtain as where as: "d1 = d\<lparr>d_audit := as\<rparr>"
    using verify_frame [OF d1] by blast
  have "unique_key s_id ?L"
    unfolding L(1) order_by_def select_where_def
    using unique_key_filter [OF u] by (simp add: unique_key_def distinct_map)
  then obtain ts where ts:
    "issue_loop now draw n bid 0 ?L ?ps = (None, ts, map (\<lambda>s. (s, book_seat bid s)) ?mem)"
    "map t_seat_id ts = map s_id ?mem" "map t_passenger_id ts = map p_id ?ps"
    "\<forall>t \<in> set ts. t_booking_id t = bid \<and> live_ticket t"
    "map t_id ts = map (\<lambda>i. n + i) [0..<0 + length ?ps]"
    "map t_e_ticket_no ts = map (\<lambda>i. generate_eticket_number (draw i)) [0..<0 + length ?ps]"
    using issue_loop_all [OF S(5), of ?L now draw n bid 0] L(2) by blast
  have "flush_seats (map (\<lambda>s. (s, book_seat bid s)) ?mem) d1 =
      Inr (d1\<lparr>d_seats := update_where (\<lambda>r. r \<in> set ?mem) (book_seat bid) (d_seats d1)\<rparr>)"
    using u S(1,2) as by (intro flush_map) auto
  then have fl: "flush_issued ts (map (\<lambda>s. (s, book_seat bid s)) ?mem) d1 =
      insert_tickets ts (d\<lparr>d_audit := as,
         d_seats := update_where (\<lambda>r. r \<in> set ?mem) (book_seat bid) (d_seats d)\<rparr>)"
    by (simp add: flush_issued_def as)
  have t: "assert_can_transition BS_PAYMENT_AUTHORIZED BS_TICKETED = Inr ()" by simp
  show thesis
  proof (rule that [where as = as and ts = ts and a = "change_args (b_state b) BS_TICKETED
        [(''tickets'', issued_json ts (map (\<lambda>s. (s, book_seat bid s)) ?mem))]"])
    show "issue_tickets reread clock now draw n b ?ps ?mem u tok d =
       (if trigger_for tok = TICKETING_FAILURE
        then (Inl (TicketingFailed ''Ticket issuance failed after payment was authorized.''),
              audit_record bid AE_TICKETING_FAILED (note_args
                [(''reason'', JStr ''downstream ticketing system rejected the request'')])
                (d\<lparr>d_audit := as\<rparr>))
        else case insert_tickets ts (d\<lparr>d_audit := as,
                  d_seats := update_where (\<lambda>r. r \<in> set ?mem) (book_seat bid) (d_seats d)\<rparr>) of
               Inl e \<Rightarrow> (Inl e, d\<lparr>d_audit := as\<rparr>)
             | Inr d2 \<Rightarrow> (Inr (b\<lparr>b_state := BS_TICKETED\<rparr>),
                 set_booking_state bid BS_TICKETED (audit_record bid AE_TICKETS_ISSUED
                   (change_args (b_state b) BS_TICKETED
                     [(''tickets'', issued_json ts (map (\<lambda>s. (s, book_seat bid s)) ?mem))]) d2)))"
      unfolding issue_tickets_def Let_def bb d1 prod.case ts(1) t as
      by (simp add: fl [unfolded as] split: sum.split)
  qed (use ts in simp_all)
qed

lemma issue_draft:
  assumes dr: "draft_in u dft BS_PAYMENT_AUTHORIZED pays d" and rr: "coherent reread"
    and b: "b = (dft_booking dft)\<lparr>b_state := BS_PAYMENT_AUTHORIZED\<rparr>"
    and iss: "issue_tickets reread clock now draw n b (dft_passengers dft) (dft_seats dft) u tok d = (Inr b', d')"
  defines "bid \<equiv> b_id (dft_booking dft)"
  obtains ts where "b' = b\<lparr>b_state := BS_TICKETED\<rparr>" "sound d'"
    "d_seats d' = update_where (\<lambda>r. r \<in> set (dft_seats dft)) (book_seat bid) (d_seats d)"
    "d_tickets d' = d_tickets d @ ts" "map t_seat_id ts = map s_id (dft_seats dft)"
    "map t_passenger_id ts = map p_id (dft_passengers dft)"
    "\<forall>t \<in> set ts. t_booking_id t = bid \<and> live_ticket t"
    "booking_row bid d' = Some ((dft_booking dft)\<lparr>b_state := BS_TICKETED\<rparr>)"
    "payments_of bid d' = pays" "booking_passengers bid d' = dft_passengers dft"
proof -
  note D = draft_inD [OF dr]
  obtain ts as a where i:
    "issue_tickets reread clock now draw n b (dft_passengers dft) (dft_seats dft) u tok d =
       (if trigger_for tok = TICKETING_FAILURE
        then (Inl (TicketingFailed ''Ticket issuance failed after payment was authorized.''),
              audit_record bid AE_TICKETING_FAILED (note_args
                [(''reason'', JStr ''downstream ticketing system rejected the request'')])
                (d\<lparr>d_audit := as\<rparr>))
        else case insert_tickets ts (d\<lparr>d_audit := as,
                  d_seats := update_where (\<lambda>r. r \<in> set (dft_seats dft)) (book_seat bid) (d_seats d)\<rparr>) of
               Inl e \<Rightarrow> (Inl e, d\<lparr>d_audit := as\<rparr>)
             | Inr d2 \<Rightarrow> (Inr (b\<lparr>b_state := BS_TICKETED\<rparr>),
                 set_booking_state bid BS_TICKETED (audit_record bid AE_TICKETS_ISSUED a d2)))"
    and ts: "map t_seat_id ts = map s_id (dft_seats dft)" "map t_passenger_id ts = map p_id (dft_passengers dft)"
    "\<forall>t \<in> set ts. t_booking_id t = bid \<and> live_ticket t"
    unfolding bid_def by (rule issue_eq [OF dr rr b])
  have b': "b' = b\<lparr>b_state := BS_TICKETED\<rparr>"
    and "\<exists>d2. insert_tickets ts (d\<lparr>d_audit := as,
           d_seats := update_where (\<lambda>r. r \<in> set (dft_seats dft)) (book_seat bid) (d_seats d)\<rparr>) = Inr d2 \<and>
         d' = set_booking_state bid BS_TICKETED (audit_record bid AE_TICKETS_ISSUED a d2)"
    using iss [unfolded i] by (auto split: if_splits sum.splits)
  then obtain d2 where d2: "insert_tickets ts (d\<lparr>d_audit := as,
           d_seats := update_where (\<lambda>r. r \<in> set (dft_seats dft)) (book_seat bid) (d_seats d)\<rparr>) = Inr d2"
    and d': "d' = set_booking_state bid BS_TICKETED (audit_record bid AE_TICKETS_ISSUED a d2)"
    by blast
  note d2' = insert_tickets_rows [OF d2]
  have row: "booking_row bid d' = Some ((dft_booking dft)\<lparr>b_state := BS_TICKETED\<rparr>)"
    unfolding d' booking_row_state using D(4) by (simp add: booking_row_def d2' bid_def)
  show thesis
    by (rule that [OF b' sound_issue_tickets [OF D(1) iss] _ _ ts row])
       (use D(5,6) in \<open>simp_all add: d' d2' payments_of_def booking_passengers_def bid_def\<close>)
qed

subsection \<open>Compensation\<close>

lemma transact_cur_Inr:
  assumes "transact body w = (Inr x, w')"
  obtains d where "body (w_cur w) = Inr (x, d)" "w' = at_db w d"
  using assms
  by (auto simp: transact_def at_db_def commit_def map_cur_def split: sum.splits prod.splits)

lemma transact_eqI: "body (w_cur w) = Inr (x, d) \<Longrightarrow> transact body w = (Inr x, at_db w d)"
  by (simp add: transact_def at_db_def commit_def map_cur_def)

lemma update_where_keeps: "r \<in> set t \<Longrightarrow> \<not> p r \<Longrightarrow> r \<in> set (update_where p f t)"
  by (induction t) (auto simp: update_where_Cons)

lemma release_seats_clean:
  assumes "release_seats_for_booking now bid d = (n, d')"
  shows "\<forall>s \<in> set (d_seats d'). s_booking_id s \<noteq> Some bid"
    "\<forall>t \<in> set (d_tickets d'). t_booking_id t = bid \<longrightarrow> \<not> live_ticket t"
    "d_payments d' = d_payments d" "d_bookings d' = d_bookings d" "d_passengers d' = d_passengers d"
    "\<And>s. s_booking_id s \<noteq> Some bid \<Longrightarrow> s \<in> set (d_seats d) \<Longrightarrow> s \<in> set (d_seats d')"
    "\<And>t. t_booking_id t \<noteq> bid \<Longrightarrow> t \<in> set (d_tickets d') \<longleftrightarrow> t \<in> set (d_tickets d)"
proof -
  let ?ss = "update_where (\<lambda>s. s_booking_id s = Some bid) free_seat (d_seats d)"
  let ?ts = "update_where (\<lambda>t. t_booking_id t = bid \<and> t_voided_at t = None) (void_ticket now) (d_tickets d)"
  have d': "d' = d\<lparr>d_tickets := ?ts, d_seats := ?ss\<rparr>"
    using assms by (simp add: release_seats_for_booking_def)
  have seats: "d_seats d' = ?ss" and tickets: "d_tickets d' = ?ts"
    by (simp_all add: d')
  show "\<forall>s \<in> set (d_seats d'). s_booking_id s \<noteq> Some bid"
  proof
    fix s assume "s \<in> set (d_seats d')"
    then have "s \<in> set ?ss" unfolding seats .
    then show "s_booking_id s \<noteq> Some bid"
      by (cases rule: in_update_whereE) (simp_all add: free_seat_def)
  qed
  show "\<forall>t \<in> set (d_tickets d'). t_booking_id t = bid \<longrightarrow> \<not> live_ticket t"
  proof (intro ballI impI)
    fix t assume "t \<in> set (d_tickets d')" "t_booking_id t = bid"
    then have "t \<in> set ?ts" unfolding tickets by simp
    then show "\<not> live_ticket t"
      by (cases rule: in_update_whereE) (use \<open>t_booking_id t = bid\<close> in \<open>simp_all add: void_ticket_def live_ticket_def\<close>)
  qed
  show "d_payments d' = d_payments d" "d_bookings d' = d_bookings d" "d_passengers d' = d_passengers d"
    by (simp_all add: d')
  show "s \<in> set (d_seats d')" if "s_booking_id s \<noteq> Some bid" "s \<in> set (d_seats d)" for s
    unfolding seats by (rule update_where_keeps) (use that in simp_all)
  show "t \<in> set (d_tickets d') \<longleftrightarrow> t \<in> set (d_tickets d)" if "t_booking_id t \<noteq> bid" for t
  proof
    assume "t \<in> set (d_tickets d')"
    then have "t \<in> set ?ts" unfolding tickets .
    then show "t \<in> set (d_tickets d)"
      by (cases rule: in_update_whereE) (use that in \<open>auto simp: void_ticket_def\<close>)
  next
    assume "t \<in> set (d_tickets d)"
    then show "t \<in> set (d_tickets d')"
      unfolding tickets by (rule update_where_keeps) (use that in simp_all)
  qed
qed

text \<open>
  Compensating an authorization that was not captured always succeeds, whatever the card:
  the gateway's \<open>void\<close> has no failing branch.
\<close>

lemma compensate_authorized:
  assumes ok: "sound (w_cur w)" and st: "b_state b = BS_PAYMENT_AUTHORIZED"
    and pays: "payments_of (b_id b) (w_cur w) = [p]" and pst: "pay_state p \<noteq> PS_CAPTURED"
    and row: "booking_row (b_id b) (w_cur w) = Some r"
  obtains w' where "compensate now rq u tok b p reason w = (Inr (b\<lparr>b_state := BS_VOIDED\<rparr>), w')"
    "idle w'" "sound (w_com w')"
    "\<forall>s \<in> set (d_seats (w_com w')). s_booking_id s \<noteq> Some (b_id b)"
    "\<forall>t \<in> set (d_tickets (w_com w')). t_booking_id t = b_id b \<longrightarrow> \<not> live_ticket t"
    "payments_of (b_id b) (w_com w') = [p\<lparr>pay_state := PS_VOIDED\<rparr>]"
    "booking_row (b_id b) (w_com w') = Some (r\<lparr>b_state := BS_VOIDED\<rparr>)"
    "g_voided (w_gw w') = insert (opt_ref (pay_provider_ref p)) (g_voided (w_gw w))"
    "g_captured (w_gw w') = g_captured (w_gw w)"
    "g_authorizations (w_gw w') = g_authorizations (w_gw w)"
proof -
  let ?bid = "b_id b" and ?b1 = "b\<lparr>b_state := BS_COMPENSATING\<rparr>"
  let ?q = "p\<lparr>pay_state := PS_VOIDED\<rparr>"
  define d1 where "d1 = set_booking_state ?bid BS_COMPENSATING
      (audit_record ?bid AE_COMPENSATION_STARTED (change_args (b_state b) BS_COMPENSATING
         [(''reason'', JStr reason), (''provider_ref'', opt_str (pay_provider_ref p))]) (w_cur w))"
  have "assert_can_transition (b_state b) BS_COMPENSATING = Inr ()" using st by simp
  then have b1: "begin_compensation b p reason (w_cur w) = Inr (?b1, d1)"
    by (simp only: begin_compensation_def d1_def sum.case)
  have s1: "sound d1" by (rule sound_begin_compensation [OF ok b1])
  let ?g = "arm_if_injected tok p (w_gw w)"
  let ?g' = "?g\<lparr>g_voided := insert (opt_ref (pay_provider_ref p)) (g_voided ?g)\<rparr>"
  have rev: "reverse_charge p ?g = (Inr (?q, AE_PAYMENT_VOIDED), ?g')"
    using pst by (simp add: reverse_charge_def void_def)
  define d2 where "d2 = audit_record ?bid AE_PAYMENT_VOIDED
      (note_args [(''provider_ref'', opt_str (pay_provider_ref ?q))]) (set_payment ?q d1)"
  obtain n d3 where d3: "release_seats_for_booking now ?bid d2 = (n, d3)"
    by (cases "release_seats_for_booking now ?bid d2")
  define d4 where "d4 = set_booking_state ?bid BS_VOIDED
      (audit_record ?bid AE_SEATS_RELEASED (note_args [(''seats_released'', JInt (int n))]) d3)"
  have t: "assert_can_transition (b_state ?b1) BS_VOIDED = Inr ()" by simp
  have v: "void_step now ?b1 ?q AE_PAYMENT_VOIDED d1 = Inr (b\<lparr>b_state := BS_VOIDED\<rparr>, d4)"
    unfolding void_step_def Let_def t using d3 by (simp add: d2_def d4_def)
  let ?w1 = "(at_db w d1)\<lparr>w_gw := ?g'\<rparr>"
  have run: "compensate now rq u tok b p reason w = (Inr (b\<lparr>b_state := BS_VOIDED\<rparr>), at_db ?w1 d4)"
  proof -
    have t1: "transact (begin_compensation b p reason) w = (Inr ?b1, at_db w d1)"
      by (rule transact_eqI) (rule b1)
    have t2: "transact (void_step now ?b1 ?q AE_PAYMENT_VOIDED) ?w1 = (Inr (b\<lparr>b_state := BS_VOIDED\<rparr>), at_db ?w1 d4)"
      by (rule transact_eqI) (simp add: v)
    show ?thesis
      unfolding compensate_def t1 using rev t2 by simp
  qed
  note R = release_seats_clean [OF d3]
  have pd1: "payments_of ?bid d1 = [p]" using pays by (simp add: d1_def)
  have "payments_of ?bid d2 = [?q]"
    unfolding d2_def using payments_of_set [OF s1 pd1, of ?q] by simp
  then have pd4: "payments_of ?bid d4 = [?q]"
    unfolding d4_def using R(3) by (simp add: payments_of_def)
  have "booking_row ?bid d1 = Some (r\<lparr>b_state := BS_COMPENSATING\<rparr>)"
    unfolding d1_def booking_row_state by (simp add: row)
  then have "booking_row ?bid d3 = Some (r\<lparr>b_state := BS_COMPENSATING\<rparr>)"
    using R(4) by (simp add: booking_row_def d2_def)
  then have rd4: "booking_row ?bid d4 = Some (r\<lparr>b_state := BS_VOIDED\<rparr>)"
    unfolding d4_def booking_row_state by simp
  show thesis
    by (rule that [OF run])
       (use R(1,2) pd4 rd4 sound_void_step [OF s1 v] in
         \<open>simp_all add: d4_def arm_if_injected_def arm_refund_failure_def\<close>)
qed

subsection \<open>Charging\<close>

fun is_app_error :: "exn \<Rightarrow> bool" where
  "is_app_error (App e) = True"
| "is_app_error e = False"

lemma authorize_frame:
  assumes "authorize hex tok amt cur k g = (r, g')"
  shows "g_captured g' = g_captured g" "g_voided g' = g_voided g" "g_refunded g' = g_refunded g"
    "r = Inr x \<Longrightarrow> stored_auth g' k = Some x" "r = Inl e \<Longrightarrow> \<exists>m. e = PaymentTimeout m"
  using assms
  by (auto simp: authorize_def Let_def stored_auth_def map_add_def split: option.splits if_splits)

lemma call_gateway_frame:
  assumes "call_gateway hex p w = (r, w')"
  shows "w_com w' = w_com w" "w_cur w' = w_cur w" "w_fresh w' = w_fresh w" "idle w \<Longrightarrow> idle w'"
    "g_captured (w_gw w') = g_captured (w_gw w)" "g_voided (w_gw w') = g_voided (w_gw w)"
    "r = Inr x \<Longrightarrow> stored_auth (w_gw w') (pay_idempotency_key p) = Some x"
    "r = Inl e \<Longrightarrow> \<exists>m. e = PaymentTimeout m"
proof -
  obtain g where a: "authorize hex (pay_card_token p) (pay_amount p) (pay_currency p) (pay_idempotency_key p) (w_gw w) = (r, g)"
    and w': "w' = w\<lparr>w_gw := g\<rparr>"
    using assms by (auto simp: call_gateway_def split: prod.splits)
  note f = authorize_frame [OF a]
  show "w_com w' = w_com w" "w_cur w' = w_cur w" "w_fresh w' = w_fresh w" "idle w \<Longrightarrow> idle w'"
    by (simp_all add: w' idle_def)
  show "g_captured (w_gw w') = g_captured (w_gw w)" "g_voided (w_gw w') = g_voided (w_gw w)"
    using f(1,2) by (simp_all add: w')
  show "r = Inr x \<Longrightarrow> stored_auth (w_gw w') (pay_idempotency_key p) = Some x"
    using f(4) [of x] by (simp add: w')
  show "r = Inl e \<Longrightarrow> \<exists>m. e = PaymentTimeout m" by (rule f(5))
qed

text \<open>
  One charge: either the first answer, or after a timeout the answer to the retry with the
  same key, the payment row marked UNKNOWN in between.
\<close>

lemma charge_cases:
  assumes w: "idle w" "draft_in u dft st [p] (w_com w)" and ch: "charge hex p w = (res, w')"
  shows "idle w'" "g_captured (w_gw w') = g_captured (w_gw w)" "g_voided (w_gw w') = g_voided (w_gw w)"
    "w_fresh w' = w_fresh w"
    "res = Inl e \<Longrightarrow> \<not> is_app_error e"
    "res = Inr (q, r) \<Longrightarrow> draft_in u dft st [q] (w_com w') \<and> q \<in> {p, p\<lparr>pay_state := PS_UNKNOWN\<rparr>} \<and>
        stored_auth (w_gw w') (pay_idempotency_key p) = Some r"
proof -
  obtain r1 w1 where c1: "call_gateway (hex 0) p w = (r1, w1)" by (cases "call_gateway (hex 0) p w")
  note f1 = call_gateway_frame [OF c1]
  have all: "idle w' \<and> g_captured (w_gw w') = g_captured (w_gw w) \<and> g_voided (w_gw w') = g_voided (w_gw w) \<and>
      w_fresh w' = w_fresh w \<and> (\<forall>e. res = Inl e \<longrightarrow> \<not> is_app_error e) \<and>
      (\<forall>q r. res = Inr (q, r) \<longrightarrow> draft_in u dft st [q] (w_com w') \<and> q \<in> {p, p\<lparr>pay_state := PS_UNKNOWN\<rparr>} \<and>
         stored_auth (w_gw w') (pay_idempotency_key p) = Some r)"
  proof (cases r1)
    case (Inr r)
    with ch c1 have "res = Inr (p, r)" "w' = w1" by (auto simp: charge_def)
    with Inr w f1 show ?thesis by auto
  next
    case (Inl e1)
    obtain m where m: "e1 = PaymentTimeout m" using f1(8) [OF Inl] by blast
    let ?q = "p\<lparr>pay_state := PS_UNKNOWN\<rparr>"
    obtain d where mu: "mark_unknown p (w_cur w1) = Inr (?q, d)"
      by (simp add: mark_unknown_def Let_def)
    have t: "transact (mark_unknown p) w1 = (Inr ?q, at_db w1 d)"
      by (rule transact_eqI) (rule mu)
    have dr: "draft_in u dft st [?q] d"
      using mark_unknown_draft(2) [OF _ mu] w f1(2) by (simp add: idle_def)
    obtain r2 w2 where c2: "call_gateway (hex 1) ?q (at_db w1 d) = (r2, w2)"
      by (cases "call_gateway (hex 1) ?q (at_db w1 d)")
    note f2 = call_gateway_frame [OF c2]
    show ?thesis
    proof (cases r2)
      case (Inl e2)
      then have "res = Inl e2" "w' = w2"
        using ch c1 \<open>r1 = Inl e1\<close> m t c2 by (auto simp: charge_def)
      moreover obtain m2 where "e2 = PaymentTimeout m2" using f2(8) [OF Inl] by blast
      ultimately show ?thesis using f1 f2 by simp
    next
      case (Inr r)
      then have "res = Inr (?q, r)" "w' = w2"
        using ch c1 \<open>r1 = Inl e1\<close> m t c2 by (auto simp: charge_def)
      with Inr f1 f2 dr show ?thesis by simp
    qed
  qed
  from all show "idle w'" "g_captured (w_gw w') = g_captured (w_gw w)" "g_voided (w_gw w') = g_voided (w_gw w)"
    "w_fresh w' = w_fresh w" "res = Inl e \<Longrightarrow> \<not> is_app_error e"
    "res = Inr (q, r) \<Longrightarrow> draft_in u dft st [q] (w_com w') \<and> q \<in> {p, p\<lparr>pay_state := PS_UNKNOWN\<rparr>} \<and>
        stored_auth (w_gw w') (pay_idempotency_key p) = Some r"
    by blast+
qed

end
