(* ===== verification/Sky_SagaOutcome.thy ===== *)
theory Sky_SagaOutcome
  imports Sky_SagaRun
begin

text \<open>
  The outcomes of the saga and of a cancellation: what a 201 means, what every error that
  is reported to the client leaves behind, what happens to a charge when the seats were
  lost or an unforeseen error comes up, and what cancelling does in each state.
\<close>

subsection \<open>The charge within the saga\<close>

lemma take_payment_cases:
  assumes w: "idle w" "draft_in u dft BS_PENDING [] (w_com w)"
    and tp: "take_payment reread dr rq u tok fp key a dft w = (res, w')"
  obtains (no_charge) e where "res = Inl e" "\<not> is_app_error e"
  | (charged) q r w3 where "idle w3" "draft_in u dft BS_PENDING [q] (w_com w3)"
      "pay_amount q = b_total_amount (dft_booking dft)" "pay_booking_id q = b_id (dft_booking dft)"
      "pay_idempotency_key q = gateway_key_of key" "stored_auth (w_gw w3) (gateway_key_of key) = Some r"
      "g_captured (w_gw w3) = g_captured (w_gw w)" "g_voided (w_gw w3) = g_voided (w_gw w)"
      "w_fresh w3 = Suc (w_fresh w)"
      "(res, w') = (if \<not> ar_approved r
         then (case transact (decline_step reread dft q r a) w3 of
                 (Inl e, w4) \<Rightarrow> (Inl e, w4)
               | (Inr _, w4) \<Rightarrow>
                   (Inl (declined_error r), decline_event (dr_now dr 2) rq u (dft_booking dft) fp r a w4))
         else transact (approve_step (dft_booking dft) q r) w3)"
proof -
  let ?b = "dft_booking dft"
  let ?p0 = "new_payment (w_fresh w) ?b tok fp (gateway_key_of key) (dr_now dr 1)"
  let ?w0 = "w\<lparr>w_fresh := Suc (w_fresh w)\<rparr>"
  have i0: "idle ?w0" using w(1) by (simp add: idle_def)
  obtain r1 w1 where t1: "transact (start_payment ?p0) ?w0 = (r1, w1)"
    by (cases "transact (start_payment ?p0) ?w0")
  show thesis
  proof (cases r1)
    case (Inl e)
    then have "start_payment ?p0 (w_com ?w0) = Inl e"
      using transact_Inl(1) [OF i0] t1 by blast
    then have "\<not> is_app_error e"
      by (auto simp: start_payment_def insert_payment_def split: if_splits sum.splits)
    moreover have "res = Inl e"
      using tp t1 Inl by (simp add: take_payment_def Let_def)
    ultimately show thesis by (intro no_charge) auto
  next
    case (Inr p1)
    obtain d1 where d1: "start_payment ?p0 (w_com ?w0) = Inr (p1, d1)" "w1 = at_db ?w0 d1"
      by (rule transact_Inr [OF i0 t1 [unfolded Inr]])
    have sp: "p1 = ?p0" "draft_in u dft BS_PENDING [?p0] d1"
      using start_payment_draft [of u dft BS_PENDING "w_com w" ?p0 p1 d1] w(2) d1(1)
      by (auto simp: new_payment_def)
    have dr1: "draft_in u dft BS_PENDING [?p0] (w_com w1)" and i1: "idle w1" using sp d1(2) by simp_all
    obtain c w2 where ch: "charge (dr_hex dr) ?p0 w1 = (c, w2)" by (cases "charge (dr_hex dr) ?p0 w1")
    note C = charge_cases [OF i1 dr1 ch]
    show thesis
    proof (cases c)
      case (Inl e)
      then have "res = Inl e"
        using tp t1 \<open>r1 = Inr p1\<close> sp(1) ch by (simp add: take_payment_def Let_def)
      with C(5) [OF Inl] show thesis by (intro no_charge)
    next
      case (Inr qr)
      obtain q r where qr: "qr = (q, r)" by (cases qr)
      define w3 where "w3 = record_outcome (dr_up dr 1) (dr_ms dr 1) (dr_member dr 1) (dr_now dr 2) rq u
          (client_ip rq) fp (ar_approved r) w2"
      note O = outcome_frame [where up = "dr_up dr 1" and ms = "dr_ms dr 1" and hx = "dr_member dr 1" and
          now = "dr_now dr 2" and rq = rq and u = u and ip = "client_ip rq" and fp = fp and
          ok = "ar_approved r" and w = w2, folded w3_def]
      have dr2: "draft_in u dft BS_PENDING [q] (w_com w2)" and q: "q \<in> {?p0, ?p0\<lparr>pay_state := PS_UNKNOWN\<rparr>}"
        and auth: "stored_auth (w_gw w2) (gateway_key_of key) = Some r"
        using C(6) [OF Inr [unfolded qr]] by (auto simp: new_payment_def)
      have dr3: "draft_in u dft BS_PENDING [q] (w_com w3)"
        by (rule draft_in_same [OF dr2])
           (use business_eqD [OF O(1)] outcome_sound draft_inD(1) [OF dr2] in \<open>simp_all add: w3_def\<close>)
      have res: "(res, w') = (if \<not> ar_approved r
         then (case transact (decline_step reread dft q r a) w3 of
                 (Inl e, w4) \<Rightarrow> (Inl e, w4)
               | (Inr _, w4) \<Rightarrow>
                   (Inl (declined_error r), decline_event (dr_now dr 2) rq u ?b fp r a w4))
         else transact (approve_step ?b q r) w3)"
        unfolding tp [symmetric]
        by (simp only: take_payment_def Let_def t1 \<open>r1 = Inr p1\<close> sp(1) ch Inr qr prod.case sum.case w3_def)
      show thesis
        by (rule charged [OF O(5) [OF C(1)] dr3 _ _ _ _ _ _ _ res])
           (use q auth C(2,3,4) O(3,4) d1(2) in \<open>auto simp: new_payment_def\<close>)
    qed
  qed
qed

lemma take_payment_Inr:
  assumes w: "idle w" "draft_in u dft BS_PENDING [] (w_com w)"
    and tp: "take_payment reread dr rq u tok fp key a dft w = (Inr (b, p), w')"
  shows "idle w'" "draft_in u dft BS_PAYMENT_AUTHORIZED [p] (w_com w')"
    "b = (dft_booking dft)\<lparr>b_state := BS_PAYMENT_AUTHORIZED\<rparr>" "pay_state p = PS_AUTHORIZED"
    "pay_amount p = b_total_amount (dft_booking dft)"
    "g_captured (w_gw w') = g_captured (w_gw w)" "g_voided (w_gw w') = g_voided (w_gw w)"
    "\<exists>r. stored_auth (w_gw w') (gateway_key_of key) = Some r \<and> ar_approved r \<and>
         pay_provider_ref p = Some (ar_provider_ref r)"
    "w_fresh w' = Suc (w_fresh w)"
proof -
  let ?goal = "idle w' \<and> draft_in u dft BS_PAYMENT_AUTHORIZED [p] (w_com w') \<and>
    b = (dft_booking dft)\<lparr>b_state := BS_PAYMENT_AUTHORIZED\<rparr> \<and> pay_state p = PS_AUTHORIZED \<and>
    pay_amount p = b_total_amount (dft_booking dft) \<and>
    g_captured (w_gw w') = g_captured (w_gw w) \<and> g_voided (w_gw w') = g_voided (w_gw w) \<and>
    (\<exists>r. stored_auth (w_gw w') (gateway_key_of key) = Some r \<and> ar_approved r \<and>
         pay_provider_ref p = Some (ar_provider_ref r)) \<and> w_fresh w' = Suc (w_fresh w)"
  have main: ?goal
  proof (rule take_payment_cases [OF w tp])
    fix q r w3
    assume c: "idle w3" "draft_in u dft BS_PENDING [q] (w_com w3)"
      "pay_amount q = b_total_amount (dft_booking dft)"
      "stored_auth (w_gw w3) (gateway_key_of key) = Some r"
      "g_captured (w_gw w3) = g_captured (w_gw w)" "g_voided (w_gw w3) = g_voided (w_gw w)"
      "w_fresh w3 = Suc (w_fresh w)"
      and res: "(Inr (b, p), w') = (if \<not> ar_approved r
         then (case transact (decline_step reread dft q r a) w3 of
                 (Inl e, w4) \<Rightarrow> (Inl e, w4)
               | (Inr _, w4) \<Rightarrow>
                   (Inl (declined_error r), decline_event (dr_now dr 2) rq u (dft_booking dft) fp r a w4))
         else transact (approve_step (dft_booking dft) q r) w3)"
    have app: "ar_approved r" and t4: "transact (approve_step (dft_booking dft) q r) w3 = (Inr (b, p), w')"
      using res by (auto split: prod.splits sum.splits if_splits)
    obtain d4 where d4: "approve_step (dft_booking dft) q r (w_com w3) = Inr ((b, p), d4)" "w' = at_db w3 d4"
      by (rule transact_Inr [OF c(1) t4])
    note A = approve_draft [OF c(2) d4(1)]
    show ?goal
      using A c app d4(2) by simp
  qed auto
  show "idle w'" "draft_in u dft BS_PAYMENT_AUTHORIZED [p] (w_com w')"
    "b = (dft_booking dft)\<lparr>b_state := BS_PAYMENT_AUTHORIZED\<rparr>" "pay_state p = PS_AUTHORIZED"
    "pay_amount p = b_total_amount (dft_booking dft)"
    "g_captured (w_gw w') = g_captured (w_gw w)" "g_voided (w_gw w') = g_voided (w_gw w)"
    "\<exists>r. stored_auth (w_gw w') (gateway_key_of key) = Some r \<and> ar_approved r \<and>
         pay_provider_ref p = Some (ar_provider_ref r)"
    "w_fresh w' = Suc (w_fresh w)"
    using main by blast+
qed

text \<open>What a failed payment leaves: the booking failed, no seat pinned, no ticket.\<close>

definition payment_failed_in :: "uuid \<Rightarrow> db \<Rightarrow> bool" where
  "payment_failed_in bid d =
     (sound d \<and> (\<forall>b. booking_row bid d = Some b \<longrightarrow> b_state b = BS_PAYMENT_FAILED) \<and>
      (\<forall>s \<in> set (d_seats d). s_booking_id s \<noteq> Some bid) \<and> (\<forall>t \<in> set (d_tickets d). t_booking_id t \<noteq> bid) \<and>
      (\<forall>p \<in> set (payments_of bid d). pay_state p = PS_DECLINED))"

lemma payment_failed_event [simp]:
  "payment_failed_in bid d \<Longrightarrow> payment_failed_in bid (add_event now rq et sv a d)"
  by (simp add: payment_failed_in_def booking_row_def payments_of_def)

lemma decline_event_simps [simp]:
  "w_com (decline_event now rq u b fp r a w) = add_event now rq SE_PAYMENT_DECLINED SV_LOW
     (no_args\<lparr>ev_actor_user_id := Some u, ev_resource_type := Some ''booking'',
        ev_resource_id := Some (b_ref b),
        ev_detail := JObj [(''failure_code'', opt_str (ar_failure_code r)),
                           (''card_fingerprint'', JStr (take 12 fp)),
                           (''risk_score'', JInt (as_score a))]\<rparr>) (w_com w)"
  "w_gw (decline_event now rq u b fp r a w) = w_gw w"
  "idle w \<Longrightarrow> idle (decline_event now rq u b fp r a w)"
  by (simp_all add: decline_event_def idle_def)

lemma decline_step_draft:
  assumes dr: "draft_in u dft BS_PENDING [q] d" and st: "b_state (dft_booking dft) = BS_PENDING"
    and rr: "coherent reread"
  obtains d' where "decline_step reread dft q r a d = Inr ((), d')"
    "payment_failed_in (b_id (dft_booking dft)) d'"
    "d_seats d' = update_where (\<lambda>s. s \<in> set (dft_seats dft)) unpin_seat (d_seats d)"
proof -
  let ?q = "q\<lparr>pay_state := PS_DECLINED, pay_provider_ref := Some (ar_provider_ref r),
              pay_failure_code := ar_failure_code r\<rparr>"
  have d1: "draft_in u dft BS_PENDING [?q] (set_payment ?q d)"
    by (rule set_payment_draft [OF dr]) simp
  obtain d' where d': "decline_step reread dft q r a d = Inr ((), d')"
    "sound d'" "d_seats d' = update_where (\<lambda>s. s \<in> set (dft_seats dft)) unpin_seat (d_seats (set_payment ?q d))"
    "\<forall>s \<in> set (d_seats d'). s_booking_id s \<noteq> Some (b_id (dft_booking dft))"
    "booking_row (b_id (dft_booking dft)) d' = Some ((dft_booking dft)\<lparr>b_state := BS_PAYMENT_FAILED\<rparr>)"
    "payments_of (b_id (dft_booking dft)) d' = [?q]" "d_tickets d' = d_tickets (set_payment ?q d)"
    unfolding decline_step_def by (rule fail_payment_draft [OF d1 st rr])
  show thesis
    by (rule that [OF d'(1)]) (use d' draft_inD(3) [OF dr] in \<open>auto simp: payment_failed_in_def\<close>)
qed

lemma take_payment_App:
  assumes w: "idle w" "draft_in u dft BS_PENDING [] (w_com w)" and rr: "coherent reread"
    and st: "b_state (dft_booking dft) = BS_PENDING"
    and tp: "take_payment reread dr rq u tok fp key a dft w = (Inl (App e), w')"
  shows "ae_class e = PaymentDeclined" "idle w'" "payment_failed_in (b_id (dft_booking dft)) (w_com w')"
    "g_captured (w_gw w') = g_captured (w_gw w)" "g_voided (w_gw w') = g_voided (w_gw w)"
proof -
  let ?goal = "ae_class e = PaymentDeclined \<and> idle w' \<and>
    payment_failed_in (b_id (dft_booking dft)) (w_com w') \<and>
    g_captured (w_gw w') = g_captured (w_gw w) \<and> g_voided (w_gw w') = g_voided (w_gw w)"
  have main: ?goal
  proof (rule take_payment_cases [OF w tp])
    fix q r w3
    assume c: "idle w3" "draft_in u dft BS_PENDING [q] (w_com w3)"
      "g_captured (w_gw w3) = g_captured (w_gw w)" "g_voided (w_gw w3) = g_voided (w_gw w)"
      and res: "(Inl (App e), w') = (if \<not> ar_approved r
         then (case transact (decline_step reread dft q r a) w3 of
                 (Inl e, w4) \<Rightarrow> (Inl e, w4)
               | (Inr _, w4) \<Rightarrow>
                   (Inl (declined_error r), decline_event (dr_now dr 2) rq u (dft_booking dft) fp r a w4))
         else transact (approve_step (dft_booking dft) q r) w3)"
    obtain d' where d': "decline_step reread dft q r a (w_com w3) = Inr ((), d')"
      "payment_failed_in (b_id (dft_booking dft)) d'"
      by (rule decline_step_draft [OF c(2) st rr])
    have t: "transact (decline_step reread dft q r a) w3 = (Inr (), at_db w3 d')"
      by (rule transact_eqI) (use d'(1) c(1) in \<open>simp add: idle_def\<close>)
    have "\<not> ar_approved r"
    proof
      assume "ar_approved r"
      with res have "transact (approve_step (dft_booking dft) q r) w3 = (Inl (App e), w')" by simp
      from transact_Inl(1) [OF c(1) this] show False
        by (auto simp: approve_step_def Let_def split: sum.splits)
    qed
    with res t have "App e = declined_error r"
      "w' = decline_event (dr_now dr 2) rq u (dft_booking dft) fp r a (at_db w3 d')" by auto
    then show ?goal
      using d'(2) c by (auto simp: declined_error_def raise_app_def)
  qed auto
  show "ae_class e = PaymentDeclined" "idle w'" "payment_failed_in (b_id (dft_booking dft)) (w_com w')"
    "g_captured (w_gw w') = g_captured (w_gw w)" "g_voided (w_gw w') = g_voided (w_gw w)"
    using main by blast+
qed

subsection \<open>Ticketing and confirming within the saga\<close>

text \<open>What a compensated booking leaves: voided on our side and at the gateway.\<close>

definition compensated_in :: "uuid \<Rightarrow> gateway \<Rightarrow> db \<Rightarrow> bool" where
  "compensated_in bid g d =
     (sound d \<and> (\<forall>b. booking_row bid d = Some b \<longrightarrow> b_state b = BS_VOIDED) \<and>
      (\<forall>s \<in> set (d_seats d). s_booking_id s \<noteq> Some bid) \<and>
      (\<forall>t \<in> set (d_tickets d). t_booking_id t = bid \<longrightarrow> \<not> live_ticket t) \<and>
      (\<exists>p. payments_of bid d = [p] \<and> pay_state p = PS_VOIDED \<and> opt_ref (pay_provider_ref p) \<in> g_voided g))"

lemma flush_not_app: "flush_seats ps d = Inl e \<Longrightarrow> \<not> is_app_error e"
  by (induction ps d rule: flush_seats.induct) (auto simp: update_seats_def split: sum.splits if_splits)

lemma insert_tickets_not_app: "insert_tickets ts d = Inl e \<Longrightarrow> \<not> is_app_error e"
  by (induction ts d rule: insert_tickets.induct) (auto simp: insert_ticket_def split: sum.splits if_splits)

lemma flush_issued_not_app: "flush_issued ts ws d = Inl e \<Longrightarrow> \<not> is_app_error e"
  by (auto simp: flush_issued_def dest: flush_not_app insert_tickets_not_app split: sum.splits)

lemma issue_loop_not_app: "issue_loop now draw n bid k locked ps = (Some e, ts, ws) \<Longrightarrow> \<not> is_app_error e"
  by (induction ps arbitrary: k ts ws) (auto split: option.splits prod.splits)

lemma issue_error_frame:
  assumes iss: "issue_tickets reread clock now draw n b ps mem u tok d = (Inl e, d')"
  shows "payments_of bid d' = payments_of bid d" "booking_row bid d' = booking_row bid d"
    "is_app_error e \<Longrightarrow> compensable e"
proof -
  obtain lost d1 where v: "verify_seats clock (b_id b) u (locked_seats reread mem d) d = (lost, d1)"
    by (cases "verify_seats clock (b_id b) u (locked_seats reread mem d) d")
  obtain as where as: "d1 = d\<lparr>d_audit := as\<rparr>" using verify_frame [OF v] by blast
  obtain err ts ws where il: "issue_loop now draw n (b_id b) 0 (locked_seats reread mem d) ps = (err, ts, ws)"
    by (cases "issue_loop now draw n (b_id b) 0 (locked_seats reread mem d) ps")
  have fi: "d_payments d2 = d_payments d \<and> d_bookings d2 = d_bookings d" if f: "flush_issued ts ws d1 = Inr d2" for d2
  proof -
    obtain d3 where d3: "flush_seats ws d1 = Inr d3" "insert_tickets ts d3 = Inr d2"
      using f by (auto simp: flush_issued_def split: sum.splits)
    show ?thesis
      using flush_seats_frame [OF d3(1)] insert_tickets_rows [OF d3(2)] as by auto
  qed
  have "d_payments d' = d_payments d \<and> d_bookings d' = d_bookings d"
    using iss v il as fi by (auto simp: issue_tickets_def Let_def split: if_splits sum.splits option.splits)
  then show "payments_of bid d' = payments_of bid d" "booking_row bid d' = booking_row bid d"
    by (simp_all add: payments_of_def booking_row_def)
  have sa: "compensable (raise_app SeatUnavailable m)" for m
    by (simp add: compensable_def raise_app_def)
  show "compensable e" if app: "is_app_error e"
  proof (cases "lost = []")
    case False
    with iss v show ?thesis by (auto simp: issue_tickets_def Let_def sa)
  next
    case True
    with iss v il app flush_issued_not_app [of ts ws d1 e]
    show ?thesis
      by (auto simp: issue_tickets_def Let_def issue_loop_not_app split: if_splits sum.splits option.splits)
  qed
qed

lemma confirm_not_app: "confirm_step b p d = Inl e \<Longrightarrow> \<not> is_app_error e"
  by (auto simp: confirm_step_def split: sum.splits)

lemma ticket_App:
  assumes w: "idle w" "draft_in u dft BS_PAYMENT_AUTHORIZED [p] (w_com w)"
    and b: "b = (dft_booking dft)\<lparr>b_state := BS_PAYMENT_AUTHORIZED\<rparr>" and pst: "pay_state p = PS_AUTHORIZED"
    and tc: "ticket_and_confirm reread dr rq u tok dft b p w = (Inl (App e), w')"
  shows "ae_class e = BookingCompensated" "idle w'" "compensated_in (b_id (dft_booking dft)) (w_gw w') (w_com w')"
    "g_captured (w_gw w') = g_captured (w_gw w)"
proof -
  let ?n = "length (dft_passengers dft)"
  obtain res d where iss: "issue_tickets reread (dr_clock dr 1) (dr_now dr 3) (dr_eticket dr) (w_fresh w) b
      (dft_passengers dft) (dft_seats dft) u tok (w_cur w) = (res, d)"
    by (cases "issue_tickets reread (dr_clock dr 1) (dr_now dr 3) (dr_eticket dr) (w_fresh w) b
      (dft_passengers dft) (dft_seats dft) u tok (w_cur w)")
  have bid: "b_id b = b_id (dft_booking dft)" by (simp add: b)
  have main: "ae_class e = BookingCompensated \<and> idle w' \<and>
        compensated_in (b_id (dft_booking dft)) (w_gw w') (w_com w') \<and> g_captured (w_gw w') = g_captured (w_gw w)"
  proof (cases res)
    case (Inl e1)
    let ?w1 = "map_cur (\<lambda>_. d) w\<lparr>w_fresh := w_fresh w + ?n\<rparr>"
    note F = issue_error_frame [OF iss [unfolded Inl]]
    have cur: "sound d" "payments_of (b_id b) d = [p]"
      "booking_row (b_id b) d = Some ((dft_booking dft)\<lparr>b_state := BS_PAYMENT_AUTHORIZED\<rparr>)"
      using sound_issue_tickets [OF _ iss] F(1,2) draft_inD [OF w(2)] w(1) by (simp_all add: idle_def bid)
    have comp: "compensable e1"
      using tc iss Inl F(3) by (auto simp: ticket_and_confirm_def Let_def split: if_splits)
    obtain w2 where c2: "compensate (dr_now dr 4) rq u tok b p (exn_str e1) ?w1 = (Inr (b\<lparr>b_state := BS_VOIDED\<rparr>), w2)"
      "idle w2" "sound (w_com w2)"
      "\<forall>s \<in> set (d_seats (w_com w2)). s_booking_id s \<noteq> Some (b_id b)"
      "\<forall>t \<in> set (d_tickets (w_com w2)). t_booking_id t = b_id b \<longrightarrow> \<not> live_ticket t"
      "payments_of (b_id b) (w_com w2) = [p\<lparr>pay_state := PS_VOIDED\<rparr>]"
      "booking_row (b_id b) (w_com w2) = Some ((dft_booking dft)\<lparr>b_state := BS_PAYMENT_AUTHORIZED, b_state := BS_VOIDED\<rparr>)"
      "g_voided (w_gw w2) = insert (opt_ref (pay_provider_ref p)) (g_voided (w_gw ?w1))"
      "g_captured (w_gw w2) = g_captured (w_gw ?w1)"
      by (rule compensate_authorized [of ?w1 b p "(dft_booking dft)\<lparr>b_state := BS_PAYMENT_AUTHORIZED\<rparr>"])
         (use cur b pst in simp_all)
    have "w' = w2" "App e = compensated_error e1"
      using tc iss Inl comp c2(1) by (simp_all add: ticket_and_confirm_def Let_def)
    then show ?thesis
      using c2 by (auto simp: compensated_in_def bid compensated_error_def raise_app_def)
  next
    case (Inr b1)
    have "False"
      using tc iss Inr
      by (auto simp: ticket_and_confirm_def Let_def transact_def dest!: confirm_not_app split: sum.splits prod.splits)
    then show ?thesis ..
  qed
  then show "ae_class e = BookingCompensated" "idle w'" "compensated_in (b_id (dft_booking dft)) (w_gw w') (w_com w')"
    "g_captured (w_gw w') = g_captured (w_gw w)" by blast+
qed

text \<open>What a confirmed booking is: paid, ticketed, seated.\<close>

definition confirmed_in :: "draft \<Rightarrow> payment \<Rightarrow> gateway \<Rightarrow> db \<Rightarrow> bool" where
  "confirmed_in dft p g d =
     (let bid = b_id (dft_booking dft) in
      sound d \<and> booking_row bid d = Some ((dft_booking dft)\<lparr>b_state := BS_CONFIRMED\<rparr>) \<and>
      payments_of bid d = [p\<lparr>pay_state := PS_CAPTURED\<rparr>] \<and> opt_ref (pay_provider_ref p) \<in> g_captured g \<and>
      (\<forall>s \<in> set (dft_seats dft). book_seat bid s \<in> set (d_seats d)) \<and>
      map t_passenger_id (filter live_ticket (booking_tickets bid d)) = map p_id (dft_passengers dft) \<and>
      map t_seat_id (filter live_ticket (booking_tickets bid d)) = map s_id (dft_seats dft))"

lemma ticket_Inr:
  assumes w: "idle w" "draft_in u dft BS_PAYMENT_AUTHORIZED [p] (w_com w)" and rr: "coherent reread"
    and b: "b = (dft_booking dft)\<lparr>b_state := BS_PAYMENT_AUTHORIZED\<rparr>"
    and tc: "ticket_and_confirm reread dr rq u tok dft b p w = (Inr (code, body), w')"
  shows "code = 201" "idle w'" "confirmed_in dft p (w_gw w') (w_com w')"
    "g_captured (w_gw w') = insert (opt_ref (pay_provider_ref p)) (g_captured (w_gw w))"
    "body = booking_payload (w_com w') ((dft_booking dft)\<lparr>b_state := BS_CONFIRMED\<rparr>)
       (zip (map p_id (dft_passengers dft)) (map s_seat_no (dft_seats dft)))"
proof -
  let ?n = "length (dft_passengers dft)" and ?bid = "b_id (dft_booking dft)"
  obtain res d where iss: "issue_tickets reread (dr_clock dr 1) (dr_now dr 3) (dr_eticket dr) (w_fresh w) b
      (dft_passengers dft) (dft_seats dft) u tok (w_cur w) = (res, d)"
    by (cases "issue_tickets reread (dr_clock dr 1) (dr_now dr 3) (dr_eticket dr) (w_fresh w) b
      (dft_passengers dft) (dft_seats dft) u tok (w_cur w)")
  obtain b1 where r: "res = Inr b1"
    using tc iss by (cases res) (auto simp: ticket_and_confirm_def Let_def split: if_splits prod.splits sum.splits)
  note D = draft_inD [OF w(2)]
  obtain ts where T: "b1 = b\<lparr>b_state := BS_TICKETED\<rparr>" "sound d"
    "d_seats d = update_where (\<lambda>r. r \<in> set (dft_seats dft)) (book_seat ?bid) (d_seats (w_com w))"
    "d_tickets d = d_tickets (w_com w) @ ts" "map t_seat_id ts = map s_id (dft_seats dft)"
    "map t_passenger_id ts = map p_id (dft_passengers dft)"
    "\<forall>t \<in> set ts. t_booking_id t = ?bid \<and> live_ticket t"
    "booking_row ?bid d = Some ((dft_booking dft)\<lparr>b_state := BS_TICKETED\<rparr>)"
    "payments_of ?bid d = [p]"
    using issue_draft [OF w(2) rr b, of "dr_clock dr 1" "dr_now dr 3" "dr_eticket dr" "w_fresh w" tok b1 d thesis]
      iss r w(1) by (auto simp: idle_def)
  let ?w1 = "commit (map_cur (\<lambda>_. d) w\<lparr>w_fresh := w_fresh w + ?n\<rparr>)"
  let ?w2 = "?w1\<lparr>w_gw := snd (capture (opt_ref (pay_provider_ref p)) (pay_idempotency_key p @ '':cap'') (w_gw ?w1))\<rparr>"
  define d3 where "d3 = set_booking_state ?bid BS_CONFIRMED
      (audit_record ?bid AE_BOOKING_CONFIRMED (change_args BS_TICKETED BS_CONFIRMED [(''pnr'', JStr (b_ref b1))])
         (set_payment (p\<lparr>pay_state := PS_CAPTURED\<rparr>) d))"
  have t: "assert_can_transition BS_TICKETED BS_CONFIRMED = Inr ()" by simp
  have b1s: "b_state b1 = BS_TICKETED" "b_id b1 = ?bid" by (simp_all add: T(1) b)
  have cs: "confirm_step b1 p d = Inr (b1\<lparr>b_state := BS_CONFIRMED\<rparr>, d3)"
    unfolding confirm_step_def b1s t d3_def by simp
  have tr: "transact (confirm_step b1 p) ?w2 = (Inr (b1\<lparr>b_state := BS_CONFIRMED\<rparr>), at_db ?w2 d3)"
    by (rule transact_eqI) (simp add: cs)
  have row: "booking_row ?bid d3 = Some ((dft_booking dft)\<lparr>b_state := BS_CONFIRMED\<rparr>)"
    unfolding d3_def booking_row_state by (simp add: T(8))
  have pays: "payments_of ?bid d3 = [p\<lparr>pay_state := PS_CAPTURED\<rparr>]"
    unfolding d3_def using payments_of_set [OF T(2) T(9), of "p\<lparr>pay_state := PS_CAPTURED\<rparr>"] by simp
  have out: "(code, body) = (201, booking_payload d3 (refresh_booking (b1\<lparr>b_state := BS_CONFIRMED\<rparr>) d3)
       (zip (map p_id (dft_passengers dft)) (map s_seat_no (dft_seats dft))))" "w' = at_db ?w2 d3"
    using tc unfolding ticket_and_confirm_def Let_def iss r prod.case sum.case tr by simp_all
  have fil: "filter live_ticket (booking_tickets ?bid d3) = ts"
  proof -
    have "filter (\<lambda>t. t_booking_id t = ?bid) (d_tickets (w_com w)) = []"
      using D(3) by (simp add: filter_empty_conv)
    moreover have "filter (\<lambda>t. t_booking_id t = ?bid) ts = ts" "filter live_ticket ts = ts"
      using T(7) by (simp_all add: filter_id_conv)
    ultimately show ?thesis
      by (simp add: booking_tickets_def select_where_def d3_def T(4))
  qed
  have seats: "\<forall>s \<in> set (dft_seats dft). book_seat ?bid s \<in> set (d_seats d3)"
  proof
    fix s assume "s \<in> set (dft_seats dft)"
    moreover from this have "s \<in> set (d_seats (w_com w))"
      using draft_seatsD(1) [OF D(2)] by blast
    ultimately show "book_seat ?bid s \<in> set (d_seats d3)"
      by (force simp: d3_def T(3) set_update_where)
  qed
  show "code = 201" using out(1) by simp
  show "idle w'" using out(2) by simp
  show "g_captured (w_gw w') = insert (opt_ref (pay_provider_ref p)) (g_captured (w_gw w))"
    using out(2) by (simp add: capture_def)
  show "confirmed_in dft p (w_gw w') (w_com w')"
    using out(2) row pays seats fil T(5,6) sound_confirm_step [OF T(2) cs]
    by (simp add: confirmed_in_def Let_def capture_def)
  have "refresh_booking (b1\<lparr>b_state := BS_CONFIRMED\<rparr>) d3 = (dft_booking dft)\<lparr>b_state := BS_CONFIRMED\<rparr>"
    using row b1s by (simp add: refresh_booking_def booking_row_def)
  with out show "body = booking_payload (w_com w') ((dft_booking dft)\<lparr>b_state := BS_CONFIRMED\<rparr>)
       (zip (map p_id (dft_passengers dft)) (map s_seat_no (dft_seats dft)))" by simp
qed

subsection \<open>The saga from end to end\<close>

text \<open>A world a request may start in: nothing uncommitted, a sound database, fresh ids above all others.\<close>

definition ready :: "world \<Rightarrow> bool" where
  "ready w = (idle w \<and> sound (w_com w) \<and> fresh_for (w_fresh w) (w_com w))"

lemma create_payments:
  assumes "create_step clock now n draw u payload key d = Inr (dft, d')"
  shows "d_payments d' = d_payments d"
proof -
  obtain d1 d2 os where c: "insert_booking (dft_booking dft) d = Inr d1"
    "flush_seats (map (\<lambda>s. (s, pin_seat n s)) os) d1 = Inr d2" "d_payments d' = d_payments d2"
    by (rule create_step_split [OF assms]) auto
  have "d_payments d1 = d_payments d"
    using c(1) by (auto simp: insert_booking_def split: if_splits)
  with flush_seats_frame [OF c(2)] c(3) show ?thesis by auto
qed

lemma run_cases:
  assumes w: "ready w" and rn: "run cfp reread dr rq u payload key w = (res, w')"
  obtains (refused) e where "res = Inl e" "w' = w\<lparr>w_fresh := w_fresh w + Suc (length (bc_passengers payload))\<rparr>"
      "create_step (dr_clock dr 0) (dr_now dr 0) (w_fresh w) (dr_pnr dr) u payload key (w_com w) = Inl e"
  | (created) dft d1 a w2 where
      "create_step (dr_clock dr 0) (dr_now dr 0) (w_fresh w) (dr_pnr dr) u payload key (w_com w) = Inr (dft, d1)"
      "idle w2" "draft_in u dft BS_PENDING [] (w_com w2)" "w_gw w2 = w_gw w"
      "w_fresh w2 = w_fresh w + Suc (length (bc_passengers payload))" "d_seats (w_com w2) = d_seats d1" "d_payments (w_com w2) = d_payments (w_com w)"
      "(res, w') = (if as_decision a = BLOCK
         then (case transact (fail_payment reread (dft_seats dft) (dft_booking dft) ''blocked_by_fraud_controls''
                        [(''carding'', as_dict a)] AE_PAYMENT_DECLINED) w2 of
                 (Inl e, w3) \<Rightarrow> (Inl e, w3)
               | (Inr _, w3) \<Rightarrow> (Inl (blocked_error a), w3))
         else (case take_payment reread dr rq u (bc_card_token payload) (cfp (bc_card_token payload)) key a dft w2 of
                 (Inl e, w3) \<Rightarrow> (Inl e, w3)
               | (Inr (b1, p), w3) \<Rightarrow>
                   ticket_and_confirm reread dr rq u (bc_card_token payload) dft b1 p w3))"
proof -
  let ?w0 = "w\<lparr>w_fresh := w_fresh w + Suc (length (bc_passengers payload))\<rparr>"
  let ?c = "create_step (dr_clock dr 0) (dr_now dr 0) (w_fresh w) (dr_pnr dr) u payload key"
  have i0: "idle ?w0" "sound (w_com w)" "fresh_for (w_fresh w) (w_com w)"
    using w by (simp_all add: ready_def idle_def)
  obtain r1 w1 where t1: "transact ?c ?w0 = (r1, w1)" by (cases "transact ?c ?w0")
  show thesis
  proof (cases r1)
    case (Inl e)
    note T = transact_Inl [OF i0(1) t1 [unfolded Inl]]
    have "res = Inl e" "w' = ?w0"
      using rn t1 Inl T(2) by (simp_all add: run_def)
    with T(1) show thesis by (intro refused) simp_all
  next
    case (Inr dft)
    obtain d1 where d1: "?c (w_com ?w0) = Inr (dft, d1)" "w1 = at_db ?w0 d1"
      by (rule transact_Inr [OF i0(1) t1 [unfolded Inr]])
    have c: "?c (w_com w) = Inr (dft, d1)" using d1(1) by simp
    note C = create_draft [OF i0(2,3) c]
    let ?fp = "cfp (bc_card_token payload)"
    obtain a w2 where as: "assess_payment_attempt (dr_up dr 0) (dr_ms dr 0) (dr_member dr 0) (dr_now dr 1) rq u
        (client_ip rq) ?fp (b_total_amount (dft_booking dft)) w1 = (a, w2)"
      by (cases "assess_payment_attempt (dr_up dr 0) (dr_ms dr 0) (dr_member dr 0) (dr_now dr 1) rq u
        (client_ip rq) ?fp (b_total_amount (dft_booking dft)) w1")
    note A = assess_frame [OF as]
    note B = business_eqD [OF A(1)]
    have "sound (w_com w2)"
      using assess_sound [OF as] d1(2) draft_inD(1) [OF C(1)] by simp
    then have dr2: "draft_in u dft BS_PENDING [] (w_com w2)"
      by (rule draft_in_same [OF C(1)]) (use B d1(2) in simp_all)
    have res: "(res, w') = (if as_decision a = BLOCK
         then (case transact (fail_payment reread (dft_seats dft) (dft_booking dft) ''blocked_by_fraud_controls''
                        [(''carding'', as_dict a)] AE_PAYMENT_DECLINED) w2 of
                 (Inl e, w3) \<Rightarrow> (Inl e, w3)
               | (Inr _, w3) \<Rightarrow> (Inl (blocked_error a), w3))
         else (case take_payment reread dr rq u (bc_card_token payload) ?fp key a dft w2 of
                 (Inl e, w3) \<Rightarrow> (Inl e, w3)
               | (Inr (b1, p), w3) \<Rightarrow>
                   ticket_and_confirm reread dr rq u (bc_card_token payload) dft b1 p w3))"
      unfolding rn [symmetric] run_def t1 Inr prod.case sum.case Let_def as by simp
    show thesis
      by (rule created [OF c A(5) dr2 _ _ _ _ res]) (use d1(2) A(3,4) B(1,3) create_payments [OF c] in simp_all)
  qed
qed


text \<open>Nothing of a booking that failed is kept: no money, no seat, no valid ticket.\<close>

definition nothing_kept :: "uuid \<Rightarrow> gateway \<Rightarrow> db \<Rightarrow> bool" where
  "nothing_kept bid g d =
     ((\<forall>b. booking_row bid d = Some b \<longrightarrow> b_state b \<in> {BS_PAYMENT_FAILED, BS_VOIDED}) \<and>
      (\<forall>p \<in> set (payments_of bid d). pay_state p = PS_DECLINED \<or>
         (pay_state p = PS_VOIDED \<and> opt_ref (pay_provider_ref p) \<in> g_voided g)) \<and>
      (\<forall>s \<in> set (d_seats d). s_booking_id s \<noteq> Some bid) \<and>
      (\<forall>t \<in> set (d_tickets d). t_booking_id t = bid \<longrightarrow> \<not> live_ticket t))"

lemma nothing_kept_intros:
  "fresh_for bid d \<Longrightarrow> nothing_kept bid g d"
  "payment_failed_in bid d \<Longrightarrow> nothing_kept bid g d"
  "compensated_in bid g d \<Longrightarrow> nothing_kept bid g d"
proof -
  show "nothing_kept bid g d" if f: "fresh_for bid d"
  proof -
    have "booking_row bid d = None" "payments_of bid d = []"
      using f by (auto simp: booking_row_def select_one_None fresh_for_def payments_of_def select_where_def
          filter_empty_conv)
    moreover have "\<forall>s \<in> set (d_seats d). s_booking_id s \<noteq> Some bid" "\<forall>t \<in> set (d_tickets d). t_booking_id t \<noteq> bid"
      using f by (auto simp: fresh_for_def)
    ultimately show ?thesis by (simp add: nothing_kept_def)
  qed
qed (auto simp: payment_failed_in_def compensated_in_def nothing_kept_def)


subsection \<open>A concrete booking\<close>

text \<open>User 7 holds seat 12A of flight 1 under hold 9; the card decides how the saga ends.\<close>

definition demo_flight :: flight where
  "demo_flight = \<lparr>fl_id = 1, fl_flight_no = ''AC101'', fl_airline_iata = ''AC'', fl_src_iata = ''YOW'',
     fl_dst_iata = ''YYZ'', fl_depart_at = 0, fl_arrive_at = 3600, fl_aircraft_type = ''A320'',
     fl_base_fare = 19900, fl_currency = ''CAD''\<rparr>"

definition held_db :: db where
  "held_db = empty_db\<lparr>d_flights := [demo_flight],
     d_seats := [take_seat 7 9 600000000 ((demo_seat 10 ''12A'' 12 ''A'')\<lparr>s_price := 100\<rparr>),
                 demo_seat 11 ''12B'' 12 ''B'']\<rparr>"

definition held_world :: world where
  "held_world = \<lparr>w_com = held_db, w_cur = held_db, w_gw = empty_gateway, w_redis = empty_redis, w_fresh = 12\<rparr>"

definition demo_draws :: draws where
  "demo_draws = \<lparr>dr_clock = (\<lambda>_. 1), dr_now = (\<lambda>_. 1), dr_pnr = (\<lambda>i j. i + j), dr_eticket = (\<lambda>i j. i),
     dr_hex = (\<lambda>_. ''0123456789abcdef''), dr_up = (\<lambda>_. False), dr_ms = (\<lambda>_ _. 1000),
     dr_member = (\<lambda>_ _. ''m'')\<rparr>"

definition demo_run :: "string \<Rightarrow> (exn + (int \<times> (string \<times> json) list)) \<times> world" where
  "demo_run token = run (\<lambda>_. ''f00d'') stale demo_draws None 7 (demo_create [9] token) ''key-0001'' held_world"

lemma held_world_ready: "ready held_world"
proof -
  have "db_ok held_db"
    by (simp add: db_ok_def held_db_def empty_db_def seats_ok_def tickets_ok_def audit_ok_def
        unique_key_def demo_seat_def seat_ok_def take_seat_def demo_flight_def flight_ok_def)
  then have "sound held_db"
    by (rule sound_same_logs [OF empty_sound]) (simp_all add: held_db_def)
  moreover have "fresh_for 12 held_db"
    by (simp add: fresh_for_def held_db_def empty_db_def take_seat_def demo_seat_def)
  ultimately show ?thesis
    by (simp add: ready_def held_world_def idle_def)
qed

lemma demo_run_books: "\<not> isl (fst (demo_run ''tok_test_aaaa11110000''))"
  by code_simp

fun reported :: "exn + 'a \<Rightarrow> bool" where
  "reported (Inl e) = is_app_error e"
| "reported (Inr _) = False"

lemma demo_run_compensates: "reported (fst (demo_run ''tok_test_aaaa11119995''))"
  by code_simp



end
