(* ===== verification/Sky_SagaRaces.thy ===== *)
theory Sky_SagaRaces
  imports Sky_SagaOutcome
begin

text \<open>
  The window between the charge and the tickets, in which other requests run: what the
  re-verification of the seats finds with a session that takes the row and with one that
  keeps its own copy. Further the keys the saga uses at the gateway and the cancellation of
  a booking.
\<close>

subsection \<open>A seat lost during payment\<close>

lemma recall_fresh_row [simp]: "recall fresh_row mem row = row"
  by (simp add: recall_def fresh_row_def split: option.splits)

lemma locked_fresh_row:
  "set (locked_seats fresh_row mem d) = {r \<in> set (d_seats d). s_id r \<in> s_id ` set mem}"
  by (auto simp: locked_seats_def select_where_def)


text \<open>
  With a session that keeps its own copy of a seat it has loaded, the check compares the
  copy with itself. The write then meets the row as it is.
\<close>

lemma flush_bad:
  assumes "(old, new) \<in> set ps" "r \<in> set (d_seats d)" "s_id r = s_id old"
    "\<not> seat_ok (flush_seat old new r)" "distinct (map (s_id \<circ> fst) ps)"
  shows "flush_seats ps d = Inl (IntegrityError ''seat_inventory'')"
  using assms
proof (induction ps arbitrary: d)
  case Nil
  then show ?case by simp
next
  case (Cons q ps)
  obtain o1 n1 where q: "q = (o1, n1)" by (cases q)
  show ?case
  proof (cases "update_seats (\<lambda>s. s_id s = s_id o1) (flush_seat o1 n1) d")
    case (Inl e)
    then show ?thesis using q by (auto simp: update_seats_def split: if_splits)
  next
    case (Inr d1)
    then have d1: "d_seats d1 = update_where (\<lambda>s. s_id s = s_id o1) (flush_seat o1 n1) (d_seats d)"
      and ok: "\<forall>s \<in> set (d_seats d). s_id s = s_id o1 \<longrightarrow> seat_ok (flush_seat o1 n1 s)"
      by (auto simp: update_seats_def list_all_iff split: if_splits)
    have neq: "(old, new) \<noteq> q" using ok Cons.prems(2,3,4) q by auto
    then have in_ps: "(old, new) \<in> set ps" using Cons.prems(1) by simp
    have "s_id old \<noteq> s_id o1"
      using Cons.prems(5) in_ps q by force
    then have "r \<in> set (d_seats d1)"
      unfolding d1 using Cons.prems(2,3) by (intro update_where_keeps) auto
    then have "flush_seats ps d1 = Inl (IntegrityError ''seat_inventory'')"
      using Cons.IH [OF in_ps] Cons.prems(3,4,5) by simp
    then show ?thesis using q Inr by simp
  qed
qed

lemma locked_stale:
  assumes "unique_key s_id (d_seats d)" "distinct (map s_id mem)" "s_id ` set mem \<subseteq> s_id ` set (d_seats d)"
  shows "set (locked_seats stale mem d) = set mem" "unique_key s_id (locked_seats stale mem d)"
proof -
  let ?rows = "order_by s_id (select_where (\<lambda>r. s_id r \<in> s_id ` set mem) (d_seats d))"
  have um: "unique_key s_id mem" using assms(2) by (simp add: unique_key_def)
  have rc: "recall stale mem r = m" if "m \<in> set mem" "s_id r = s_id m" for r m
    using select_one_unique [OF um that(1), of "s_id r"] that(2)
    by (simp add: recall_def stale_def select_one_def)
  have ids: "s_id (recall stale mem r) = s_id r" if "r \<in> set ?rows" for r
    using that rc by (auto simp: select_where_def)
  show "set (locked_seats stale mem d) = set mem"
  proof
    show "set (locked_seats stale mem d) \<subseteq> set mem"
      using rc by (auto simp: locked_seats_def select_where_def)
    show "set mem \<subseteq> set (locked_seats stale mem d)"
    proof
      fix m assume m: "m \<in> set mem"
      then obtain r where r: "r \<in> set (d_seats d)" "s_id r = s_id m" using assms(3) by force
      then have "r \<in> set ?rows" using m by (auto simp: select_where_def)
      moreover have "recall stale mem r = m" using rc m r by blast
      ultimately show "m \<in> set (locked_seats stale mem d)"
        unfolding locked_seats_def by force
    qed
  qed
  have "map s_id (locked_seats stale mem d) = map s_id ?rows"
    unfolding locked_seats_def map_map comp_def using ids by (intro map_cong) auto
  moreover have "unique_key s_id ?rows"
    using unique_key_filter [OF assms(1)]
    by (simp add: order_by_def select_where_def unique_key_def distinct_map)
  ultimately show "unique_key s_id (locked_seats stale mem d)"
    by (simp add: unique_key_def)
qed


text \<open>
  The witnesses share a world: user 7 has paid for seat 12A, which user 8 holds by now.
\<close>

definition lost_booking :: booking where
  "lost_booking = \<lparr>b_id = 3, b_ref = ''K7R2MQ'', b_user_id = 7, b_flight_id = 1,
     b_state = BS_PAYMENT_AUTHORIZED, b_total_amount = 100, b_currency = ''CAD'',
     b_idempotency_key = Some ''key-0001'', b_created_at = 1\<rparr>"

definition lost_payment :: payment where
  "lost_payment = (new_payment 5 lost_booking ''tok_test_aaaa11110000'' ''f00d'' (gateway_key_of ''key-0001'') 1)
     \<lparr>pay_state := PS_AUTHORIZED, pay_provider_ref := Some ''auth_1''\<rparr>"

definition lost_draft :: draft where
  "lost_draft = \<lparr>dft_booking = lost_booking,
     dft_passengers = [passenger_row 4 3 \<lparr>pi_given_name = ''Ada'', pi_family_name = ''King'', pi_dob = None,
                         pi_passport_number = None\<rparr> (demo_seat 10 ''12A'' 12 ''A'')],
     dft_seats = [pin_seat 3 (take_seat 7 9 600 (demo_seat 10 ''12A'' 12 ''A''))]\<rparr>"

definition taken_seat :: seat where
  "taken_seat = take_seat 8 2 900 (demo_seat 10 ''12A'' 12 ''A'')"

definition lost_world :: world where
  "lost_world = held_world
     \<lparr>w_com := held_db\<lparr>d_seats := [taken_seat], d_bookings := [lost_booking], d_payments := [lost_payment]\<rparr>,
      w_cur := held_db\<lparr>d_seats := [taken_seat], d_bookings := [lost_booking], d_payments := [lost_payment]\<rparr>\<rparr>"

lemma lost_world_facts:
  "idle lost_world" "sound (w_com lost_world)" "booking_row 3 (w_com lost_world) = Some lost_booking"
  "payments_of 3 (w_com lost_world) = [lost_payment]" "taken_seat \<in> set (d_seats (w_com lost_world))"
  "b_id lost_booking = 3"
proof -
  let ?d = "held_db\<lparr>d_seats := [taken_seat], d_bookings := [lost_booking], d_payments := [lost_payment]\<rparr>"
  have "db_ok ?d"
    by (simp add: db_ok_def held_db_def empty_db_def seats_ok_def tickets_ok_def audit_ok_def
        unique_key_def taken_seat_def seat_ok_def take_seat_def demo_flight_def flight_ok_def lost_booking_def
        booking_ok_def lost_payment_def new_payment_def payment_ok_def gateway_key_of_def)
  then have "sound ?d"
    by (rule sound_same_logs [OF empty_sound]) (simp_all add: held_db_def)
  then show "sound (w_com lost_world)" by (simp add: lost_world_def)
  show "idle lost_world" by (simp add: lost_world_def idle_def)
  show "booking_row 3 (w_com lost_world) = Some lost_booking" "payments_of 3 (w_com lost_world) = [lost_payment]"
    "taken_seat \<in> set (d_seats (w_com lost_world))" "b_id lost_booking = 3"
    by (simp_all add: lost_world_def booking_row_def payments_of_def select_one_def select_where_def
        lost_booking_def lost_payment_def new_payment_def)
qed



subsection \<open>The keys used at the gateway\<close>

text \<open>
  The gateway key of a charge is the client's idempotency key with a suffix and names
  neither the account nor the booking. Once a key is known to the gateway, the charge of any
  booking of any account for any card and amount is answered with that first authorization,
  and no money is asked for.
\<close>

theorem gateway_key_ignores_account:
  assumes "stored_auth (w_gw w) (gateway_key_of key) = Some r"
  shows "charge hex (new_payment i b card_token fp (gateway_key_of key) now) w =
           (Inr (new_payment i b card_token fp (gateway_key_of key) now, r), w)"
proof -
  let ?p = "new_payment i b card_token fp (gateway_key_of key) now"
  have k: "pay_idempotency_key ?p = gateway_key_of key" by (simp add: new_payment_def)
  have "authorize (hex 0) (pay_card_token ?p) (pay_amount ?p) (pay_currency ?p) (gateway_key_of key) (w_gw w) = (Inr r, w_gw w)"
    using assms by (simp add: authorize_def stored_auth_def)
  then have "call_gateway (hex 0) ?p w = (Inr r, w)"
    unfolding call_gateway_def k by simp
  then show ?thesis by (simp add: charge_def)
qed

theorem gateway_key_ignores_account_witness:
  "\<exists>r g. authorize ''aa'' ''tok_test_aaaa11110000'' 100 ''CAD'' (gateway_key_of ''key-0001'') empty_gateway = (Inr r, g) \<and>
     charge (\<lambda>_. ''bb'') (new_payment 9 (lost_booking\<lparr>b_user_id := 8, b_total_amount := 99900\<rparr>)
        ''tok_test_bbbb22220000'' ''beef'' (gateway_key_of ''key-0001'') 2) (held_world\<lparr>w_gw := g\<rparr>) =
     (Inr (new_payment 9 (lost_booking\<lparr>b_user_id := 8, b_total_amount := 99900\<rparr>)
        ''tok_test_bbbb22220000'' ''beef'' (gateway_key_of ''key-0001'') 2, r), held_world\<lparr>w_gw := g\<rparr>)"
proof -
  obtain r g where a: "authorize ''aa'' ''tok_test_aaaa11110000'' 100 ''CAD'' (gateway_key_of ''key-0001'') empty_gateway = (Inr r, g)"
    by (simp add: authorize_def empty_gateway_def trigger_values Let_def)
  have "stored_auth (w_gw (held_world\<lparr>w_gw := g\<rparr>)) (gateway_key_of ''key-0001'') = Some r"
    using authorize_frame(4) [OF a] by simp
  from gateway_key_ignores_account [OF this] a show ?thesis by blast
qed

text \<open>
  An \<open>Idempotency-Key\<close> of 124 to 128 characters passes the header check, but with its
  suffix it does not fit the column \<open>payments.idempotency_key\<close>: no such request that gets to
  the payment ever succeeds. The booking stays PENDING with its seats pinned.
\<close>

theorem long_key_never_books:
  assumes w: "ready w" and rr: "coherent reread" and long: "123 < length key"
    and rn: "run cfp reread dr rq u payload key w = (res, w')"
  shows "(\<exists>e. res = Inl (App e)) \<or>
     (\<exists>e. res = Inl e \<and> create_step (dr_clock dr 0) (dr_now dr 0) (w_fresh w) (dr_pnr dr) u payload key (w_com w) = Inl e) \<or>
     (res = Inl (DataError ''payments'') \<and> w_gw w' = w_gw w \<and>
      (\<exists>dft. draft_in u dft BS_PENDING [] (w_com w') \<and> b_id (dft_booking dft) = w_fresh w))"
proof (rule run_cases [OF w rn])
  fix e
  assume "res = Inl e"
    "create_step (dr_clock dr 0) (dr_now dr 0) (w_fresh w) (dr_pnr dr) u payload key (w_com w) = Inl e"
  then show ?thesis by blast
next
  fix dft d1 a w2
  assume c: "create_step (dr_clock dr 0) (dr_now dr 0) (w_fresh w) (dr_pnr dr) u payload key (w_com w) = Inr (dft, d1)"
    and w2: "idle w2" "draft_in u dft BS_PENDING [] (w_com w2)" "w_gw w2 = w_gw w"
      "w_fresh w2 = w_fresh w + Suc (length (bc_passengers payload))" "d_payments (w_com w2) = d_payments (w_com w)"
    and res: "(res, w') = (if as_decision a = BLOCK
         then (case transact (fail_payment reread (dft_seats dft) (dft_booking dft) ''blocked_by_fraud_controls''
                        [(''carding'', as_dict a)] AE_PAYMENT_DECLINED) w2 of
                 (Inl e, w3) \<Rightarrow> (Inl e, w3)
               | (Inr _, w3) \<Rightarrow> (Inl (blocked_error a), w3))
         else (case take_payment reread dr rq u (bc_card_token payload) (cfp (bc_card_token payload)) key a dft w2 of
                 (Inl e, w3) \<Rightarrow> (Inl e, w3)
               | (Inr (b1, p), w3) \<Rightarrow>
                   ticket_and_confirm reread dr rq u (bc_card_token payload) dft b1 p w3))"
  have sw: "sound (w_com w)" "fresh_for (w_fresh w) (w_com w)" using w by (simp_all add: ready_def)
  note C = create_draft [OF sw c]
  let ?b = "dft_booking dft" and ?tok = "bc_card_token payload"
  let ?p0 = "new_payment (w_fresh w2) ?b ?tok (cfp ?tok) (gateway_key_of key) (dr_now dr 1)"
  let ?w0 = "w2\<lparr>w_fresh := Suc (w_fresh w2)\<rparr>"
  show ?thesis
  proof (cases "as_decision a = BLOCK")
    case True
    obtain d' where d': "fail_payment reread (dft_seats dft) ?b ''blocked_by_fraud_controls''
         [(''carding'', as_dict a)] AE_PAYMENT_DECLINED (w_com w2) = Inr ((), d')"
      by (rule fail_payment_draft [OF w2(2) C(6) rr])
    have "transact (fail_payment reread (dft_seats dft) ?b ''blocked_by_fraud_controls''
         [(''carding'', as_dict a)] AE_PAYMENT_DECLINED) w2 = (Inr (), at_db w2 d')"
      by (rule transact_eqI) (use d' w2(1) in \<open>simp add: idle_def\<close>)
    with res True show ?thesis by (simp add: blocked_error_def)
  next
    case False
    have "pay_id ?p0 \<notin> pay_id ` set (d_payments (w_com w2))"
      using sw(2) w2(4,5) by (force simp: fresh_for_def new_payment_def)
    moreover have "\<not> payment_ok ?p0"
      using long by (simp add: payment_ok_def new_payment_def gateway_key_of_def)
    ultimately have e: "start_payment ?p0 (w_cur ?w0) = Inl (DataError ''payments'')"
      using w2(1) by (simp add: start_payment_def insert_payment_def idle_def)
    have t: "transact (start_payment ?p0) ?w0 = (Inl (DataError ''payments''), ?w0)"
      using e w2(1) by (simp add: transact_def rollback_def idle_def)
    have "take_payment reread dr rq u ?tok (cfp ?tok) key a dft w2 = (Inl (DataError ''payments''), ?w0)"
      unfolding take_payment_def Let_def t by simp
    with res False w2 C(4) show ?thesis by auto
  qed
qed

theorem long_key_never_books_witness:
  "\<forall>x. fst (run (\<lambda>_. ''f00d'') stale demo_draws None 7 (demo_create [9] ''tok_test_aaaa11110000'')
       (replicate 124 CHR ''k'') held_world) \<noteq> Inr x"
proof -
  obtain res w' where r: "run (\<lambda>_. ''f00d'') stale demo_draws None 7 (demo_create [9] ''tok_test_aaaa11110000'')
       (replicate 124 CHR ''k'') held_world = (res, w')"
    by (cases "run (\<lambda>_. ''f00d'') stale demo_draws None 7 (demo_create [9] ''tok_test_aaaa11110000'')
       (replicate 124 CHR ''k'') held_world")
  have l: "123 < length (replicate 124 CHR ''k'')" by simp
  from long_key_never_books [OF held_world_ready reread_modes(1) l r] r show ?thesis by auto
qed

subsection \<open>Cancelling\<close>

lemma payment_to_refund_in:
  assumes "payment_to_refund bid d = Some p"
  shows "p \<in> set (d_payments d)" "refundable bid p"
proof -
  obtain ps where "order_by_desc pay_created_at (select_where (refundable bid) (d_payments d)) = p # ps"
    using assms by (auto simp: payment_to_refund_def split: list.splits)
  then have "p \<in> set (order_by_desc pay_created_at (select_where (refundable bid) (d_payments d)))" by simp
  then show "p \<in> set (d_payments d)" "refundable bid p"
    by (auto simp: order_by_desc_def select_where_def)
qed

lemma cancel_step_moves:
  assumes ok: "sound d" and st: "b_state b = BS_CONFIRMED" and row: "booking_row (b_id b) d = Some r"
  obtains d' where
    "cancel_step now b u paid d =
       Inr ((b\<lparr>b_state := BS_CANCELLED\<rparr>, count_where (\<lambda>s. s_booking_id s = Some (b_id b)) (d_seats d)), d')"
    "sound d'" "booking_row (b_id b) d' = Some (r\<lparr>b_state := BS_CANCELLED\<rparr>)"
    "\<forall>s \<in> set (d_seats d'). s_booking_id s \<noteq> Some (b_id b)"
    "\<forall>t \<in> set (d_tickets d'). t_booking_id t = b_id b \<longrightarrow> \<not> live_ticket t"
    "\<forall>s \<in> set (d_seats d). s_booking_id s \<noteq> Some (b_id b) \<longrightarrow> s \<in> set (d_seats d')"
    "\<forall>t. t_booking_id t \<noteq> b_id b \<longrightarrow> t \<in> set (d_tickets d') \<longleftrightarrow> t \<in> set (d_tickets d)"
    "d_payments d' = d_payments (case paid of None \<Rightarrow> d | Some p \<Rightarrow> set_payment (p\<lparr>pay_state := PS_REFUNDED\<rparr>) d)"
proof -
  define d1 where "d1 = (case paid of None \<Rightarrow> d | Some p \<Rightarrow> set_payment (p\<lparr>pay_state := PS_REFUNDED\<rparr>) d)"
  have d1: "d_seats d1 = d_seats d" "d_tickets d1 = d_tickets d" "d_bookings d1 = d_bookings d"
    by (simp_all add: d1_def split: option.splits)
  obtain n d2 where d2: "release_seats_for_booking now (b_id b) d1 = (n, d2)"
    by (cases "release_seats_for_booking now (b_id b) d1")
  have n: "n = count_where (\<lambda>s. s_booking_id s = Some (b_id b)) (d_seats d)"
    using d2 d1 by (simp add: release_seats_for_booking_def)
  note R = release_seats_clean [OF d2]
  have t: "assert_can_transition (b_state b) BS_CANCELLED = Inr ()" using st by simp
  define d3 where "d3 = set_booking_state (b_id b) BS_CANCELLED
      (audit_record (b_id b) AE_BOOKING_CANCELLED
         ((change_args (b_state b) BS_CANCELLED
             [(''seats_released'', JInt (int n)), (''refunded'', JBool (paid \<noteq> None))])
          \<lparr>au_actor_type := ''user'', au_actor_id := Some u\<rparr>) d2)"
  have run: "cancel_step now b u paid d = Inr ((b\<lparr>b_state := BS_CANCELLED\<rparr>, n), d3)"
    unfolding cancel_step_def Let_def d1_def [symmetric] d2 prod.case t sum.case d3_def ..
  have row3: "booking_row (b_id b) d3 = Some (r\<lparr>b_state := BS_CANCELLED\<rparr>)"
    unfolding d3_def booking_row_state using row R(4) d1(3) by (simp add: booking_row_def)
  show thesis
    by (rule that [OF run [unfolded n] sound_cancel_step [OF ok run] row3])
       (use R d1 in \<open>auto simp: d3_def d1_def [symmetric]\<close>)
qed

text \<open>
  C36: cancelling a confirmed booking refunds its payment and releases what it holds. All
  its seats are free again, all its tickets voided, the row is CANCELLED, the payment
  REFUNDED, and no seat and no ticket of another booking changes.
\<close>

theorem cancel_confirmed:
  assumes w: "idle w" "sound (w_com w)"
    and b: "b_state b = BS_CONFIRMED" "booking_row (b_id b) (w_com w) = Some b"
    and p: "payment_to_refund (b_id b) (w_com w) = Some p"
    and ok: "opt_ref (pay_provider_ref p) \<notin> g_refund_failures (w_gw w)"
  shows "\<exists>n w'. cancel now b u w = (Inr (cancel_body (b\<lparr>b_state := BS_CANCELLED\<rparr>) True n), w') \<and>
     n = count_where (\<lambda>s. s_booking_id s = Some (b_id b)) (d_seats (w_com w)) \<and>
     idle w' \<and> sound (w_com w') \<and>
     booking_row (b_id b) (w_com w') = Some (b\<lparr>b_state := BS_CANCELLED\<rparr>) \<and>
     was_refunded (opt_ref (pay_provider_ref p)) (w_gw w') \<and>
     (\<forall>q \<in> set (d_payments (w_com w')). pay_id q = pay_id p \<longrightarrow> pay_state q = PS_REFUNDED) \<and>
     (\<forall>s \<in> set (d_seats (w_com w')). s_booking_id s \<noteq> Some (b_id b)) \<and>
     (\<forall>t \<in> set (d_tickets (w_com w')). t_booking_id t = b_id b \<longrightarrow> \<not> live_ticket t) \<and>
     (\<forall>s \<in> set (d_seats (w_com w)). s_booking_id s \<noteq> Some (b_id b) \<longrightarrow> s \<in> set (d_seats (w_com w'))) \<and>
     (\<forall>t. t_booking_id t \<noteq> b_id b \<longrightarrow> t \<in> set (d_tickets (w_com w')) \<longleftrightarrow> t \<in> set (d_tickets (w_com w)))"
proof -
  let ?g = "(w_gw w)\<lparr>g_refunded := insert (opt_ref (pay_provider_ref p)) (g_refunded (w_gw w))\<rparr>"
  have cur: "w_cur w = w_com w" using w(1) by (simp add: idle_def)
  obtain d' where d': "cancel_step now b u (Some p) (w_com w) =
       Inr ((b\<lparr>b_state := BS_CANCELLED\<rparr>, count_where (\<lambda>s. s_booking_id s = Some (b_id b)) (d_seats (w_com w))), d')"
    "sound d'" "booking_row (b_id b) d' = Some (b\<lparr>b_state := BS_CANCELLED\<rparr>)"
    "\<forall>s \<in> set (d_seats d'). s_booking_id s \<noteq> Some (b_id b)"
    "\<forall>t \<in> set (d_tickets d'). t_booking_id t = b_id b \<longrightarrow> \<not> live_ticket t"
    "\<forall>s \<in> set (d_seats (w_com w)). s_booking_id s \<noteq> Some (b_id b) \<longrightarrow> s \<in> set (d_seats d')"
    "\<forall>t. t_booking_id t \<noteq> b_id b \<longrightarrow> t \<in> set (d_tickets d') \<longleftrightarrow> t \<in> set (d_tickets (w_com w))"
    "d_payments d' = d_payments (case Some p of None \<Rightarrow> w_com w | Some p \<Rightarrow> set_payment (p\<lparr>pay_state := PS_REFUNDED\<rparr>) (w_com w))"
    by (rule cancel_step_moves [OF w(2) b])
  have t: "transact (cancel_step now b u (Some p)) (w\<lparr>w_gw := ?g\<rparr>) =
      (Inr (b\<lparr>b_state := BS_CANCELLED\<rparr>, count_where (\<lambda>s. s_booking_id s = Some (b_id b)) (d_seats (w_com w))),
       at_db (w\<lparr>w_gw := ?g\<rparr>) d')"
    by (rule transact_eqI) (simp add: cur d'(1))
  have "cancel now b u w = (Inr (cancel_body (b\<lparr>b_state := BS_CANCELLED\<rparr>) True
      (count_where (\<lambda>s. s_booking_id s = Some (b_id b)) (d_seats (w_com w)))), at_db (w\<lparr>w_gw := ?g\<rparr>) d')"
    using p ok t by (simp add: cancel_def cur refund_def finish_cancel_def)
  moreover have "\<forall>q \<in> set (d_payments d'). pay_id q = pay_id p \<longrightarrow> pay_state q = PS_REFUNDED"
    unfolding d'(8) by (auto simp: set_payment_def set_update_where)
  ultimately show ?thesis
    using d' by (simp add: was_refunded_def)
qed

text \<open>
  When the refund fails nothing is released: the seats stay BOOKED, the tickets valid
  and the payment as it was; the booking is flagged for manual review and the caller told.
\<close>

theorem cancel_refund_failure:
  assumes w: "idle w" "sound (w_com w)"
    and b: "booking_row (b_id b) (w_com w) = Some r"
    and p: "payment_to_refund (b_id b) (w_com w) = Some p"
    and bad: "opt_ref (pay_provider_ref p) \<in> g_refund_failures (w_gw w)"
  shows "\<exists>e w'. cancel now b u w = (Inl (App e), w') \<and> ae_class e = BookingCompensated \<and> idle w' \<and>
     booking_row (b_id b) (w_com w') = Some (r\<lparr>b_state := BS_NEEDS_MANUAL_REVIEW\<rparr>) \<and>
     d_seats (w_com w') = d_seats (w_com w) \<and> d_tickets (w_com w') = d_tickets (w_com w) \<and>
     d_payments (w_com w') = d_payments (w_com w) \<and> w_gw w' = w_gw w"
proof -
  have cur: "w_cur w = w_com w" using w(1) by (simp add: idle_def)
  let ?e = "RefundFailed (''refund rejected for '' @ opt_ref (pay_provider_ref p))"
  obtain d' where d': "cancel_review_step b ?e (w_com w) = Inr (b\<lparr>b_state := BS_NEEDS_MANUAL_REVIEW\<rparr>, d')"
    "booking_row (b_id b) d' = Some (r\<lparr>b_state := BS_NEEDS_MANUAL_REVIEW\<rparr>)"
    "d_seats d' = d_seats (w_com w)" "d_tickets d' = d_tickets (w_com w)" "d_payments d' = d_payments (w_com w)"
    using b by (simp add: cancel_review_step_def booking_row_state)
  have t: "transact (cancel_review_step b ?e) (w\<lparr>w_gw := w_gw w\<rparr>) =
      (Inr (b\<lparr>b_state := BS_NEEDS_MANUAL_REVIEW\<rparr>), at_db (w\<lparr>w_gw := w_gw w\<rparr>) d')"
    by (rule transact_eqI) (use d'(1) cur in simp)
  have "cancel now b u w = (Inl (raise_app BookingCompensated
       ''We could not process the refund automatically. Your booking is flagged for manual review.''),
       at_db (w\<lparr>w_gw := w_gw w\<rparr>) d')"
    using p bad t by (simp add: cancel_def cur refund_def)
  with d' show ?thesis by (auto simp: raise_app_def)
qed

text \<open>
  C40: the route lets a TICKETED booking be cancelled, but the state machine has no such
  arrow. The refund has gone to the gateway when \<open>assert_can_transition\<close> raises, and the
  rollback keeps the booking TICKETED and its payment AUTHORIZED, so the saga that is still
  running captures the refunded charge and confirms.
\<close>

theorem cancel_ticketed_refunds_only:
  assumes w: "idle w"
    and b: "b_state b = BS_TICKETED"
    and p: "payment_to_refund (b_id b) (w_com w) = Some p"
    and ok: "opt_ref (pay_provider_ref p) \<notin> g_refund_failures (w_gw w)"
  shows "require_state (b_state b) [BS_CONFIRMED, BS_TICKETED] = Inr () \<and>
     (\<exists>w'. cancel now b u w = (Inl (IllegalTransition BS_TICKETED BS_CANCELLED), w') \<and>
        w_com w' = w_com w \<and> was_refunded (opt_ref (pay_provider_ref p)) (w_gw w'))"
proof -
  let ?g = "(w_gw w)\<lparr>g_refunded := insert (opt_ref (pay_provider_ref p)) (g_refunded (w_gw w))\<rparr>"
  have cur: "w_cur w = w_com w" using w by (simp add: idle_def)
  have t: "assert_can_transition (b_state b) BS_CANCELLED = Inl (IllegalTransition BS_TICKETED BS_CANCELLED)"
    using b by simp
  have "cancel_step now b u (Some p) d = Inl (IllegalTransition BS_TICKETED BS_CANCELLED)" for d
    unfolding cancel_step_def Let_def t by (simp split: prod.splits)
  then have "cancel now b u w = (Inl (IllegalTransition BS_TICKETED BS_CANCELLED), rollback (w\<lparr>w_gw := ?g\<rparr>))"
    using p ok by (simp add: cancel_def cur refund_def finish_cancel_def transact_def)
  with b show ?thesis
    by (simp add: was_refunded_def)
qed

text \<open>The witnesses: user 7 has the paid and ticketed booking 3 on seat 12A.\<close>

definition sold_db :: "booking_state \<Rightarrow> db" where
  "sold_db st = held_db
     \<lparr>d_seats := [book_seat 3 (take_seat 7 9 600 (demo_seat 10 ''12A'' 12 ''A''))],
      d_bookings := [lost_booking\<lparr>b_state := st\<rparr>],
      d_payments := [lost_payment\<lparr>pay_state := PS_CAPTURED\<rparr>],
      d_tickets := [\<lparr>t_id = 6, t_booking_id = 3, t_passenger_id = 4, t_seat_id = 10, t_e_ticket_no = ''0140000000001'',
                     t_issued_at = 1, t_voided_at = None\<rparr>]\<rparr>"

definition sold_world :: "booking_state \<Rightarrow> string set \<Rightarrow> world" where
  "sold_world st failing = held_world\<lparr>w_com := sold_db st, w_cur := sold_db st,
     w_gw := empty_gateway\<lparr>g_captured := {''auth_1''}, g_refund_failures := failing\<rparr>\<rparr>"

lemma sold_ref: "opt_ref (pay_provider_ref (lost_payment\<lparr>pay_state := PS_CAPTURED\<rparr>)) = ''auth_1''"
  by (simp add: lost_payment_def opt_ref_def)

lemma sold_world_facts:
  "idle (sold_world st f)" "sound (w_com (sold_world st f))"
  "booking_row 3 (w_com (sold_world st f)) = Some (lost_booking\<lparr>b_state := st\<rparr>)"
  "payment_to_refund 3 (w_com (sold_world st f)) = Some (lost_payment\<lparr>pay_state := PS_CAPTURED\<rparr>)"
  "g_refund_failures (w_gw (sold_world st f)) = f"
proof -
  have "db_ok (sold_db st)"
    by (simp add: db_ok_def sold_db_def held_db_def empty_db_def seats_ok_def tickets_ok_def audit_ok_def
        unique_key_def demo_flight_def flight_ok_def lost_booking_def
        booking_ok_def lost_payment_def new_payment_def payment_ok_def gateway_key_of_def)
  then have "sound (sold_db st)"
    by (rule sound_same_logs [OF empty_sound]) (simp_all add: sold_db_def held_db_def)
  then show "sound (w_com (sold_world st f))" by (simp add: sold_world_def)
  show "idle (sold_world st f)" by (simp add: sold_world_def idle_def)
  show "booking_row 3 (w_com (sold_world st f)) = Some (lost_booking\<lparr>b_state := st\<rparr>)"
    "payment_to_refund 3 (w_com (sold_world st f)) = Some (lost_payment\<lparr>pay_state := PS_CAPTURED\<rparr>)"
    "g_refund_failures (w_gw (sold_world st f)) = f"
    by (simp_all add: sold_world_def sold_db_def booking_row_def select_one_def select_where_def
        lost_booking_def lost_payment_def new_payment_def payment_to_refund_def refundable_def
        order_by_desc_def opt_ref_def)
qed

theorem cancel_confirmed_witness:
  "\<exists>n w'. cancel 5 (lost_booking\<lparr>b_state := BS_CONFIRMED\<rparr>) 7 (sold_world BS_CONFIRMED {}) =
      (Inr (cancel_body (lost_booking\<lparr>b_state := BS_CONFIRMED, b_state := BS_CANCELLED\<rparr>) True n), w') \<and>
     was_refunded ''auth_1'' (w_gw w') \<and> (\<forall>s \<in> set (d_seats (w_com w')). s_booking_id s \<noteq> Some 3)"
proof -
  let ?b = "lost_booking\<lparr>b_state := BS_CONFIRMED\<rparr>" and ?p = "lost_payment\<lparr>pay_state := PS_CAPTURED\<rparr>"
  note F = sold_world_facts [where st = BS_CONFIRMED and f = "{}"]
  have b: "b_state ?b = BS_CONFIRMED" "b_id ?b = 3" using lost_world_facts(6) by simp_all
  have r: "booking_row (b_id ?b) (w_com (sold_world BS_CONFIRMED {})) = Some ?b"
    "payment_to_refund (b_id ?b) (w_com (sold_world BS_CONFIRMED {})) = Some ?p"
    "opt_ref (pay_provider_ref ?p) \<notin> g_refund_failures (w_gw (sold_world BS_CONFIRMED {}))"
    using F(3,4,5) b(2) by simp_all
  from cancel_confirmed [OF F(1,2) b(1) r, of 5 7] show ?thesis
    unfolding sold_ref b(2) by blast
qed

theorem cancel_refund_failure_witness:
  "\<exists>e w'. cancel 5 (lost_booking\<lparr>b_state := BS_CONFIRMED\<rparr>) 7 (sold_world BS_CONFIRMED {''auth_1''}) = (Inl (App e), w') \<and>
     d_tickets (w_com w') = d_tickets (sold_db BS_CONFIRMED)"
proof -
  let ?b = "lost_booking\<lparr>b_state := BS_CONFIRMED\<rparr>" and ?p = "lost_payment\<lparr>pay_state := PS_CAPTURED\<rparr>"
  let ?w = "sold_world BS_CONFIRMED {''auth_1''}"
  note F = sold_world_facts [where st = BS_CONFIRMED and f = "{''auth_1''}"]
  have b: "b_id ?b = 3" using lost_world_facts(6) by simp
  have r: "booking_row (b_id ?b) (w_com ?w) = Some ?b" "payment_to_refund (b_id ?b) (w_com ?w) = Some ?p"
    "opt_ref (pay_provider_ref ?p) \<in> g_refund_failures (w_gw ?w)"
    unfolding sold_ref F(5) using F(3,4) b by simp_all
  have "w_com ?w = sold_db BS_CONFIRMED" by (simp add: sold_world_def)
  with cancel_refund_failure [OF F(1,2) r, of 5 7] show ?thesis by auto
qed

theorem cancel_ticketed_refunds_only_witness:
  "\<exists>w'. cancel 5 (lost_booking\<lparr>b_state := BS_TICKETED\<rparr>) 7 (sold_world BS_TICKETED {}) =
      (Inl (IllegalTransition BS_TICKETED BS_CANCELLED), w') \<and> was_refunded ''auth_1'' (w_gw w')"
proof -
  let ?b = "lost_booking\<lparr>b_state := BS_TICKETED\<rparr>" and ?p = "lost_payment\<lparr>pay_state := PS_CAPTURED\<rparr>"
  let ?w = "sold_world BS_TICKETED {}"
  note F = sold_world_facts [where st = BS_TICKETED and f = "{}"]
  have b: "b_state ?b = BS_TICKETED" "b_id ?b = 3" using lost_world_facts(6) by simp_all
  have r: "payment_to_refund (b_id ?b) (w_com ?w) = Some ?p"
    "opt_ref (pay_provider_ref ?p) \<notin> g_refund_failures (w_gw ?w)"
    using F(4,5) b(2) by simp_all
  from cancel_ticketed_refunds_only [OF F(1) b(1) r, of 5 7] show ?thesis
    unfolding sold_ref by blast
qed

end
