(* ===== verification/Sky_SagaFrame.thy ===== *)
theory Sky_SagaFrame
  imports Sky_SagaRaces
begin

text \<open>
  What every run of the saga keeps. The locale \<open>saga_invariant\<close> is the interface between the
  transactions and the saga that composes them: a predicate on the database and the supply
  of ids that each transaction keeps, whatever the session remembers, is kept by the payment,
  the ticketing, the compensation, the whole run and the cancellation, on every path, in the
  committed rows and in the session. The locale \<open>untouched\<close> is the special case of a view
  that does not depend on the seven tables the saga writes; it is interpreted on the tables
  the other components own.
\<close>

text \<open>The ids a new draft uses.\<close>

lemma create_ids:
  assumes "create_step clock now n draw u payload key d = Inr (dft, d')"
  shows "b_id (dft_booking dft) = n"
    "\<forall>p \<in> set (dft_passengers dft). p_id p < n + Suc (length (bc_passengers payload)) \<and> p_booking_id p = n"
proof -
  obtain b seats where bs: "book_seats n u payload key b seats d = Inr (dft, d')" and b: "b_id b = n"
    using assms by (auto simp: create_step_def Let_def new_booking_def split: if_splits sum.splits)
  have dft: "dft_booking dft = b" "dft_passengers dft = passenger_rows (Suc n) (b_id b) (bc_passengers payload) (ordered_seats seats)"
    using bs by (auto simp: book_seats_def Let_def split: sum.splits if_splits)
  show "b_id (dft_booking dft) = n" using dft b by simp
  have "set (map p_id (dft_passengers dft)) \<subseteq> {..<n + Suc (length (bc_passengers payload))}"
    unfolding dft passenger_rows_ids by auto
  moreover have "\<forall>p \<in> set (passenger_rows i bid ps ss). p_booking_id p = bid" for i bid ps ss
    by (induction i bid ps ss rule: passenger_rows.induct) (auto simp: passenger_row_def)
  ultimately show "\<forall>p \<in> set (dft_passengers dft). p_id p < n + Suc (length (bc_passengers payload)) \<and> p_booking_id p = n"
    using dft b by auto
qed

locale saga_invariant =
  fixes I :: "uuid \<Rightarrow> db \<Rightarrow> bool"
  assumes more_ids: "I n d \<Longrightarrow> n \<le> m \<Longrightarrow> I m d"
    and event: "I n d \<Longrightarrow> I n (add_event now rq se sv ea d)"
    and create: "I n d \<Longrightarrow> create_step clock now n draw u payload key d = Inr (x, d') \<Longrightarrow>
      I (n + Suc (length (bc_passengers payload))) d'"
    and fail: "I n d \<Longrightarrow> fail_payment reread mem b c det ev d = Inr (y, d') \<Longrightarrow> I n d'"
    and start: "I n d \<Longrightarrow> b_id b < n \<Longrightarrow> start_payment (new_payment n b tok fp k now) d = Inr (q, d') \<Longrightarrow> I (Suc n) d'"
    and mark: "I n d \<Longrightarrow> mark_unknown p d = Inr (q, d') \<Longrightarrow> I n d'"
    and decline: "I n d \<Longrightarrow> decline_step reread dft p r a d = Inr (y, d') \<Longrightarrow> I n d'"
    and approve: "I n d \<Longrightarrow> approve_step b p r d = Inr (bp, d') \<Longrightarrow> I n d'"
    and issue: "I n d \<Longrightarrow> b_id b < n \<Longrightarrow> \<forall>p \<in> set ps. p_id p < n \<Longrightarrow>
      issue_tickets reread clock now draw n b ps mem u tok d = (z, d') \<Longrightarrow> I (n + length ps) d'"
    and begin_comp: "I n d \<Longrightarrow> begin_compensation b p msg d = Inr (b', d') \<Longrightarrow> I n d'"
    and review: "I n d \<Longrightarrow> review_step now b p e d = Inr (b', d') \<Longrightarrow> I n d'"
    and void: "I n d \<Longrightarrow> void_step now b p ev d = Inr (b', d') \<Longrightarrow> I n d'"
    and confirm: "I n d \<Longrightarrow> confirm_step b p d = Inr (b', d') \<Longrightarrow> I n d'"
    and cancel_review: "I n d \<Longrightarrow> cancel_review_step b e d = Inr (b', d') \<Longrightarrow> I n d'"
    and cancel_rows: "I n d \<Longrightarrow> cancel_step now b u paid d = Inr (bn, d') \<Longrightarrow> I n d'"
begin

definition at_inv :: "world \<Rightarrow> bool" where
  "at_inv w = (I (w_fresh w) (w_com w) \<and> I (w_fresh w) (w_cur w))"

lemma other_parts [simp]:
  "at_inv (w\<lparr>w_gw := g\<rparr>) = at_inv w" "at_inv (w\<lparr>w_redis := rs\<rparr>) = at_inv w"
  "at_inv w \<Longrightarrow> at_inv (record_security_event_bg now rq et sv a w)"
  "at_inv w \<Longrightarrow> at_inv (commit w)" "at_inv w \<Longrightarrow> at_inv (rollback w)"
  by (simp_all add: at_inv_def event)

lemma drawn: "at_inv w \<Longrightarrow> w_fresh w \<le> n \<Longrightarrow> at_inv (w\<lparr>w_fresh := n\<rparr>)"
  by (auto simp: at_inv_def intro: more_ids)

lemma transacted:
  assumes "at_inv w" "transact body w = (r, w')"
    and "\<And>x d'. body (w_cur w) = Inr (x, d') \<Longrightarrow> I (w_fresh w) d'"
  shows "at_inv w'" "w_fresh w' = w_fresh w"
  using assms by (auto simp: transact_def at_inv_def split: sum.splits prod.splits)

text \<open>A transaction that uses the ids from \<open>n\<close> up to the new supply.\<close>

lemma transacted_ids:
  assumes "at_inv w" "transact body (w\<lparr>w_fresh := m\<rparr>) = (r, w')" "w_fresh w \<le> m"
    and "\<And>x d'. body (w_cur w) = Inr (x, d') \<Longrightarrow> I m d'"
  shows "at_inv w'" "w_fresh w' = m"
  using assms drawn [OF assms(1,3)] by (auto simp: transact_def at_inv_def split: sum.splits prod.splits)

lemma assessed:
  "assess_payment_attempt up ms hx now rq u ip fp amt w = (a, w') \<Longrightarrow> at_inv w \<Longrightarrow> at_inv w' \<and> w_fresh w' = w_fresh w"
  by (auto simp: assess_payment_attempt_def Let_def split: prod.splits if_splits)

lemma outcome_recorded:
  "at_inv w \<Longrightarrow> at_inv (record_outcome up ms hx now rq u ip fp ok w) \<and>
   w_fresh (record_outcome up ms hx now rq u ip fp ok w) = w_fresh w"
  by (simp add: record_outcome_def split: prod.splits)

lemma charged:
  assumes "charge hex p w = (r, w')" "at_inv w"
  shows "at_inv w'" "w_fresh w' = w_fresh w"
proof -
  have call: "at_inv w2 \<Longrightarrow> at_inv w1 \<and> w_fresh w1 = w_fresh w2" if "call_gateway h q w2 = (x, w1)" for h q w2 x w1
    using that by (auto simp: call_gateway_def split: prod.splits)
  obtain x w1 where c: "call_gateway (hex 0) p w = (x, w1)" by (cases "call_gateway (hex 0) p w")
  note 1 = call [OF c assms(2)]
  have "at_inv w' \<and> w_fresh w' = w_fresh w"
  proof (cases "\<exists>m. x = Inl (PaymentTimeout m)")
    case True
    then obtain m where x: "x = Inl (PaymentTimeout m)" by blast
    obtain y w2 where t: "transact (mark_unknown p) w1 = (y, w2)" by (cases "transact (mark_unknown p) w1")
    have 2: "at_inv w2 \<and> w_fresh w2 = w_fresh w"
      using transacted [OF conjunct1 [OF 1] t] mark 1 by (auto simp: at_inv_def)
    show ?thesis
      using assms(1) c x t 2 by (auto simp: charge_def dest: call split: sum.splits prod.splits)
  next
    case False
    then show ?thesis
      using assms(1) c 1 by (auto simp: charge_def split: sum.splits exn.splits)
  qed
  then show "at_inv w'" "w_fresh w' = w_fresh w" by auto
qed

lemma paid:
  assumes "take_payment reread dr rq u tok fp key a dft w = (r, w')" "at_inv w" "b_id (dft_booking dft) < w_fresh w"
  shows "at_inv w'" "w_fresh w' = Suc (w_fresh w)" "r = Inr (b, p) \<Longrightarrow> b_id b = b_id (dft_booking dft)"
proof -
  let ?b = "dft_booking dft"
  let ?p = "new_payment (w_fresh w) ?b tok fp (gateway_key_of key) (dr_now dr 1)"
  obtain x w1 where t: "transact (start_payment ?p) (w\<lparr>w_fresh := Suc (w_fresh w)\<rparr>) = (x, w1)"
    by (cases "transact (start_payment ?p) (w\<lparr>w_fresh := Suc (w_fresh w)\<rparr>)")
  have 1: "at_inv w1" "w_fresh w1 = Suc (w_fresh w)"
    using transacted_ids [OF assms(2) t] start [OF _ assms(3)] assms(2) by (auto simp: at_inv_def)
  have "at_inv w' \<and> w_fresh w' = Suc (w_fresh w) \<and> (r = Inr (b, p) \<longrightarrow> b_id b = b_id ?b)"
  proof (cases x)
    case (Inl e)
    with assms(1) t 1 show ?thesis by (auto simp: take_payment_def Let_def)
  next
    case (Inr q)
    obtain y w2 where c: "charge (dr_hex dr) q w1 = (y, w2)" by (cases "charge (dr_hex dr) q w1")
    note 2 = charged [OF c 1(1)]
    show ?thesis
    proof (cases y)
      case (Inl e)
      with assms(1) t c 1 2 Inr show ?thesis by (auto simp: take_payment_def Let_def)
    next
      case y: (Inr pr)
      obtain p' ar where pr: "pr = (p', ar)" by (cases pr)
      let ?w3 = "record_outcome (dr_up dr 1) (dr_ms dr 1) (dr_member dr 1) (dr_now dr 2) rq u (client_ip rq) fp
        (ar_approved ar) w2"
      have 3: "at_inv ?w3" "w_fresh ?w3 = Suc (w_fresh w)" using outcome_recorded [OF 2(1)] 1(2) 2(2) by auto
      have dec: "at_inv w4" "w_fresh w4 = Suc (w_fresh w)"
        if "transact (decline_step reread dft p' ar a) ?w3 = (z, w4)" for z w4
        using transacted [OF 3(1) that] decline 3 by (auto simp: at_inv_def)
      have app: "at_inv w4 \<and> w_fresh w4 = Suc (w_fresh w) \<and> (z = Inr (b, p) \<longrightarrow> b_id b = b_id ?b)"
        if "transact (approve_step ?b p' ar) ?w3 = (z, w4)" for z w4
      proof -
        have "z = Inr (b, p) \<longrightarrow> b_id b = b_id ?b"
          using that by (auto simp: transact_def approve_step_def Let_def split: sum.splits prod.splits)
        then show ?thesis using transacted [OF 3(1) that] approve 3 by (auto simp: at_inv_def)
      qed
      have res: "(if \<not> ar_approved ar
          then (case transact (decline_step reread dft p' ar a) ?w3 of
                  (Inl e, w4) \<Rightarrow> (Inl e, w4)
                | (Inr _, w4) \<Rightarrow> (Inl (declined_error ar), decline_event (dr_now dr 2) rq u ?b fp ar a w4))
          else transact (approve_step ?b p' ar) ?w3) = (r, w')"
        using assms(1) t c Inr y pr by (cases "ar_approved ar") (simp_all add: take_payment_def Let_def)
      show ?thesis
      proof (cases "ar_approved ar")
        case True
        then show ?thesis using res app by simp
      next
        case False
        then show ?thesis
          using res dec by (auto simp: decline_event_def split: prod.splits sum.splits)
      qed
    qed
  qed
  then show "at_inv w'" "w_fresh w' = Suc (w_fresh w)" "r = Inr (b, p) \<Longrightarrow> b_id b = b_id ?b" by auto
qed

lemma compensated:
  assumes "compensate now rq u tok b p m w = (r, w')" "at_inv w"
  shows "at_inv w'"
proof -
  obtain x w1 where t: "transact (begin_compensation b p m) w = (x, w1)"
    by (cases "transact (begin_compensation b p m) w")
  have 1: "at_inv (w1\<lparr>w_gw := g\<rparr>)" for g
    using transacted [OF assms(2) t] begin_comp assms(2) by (auto simp: at_inv_def)
  have 2: "at_inv w2" if "transact (void_step now b1 q ev) (w1\<lparr>w_gw := g\<rparr>) = (y, w2)" for b1 q ev g y w2
    using transacted [OF 1 that] void 1 [of g] by (auto simp: at_inv_def)
  have 3: "at_inv w2" if "transact (review_step now b1 q e) (w1\<lparr>w_gw := g\<rparr>) = (y, w2)" for b1 q e g y w2
    using transacted [OF 1 that] review 1 [of g] by (auto simp: at_inv_def)
  show ?thesis
    using assms(1) t 1 [of "w_gw w1"] 1 2 3
    by (auto simp: compensate_def review_event_def split: prod.splits sum.splits if_splits)
qed

lemma finished:
  assumes "ticket_and_confirm reread dr rq u tok dft b p w = (r, w')" "at_inv w" "b_id b < w_fresh w"
    "\<forall>q \<in> set (dft_passengers dft). p_id q < w_fresh w"
  shows "at_inv w'"
proof -
  let ?it = "issue_tickets reread (dr_clock dr 1) (dr_now dr 3) (dr_eticket dr) (w_fresh w) b
             (dft_passengers dft) (dft_seats dft) u tok (w_cur w)"
  let ?n = "w_fresh w + length (dft_passengers dft)"
  obtain x d where it: "?it = (x, d)" by (cases ?it)
  let ?w1 = "map_cur (\<lambda>_. d) w\<lparr>w_fresh := ?n\<rparr>"
  have "I ?n d" "I ?n (w_com w)"
    using issue [OF _ assms(3,4) it] assms(2) more_ids [of "w_fresh w" "w_com w" ?n] by (auto simp: at_inv_def)
  then have 1: "at_inv ?w1" by (simp add: at_inv_def)
  show ?thesis
  proof (cases x)
    case (Inl e)
    then show ?thesis
      using assms(1) it 1 compensated [OF _ 1]
      by (auto simp: ticket_and_confirm_def Let_def split: if_splits sum.splits prod.splits)
  next
    case (Inr b1)
    have c: "at_inv ((commit ?w1)\<lparr>w_gw := g\<rparr>)" for g using 1 by simp
    have "at_inv w3" if "transact (confirm_step b1 p) ((commit ?w1)\<lparr>w_gw := g\<rparr>) = (y, w3)" for g y w3
      using transacted [OF c that] confirm c [of g] by (auto simp: at_inv_def)
    with Inr show ?thesis
      using assms(1) it by (auto simp: ticket_and_confirm_def Let_def split: sum.splits prod.splits)
  qed
qed

lemma ran:
  assumes "run cf reread dr rq u payload key w = (r, w')" "at_inv w"
  shows "at_inv w'"
proof -
  let ?n = "w_fresh w + Suc (length (bc_passengers payload))"
  let ?c = "create_step (dr_clock dr 0) (dr_now dr 0) (w_fresh w) (dr_pnr dr) u payload key"
  obtain x w1 where t: "transact ?c (w\<lparr>w_fresh := ?n\<rparr>) = (x, w1)" by (cases "transact ?c (w\<lparr>w_fresh := ?n\<rparr>)")
  have "I (w_fresh w) (w_cur w)" using assms(2) by (simp add: at_inv_def)
  note T = transacted_ids [OF assms(2) t _ create [OF this]]
  have 1: "at_inv w1" "w_fresh w1 = ?n" using T by simp_all
  show ?thesis
  proof (cases x)
    case (Inl e)
    with assms(1) t 1 show ?thesis by (simp add: run_def)
  next
    case (Inr dft)
    then have "\<exists>d'. ?c (w_cur w) = Inr (dft, d')" using t by (auto simp: transact_def split: sum.splits prod.splits)
    then have ids: "b_id (dft_booking dft) < w_fresh w1" "\<forall>q \<in> set (dft_passengers dft). p_id q < w_fresh w1"
      using create_ids [of _ _ "w_fresh w"] 1(2) by auto
    let ?fp = "cf (bc_card_token payload)"
    let ?as = "assess_payment_attempt (dr_up dr 0) (dr_ms dr 0) (dr_member dr 0) (dr_now dr 1) rq u (client_ip rq)
       ?fp (b_total_amount (dft_booking dft)) w1"
    obtain a w2 where as: "?as = (a, w2)" by (cases ?as)
    have 2: "at_inv w2" "w_fresh w2 = w_fresh w1" using assessed [OF as 1(1)] by auto
    have f: "at_inv w3" if "transact (fail_payment reread mem b c det ev) w2 = (y, w3)" for mem b c det ev y w3
      using transacted [OF 2(1) that] fail 2 by (auto simp: at_inv_def)
    have tp: "at_inv w4" if tp: "take_payment reread dr rq u (bc_card_token payload) ?fp key a dft w2 = (Inr (b1, p), w3)"
      and tc: "ticket_and_confirm reread dr rq u (bc_card_token payload) dft b1 p w3 = (y, w4)" for b1 p y w3 w4
    proof (rule finished [OF tc])
      have "b_id (dft_booking dft) < w_fresh w2" using ids(1) 2(2) by simp
      note P = paid(1,2) [OF tp 2(1) this] paid(3) [OF tp 2(1) this refl]
      show "at_inv w3" using P ids 2 by simp
      show "b_id b1 < w_fresh w3" "\<forall>q \<in> set (dft_passengers dft). p_id q < w_fresh w3"
        using P ids 2 by auto
    qed
    show ?thesis
    proof (cases "as_decision a = BLOCK")
      case True
      then show ?thesis
        using assms(1) t as Inr f by (fastforce simp: run_def Let_def split: sum.splits prod.splits)
    next
      case False
      obtain y w3 where y: "take_payment reread dr rq u (bc_card_token payload) ?fp key a dft w2 = (y, w3)"
        by (cases "take_payment reread dr rq u (bc_card_token payload) ?fp key a dft w2")
      show ?thesis
      proof (cases y)
        case (Inl e)
        then show ?thesis
          using assms(1) t as Inr False y paid(1) [OF y 2(1)] ids(1) 2(2) by (simp add: run_def Let_def)
      next
        case yr: (Inr bp)
        obtain b1 p where "bp = (b1, p)" by (cases bp)
        with yr y tp show ?thesis
          using assms(1) t as Inr False by (simp add: run_def Let_def)
      qed
    qed
  qed
qed

lemma cancelled:
  assumes "cancel now b u w = (r, w')" "at_inv w"
  shows "at_inv w'"
proof -
  have g: "at_inv (w\<lparr>w_gw := g\<rparr>)" for g using assms(2) by simp
  have f: "at_inv w2" if "finish_cancel now b u q w1 = (y, w2)" "at_inv w1" for q w1 y w2
  proof -
    obtain z w3 where t: "transact (cancel_step now b u q) w1 = (z, w3)" by (cases "transact (cancel_step now b u q) w1")
    have "w2 = w3" using that(1) t by (auto simp: finish_cancel_def split: prod.splits sum.splits)
    moreover have "I (w_fresh w1) (w_cur w1)" using that(2) by (simp add: at_inv_def)
    ultimately show ?thesis using transacted(1) [OF that(2) t] cancel_rows by blast
  qed
  have v: "at_inv w2" if "transact (cancel_review_step b e) (w\<lparr>w_gw := g0\<rparr>) = (y, w2)" for e g0 y w2
    using transacted [OF g that] cancel_review g [of g0] by (auto simp: at_inv_def)
  show ?thesis
    using assms g f [OF _ g] f v
    by (auto simp: cancel_def split: option.splits prod.splits sum.splits if_splits)
qed

end

locale untouched =
  fixes view :: "db \<Rightarrow> 'v"
  assumes keeps:
    "view (d\<lparr>d_seats := ss\<rparr>) = view d" "view (d\<lparr>d_tickets := ts\<rparr>) = view d"
    "view (d\<lparr>d_bookings := bs\<rparr>) = view d" "view (d\<lparr>d_passengers := ps\<rparr>) = view d"
    "view (d\<lparr>d_payments := qs\<rparr>) = view d" "view (d\<lparr>d_audit := as\<rparr>) = view d"
    "view (d\<lparr>d_events := es\<rparr>) = view d"
begin

definition steady :: "(db \<Rightarrow> exn + ('a \<times> db)) \<Rightarrow> bool" where
  "steady body = (\<forall>d x d'. body d = Inr (x, d') \<longrightarrow> view d' = view d)"

lemma logs [simp]:
  "view (audit_record b et a d) = view d" "view (add_event now rq se sv ar d) = view d"
  by (simp_all add: audit_record_def add_event_def keeps split: prod.split)

lemma rows [simp]:
  "view (set_booking_state bid st d) = view d" "view (set_payment p d) = view d"
  by (simp_all add: set_booking_state_def set_payment_def keeps)

lemma flushed: "flush_seats ps d = Inr d' \<Longrightarrow> view d' = view d"
  using flush_seats_frame [of ps d d'] keeps(1) by auto

lemma ticketed: "insert_tickets ts d = Inr d' \<Longrightarrow> view d' = view d"
  using insert_tickets_rows [of ts d d'] keeps(2) by auto

lemma released: "release_seats_for_booking now bid d = (n, d') \<Longrightarrow> view d' = view d"
proof -
  assume "release_seats_for_booking now bid d = (n, d')"
  then obtain ts ss where "d' = (d\<lparr>d_tickets := ts\<rparr>)\<lparr>d_seats := ss\<rparr>"
    by (auto simp: release_seats_for_booking_def)
  then show ?thesis by (simp only: keeps)
qed

lemma created: "steady (create_step clock now n draw u payload key)"
  unfolding steady_def
proof (intro allI impI)
  fix d x d' assume "create_step clock now n draw u payload key d = Inr (x, d')"
  then obtain b seats where bs: "book_seats n u payload key b seats d = Inr (x, d')"
    by (auto simp: create_step_def Let_def split: if_splits sum.splits)
  obtain d1 where d1: "insert_booking b d = Inr d1"
    using bs by (auto simp: book_seats_def split: sum.splits)
  obtain d2 ps where d2: "flush_seats ps d1 = Inr d2" "view d' = view (d2\<lparr>d_passengers := d_passengers d2 @ x'\<rparr>)" for x'
    using bs d1 by (auto simp: book_seats_def Let_def keeps split: sum.splits if_splits)
  have "view d1 = view d" using d1 by (auto simp: insert_booking_def keeps split: if_splits)
  with flushed [OF d2(1)] d2(2) show "view d' = view d" by (simp add: keeps)
qed

lemma failed: "steady (fail_payment reread mem b c det ev)"
  unfolding steady_def by (auto simp: fail_payment_def Let_def dest!: flushed split: sum.splits)

lemma steps:
  "steady (start_payment p)" "steady (mark_unknown p)" "steady (decline_step reread dft p r a)"
  "steady (approve_step b p r)" "steady (begin_compensation b p m)" "steady (review_step now b p e)"
  "steady (void_step now b p ev)" "steady (confirm_step b p)" "steady (cancel_review_step b e)"
  "steady (cancel_step now b u paid)"
proof -
  show "steady (start_payment p)"
    by (auto simp: steady_def start_payment_def insert_payment_def keeps split: sum.splits if_splits)
  show "steady (mark_unknown p)" by (auto simp: steady_def mark_unknown_def Let_def)
  show "steady (decline_step reread dft p r a)"
    by (auto simp: steady_def decline_step_def dest!: failed [unfolded steady_def, rule_format])
  show "steady (approve_step b p r)" by (auto simp: steady_def approve_step_def Let_def split: sum.splits)
  show "steady (begin_compensation b p m)" by (auto simp: steady_def begin_compensation_def split: sum.splits)
  show "steady (review_step now b p e)"
    by (auto simp: steady_def review_step_def Let_def dest!: released split: prod.splits)
  show "steady (void_step now b p ev)"
    by (auto simp: steady_def void_step_def Let_def dest!: released split: prod.splits sum.splits)
  show "steady (confirm_step b p)" by (auto simp: steady_def confirm_step_def split: sum.splits)
  show "steady (cancel_review_step b e)" by (auto simp: steady_def cancel_review_step_def)
  show "steady (cancel_step now b u paid)"
    by (auto simp: steady_def cancel_step_def Let_def dest!: released split: prod.splits sum.splits option.splits)
qed

lemma issued:
  assumes "issue_tickets rr clock now draw n b ps mem u tok d = (r, d')"
  shows "view d' = view d"
proof -
  obtain lost d1 where ver: "verify_seats clock (b_id b) u (locked_seats rr mem d) d = (lost, d1)"
    by (cases "verify_seats clock (b_id b) u (locked_seats rr mem d) d")
  have 1: "view d1 = view d" using verify_frame [OF ver] keeps(6) by auto
  have 2: "view d2 = view d1" if "flush_issued ts ws d1 = Inr d2" for ts ws d2
    using that flushed ticketed by (fastforce simp: flush_issued_def split: sum.splits)
  obtain err ts ws where il: "issue_loop now draw n (b_id b) 0 (locked_seats rr mem d) ps = (err, ts, ws)"
    by (cases "issue_loop now draw n (b_id b) 0 (locked_seats rr mem d) ps")
  show ?thesis
    using assms ver il 1 2 by (auto simp: issue_tickets_def Let_def split: if_splits sum.splits option.splits)
qed

lemma steadyD: "steady body \<Longrightarrow> body d = Inr (x, d') \<Longrightarrow> view d' = view d"
  by (simp add: steady_def)

lemmas view_steps = steadyD [OF created] steadyD [OF failed] steadyD [OF steps(1)] steadyD [OF steps(2)]
  steadyD [OF steps(3)] steadyD [OF steps(4)] steadyD [OF steps(5)] steadyD [OF steps(6)] steadyD [OF steps(7)]
  steadyD [OF steps(8)] steadyD [OF steps(9)] steadyD [OF steps(10)] issued

end

sublocale untouched \<subseteq> kept: saga_invariant "\<lambda>_ d. view d = v" for v
  by unfold_locales (auto dest!: view_steps)

context untouched
begin

lemma run_keeps:
  assumes "run cf reread dr rq u payload key w = (r, w')" "view (w_com w) = v" "view (w_cur w) = v"
  shows "view (w_com w') = v" "view (w_cur w') = v"
  using kept.ran [OF assms(1), of v] assms(2,3) by (simp_all add: kept.at_inv_def)

lemma cancel_keeps:
  assumes "cancel now b u w = (r, w')" "view (w_com w) = v" "view (w_cur w) = v"
  shows "view (w_com w') = v" "view (w_cur w') = v"
  using kept.cancelled [OF assms(1), of v] assms(2,3) by (simp_all add: kept.at_inv_def)

end

interpretation claims: untouched d_idem
  by unfold_locales simp_all

interpretation accounts: untouched d_users
  by unfold_locales simp_all

interpretation sessions: untouched d_tokens
  by unfold_locales simp_all

interpretation schedule: untouched "\<lambda>d. (d_flights d, d_fares d, d_airports d, d_airlines d, d_routes d)"
  by unfold_locales simp_all

end
