(* ===== verification/Sky_Idempotency.thy ===== *)
theory Sky_Idempotency
  imports Sky_World Sky_Schemas "HOL-Library.Multiset"
begin

text \<open>
  \<^verbatim>\<open>app/services/idempotency.py\<close>: the canonical text of a request body, the claim on a key,
  the stored response and its replay, the release. The digest (SHA-256) is a parameter.
\<close>

subsection \<open>The canonical body\<close>

definition hex_digit :: "nat \<Rightarrow> char" where
  "hex_digit n = (if n < 10 then digit_char n else char_of (87 + n))"

text \<open>
  \<open>json.dumps\<close> escapes the quote, the backslash, control characters and everything outside
  ASCII; the two-letter escapes are the ones of the Python encoder.
\<close>

definition escape_char :: "char \<Rightarrow> string" where
  "escape_char c =
     (let n = of_char c :: nat in
      if n = 34 then [CHR 0x5C, CHR 0x22]
      else if n = 92 then [CHR 0x5C, CHR 0x5C]
      else if n = 10 then [CHR 0x5C, CHR ''n'']
      else if n = 13 then [CHR 0x5C, CHR ''r'']
      else if n = 9 then [CHR 0x5C, CHR ''t'']
      else if n = 12 then [CHR 0x5C, CHR ''f'']
      else if n = 8 then [CHR 0x5C, CHR ''b'']
      else if n < 32 \<or> 127 < n then [CHR 0x5C, CHR ''u'', CHR ''0'', CHR ''0'', hex_digit (n div 16), hex_digit (n mod 16)]
      else [c])"

definition json_string :: "string \<Rightarrow> string" where
  "json_string s = [CHR 0x22] @ concat (map escape_char s) @ [CHR 0x22]"

text \<open>\<open>sort_keys=True\<close>, separators without blanks; ids, instants and amounts as their strings.\<close>

fun canonical :: "json \<Rightarrow> string" where
  "canonical JNull = ''null''"
| "canonical (JBool b) = (if b then ''true'' else ''false'')"
| "canonical (JInt i) = show_int i"
| "canonical (JStr s) = json_string s"
| "canonical (JUuid u) = json_string (uuid_str u)"
| "canonical (JTime t) = json_string (show_int t)"
| "canonical (JMoney c) = json_string (show_cents c)"
| "canonical (JList xs) = ''['' @ join '','' (map canonical xs) @ '']''"
| "canonical (JObj kvs) =
     ''{'' @ join '','' (map snd (sort_key fst
        (map (\<lambda>(k, v). (k, json_string k @ '':'' @ canonical v)) kvs))) @ ''}''"

definition request_hash :: "(string \<Rightarrow> string) \<Rightarrow> json \<Rightarrow> string" where
  "request_hash sha256 payload = sha256 (canonical payload)"

text \<open>
  The canonical text, and so the digest, of a JSON object does not depend on the order
  in which its fields were written.
\<close>

theorem request_hash_ignores_field_order:
  assumes "mset kvs = mset kvs'" "distinct (map fst kvs)"
  shows "request_hash sha256 (JObj kvs) = request_hash sha256 (JObj kvs')"
proof -
  let ?f = "\<lambda>(k, v). (k, json_string k @ '':'' @ canonical v)"
  have inj: "inj_on fst (set (map ?f kvs))"
    using assms(2) by (auto simp: distinct_map inj_on_def case_prod_unfold)
  have "mset (map ?f kvs) = mset (sort_key fst (map ?f kvs'))"
    using assms(1) by simp
  then have "sort_key fst (map ?f kvs) = sort_key fst (map ?f kvs')"
    by (rule sort_key_inj_key_eq [OF _ inj]) simp
  then show ?thesis by (simp add: request_hash_def)
qed

theorem request_hash_ignores_field_order_witness:
  "request_hash (\<lambda>s. s) (JObj [(''b'', JNull), (''a'', JInt 1)]) =
   request_hash (\<lambda>s. s) (JObj [(''a'', JInt 1), (''b'', JNull)])"
proof -
  have "mset [(''b'', JNull), (''a'', JInt 1)] = mset [(''a'', JInt 1), (''b'', JNull)]" by simp
  from request_hash_ignores_field_order [OF this] show ?thesis by simp
qed

subsection \<open>Claims\<close>

record replay =
  rp_status_code :: int
  rp_body :: "(string \<times> json) list"

definition claim_of :: "string \<Rightarrow> uuid \<Rightarrow> idempotency_key \<Rightarrow> bool" where
  "claim_of key user_id k = (ik_key k = key \<and> ik_user_id k = user_id)"

text \<open>The first transaction of \<open>begin\<close>: clear an expired claim, then INSERT ... ON CONFLICT DO NOTHING.\<close>

definition try_claim ::
  "settings \<Rightarrow> time \<Rightarrow> string \<Rightarrow> uuid \<Rightarrow> string \<Rightarrow> string \<Rightarrow> db \<Rightarrow> bool \<times> db" where
  "try_claim st now key user_id endpoint digest d =
     (let rows = delete_where (\<lambda>k. claim_of key user_id k \<and> ik_expires_at k < now) (d_idem d) in
      if select_one (claim_of key user_id) rows \<noteq> None then (False, d\<lparr>d_idem := rows\<rparr>)
      else (True, d\<lparr>d_idem := rows @
             [\<lparr>ik_key = key, ik_user_id = user_id, ik_endpoint = endpoint, ik_request_hash = digest,
               ik_state = IN_PROGRESS, ik_response_status = None, ik_response_body = None,
               ik_booking_id = None, ik_expires_at = now + seconds (idempotency_ttl_seconds st)\<rparr>]\<rparr>))"

text \<open>What a request that did not get the claim is told.\<close>

definition look_up_claim :: "string \<Rightarrow> uuid \<Rightarrow> string \<Rightarrow> db \<Rightarrow> exn + replay" where
  "look_up_claim key user_id digest d =
     (case select_one (claim_of key user_id) (d_idem d) of
        None \<Rightarrow> Inl (raise_app RequestInFlight ''Please retry in a moment'')
      | Some k \<Rightarrow>
          if ik_request_hash k \<noteq> digest
          then Inl (raise_app IdempotencyKeyReused
                 ''This Idempotency-Key was already used for a different request body. Use a fresh key for a new request.'')
          else
            (case (ik_state k, ik_response_status k) of
               (COMPLETED, Some status) \<Rightarrow>
                 if status \<noteq> 0
                 then Inr \<lparr>rp_status_code = status,
                           rp_body = (case ik_response_body k of None \<Rightarrow> [] | Some b \<Rightarrow> b)\<rparr>
                 else Inl (raise_app RequestInFlight ''An identical request is still being processed; retry shortly.'')
             | _ \<Rightarrow> Inl (raise_app RequestInFlight ''An identical request is still being processed; retry shortly.'')))"

definition begin_claim ::
  "(string \<Rightarrow> string) \<Rightarrow> settings \<Rightarrow> time \<Rightarrow> string \<Rightarrow> uuid \<Rightarrow> string \<Rightarrow> json \<Rightarrow> world \<Rightarrow>
   (exn + replay option) \<times> world" where
  "begin_claim sha256 st now key user_id endpoint payload w =
     (let digest = request_hash sha256 payload in
      case try_claim st now key user_id endpoint digest (w_cur w) of
        (claimed, d) \<Rightarrow>
          (let w' = commit (map_cur (\<lambda>_. d) w) in
           if claimed then (Inr None, w')
           else (case look_up_claim key user_id digest (w_cur w') of
                   Inl e \<Rightarrow> (Inl e, w')
                 | Inr r \<Rightarrow> (Inr (Some r), w'))))"

definition complete_claim ::
  "string \<Rightarrow> uuid \<Rightarrow> int \<Rightarrow> (string \<times> json) list \<Rightarrow> uuid option \<Rightarrow> world \<Rightarrow> world" where
  "complete_claim key user_id status body booking_id w =
     (if select_one (claim_of key user_id) (d_idem (w_cur w)) = None then w
      else commit (map_cur (\<lambda>d. d\<lparr>d_idem := update_where (claim_of key user_id)
             (\<lambda>k. k\<lparr>ik_state := COMPLETED, ik_response_status := Some status,
                    ik_response_body := Some body, ik_booking_id := booking_id\<rparr>) (d_idem d)\<rparr>) w))"

definition release_claim :: "string \<Rightarrow> uuid \<Rightarrow> world \<Rightarrow> world" where
  "release_claim key user_id w =
     commit (map_cur (\<lambda>d. d\<lparr>d_idem := delete_where (claim_of key user_id) (d_idem d)\<rparr>) w)"

subsection \<open>What the claims guarantee\<close>

lemma claim_unique:
  assumes "unique_key (\<lambda>k. (ik_key k, ik_user_id k)) ks" "k \<in> set ks" "claim_of key u k"
  shows "select_one (claim_of key u) ks = Some k"
proof -
  have "select_one (\<lambda>r. (ik_key r, ik_user_id r) = (key, u)) ks = Some k"
    using select_one_unique [OF assms(1,2), of "(key, u)"] assms(3) by (simp add: claim_of_def)
  moreover have "(\<lambda>r. (ik_key r, ik_user_id r) = (key, u)) = claim_of key u"
    by (auto simp: claim_of_def)
  ultimately show ?thesis by simp
qed

lemma try_claim_unique:
  assumes u: "unique_key (\<lambda>k. (ik_key k, ik_user_id k)) (d_idem d)"
    and t: "try_claim st now key u endpoint digest d = (c, d')"
  shows "unique_key (\<lambda>k. (ik_key k, ik_user_id k)) (d_idem d')"
proof -
  let ?rows = "delete_where (\<lambda>k. claim_of key u k \<and> ik_expires_at k < now) (d_idem d)"
  have r: "unique_key (\<lambda>k. (ik_key k, ik_user_id k)) ?rows"
    by (rule unique_key_delete_where [OF u])
  show ?thesis
  proof (cases "select_one (claim_of key u) ?rows = None")
    case True
    then have "(key, u) \<notin> (\<lambda>k. (ik_key k, ik_user_id k)) ` set ?rows"
      by (auto simp: select_one_None claim_of_def)
    with True t r show ?thesis
      by (auto simp: try_claim_def Let_def unique_key_append_one)
  next
    case False
    with t r show ?thesis by (auto simp: try_claim_def Let_def)
  qed
qed

lemma sound_idemI:
  assumes "sound d" "unique_key (\<lambda>k. (ik_key k, ik_user_id k)) ks"
  shows "sound (d\<lparr>d_idem := ks\<rparr>)"
  by (rule sound_same_logs [OF assms(1)]) (use assms in \<open>auto simp: sound_def db_ok_def\<close>)

lemma try_claim_frame: "try_claim st now key u ep dg d = (c, d') \<Longrightarrow> \<exists>ks. d' = d\<lparr>d_idem := ks\<rparr>"
  by (auto simp: try_claim_def Let_def split: if_splits)

lemma sound_try_claim: 
  assumes "sound d" "try_claim st now key u ep dg d = (c, d')"
  shows "sound d'"
proof -
  have u: "unique_key (\<lambda>k. (ik_key k, ik_user_id k)) (d_idem d)"
    using assms(1) by (simp add: sound_def db_ok_def)
  obtain ks where "d' = d\<lparr>d_idem := ks\<rparr>" using try_claim_frame [OF assms(2)] by blast
  with sound_idemI [OF assms(1), of ks] try_claim_unique [OF u assms(2)] show ?thesis by simp
qed

text \<open>A settled key answers with the stored response and changes nothing.\<close>

lemma settled_replays:
  assumes u: "unique_key (\<lambda>k. (ik_key k, ik_user_id k)) (d_idem (w_com w))" and i: "idle w"
    and k: "k \<in> set (d_idem (w_com w))" "claim_of key u k" "now \<le> ik_expires_at k"
      "ik_request_hash k = request_hash sha256 payload" "ik_state k = COMPLETED"
      "ik_response_status k = Some status" "status \<noteq> 0" "ik_response_body k = Some body"
  shows "begin_claim sha256 st now key u ep payload w = (Inr (Some \<lparr>rp_status_code = status, rp_body = body\<rparr>), w)"
proof -
  let ?d = "w_com w"
  have cur: "w_cur w = ?d" using i by (simp add: idle_def)
  have one: "k' = k" if "k' \<in> set (d_idem ?d)" "claim_of key u k'" for k'
    using unique_keyD [OF u that(1) k(1)] that(2) k(2) by (simp add: claim_of_def)
  have "delete_where (\<lambda>k. claim_of key u k \<and> ik_expires_at k < now) (d_idem ?d) = d_idem ?d"
    unfolding delete_where_def using one k(3) by (intro filter_True) force
  then have tc: "try_claim st now key u ep dg ?d = (False, ?d)" for dg
    using claim_unique [OF u k(1,2)] by (simp add: try_claim_def)
  have lk: "look_up_claim key u (request_hash sha256 payload) ?d = Inr \<lparr>rp_status_code = status, rp_body = body\<rparr>"
    using claim_unique [OF u k(1,2)] k by (simp add: look_up_claim_def)
  have "commit (map_cur (\<lambda>_. ?d) w) = w" using i by (simp add: commit_def map_cur_def idle_def)
  then show ?thesis
    by (simp add: begin_claim_def Let_def cur tc lk idle_def)
qed

text \<open>
  C30: what \<open>begin\<close> separates. For a key with a live claim of the account: another body is
  refused with 422, the same body while the work is running with 409, the same body once it
  is done is answered with the stored response; a key without a live claim is claimed, and
  only for that account.
\<close>

theorem begin_separates_retries:
  assumes ok: "sound (w_com w)" and i: "idle w"
    and res: "begin_claim sha256 st now key u ep payload w = (r, w')"
  shows "(\<forall>k \<in> set (d_idem (w_com w)). \<not> (claim_of key u k \<and> now \<le> ik_expires_at k)) \<and> r = Inr None \<and>
           (\<exists>k \<in> set (d_idem (w_com w')). claim_of key u k \<and> ik_state k = IN_PROGRESS \<and>
              ik_request_hash k = request_hash sha256 payload) \<or>
         (\<exists>k \<in> set (d_idem (w_com w)). claim_of key u k \<and> now \<le> ik_expires_at k \<and> w' = w \<and>
            (if ik_request_hash k \<noteq> request_hash sha256 payload
             then \<exists>e. r = Inl e \<and> is_app IdempotencyKeyReused e
             else (\<exists>e. r = Inl e \<and> is_app RequestInFlight e) \<or>
                  (ik_state k = COMPLETED \<and>
                   (\<exists>s. ik_response_status k = Some s \<and> r = Inr (Some \<lparr>rp_status_code = s,
                       rp_body = (case ik_response_body k of None \<Rightarrow> [] | Some b \<Rightarrow> b)\<rparr>)))))"
proof -
  let ?d = "w_com w"
  have cur: "w_cur w = ?d" using i by (simp add: idle_def)
  have u: "unique_key (\<lambda>k. (ik_key k, ik_user_id k)) (d_idem ?d)"
    using ok by (simp add: sound_def db_ok_def)
  let ?rows = "delete_where (\<lambda>k. claim_of key u k \<and> ik_expires_at k < now) (d_idem ?d)"
  show ?thesis
  proof (cases "select_one (claim_of key u) ?rows")
    case None
    then have "\<forall>k \<in> set (d_idem ?d). \<not> (claim_of key u k \<and> now \<le> ik_expires_at k)"
      by (auto simp: select_one_None delete_where_def)
    moreover have "r = Inr None" "\<exists>k \<in> set (d_idem (w_com w')). claim_of key u k \<and> ik_state k = IN_PROGRESS \<and>
              ik_request_hash k = request_hash sha256 payload"
      using res None by (auto simp: begin_claim_def try_claim_def Let_def cur claim_of_def)
    ultimately show ?thesis by blast
  next
    case (Some k)
    then have k: "k \<in> set (d_idem ?d)" "claim_of key u k" "now \<le> ik_expires_at k"
      using select_one_Some [OF Some] by (auto simp: delete_where_def)
    have one: "k' = k" if "k' \<in> set (d_idem ?d)" "claim_of key u k'" for k'
      using unique_keyD [OF u that(1) k(1)] that(2) k(2) by (simp add: claim_of_def)
    have same: "?rows = d_idem ?d"
      unfolding delete_where_def using one k(3) by (intro filter_True) force
    have tc: "try_claim st now key u ep dg ?d = (False, ?d)" for dg
      using claim_unique [OF u k(1,2)] by (simp add: try_claim_def same)
    have cm: "commit (map_cur (\<lambda>_. ?d) w) = w" using i by (simp add: commit_def map_cur_def idle_def)
    have "r = (case look_up_claim key u (request_hash sha256 payload) ?d of Inl e \<Rightarrow> Inl e | Inr x \<Rightarrow> Inr (Some x))"
      "w' = w"
      using res by (auto simp: begin_claim_def Let_def cur tc cm split: sum.splits)
    then show ?thesis
      using k claim_unique [OF u k(1,2)]
      by (intro disjI2 bexI [OF _ k(1)])
         (auto simp: look_up_claim_def split: idempotency_state.splits option.splits)
  qed
qed

theorem begin_separates_retries_witness:
  "fst (begin_claim (\<lambda>s. s) default_settings 0 ''key-0001'' 7 ''POST /bookings'' JNull
     \<lparr>w_com = empty_db, w_cur = empty_db, w_gw = empty_gateway, w_redis = empty_redis, w_fresh = 0\<rparr>) = Inr None"
proof -
  let ?w = "\<lparr>w_com = empty_db, w_cur = empty_db, w_gw = empty_gateway, w_redis = empty_redis, w_fresh = 0\<rparr>"
  have w: "sound (w_com ?w)" "idle ?w" by (simp_all add: idle_def)
  obtain r w' where r: "begin_claim (\<lambda>s. s) default_settings 0 ''key-0001'' 7 ''POST /bookings'' JNull ?w = (r, w')"
    by (cases "begin_claim (\<lambda>s. s) default_settings 0 ''key-0001'' 7 ''POST /bookings'' JNull ?w")
  have "d_idem (w_com ?w) = []" by (simp add: empty_db_def)
  with begin_separates_retries [OF w r] r show ?thesis by auto
qed

end
