(* ===== verification/Sky_Tokens.thy ===== *)
theory Sky_Tokens
  imports Sky_World Sky_Schemas
begin

text \<open>
  Accounts and sessions: \<^verbatim>\<open>app/security/hashing.py\<close>, \<^verbatim>\<open>app/security/tokens.py\<close>,
  \<^verbatim>\<open>app/api/auth.py\<close>, \<^verbatim>\<open>app/security/context.py\<close> and \<^verbatim>\<open>app/deps.py\<close>. Hashing and signing are
  done by libraries; the record \<open>crypto\<close> holds them as parameters: Argon2's hash (with the
  salt it draws) and verification (an exception counts as False), SHA-256, and the encoding
  and decoding of JSON web tokens, the latter with the clock it compares \<open>exp\<close> to.
\<close>

record claims =
  cl_sub :: "string option"
  cl_email :: "string option"
  cl_scopes :: "string list"
  cl_typ :: "string option"
  cl_jti :: string
  cl_iat :: int
  cl_exp :: int
  cl_iss :: string
  cl_aud :: string

datatype jwt_error = ExpiredSignatureError | InvalidTokenError

record crypto =
  cr_hash :: "string \<Rightarrow> string \<Rightarrow> string"
  cr_verify :: "string \<Rightarrow> string \<Rightarrow> bool"
  cr_sha256 :: "string \<Rightarrow> string"
  cr_encode :: "claims \<Rightarrow> string"
  cr_decode :: "time \<Rightarrow> string \<Rightarrow> jwt_error + claims"

subsection \<open>Hashing\<close>

definition hash_password :: "crypto \<Rightarrow> string \<Rightarrow> string \<Rightarrow> string" where
  "hash_password cr salt password = cr_hash cr salt password"

text \<open>No such user: the dummy hash is verified for its cost and the answer is False.\<close>

definition verify_password :: "crypto \<Rightarrow> string \<Rightarrow> string option \<Rightarrow> bool" where
  "verify_password cr password password_hash =
     (case password_hash of None \<Rightarrow> False | Some h \<Rightarrow> cr_verify cr h password)"

definition normalize_email :: "string \<Rightarrow> string" where
  "normalize_email email = lower (strip email)"

definition sha256_hex :: "crypto \<Rightarrow> string \<Rightarrow> string" where
  "sha256_hex cr v = cr_sha256 cr v"

text \<open>\<open>hmac\<close> is HMAC-SHA256 in hexadecimal with the server's secret.\<close>

definition card_fingerprint :: "(string \<Rightarrow> string) \<Rightarrow> string \<Rightarrow> string" where
  "card_fingerprint hmac card_token = take 32 (hmac card_token)"

subsection \<open>Access tokens\<close>

definition access_claims :: "settings \<Rightarrow> time \<Rightarrow> uuid \<Rightarrow> user \<Rightarrow> claims" where
  "access_claims st now jti u =
     \<lparr>cl_sub = Some (uuid_str (u_id u)), cl_email = Some (u_email u),
      cl_scopes = (if u_is_admin u then [''admin''] else [''user'']), cl_typ = Some ''access'',
      cl_jti = uuid_str jti, cl_iat = now div 1000000,
      cl_exp = (now + seconds (access_token_ttl_seconds st)) div 1000000,
      cl_iss = ''skylock'', cl_aud = ''skylock-api''\<rparr>"

definition create_access_token :: "crypto \<Rightarrow> settings \<Rightarrow> time \<Rightarrow> uuid \<Rightarrow> user \<Rightarrow> string \<times> int" where
  "create_access_token cr st now jti u =
     (cr_encode cr (access_claims st now jti u), access_token_ttl_seconds st)"

definition decode_access_token :: "crypto \<Rightarrow> time \<Rightarrow> string \<Rightarrow> exn + claims" where
  "decode_access_token cr now token =
     (case cr_decode cr now token of
        Inl ExpiredSignatureError \<Rightarrow> Inl (raise_app InvalidToken ''Access token has expired'')
      | Inl InvalidTokenError \<Rightarrow> Inl (raise_app InvalidToken ''Access token is not valid'')
      | Inr c \<Rightarrow> if cl_typ c \<noteq> Some ''access'' then Inl (raise_app InvalidToken ''Wrong token type'')
                 else Inr c)"

subsection \<open>Refresh tokens\<close>

definition new_refresh_token ::
  "crypto \<Rightarrow> settings \<Rightarrow> time \<Rightarrow> uuid \<Rightarrow> uuid \<Rightarrow> string \<Rightarrow> uuid \<Rightarrow> request option \<Rightarrow> uuid option \<Rightarrow> refresh_token" where
  "new_refresh_token cr st now i family raw user_id rq parent =
     \<lparr>rt_id = i, rt_family_id = family, rt_user_id = user_id, rt_token_hash = sha256_hex cr raw,
      rt_parent_id = parent, rt_issued_at = now, rt_used_at = None, rt_revoked_at = None,
      rt_revoked_reason = None, rt_expires_at = now + seconds (refresh_token_ttl_seconds st),
      rt_user_agent = (case rq of None \<Rightarrow> None | Some r \<Rightarrow> or_none (take 400 (rq_user_agent r))),
      rt_ip = client_ip rq\<rparr>"

text \<open>\<open>fresh\<close> is the id of the row; without a family, \<open>fresh + 1\<close> starts a new one.\<close>

definition issue_refresh_token ::
  "crypto \<Rightarrow> settings \<Rightarrow> time \<Rightarrow> uuid \<Rightarrow> string \<Rightarrow> uuid \<Rightarrow> request option \<Rightarrow> uuid option \<Rightarrow> uuid option \<Rightarrow> db \<Rightarrow>
   exn + db" where
  "issue_refresh_token cr st now fresh raw user_id rq family parent d =
     insert_token (new_refresh_token cr st now fresh (case family of None \<Rightarrow> Suc fresh | Some f \<Rightarrow> f)
                     raw user_id rq parent) d"

definition in_family :: "uuid \<Rightarrow> refresh_token \<Rightarrow> bool" where
  "in_family f r = (rt_family_id r = f \<and> rt_revoked_at r = None)"

definition revoke :: "time \<Rightarrow> string \<Rightarrow> refresh_token \<Rightarrow> refresh_token" where
  "revoke now reason r = r\<lparr>rt_revoked_at := Some now, rt_revoked_reason := Some reason\<rparr>"

definition revoke_family :: "time \<Rightarrow> uuid \<Rightarrow> string \<Rightarrow> db \<Rightarrow> nat \<times> db" where
  "revoke_family now f reason d =
     (count_where (in_family f) (d_tokens d),
      d\<lparr>d_tokens := update_where (in_family f) (revoke now reason) (d_tokens d)\<rparr>)"

definition token_row :: "crypto \<Rightarrow> string \<Rightarrow> db \<Rightarrow> refresh_token option" where
  "token_row cr raw d = select_one (\<lambda>r. rt_token_hash r = sha256_hex cr raw) (d_tokens d)"

definition refresh_rejected :: "time \<Rightarrow> request option \<Rightarrow> severity \<Rightarrow> uuid option \<Rightarrow> json \<Rightarrow> world \<Rightarrow> world" where
  "refresh_rejected now rq sv actor detail w =
     record_security_event_bg now rq SE_REFRESH_REJECTED sv
       (no_args\<lparr>ev_actor_user_id := actor, ev_detail := detail\<rparr>) w"

text \<open>The branch of a token presented twice: its own commit, then the error.\<close>

definition reuse_detected :: "time \<Rightarrow> request option \<Rightarrow> refresh_token \<Rightarrow> world \<Rightarrow> exn \<times> world" where
  "reuse_detected now rq row w =
     (case revoke_family now (rt_family_id row) ''reuse_detected'' (w_cur w) of
        (revoked, d) \<Rightarrow>
          (raise_app TokenReuseDetected
             (''This refresh token was already used. For your safety, all sessions in this family have been revoked '' @
              em_dash @ '' please sign in again.''),
           commit (record_security_event now rq SE_REFRESH_REUSE_DETECTED SV_HIGH
             (no_args\<lparr>ev_actor_user_id := Some (rt_user_id row), ev_resource_type := Some ''refresh_family'',
                ev_resource_id := Some (uuid_str (rt_family_id row)), ev_decision := Some ''revoke_family'',
                ev_detail := JObj
                  [(''family_id'', JUuid (rt_family_id row)), (''tokens_revoked'', JInt (int revoked)),
                   (''originally_used_at'', (case rt_used_at row of None \<Rightarrow> JNull | Some t \<Rightarrow> JTime t)),
                   (''note'', JStr ''token presented a second time; family revoked'')]\<rparr>)
             (map_cur (\<lambda>_. d) w))))"

definition find_user :: "uuid \<Rightarrow> db \<Rightarrow> user option" where
  "find_user i d = select_one (\<lambda>u. u_id u = i) (d_users d)"

text \<open>The exchange itself: mark the parent used, insert the child, log; the caller commits.\<close>

definition exchange ::
  "crypto \<Rightarrow> settings \<Rightarrow> time \<Rightarrow> uuid \<Rightarrow> string \<Rightarrow> request option \<Rightarrow> refresh_token \<Rightarrow> uuid \<Rightarrow> db \<Rightarrow> exn + db" where
  "exchange cr st now fresh new_raw rq row user_id d =
     (let d1 = d\<lparr>d_tokens := update_where (\<lambda>r. rt_id r = rt_id row)
                    (\<lambda>r. r\<lparr>rt_used_at := Some now\<rparr>) (d_tokens d)\<rparr>
      in case issue_refresh_token cr st now fresh new_raw user_id rq (Some (rt_family_id row)) (Some (rt_id row)) d1 of
           Inl e \<Rightarrow> Inl e
         | Inr d2 \<Rightarrow>
             Inr (add_event now rq SE_REFRESH_ROTATED SV_INFO
               (no_args\<lparr>ev_actor_user_id := Some user_id, ev_resource_type := Some ''refresh_family'',
                  ev_resource_id := Some (uuid_str (rt_family_id row)),
                  ev_detail := JObj [(''family_id'', JUuid (rt_family_id row))]\<rparr>) d2))"

definition rotate_refresh_token ::
  "crypto \<Rightarrow> settings \<Rightarrow> time \<Rightarrow> string \<Rightarrow> request option \<Rightarrow> string \<Rightarrow> world \<Rightarrow> (exn + user) \<times> world" where
  "rotate_refresh_token cr st now new_raw rq raw w =
     (case token_row cr raw (w_cur w) of
        None \<Rightarrow> (Inl (raise_app InvalidToken ''Refresh token is not valid''),
                 refresh_rejected now rq SV_MEDIUM None (JObj [(''reason'', JStr ''unknown_token'')]) w)
      | Some row \<Rightarrow>
          if rt_revoked_at row \<noteq> None
          then (Inl (raise_app InvalidToken ''Refresh token has been revoked''),
                refresh_rejected now rq SV_MEDIUM (Some (rt_user_id row))
                  (JObj [(''reason'', JStr ''revoked''),
                         (''revoked_reason'', (case rt_revoked_reason row of None \<Rightarrow> JNull | Some s \<Rightarrow> JStr s))]) w)
          else if rt_used_at row \<noteq> None
          then (case reuse_detected now rq row w of (e, w') \<Rightarrow> (Inl e, w'))
          else if rt_expires_at row \<le> now
          then (Inl (raise_app InvalidToken ''Refresh token has expired''),
                refresh_rejected now rq SV_LOW (Some (rt_user_id row)) (JObj [(''reason'', JStr ''expired'')]) w)
          else
            (case find_user (rt_user_id row) (w_cur w) of
               None \<Rightarrow> (Inl (raise_app InvalidToken ''Account is not active''), w)
             | Some u \<Rightarrow>
                 if \<not> u_is_active u then (Inl (raise_app InvalidToken ''Account is not active''), w)
                 else
                   (case exchange cr st now (w_fresh w) new_raw rq row (u_id u) (w_cur w) of
                      Inl e \<Rightarrow> (Inl e, w)
                    | Inr d \<Rightarrow> (Inr u, map_cur (\<lambda>_. d) (w\<lparr>w_fresh := Suc (w_fresh w)\<rparr>)))))"

subsection \<open>The routes under \<open>/auth\<close>\<close>

record token_response =
  tr_access_token :: string
  tr_refresh_token :: string
  tr_token_type :: string
  tr_expires_in :: int

definition token_response_of :: "string \<times> int \<Rightarrow> string \<Rightarrow> token_response" where
  "token_response_of access refresh =
     \<lparr>tr_access_token = fst access, tr_refresh_token = refresh, tr_token_type = ''bearer'',
      tr_expires_in = snd access\<rparr>"

definition register_step ::
  "crypto \<Rightarrow> settings \<Rightarrow> time \<Rightarrow> uuid \<Rightarrow> string \<Rightarrow> string \<Rightarrow> request option \<Rightarrow> register_request \<Rightarrow> db \<Rightarrow>
   exn + (user \<times> db)" where
  "register_step cr st now fresh salt raw rq payload d =
     (let email = normalize_email (rr_email payload);
          u = \<lparr>u_id = fresh, u_email = email, u_password_hash = hash_password cr salt (rr_password payload),
               u_full_name = rr_full_name payload, u_is_admin = False, u_is_active = True,
               u_failed_login_count = 0, u_locked_until = None, u_created_at = now\<rparr>
      in case insert_user u d of
           Inl e \<Rightarrow> Inl (raise_app EmailAlreadyRegistered ''An account with this email already exists'')
         | Inr d1 \<Rightarrow>
             (case issue_refresh_token cr st now (Suc fresh) raw fresh rq None None d1 of
                Inl e \<Rightarrow> Inl e
              | Inr d2 \<Rightarrow>
                  Inr (u, add_event now rq SE_REGISTERED SV_INFO
                            (no_args\<lparr>ev_actor_user_id := Some fresh, ev_actor_email := Some email\<rparr>) d2)))"

definition register ::
  "crypto \<Rightarrow> settings \<Rightarrow> time \<Rightarrow> string \<Rightarrow> string \<Rightarrow> request option \<Rightarrow> register_request \<Rightarrow> world \<Rightarrow>
   (exn + token_response) \<times> world" where
  "register cr st now salt raw rq payload w =
     (case transact (register_step cr st now (w_fresh w) salt raw rq payload)
             (w\<lparr>w_fresh := w_fresh w + 4\<rparr>) of
        (Inl e, w') \<Rightarrow> (Inl e, w')
      | (Inr u, w') \<Rightarrow>
          (Inr (token_response_of (create_access_token cr st now (w_fresh w + 3) u) raw), w'))"

definition set_user :: "user \<Rightarrow> db \<Rightarrow> db" where
  "set_user u d = d\<lparr>d_users := update_where (\<lambda>r. u_id r = u_id u)
     (\<lambda>r. r\<lparr>u_failed_login_count := u_failed_login_count u, u_locked_until := u_locked_until u\<rparr>) (d_users d)\<rparr>"

text \<open>A wrong password for an existing account.\<close>

definition fail_login :: "settings \<Rightarrow> time \<Rightarrow> user \<Rightarrow> user" where
  "fail_login st now u =
     (let n = u_failed_login_count u + 1 in
      if n \<ge> login_max_failures st
      then u\<lparr>u_failed_login_count := 0, u_locked_until := Some (now + seconds (login_lockout_seconds st))\<rparr>
      else u\<lparr>u_failed_login_count := n\<rparr>)"

definition is_locked :: "time \<Rightarrow> user \<Rightarrow> bool" where
  "is_locked now u = (case u_locked_until u of None \<Rightarrow> False | Some t \<Rightarrow> t > now)"

definition login_event ::
  "time \<Rightarrow> request option \<Rightarrow> security_event_type \<Rightarrow> severity \<Rightarrow> uuid option \<Rightarrow> string \<Rightarrow> string option \<Rightarrow>
   (string \<times> json) list \<Rightarrow> db \<Rightarrow> db" where
  "login_event now rq et sv actor email dec detail d =
     add_event now rq et sv (no_args\<lparr>ev_actor_user_id := actor, ev_actor_email := Some email,
       ev_decision := dec, ev_detail := JObj detail\<rparr>) d"

definition login ::
  "crypto \<Rightarrow> settings \<Rightarrow> time \<Rightarrow> string \<Rightarrow> request option \<Rightarrow> login_request \<Rightarrow> world \<Rightarrow>
   (exn + token_response) \<times> world" where
  "login cr st now raw rq payload w =
     (let email = normalize_email (lr_email payload);
          found = select_one (\<lambda>u. u_email u = email) (d_users (w_cur w))
      in case found of
           Some u \<Rightarrow>
             if is_locked now u
             then (Inl (raise_app AccountLocked (''Too many failed attempts. Try again after '' @
                      show_int (the (u_locked_until u)) @ ''.'')),
                   commit (map_cur (login_event now rq SE_LOGIN_FAILED SV_MEDIUM (Some (u_id u)) email (Some ''deny'')
                     [(''reason'', JStr ''account_locked''), (''locked_until'', JTime (the (u_locked_until u)))]) w))
             else if \<not> verify_password cr (lr_password payload) (Some (u_password_hash u))
             then (let u' = fail_login st now u;
                       locked = (u_failed_login_count u + 1 \<ge> login_max_failures st)
                   in (Inl (raise_app InvalidCredentials ''Invalid email or password''),
                       commit (map_cur (\<lambda>d. login_event now rq
                           (if locked then SE_ACCOUNT_LOCKED else SE_LOGIN_FAILED)
                           (if locked then SV_HIGH else SV_LOW) (Some (u_id u)) email (Some ''deny'')
                           [(''reason'', JStr ''bad_password''), (''failed_count'', JInt (u_failed_login_count u')),
                            (''locked'', JBool locked)] (set_user u' d)) w)))
             else
               (let u' = u\<lparr>u_failed_login_count := 0, u_locked_until := None\<rparr> in
                case transact (\<lambda>d. case issue_refresh_token cr st now (w_fresh w) raw (u_id u) rq None None (set_user u' d) of
                        Inl e \<Rightarrow> Inl e
                      | Inr d' \<Rightarrow> Inr ((), login_event now rq SE_LOGIN_SUCCEEDED SV_INFO (Some (u_id u)) email None [] d'))
                      (w\<lparr>w_fresh := w_fresh w + 3\<rparr>) of
                  (Inl e, w') \<Rightarrow> (Inl e, w')
                | (Inr _, w') \<Rightarrow>
                    (Inr (token_response_of (create_access_token cr st now (w_fresh w + 2) u') raw), w'))
         | None \<Rightarrow>
             if \<not> verify_password cr (lr_password payload) None
             then (Inl (raise_app InvalidCredentials ''Invalid email or password''),
                   commit (map_cur (login_event now rq SE_LOGIN_FAILED SV_LOW None email (Some ''deny'')
                     [(''reason'', JStr ''unknown_account'')]) w))
             else (Inl (RuntimeError ''AssertionError''), w))"

definition refresh_tokens ::
  "crypto \<Rightarrow> settings \<Rightarrow> time \<Rightarrow> string \<Rightarrow> request option \<Rightarrow> string \<Rightarrow> world \<Rightarrow>
   (exn + token_response) \<times> world" where
  "refresh_tokens cr st now new_raw rq raw w =
     (case rotate_refresh_token cr st now new_raw rq raw w of
        (Inl e, w') \<Rightarrow> (Inl e, rollback w')
      | (Inr u, w') \<Rightarrow>
          (Inr (token_response_of (create_access_token cr st now (w_fresh w') u) new_raw),
           commit (w'\<lparr>w_fresh := Suc (w_fresh w')\<rparr>)))"

definition logout :: "crypto \<Rightarrow> time \<Rightarrow> string \<Rightarrow> world \<Rightarrow> world" where
  "logout cr now raw w =
     (case token_row cr raw (w_cur w) of
        None \<Rightarrow> w
      | Some row \<Rightarrow> commit (map_cur (\<lambda>d. snd (revoke_family now (rt_family_id row) ''logout'' d)) w))"

end
