(* ===== verification/Sky_Accounts.thy ===== *)
theory Sky_Accounts
  imports Sky_Tokens
begin

text \<open>
  What login, refresh and logout guarantee: the lockout after too many wrong passwords, the
  same answer for an unknown account and a wrong password, the family that dies when one of
  its tokens comes twice, and the soundness of the database under all of them.
\<close>

subsection \<open>The database stays sound\<close>

lemma sound_set_user [simp]:
  assumes "sound d"
  shows "sound (set_user u d)"
proof (rule sound_same_logs [OF assms])
  have "db_ok d" using assms by (rule soundD)
  then show "db_ok (set_user u d)"
    by (simp add: db_ok_def set_user_def table_simps)
qed (simp_all add: set_user_def)

lemma sound_tokens_update:
  assumes "sound d" "\<And>r. rt_id (f r) = rt_id r" "\<And>r. rt_token_hash (f r) = rt_token_hash r"
  shows "sound (d\<lparr>d_tokens := update_where p f (d_tokens d)\<rparr>)"
proof (rule sound_same_logs [OF assms(1)])
  have "db_ok d" using assms(1) by (rule soundD)
  then show "db_ok (d\<lparr>d_tokens := update_where p f (d_tokens d)\<rparr>)"
    using assms(2,3) by (simp add: db_ok_def table_simps)
qed simp_all

lemma sound_revoke_family: "sound d \<Longrightarrow> revoke_family now f reason d = (n, d') \<Longrightarrow> sound d'"
  by (auto simp: revoke_family_def revoke_def intro!: sound_tokens_update)

lemma sound_issue: "sound d \<Longrightarrow> issue_refresh_token cr st now n raw u rq fam par d = Inr d' \<Longrightarrow> sound d'"
  by (auto simp: issue_refresh_token_def dest: sound_inserts)

lemma sound_exchange: "sound d \<Longrightarrow> exchange cr st now n raw rq row u d = Inr d' \<Longrightarrow> sound d'"
  by (auto simp: exchange_def Let_def intro!: sound_tokens_update dest!: sound_issue [rotated] split: sum.splits)

lemma sound_register_step:
  "sound d \<Longrightarrow> register_step cr st now n salt raw rq p d = Inr (u, d') \<Longrightarrow> sound d'"
  by (auto simp: register_step_def Let_def dest!: sound_issue [rotated] dest: sound_inserts split: sum.splits)

subsection \<open>Lockout\<close>

definition account :: "string \<Rightarrow> db \<Rightarrow> user option" where
  "account email d = select_one (\<lambda>u. u_email u = email) (d_users d)"

lemma account_set_user:
  assumes "sound d" "account email d = Some u" "u_id u' = u_id u" 
  shows "account email (set_user u' d) =
     Some (u\<lparr>u_failed_login_count := u_failed_login_count u', u_locked_until := u_locked_until u'\<rparr>)"
proof -
  let ?f = "\<lambda>r. r\<lparr>u_failed_login_count := u_failed_login_count u', u_locked_until := u_locked_until u'\<rparr>"
  let ?us = "update_where (\<lambda>r. u_id r = u_id u') ?f (d_users d)"
  have u: "u \<in> set (d_users d)" "u_email u = email"
    using select_one_Some [OF assms(2) [unfolded account_def]] by auto
  have uk: "unique_key u_email ?us"
    using assms(1) by (simp add: sound_def db_ok_def table_simps)
  have "?f u \<in> set ?us"
    using u assms(3) by (force simp: set_update_where)
  from select_one_unique [OF uk this, of email] u show ?thesis
    by (simp add: account_def set_user_def)
qed

lemma account_frame [simp]: "account email (add_event now rq et sv a d) = account email d"
  by (simp add: account_def)

text \<open>One wrong password: the answer, and the row as \<open>fail_login\<close> leaves it.\<close>

lemma login_wrong:
  assumes w: "idle w" "sound (w_com w)"
    and a: "account (normalize_email (lr_email p)) (w_com w) = Some u" "\<not> is_locked now u"
    and bad: "\<not> verify_password cr (lr_password p) (Some (u_password_hash u))"
  obtains w' where "login cr st now raw rq p w = (Inl (raise_app InvalidCredentials ''Invalid email or password''), w')"
    "idle w'" "sound (w_com w')" "account (normalize_email (lr_email p)) (w_com w') = Some (fail_login st now u)"
proof -
  have cur: "w_cur w = w_com w" using w(1) by (simp add: idle_def)
  obtain w' where l: "login cr st now raw rq p w = (Inl (raise_app InvalidCredentials ''Invalid email or password''), w')"
    and i: "idle w'" and d: "\<exists>n rqq et sv ar. w_com w' = add_event n rqq et sv ar (set_user (fail_login st now u) (w_com w))"
  proof -
    note l = login_def [of cr st now raw rq p w, unfolded Let_def cur a(1) [unfolded account_def] option.case
        if_not_P [OF a(2)] if_P [OF bad]]
    show thesis
      by (rule that [OF l]) (simp_all only: idle_def login_event_def cur commit_simps map_cur_simps, (intro exI, rule refl))
  qed
  have id: "u_id (fail_login st now u) = u_id u"
    by (simp add: fail_login_def Let_def)
  have fl: "u\<lparr>u_failed_login_count := u_failed_login_count (fail_login st now u),
        u_locked_until := u_locked_until (fail_login st now u)\<rparr> = fail_login st now u"
    by (simp add: fail_login_def Let_def)
  show thesis
    by (rule that [OF l i]) (use d w(2) account_set_user [OF w(2) a(1) id] fl in auto)
qed

lemma login_locked:
  assumes w: "idle w" "account (normalize_email (lr_email p)) (w_com w) = Some u" "is_locked now u"
  obtains e w' where "login cr st now raw rq p w = (Inl e, w')" "is_app AccountLocked e"
    "d_users (w_com w') = d_users (w_com w)" "d_tokens (w_com w') = d_tokens (w_com w)"
proof -
  have cur: "w_cur w = w_com w" using w(1) by (simp add: idle_def)
  note l = login_def [of cr st now raw rq p w, unfolded Let_def cur w(2) [unfolded account_def] option.case
      if_P [OF w(3)]]
  show thesis
    by (rule that [OF l]) (simp_all add: login_event_def cur)
qed

text \<open>A run of login attempts on one account: instant, fresh token, request body.\<close>

fun attempts :: "crypto \<Rightarrow> settings \<Rightarrow> request option \<Rightarrow> (time \<times> string \<times> login_request) list \<Rightarrow> world \<Rightarrow>
    (exn + token_response) list \<times> world" where
  "attempts cr st rq [] w = ([], w)"
| "attempts cr st rq ((now, raw, p) # as) w =
     (case login cr st now raw rq p w of (r, w1) \<Rightarrow>
        (case attempts cr st rq as w1 of (rs, w2) \<Rightarrow> (r # rs, w2)))"

lemma fail_login_hash [simp]: "u_password_hash (fail_login st now u) = u_password_hash u"
  by (simp add: fail_login_def Let_def)

text \<open>
  C33: after \<open>login_max_failures\<close> wrong passwords in a row the account is locked: all of them
  get the same 401, and from then on every login for the account, with the right password
  too, is refused with 423 until the lockout has passed, and changes neither the account nor
  its sessions.
\<close>

theorem lockout_after_failures:
  assumes w: "idle w" "sound (w_com w)"
    and acc: "account email (w_com w) = Some u" "u_locked_until u = None" "0 \<le> u_failed_login_count u"
    and n: "u_failed_login_count u + int (length as) = login_max_failures st" "as \<noteq> []"
    and bad: "\<forall>(now, raw, p) \<in> set as. normalize_email (lr_email p) = email \<and>
                \<not> verify_password cr (lr_password p) (Some (u_password_hash u))"
    and run: "attempts cr st rq as w = (rs, w')"
    and later: "normalize_email (lr_email p') = email"
      "t < fst (last as) + seconds (login_lockout_seconds st)"
  shows "(\<forall>r \<in> set rs. r = Inl (raise_app InvalidCredentials ''Invalid email or password'')) \<and>
     (\<exists>e w''. login cr st t raw' rq p' w' = (Inl e, w'') \<and> is_app AccountLocked e \<and>
        d_users (w_com w'') = d_users (w_com w') \<and> d_tokens (w_com w'') = d_tokens (w_com w'))"
  using w acc n bad run later(2)
proof (induction as arbitrary: w u rs)
  case Nil
  then show ?case by simp
next
  case (Cons a as)
  obtain now raw p where a: "a = (now, raw, p)" by (cases a)
  have pe: "normalize_email (lr_email p) = email"
    and pb: "\<not> verify_password cr (lr_password p) (Some (u_password_hash u))"
    using Cons.prems(8) a by auto
  have nl: "\<not> is_locked now u" using Cons.prems(4) by (simp add: is_locked_def)
  obtain w1 where l: "login cr st now raw rq p w = (Inl (raise_app InvalidCredentials ''Invalid email or password''), w1)"
    and w1: "idle w1" "sound (w_com w1)" "account email (w_com w1) = Some (fail_login st now u)"
    using login_wrong [OF Cons.prems(1,2) _ nl pb] Cons.prems(3) pe by metis
  obtain rs1 where rs1: "attempts cr st rq as w1 = (rs1, w')"
      "rs = Inl (raise_app InvalidCredentials ''Invalid email or password'') # rs1"
    using Cons.prems(9) l a by (auto split: prod.splits)
  show ?case
  proof (cases as)
    case Nil
    then have w': "w' = w1" "rs1 = []" using rs1(1) by auto
    have "u_locked_until (fail_login st now u) = Some (now + seconds (login_lockout_seconds st))"
      using Cons.prems(6) Nil by (simp add: fail_login_def Let_def)
    then have lk: "is_locked t (fail_login st now u)"
      using Cons.prems(10) Nil a by (simp add: is_locked_def)
    obtain e w'' where "login cr st t raw' rq p' w1 = (Inl e, w'')" "is_app AccountLocked e"
      "d_users (w_com w'') = d_users (w_com w1)" "d_tokens (w_com w'') = d_tokens (w_com w1)"
      using login_locked [OF w1(1) _ lk] w1(3) later(1) by metis
    then show ?thesis using w' rs1(2) by auto
  next
    case (Cons b bs)
    have f: "fail_login st now u = u\<lparr>u_failed_login_count := u_failed_login_count u + 1\<rparr>"
      using Cons.prems(6) Cons by (simp add: fail_login_def Let_def)
    have "(\<forall>r \<in> set rs1. r = Inl (raise_app InvalidCredentials ''Invalid email or password'')) \<and>
     (\<exists>e w''. login cr st t raw' rq p' w' = (Inl e, w'') \<and> is_app AccountLocked e \<and>
        d_users (w_com w'') = d_users (w_com w') \<and> d_tokens (w_com w'') = d_tokens (w_com w'))"
      by (rule Cons.IH [OF w1(1,2,3) _ _ _ _ _ rs1(1)])
         (use Cons.prems f Cons in auto)
    then show ?thesis using rs1(2) by auto
  qed
qed

definition demo_crypto :: crypto where
  "demo_crypto = \<lparr>cr_hash = (\<lambda>salt p. salt @ p), cr_verify = (\<lambda>h p. h = p), cr_sha256 = (\<lambda>s. s),
     cr_encode = (\<lambda>c. case cl_sub c of None \<Rightarrow> [] | Some s \<Rightarrow> s), cr_decode = (\<lambda>t s. Inl InvalidTokenError)\<rparr>"

definition demo_user :: user where
  "demo_user = \<lparr>u_id = 7, u_email = ''ada@example.org'', u_password_hash = ''correct horse'', u_full_name = None,
     u_is_admin = False, u_is_active = True, u_failed_login_count = 0, u_locked_until = None, u_created_at = 0\<rparr>"

definition account_world :: "refresh_token list \<Rightarrow> world" where
  "account_world ts = (let d = empty_db\<lparr>d_users := [demo_user], d_tokens := ts\<rparr> in
     \<lparr>w_com = d, w_cur = d, w_gw = empty_gateway, w_redis = empty_redis, w_fresh = 50\<rparr>)"

lemma account_world_facts:
  "idle (account_world ts)" "unique_key rt_id ts \<Longrightarrow> unique_key rt_token_hash ts \<Longrightarrow> sound (w_com (account_world ts))"
  "account ''ada@example.org'' (w_com (account_world ts)) = Some demo_user"
  "d_tokens (w_com (account_world ts)) = ts"
proof -
  show "idle (account_world ts)" by (simp add: account_world_def idle_def Let_def)
  show "sound (w_com (account_world ts))" if "unique_key rt_id ts" "unique_key rt_token_hash ts"
  proof (rule sound_same_logs [OF empty_sound])
    show "db_ok (w_com (account_world ts))"
      using that by (simp add: account_world_def Let_def db_ok_def empty_db_def seats_ok_def tickets_ok_def
          audit_ok_def unique_key_def)
  qed (simp_all add: account_world_def Let_def)
  show "account ''ada@example.org'' (w_com (account_world ts)) = Some demo_user"
    "d_tokens (w_com (account_world ts)) = ts"
    by (simp_all add: account_world_def Let_def account_def select_one_def demo_user_def)
qed

lemma ada_email: "normalize_email ''ada@example.org'' = ''ada@example.org''"
  by code_simp

theorem lockout_after_failures_witness:
  "\<exists>e w''. login demo_crypto default_settings 100 ''r'' None \<lparr>lr_email = ''ada@example.org'', lr_password = ''correct horse''\<rparr>
      (snd (attempts demo_crypto default_settings None
         (replicate 5 (1, ''r'', \<lparr>lr_email = ''ada@example.org'', lr_password = ''wrong''\<rparr>)) (account_world []))) = (Inl e, w'') \<and>
     is_app AccountLocked e"
proof -
  let ?p = "\<lparr>lr_email = ''ada@example.org'', lr_password = ''wrong''\<rparr>"
  let ?as = "replicate 5 (1 :: time, ''r'', ?p)"
  let ?w = "account_world []"
  obtain rs w' where r: "attempts demo_crypto default_settings None ?as ?w = (rs, w')"
    by (cases "attempts demo_crypto default_settings None ?as ?w")
  have u: "u_locked_until demo_user = None" "0 \<le> u_failed_login_count demo_user"
    "u_failed_login_count demo_user + int (length ?as) = login_max_failures default_settings"
    by (simp_all add: demo_user_def default_settings_def)
  have ne: "?as \<noteq> []" by simp
  have bad: "\<forall>(now, raw, p) \<in> set ?as. normalize_email (lr_email p) = ''ada@example.org'' \<and>
      \<not> verify_password demo_crypto (lr_password p) (Some (u_password_hash demo_user))"
    by (simp add: ada_email verify_password_def demo_crypto_def demo_user_def)
  have lt: "100 < fst (last ?as) + seconds (login_lockout_seconds default_settings)"
    by (simp add: seconds_def default_settings_def)
  have s: "sound (w_com ?w)" by (rule account_world_facts(2)) (simp_all add: unique_key_def)
  have e: "normalize_email (lr_email \<lparr>lr_email = ''ada@example.org'', lr_password = ''correct horse''\<rparr>) = ''ada@example.org''"
    by (simp add: ada_email)
  show ?thesis
    using lockout_after_failures [OF account_world_facts(1) s account_world_facts(3) u ne bad r e lt, of "''r''"] r
    by auto
qed

subsection \<open>No oracle for accounts\<close>

text \<open>
  An unknown email and a wrong password get the very same answer, so the login route
  does not tell which addresses have an account.
\<close>

theorem login_is_no_account_oracle:
  assumes "account (normalize_email (lr_email p)) (w_cur w) = None"
    and "account (normalize_email (lr_email q)) (w_cur w') = Some u" "\<not> is_locked now' u"
    and "\<not> verify_password cr (lr_password q) (Some (u_password_hash u))"
  shows "fst (login cr st now raw rq p w) = fst (login cr st now' raw' rq' q w')"
proof -
  have "fst (login cr st now raw rq p w) = Inl (raise_app InvalidCredentials ''Invalid email or password'')"
    using assms(1) by (simp add: login_def Let_def account_def verify_password_def)
  moreover have "fst (login cr st now' raw' rq' q w') = Inl (raise_app InvalidCredentials ''Invalid email or password'')"
    using assms(2-4) by (simp add: login_def Let_def account_def)
  ultimately show ?thesis by simp
qed

theorem login_is_no_account_oracle_witness:
  "fst (login demo_crypto default_settings 1 ''r'' None \<lparr>lr_email = ''bob@example.org'', lr_password = ''x''\<rparr> (account_world [])) =
   fst (login demo_crypto default_settings 2 ''r'' None \<lparr>lr_email = ''ada@example.org'', lr_password = ''x''\<rparr> (account_world []))"
proof (rule login_is_no_account_oracle [where u = demo_user])
  have "normalize_email ''bob@example.org'' = ''bob@example.org''" by code_simp
  then show "account (normalize_email (lr_email \<lparr>lr_email = ''bob@example.org'', lr_password = ''x''\<rparr>))
      (w_cur (account_world [])) = None"
    by (simp add: account_world_def Let_def account_def select_one_def demo_user_def)
  show "account (normalize_email (lr_email \<lparr>lr_email = ''ada@example.org'', lr_password = ''x''\<rparr>))
      (w_cur (account_world [])) = Some demo_user"
    using account_world_facts(1,3) [of "[]"] by (simp add: ada_email idle_def)
  show "\<not> is_locked 2 demo_user" by (simp add: is_locked_def demo_user_def)
  show "\<not> verify_password demo_crypto (lr_password \<lparr>lr_email = ''ada@example.org'', lr_password = ''x''\<rparr>)
      (Some (u_password_hash demo_user))"
    by (simp add: verify_password_def demo_crypto_def demo_user_def)
qed

subsection \<open>Refresh families\<close>

lemma token_row_unique:
  assumes "sound d" "t \<in> set (d_tokens d)" "rt_token_hash t = sha256_hex cr raw"
  shows "token_row cr raw d = Some t"
  using select_one_unique [of rt_token_hash "d_tokens d" t "sha256_hex cr raw"] assms
  by (simp add: token_row_def sound_def db_ok_def)

lemma token_row_in:
  assumes "token_row cr raw d = Some t"
  shows "t \<in> set (d_tokens d)" "rt_token_hash t = sha256_hex cr raw"
  using select_one_Some [OF assms [unfolded token_row_def]] by auto

lemma revoke_family_all:
  assumes "revoke_family now f reason d = (n, d')"
  shows "\<forall>t \<in> set (d_tokens d'). rt_family_id t = f \<longrightarrow> rt_revoked_at t \<noteq> None"
    "\<forall>t \<in> set (d_tokens d). rt_family_id t \<noteq> f \<longrightarrow> t \<in> set (d_tokens d')"
    "map rt_token_hash (d_tokens d') = map rt_token_hash (d_tokens d)"
    "map rt_family_id (d_tokens d') = map rt_family_id (d_tokens d)"
proof -
  let ?ts = "update_where (in_family f) (revoke now reason) (d_tokens d)"
  have d': "d_tokens d' = ?ts" using assms by (auto simp: revoke_family_def)
  show "\<forall>t \<in> set (d_tokens d'). rt_family_id t = f \<longrightarrow> rt_revoked_at t \<noteq> None"
    unfolding d' by (auto elim!: in_update_whereE simp: in_family_def revoke_def)
  show "\<forall>t \<in> set (d_tokens d). rt_family_id t \<noteq> f \<longrightarrow> t \<in> set (d_tokens d')"
    unfolding d' by (auto simp: set_update_where in_family_def)
  show "map rt_token_hash (d_tokens d') = map rt_token_hash (d_tokens d)"
    "map rt_family_id (d_tokens d') = map rt_family_id (d_tokens d)"
    unfolding d' by (simp_all add: map_key_update_where revoke_def)
qed

lemma refresh_revoked:
  assumes "idle w" "token_row cr raw (w_com w) = Some t" "rt_revoked_at t \<noteq> None"
  obtains w' where "refresh_tokens cr st now new rq raw w = (Inl (raise_app InvalidToken ''Refresh token has been revoked''), w')"
    "d_tokens (w_com w') = d_tokens (w_com w)"
proof -
  have "w_cur w = w_com w" using assms(1) by (simp add: idle_def)
  then show thesis
    using assms(2,3) that by (simp add: refresh_tokens_def rotate_refresh_token_def refresh_rejected_def)
qed

lemma refresh_reused:
  assumes i: "idle w" and t: "token_row cr raw (w_com w) = Some row" "rt_revoked_at row = None" "rt_used_at row \<noteq> None"
  obtains e n d w' where "refresh_tokens cr st now new rq raw w = (Inl e, w')" "is_app TokenReuseDetected e"
    "revoke_family now (rt_family_id row) ''reuse_detected'' (w_com w) = (n, d)"
    "d_tokens (w_com w') = d_tokens d" "idle w'"
proof -
  have cur: "w_cur w = w_com w" using i by (simp add: idle_def)
  obtain n d where rf: "revoke_family now (rt_family_id row) ''reuse_detected'' (w_com w) = (n, d)"
    by (cases "revoke_family now (rt_family_id row) ''reuse_detected'' (w_com w)")
  obtain e w' where rd: "reuse_detected now rq row w = (e, w')" by (cases "reuse_detected now rq row w")
  have e: "is_app TokenReuseDetected e" "w_com w' = w_cur w'" "d_tokens (w_com w') = d_tokens d"
    using rd rf by (auto simp: reuse_detected_def cur record_security_event_def)
  have "refresh_tokens cr st now new rq raw w = (Inl e, rollback w')"
    using t rd by (simp add: refresh_tokens_def rotate_refresh_token_def cur)
  then show thesis using that [of e "rollback w'" n d] e rf by (simp add: idle_def)
qed

text \<open>
  C22: a refresh token that comes a second time ends its family. Every token of the family is
  revoked, no token of another family is touched, and each member of the family, the newest
  included, is refused from then on.
\<close>

theorem reuse_revokes_family:
  assumes w: "idle w" "sound (w_com w)"
    and row: "token_row cr raw (w_com w) = Some row" "rt_revoked_at row = None" "rt_used_at row \<noteq> None"
    and res: "refresh_tokens cr st now new rq raw w = (r, w')"
  shows "(\<exists>e. r = Inl e \<and> is_app TokenReuseDetected e) \<and>
     (\<forall>t \<in> set (d_tokens (w_com w')). rt_family_id t = rt_family_id row \<longrightarrow> rt_revoked_at t \<noteq> None) \<and>
     (\<forall>t \<in> set (d_tokens (w_com w)). rt_family_id t \<noteq> rt_family_id row \<longrightarrow> t \<in> set (d_tokens (w_com w'))) \<and>
     (\<forall>raw2 t. token_row cr raw2 (w_com w') = Some t \<longrightarrow> rt_family_id t = rt_family_id row \<longrightarrow>
        (\<exists>e. fst (refresh_tokens cr st now2 new2 rq2 raw2 w') = Inl e \<and> is_app InvalidToken e))"
proof -
  obtain e n d where e: "r = Inl e" "is_app TokenReuseDetected e"
    "revoke_family now (rt_family_id row) ''reuse_detected'' (w_com w) = (n, d)"
    "d_tokens (w_com w') = d_tokens d" "idle w'"
    using refresh_reused [OF w(1) row, of st now new rq] res by (metis prod.inject)
  note R = revoke_family_all [OF e(3)]
  have "\<exists>e. fst (refresh_tokens cr st now2 new2 rq2 raw2 w') = Inl e \<and> is_app InvalidToken e"
    if "token_row cr raw2 (w_com w') = Some t" "rt_family_id t = rt_family_id row" for raw2 t
  proof -
    have "rt_revoked_at t \<noteq> None"
      using R(1) token_row_in(1) [OF that(1)] that(2) e(4) by simp
    from refresh_revoked [OF e(5) that(1) this, of st now2 new2 rq2] show ?thesis
      by (metis fst_conv is_app_raise_app)
  qed
  with e R(1,2) show ?thesis by auto
qed

text \<open>A row for the witnesses: family 30 of user 7, already exchanged once.\<close>

definition demo_token :: "uuid \<Rightarrow> string \<Rightarrow> time option \<Rightarrow> refresh_token" where
  "demo_token i raw used = \<lparr>rt_id = i, rt_family_id = 30, rt_user_id = 7, rt_token_hash = raw, rt_parent_id = None,
     rt_issued_at = 0, rt_used_at = used, rt_revoked_at = None, rt_revoked_reason = None, rt_expires_at = 1000000,
     rt_user_agent = None, rt_ip = None\<rparr>"

theorem reuse_revokes_family_witness:
  "\<exists>e. fst (refresh_tokens demo_crypto default_settings 6 ''n2'' None ''child''
     (snd (refresh_tokens demo_crypto default_settings 5 ''n1'' None ''old''
        (account_world [demo_token 1 ''old'' (Some 3), demo_token 2 ''child'' None])))) = Inl e \<and> is_app InvalidToken e"
proof -
  let ?w = "account_world [demo_token 1 ''old'' (Some 3), demo_token 2 ''child'' None]"
  have s: "sound (w_com ?w)"
    by (rule account_world_facts(2)) (simp_all add: unique_key_def demo_token_def)
  have row: "token_row demo_crypto ''old'' (w_com ?w) = Some (demo_token 1 ''old'' (Some 3))"
    by (simp add: token_row_def account_world_facts(4) select_one_def demo_token_def sha256_hex_def demo_crypto_def)
  have f: "rt_revoked_at (demo_token 1 ''old'' (Some 3)) = None" "rt_used_at (demo_token 1 ''old'' (Some 3)) \<noteq> None"
    by (simp_all add: demo_token_def)
  obtain r w' where r: "refresh_tokens demo_crypto default_settings 5 ''n1'' None ''old'' ?w = (r, w')"
    by (cases "refresh_tokens demo_crypto default_settings 5 ''n1'' None ''old'' ?w")
  have child: "\<exists>t. token_row demo_crypto ''child'' (w_com w') = Some t \<and> rt_family_id t = 30"
  proof -
    have "d_tokens (w_com w') =
        map (revoke 5 ''reuse_detected'') [demo_token 1 ''old'' (Some 3), demo_token 2 ''child'' None]"
      using r row f account_world_facts(1,4) [of "[demo_token 1 ''old'' (Some 3), demo_token 2 ''child'' None]"]
      by (auto simp: refresh_tokens_def rotate_refresh_token_def reuse_detected_def idle_def revoke_family_def
          record_security_event_def update_where_def in_family_def demo_token_def)
    then show ?thesis
      by (simp add: token_row_def select_one_def revoke_def demo_token_def sha256_hex_def demo_crypto_def)
  qed
  have fam: "rt_family_id (demo_token 1 ''old'' (Some 3)) = 30" by (simp add: demo_token_def)
  show ?thesis
    using reuse_revokes_family [OF account_world_facts(1) s row f r, of 6 "''n2''" None] child r fam by auto
qed

text \<open>
  The exchange re-reads nothing. Of two requests that both read an unused token before
  either commits, the second succeeds like the first: the token is exchanged twice, reuse is
  not detected, and two live children of one parent exist.
\<close>

theorem concurrent_exchange_both_succeed:
  assumes ok: "sound d" and row: "row \<in> set (d_tokens d)"
    and one: "exchange cr st now1 n1 raw1 rq1 row u d = Inr d1"
    and fresh: "n2 \<notin> rt_id ` set (d_tokens d1)" "sha256_hex cr raw2 \<notin> rt_token_hash ` set (d_tokens d1)"
  shows "\<exists>d2. exchange cr st now2 n2 raw2 rq2 row u d1 = Inr d2 \<and>
     (\<exists>c1 c2. c1 \<in> set (d_tokens d2) \<and> c2 \<in> set (d_tokens d2) \<and> rt_id c1 \<noteq> rt_id c2 \<and>
        rt_parent_id c1 = Some (rt_id row) \<and> rt_parent_id c2 = Some (rt_id row) \<and>
        rt_used_at c1 = None \<and> rt_used_at c2 = None \<and> rt_revoked_at c1 = None \<and> rt_revoked_at c2 = None)"
proof -
  let ?c1 = "new_refresh_token cr st now1 n1 (rt_family_id row) raw1 u rq1 (Some (rt_id row))"
  let ?c2 = "new_refresh_token cr st now2 n2 (rt_family_id row) raw2 u rq2 (Some (rt_id row))"
  let ?m1 = "update_where (\<lambda>r. rt_id r = rt_id row) (\<lambda>r. r\<lparr>rt_used_at := Some now1\<rparr>) (d_tokens d)"
  let ?m2 = "update_where (\<lambda>r. rt_id r = rt_id row) (\<lambda>r. r\<lparr>rt_used_at := Some now2\<rparr>) (d_tokens d1)"
  have ids1: "map rt_id ?m1 = map rt_id (d_tokens d)" by (simp add: map_key_update_where)
  have ids2: "map rt_id ?m2 = map rt_id (d_tokens d1)" "map rt_token_hash ?m2 = map rt_token_hash (d_tokens d1)"
    by (simp_all add: map_key_update_where)
  have d1: "d_tokens d1 = ?m1 @ [?c1]" and n1: "n1 \<notin> rt_id ` set ?m1"
    using one by (auto simp: exchange_def Let_def issue_refresh_token_def insert_token_def new_refresh_token_def
        split: if_splits sum.splits)
  have "rt_id row \<in> set (map rt_id ?m1)" unfolding ids1 using row by simp
  then have neq: "n1 \<noteq> rt_id row" using n1 by auto
  have "n2 \<notin> set (map rt_id ?m2)" "sha256_hex cr raw2 \<notin> set (map rt_token_hash ?m2)"
    unfolding ids2 using fresh by auto
  then have ins: "insert_token ?c2 (d1\<lparr>d_tokens := ?m2\<rparr>) = Inr (d1\<lparr>d_tokens := ?m2 @ [?c2]\<rparr>)"
    by (auto simp: insert_token_def new_refresh_token_def)
  obtain d2 where d2: "exchange cr st now2 n2 raw2 rq2 row u d1 = Inr d2" "d_tokens d2 = ?m2 @ [?c2]"
    using ins by (simp add: exchange_def Let_def issue_refresh_token_def)
  have "?c1 \<in> set ?m2"
  proof (rule set_mp [OF _ _])
    show "set [?c1] \<subseteq> set ?m2"
      using neq by (auto simp: set_update_where d1 new_refresh_token_def)
    show "?c1 \<in> set [?c1]" by simp
  qed
  moreover have "n1 \<noteq> n2" using fresh(1) d1 by (auto simp: new_refresh_token_def)
  ultimately show ?thesis
    using d2 by (intro exI [of _ d2] conjI exI [of _ ?c1] exI [of _ ?c2]) (auto simp: new_refresh_token_def)
qed

theorem concurrent_exchange_both_succeed_witness:
  "\<exists>d1 d2. exchange demo_crypto default_settings 4 100 ''n1'' None (demo_token 1 ''old'' None) 7
       (w_com (account_world [demo_token 1 ''old'' None])) = Inr d1 \<and>
     exchange demo_crypto default_settings 5 101 ''n2'' None (demo_token 1 ''old'' None) 7 d1 = Inr d2"
proof -
  let ?d = "w_com (account_world [demo_token 1 ''old'' None])"
  have s: "sound ?d"
    by (rule account_world_facts(2)) (simp_all add: unique_key_def demo_token_def)
  have t: "demo_token 1 ''old'' None \<in> set (d_tokens ?d)" by (simp add: account_world_facts(4))
  obtain d1 where d1: "exchange demo_crypto default_settings 4 100 ''n1'' None (demo_token 1 ''old'' None) 7 ?d = Inr d1"
    "rt_id ` set (d_tokens d1) = {1, 100}" "rt_token_hash ` set (d_tokens d1) = {''old'', ''n1''}"
    by (simp add: exchange_def Let_def issue_refresh_token_def insert_token_def new_refresh_token_def
        account_world_facts(4) update_where_def demo_token_def sha256_hex_def demo_crypto_def insert_commute)
  have "101 \<notin> rt_id ` set (d_tokens d1)" "sha256_hex demo_crypto ''n2'' \<notin> rt_token_hash ` set (d_tokens d1)"
    unfolding d1(2,3) by (simp_all add: sha256_hex_def demo_crypto_def)
  from concurrent_exchange_both_succeed [OF s t d1(1) this] d1(1) show ?thesis by blast
qed

end
