(* ===== verification/Sky_Authz.thy ===== *)
theory Sky_Authz
  imports Sky_Accounts
begin

text \<open>
  Who calls and what they may see: \<^verbatim>\<open>app/deps.py\<close> (\<open>current_user\<close>, \<open>require_admin\<close>),
  \<^verbatim>\<open>app/security/context.py\<close> (the middleware that decodes the token for logging and rate
  limits) and \<^verbatim>\<open>app/security/authz.py\<close> (ownership in the WHERE clause).
\<close>

subsection \<open>The caller\<close>

text \<open>\<open>uuid.UUID(s)\<close>: the reading of the text \<open>uuid_str\<close> writes; None is the ValueError.\<close>

definition parse_uuid :: "string \<Rightarrow> uuid option" where
  "parse_uuid s = (let n = numeral_value 0 s in if uuid_str n = s then Some n else None)"

lemma parse_uuid_str [simp]: "parse_uuid (uuid_str u) = Some u"
  by (simp add: parse_uuid_def uuid_str_def numeral_value_show)

definition current_user :: "crypto \<Rightarrow> time \<Rightarrow> string option \<Rightarrow> db \<Rightarrow> exn + user" where
  "current_user cr now credentials d =
     (case credentials of
        None \<Rightarrow> Inl (raise_app InvalidToken ''Missing bearer token'')
      | Some token \<Rightarrow>
          if token = [] then Inl (raise_app InvalidToken ''Missing bearer token'')
          else
            (case decode_access_token cr now token of
               Inl e \<Rightarrow> Inl e
             | Inr c \<Rightarrow>
                 (case Option.bind (cl_sub c) parse_uuid of
                    None \<Rightarrow> Inl (raise_app InvalidToken ''Malformed subject claim'')
                  | Some user_id \<Rightarrow>
                      (case find_user user_id d of
                         None \<Rightarrow> Inl (raise_app InvalidToken ''Account is not active'')
                       | Some u \<Rightarrow>
                           if u_is_active u then Inr u
                           else Inl (raise_app InvalidToken ''Account is not active'')))))"

definition require_admin :: "time \<Rightarrow> user \<Rightarrow> world \<Rightarrow> (exn + user) \<times> world" where
  "require_admin now u w =
     (if u_is_admin u then (Inr u, w)
      else (Inl (raise_app Forbidden ''Administrator scope required''),
            record_security_event_bg now None SE_AUTHZ_DENIED SV_MEDIUM
              (no_args\<lparr>ev_actor_user_id := Some (u_id u), ev_decision := Some ''deny'',
                 ev_detail := JObj [(''reason'', JStr ''admin_scope_required'')]\<rparr>) w))"

text \<open>The middleware: \<open>request.state.user_id\<close> and \<open>request.state.user_email\<close> from the header.\<close>

definition auth_context :: "crypto \<Rightarrow> time \<Rightarrow> string \<Rightarrow> string option \<times> string option" where
  "auth_context cr now header =
     (if take 7 (lower header) = ''bearer ''
      then (case decode_access_token cr now (strip (drop 7 header)) of
              Inl _ \<Rightarrow> (None, None)
            | Inr c \<Rightarrow> (cl_sub c, cl_email c))
      else (None, None))"

subsection \<open>Ownership\<close>

definition deny :: "time \<Rightarrow> request option \<Rightarrow> uuid \<Rightarrow> string \<Rightarrow> string \<Rightarrow> world \<Rightarrow> world" where
  "deny now rq user_id resource_type resource_id w =
     record_security_event_bg now rq SE_AUTHZ_DENIED SV_MEDIUM
       (no_args\<lparr>ev_actor_user_id := Some user_id, ev_resource_type := Some resource_type,
          ev_resource_id := Some resource_id, ev_decision := Some ''deny'',
          ev_detail := JObj [(''reason'', JStr ''not_owner_or_missing''),
            (''note'', JStr ''responded 404 so the endpoint is not an existence oracle'')]\<rparr>) w"

definition owned_booking :: "time \<Rightarrow> request option \<Rightarrow> string \<Rightarrow> user \<Rightarrow> world \<Rightarrow> (exn + booking) \<times> world" where
  "owned_booking now rq booking_ref u w =
     (case select_one (\<lambda>b. b_ref b = upper booking_ref \<and> b_user_id b = u_id u) (d_bookings (w_cur w)) of
        None \<Rightarrow> (Inl (raise_app NotFound ''No such booking''), deny now rq (u_id u) ''booking'' booking_ref w)
      | Some b \<Rightarrow> (Inr b, w))"

definition owned_hold :: "time \<Rightarrow> request option \<Rightarrow> uuid \<Rightarrow> user \<Rightarrow> world \<Rightarrow> (exn + seat) \<times> world" where
  "owned_hold now rq hold_id u w =
     (case select_one (\<lambda>s. s_hold_id s = Some hold_id \<and> s_held_by s = Some (u_id u)) (d_seats (w_cur w)) of
        None \<Rightarrow> (Inl (raise_app NotFound ''No such hold''), deny now rq (u_id u) ''hold'' (uuid_str hold_id) w)
      | Some s \<Rightarrow> (Inr s, w))"

subsection \<open>What the caller learns\<close>

definition bookings_of :: "uuid \<Rightarrow> db \<Rightarrow> booking list" where
  "bookings_of user_id d = filter (\<lambda>b. b_user_id b = user_id) (d_bookings d)"

definition holds_of :: "uuid \<Rightarrow> db \<Rightarrow> seat list" where
  "holds_of user_id d = filter (\<lambda>s. s_held_by s = Some user_id) (d_seats d)"

lemma select_one_conj: "select_one (\<lambda>x. p x \<and> q x) xs = select_one p (filter q xs)"
  unfolding select_one_def by (induction xs) auto

lemma owned_booking_local:
  "fst (owned_booking now rq ref u w) =
     (case select_one (\<lambda>b. b_ref b = upper ref) (bookings_of (u_id u) (w_cur w)) of
        None \<Rightarrow> Inl (raise_app NotFound ''No such booking'') | Some b \<Rightarrow> Inr b)"
  by (simp add: owned_booking_def bookings_of_def select_one_conj split: option.split)

lemma owned_hold_local:
  "fst (owned_hold now rq i u w) =
     (case select_one (\<lambda>s. s_hold_id s = Some i) (holds_of (u_id u) (w_cur w)) of
        None \<Rightarrow> Inl (raise_app NotFound ''No such hold'') | Some s \<Rightarrow> Inr s)"
  by (simp add: owned_hold_def holds_of_def select_one_conj split: option.split)

lemma owned_booking_Inr:
  assumes "owned_booking now rq ref u w = (Inr b, w')"
  shows "w' = w" "b \<in> set (d_bookings (w_cur w))" "b_user_id b = u_id u" "b_ref b = upper ref"
  using assms by (auto simp: owned_booking_def dest: select_one_Some split: option.splits)

lemma owned_booking_Inl:
  assumes "owned_booking now rq ref u w = (Inl e, w')"
  shows "e = raise_app NotFound ''No such booking''" "w' = deny now rq (u_id u) ''booking'' ref w"
  using assms by (auto simp: owned_booking_def split: option.splits)

text \<open>
  C8: object-level authorization is non-interference. What a caller is answered, for a
  booking reference and for a hold id, is a function of the caller's own rows: two databases
  that agree on them are indistinguishable, so a reference that belongs to someone else and
  one that does not exist get the same 404. What is returned belongs to the caller, and a
  refusal leaves a committed event that names the caller, and changes nothing else.
\<close>

theorem authorization_is_non_interference:
  assumes b: "bookings_of (u_id u) (w_cur w) = bookings_of (u_id u) (w_cur w2)"
    and h: "holds_of (u_id u) (w_cur w) = holds_of (u_id u) (w_cur w2)"
  shows "fst (owned_booking now rq ref u w) = fst (owned_booking now2 rq2 ref u w2) \<and>
    fst (owned_hold now rq i u w) = fst (owned_hold now2 rq2 i u w2) \<and>
    (\<forall>x. fst (owned_booking now rq ref u w) = Inr x \<longrightarrow> b_user_id x = u_id u \<and> snd (owned_booking now rq ref u w) = w) \<and>
    (\<forall>x. fst (owned_hold now rq i u w) = Inr x \<longrightarrow> s_held_by x = Some (u_id u) \<and> snd (owned_hold now rq i u w) = w) \<and>
    (\<forall>e. fst (owned_booking now rq ref u w) = Inl e \<longrightarrow> is_app NotFound e \<and>
       (\<exists>ev. snd (owned_booking now rq ref u w) = w\<lparr>w_com := (w_com w)\<lparr>d_events := d_events (w_com w) @ [ev (w_com w)]\<rparr>,
                w_cur := (w_cur w)\<lparr>d_events := d_events (w_cur w) @ [ev (w_cur w)]\<rparr>\<rparr> \<and>
             se_event_type (ev (w_com w)) = SE_AUTHZ_DENIED \<and> se_actor_user_id (ev (w_com w)) = Some (u_id u)))"
proof (intro conjI allI impI)
  show "fst (owned_booking now rq ref u w) = fst (owned_booking now2 rq2 ref u w2)"
    unfolding owned_booking_local b ..
  show "fst (owned_hold now rq i u w) = fst (owned_hold now2 rq2 i u w2)"
    unfolding owned_hold_local h ..
next
  fix x assume "fst (owned_booking now rq ref u w) = Inr x"
  then show "b_user_id x = u_id u" "snd (owned_booking now rq ref u w) = w"
    by (auto simp: owned_booking_def dest: select_one_Some split: option.splits)
next
  fix x assume "fst (owned_hold now rq i u w) = Inr x"
  then show "s_held_by x = Some (u_id u)" "snd (owned_hold now rq i u w) = w"
    by (auto simp: owned_hold_def dest: select_one_Some split: option.splits)
next
  fix e assume e: "fst (owned_booking now rq ref u w) = Inl e"
  then show "is_app NotFound e" by (auto simp: owned_booking_def split: option.splits)
  let ?ev = "\<lambda>d. last (d_events (w_com (deny now rq (u_id u) ''booking'' ref (w\<lparr>w_com := d\<rparr>))))"
  have "snd (owned_booking now rq ref u w) = deny now rq (u_id u) ''booking'' ref w"
    using e by (auto simp: owned_booking_def split: option.splits)
  then show "\<exists>ev. snd (owned_booking now rq ref u w) = w\<lparr>w_com := (w_com w)\<lparr>d_events := d_events (w_com w) @ [ev (w_com w)]\<rparr>,
                w_cur := (w_cur w)\<lparr>d_events := d_events (w_cur w) @ [ev (w_cur w)]\<rparr>\<rparr> \<and>
             se_event_type (ev (w_com w)) = SE_AUTHZ_DENIED \<and> se_actor_user_id (ev (w_com w)) = Some (u_id u)"
    by (intro exI [of _ ?ev])
       (simp add: deny_def record_security_event_bg_def add_event_def no_args_def split: prod.split)
qed

definition demo_booking :: "string \<Rightarrow> uuid \<Rightarrow> booking" where
  "demo_booking ref user_id = \<lparr>b_id = 50, b_ref = ref, b_user_id = user_id, b_flight_id = 1, b_state = BS_CONFIRMED,
     b_total_amount = 5, b_currency = ''USD'', b_idempotency_key = None, b_created_at = 0\<rparr>"

theorem authorization_is_non_interference_witness:
  "fst (owned_booking 1 None ''K7R2MQ'' demo_user
       (map_cur (\<lambda>d. d\<lparr>d_bookings := [demo_booking ''K7R2MQ'' 8]\<rparr>) (account_world []))) =
   fst (owned_booking 2 None ''K7R2MQ'' demo_user (account_world []))"
proof -
  have "bookings_of (u_id demo_user) (w_cur (map_cur (\<lambda>d. d\<lparr>d_bookings := [demo_booking ''K7R2MQ'' 8]\<rparr>) (account_world []))) =
      bookings_of (u_id demo_user) (w_cur (account_world []))"
    by (simp add: bookings_of_def demo_booking_def demo_user_def account_world_def Let_def empty_db_def)
  moreover have "holds_of (u_id demo_user) (w_cur (map_cur (\<lambda>d. d\<lparr>d_bookings := [demo_booking ''K7R2MQ'' 8]\<rparr>) (account_world []))) =
      holds_of (u_id demo_user) (w_cur (account_world []))"
    by (simp add: holds_of_def)
  ultimately show ?thesis
    using authorization_is_non_interference
      [of demo_user "map_cur (\<lambda>d. d\<lparr>d_bookings := [demo_booking ''K7R2MQ'' 8]\<rparr>) (account_world [])" "account_world []"]
    by blast
qed

subsection \<open>An access token and its account\<close>


definition one_token_crypto :: "claims \<Rightarrow> crypto" where
  "one_token_crypto c = demo_crypto\<lparr>cr_encode := (\<lambda>_. ''token''),
     cr_decode := (\<lambda>t s. if cl_exp c * 1000000 \<le> t then Inl ExpiredSignatureError else Inr c)\<rparr>"


end
