(* ===== verification/Sky_Pages.thy ===== *)
theory Sky_Pages
  imports Sky_Prelude
begin

text \<open>
  Numbered pages with a total, \<open>Page\<close> of \<^verbatim>\<open>app/schemas/common.py\<close>. The locale says what a client
  that walks the pages sees; the routes interpret it. Pages behind a cursor are in
  \<^verbatim>\<open>Sky_Admin\<close>.
\<close>

record 'a page =
  pg_items :: "'a list"
  pg_page :: nat
  pg_page_size :: nat
  pg_total :: nat
  pg_has_more :: bool

text \<open>\<open>OFFSET (page - 1) * page_size LIMIT page_size\<close>.\<close>

definition page_slice :: "nat \<Rightarrow> nat \<Rightarrow> 'a list \<Rightarrow> 'a list" where
  "page_slice p n rows = take n (drop ((p - 1) * n) rows)"

definition page_of :: "nat \<Rightarrow> nat \<Rightarrow> 'a list \<Rightarrow> nat \<Rightarrow> 'a page" where
  "page_of p n items n_rows =
     \<lparr>pg_items = items, pg_page = p, pg_page_size = n, pg_total = n_rows, pg_has_more = (p * n < n_rows)\<rparr>"

lemma page_slice_map: "page_slice p n (map f xs) = map f (page_slice p n xs)"
  by (simp add: page_slice_def take_map drop_map)

lemma slices_prefix: "concat (map (\<lambda>p. page_slice p n rows) [1..<Suc k]) = take (k * n) rows"
proof (induction k)
  case 0
  then show ?case by simp
next
  case (Suc k)
  have "concat (map (\<lambda>p. page_slice p n rows) [1..<Suc (Suc k)]) =
      concat (map (\<lambda>p. page_slice p n rows) [1..<Suc k]) @ page_slice (Suc k) n rows"
    by simp
  also have "\<dots> = take (k * n) rows @ take n (drop (k * n) rows)"
    unfolding Suc by (simp add: page_slice_def)
  also have "\<dots> = take (Suc k * n) rows"
    by (simp add: take_add [symmetric] add.commute)
  finally show ?case .
qed

locale numbered_pages =
  fixes fetch :: "nat \<Rightarrow> nat \<Rightarrow> 'a page" and rows :: "'a list"
  assumes fetch: "fetch p n = page_of p n (page_slice p n rows) (length rows)"
begin

lemma pages_prefix: "concat (map (\<lambda>p. pg_items (fetch p n)) [1..<Suc k]) = take (k * n) rows"
  using slices_prefix [of n rows k] by (simp add: fetch page_of_def)

text \<open>Following \<open>has_more\<close> from page one visits every row once, in order.\<close>

lemma pages_complete:
  "\<not> pg_has_more (fetch k n) \<Longrightarrow> concat (map (\<lambda>p. pg_items (fetch p n)) [1..<Suc k]) = rows"
  using pages_prefix [of n k] by (simp add: fetch page_of_def)

lemma more_means_rows: "0 < n \<Longrightarrow> pg_has_more (fetch k n) \<longleftrightarrow> pg_items (fetch (Suc k) n) \<noteq> []"
  by (auto simp: fetch page_of_def page_slice_def)

text \<open>With a positive page size some page is the last.\<close>

lemma last_page: "0 < n \<Longrightarrow> \<not> pg_has_more (fetch (length rows) n)"
  by (simp add: fetch page_of_def not_less)

end

end
