(* ===== verification/Sky_Bookings.thy ===== *)
theory Sky_Bookings
  imports Sky_SagaFrame Sky_Idempotency Sky_Authz Sky_Pages
begin

text \<open>
  \<^verbatim>\<open>app/api/bookings.py\<close>: the routes under \<open>/bookings\<close>. A route takes the caller (the result of
  \<open>current_user\<close>) and, where it names a booking, the reference, which \<open>owned_booking\<close> turns into
  a row or a 404 before the handler runs. The response bodies are JSON objects. Bodies are
  stored as JSONB and compared as objects, so the order of fields does not matter there.
\<close>

subsection \<open>Responses\<close>

definition seat_no_of :: "db \<Rightarrow> passenger \<Rightarrow> string option" where
  "seat_no_of d p =
     Option.bind (p_seat_inventory_id p) (\<lambda>i. map_option s_seat_no (select_one (\<lambda>s. s_id s = i) (d_seats d)))"

definition flight_of :: "db \<Rightarrow> booking \<Rightarrow> flight option" where
  "flight_of d b = select_one (\<lambda>f. fl_id f = b_flight_id b) (d_flights d)"

definition passenger_response :: "db \<Rightarrow> passenger \<Rightarrow> json" where
  "passenger_response d p = JObj
     [(''id'', JUuid (p_id p)), (''given_name'', JStr (p_given_name p)), (''family_name'', JStr (p_family_name p)),
      (''seat_no'', opt_str (seat_no_of d p)), (''passport_last4'', opt_str (p_passport_last4 p))]"

definition ticket_response :: "db \<Rightarrow> passenger list \<Rightarrow> ticket \<Rightarrow> json" where
  "ticket_response d ps t =
     (let p = find (\<lambda>p. p_id p = t_passenger_id t) ps in JObj
       [(''e_ticket_no'', JStr (t_e_ticket_no t)), (''seat_no'', opt_str (Option.bind p (seat_no_of d))),
        (''passenger_name'', JStr (case p of None \<Rightarrow> [] | Some p \<Rightarrow> p_given_name p @ '' '' @ p_family_name p)),
        (''issued_at'', JTime (t_issued_at t))])"

definition to_response :: "db \<Rightarrow> booking \<Rightarrow> (string \<times> json) list" where
  "to_response d b =
     (let ps = booking_passengers (b_id b) d; f = flight_of d b in
      [(''ref'', JStr (b_ref b)), (''state'', JStr (booking_state_value (b_state b))),
       (''flight_id'', JUuid (b_flight_id b)),
       (''flight_no'', opt_str (map_option fl_flight_no f)), (''src_iata'', opt_str (map_option fl_src_iata f)),
       (''dst_iata'', opt_str (map_option fl_dst_iata f)),
       (''depart_at'', (case f of None \<Rightarrow> JNull | Some fl \<Rightarrow> JTime (fl_depart_at fl))),
       (''total_amount'', JMoney (b_total_amount b)), (''currency'', JStr (b_currency b)),
       (''passengers'', JList (map (passenger_response d) ps)),
       (''tickets'', JList (map (ticket_response d ps) (filter live_ticket (booking_tickets (b_id b) d)))),
       (''created_at'', JTime (b_created_at b))])"

subsection \<open>Creating a booking\<close>

definition dump_passenger :: "passenger_in \<Rightarrow> json" where
  "dump_passenger p = JObj
     [(''given_name'', JStr (pi_given_name p)), (''family_name'', JStr (pi_family_name p)),
      (''dob'', opt_str (map_option show_date (pi_dob p))), (''passport_number'', opt_str (pi_passport_number p))]"

text \<open>\<open>payload.model_dump(mode='json')\<close>.\<close>

definition model_dump :: "booking_create \<Rightarrow> json" where
  "model_dump b = JObj
     [(''hold_ids'', JList (map JUuid (bc_hold_ids b))), (''passengers'', JList (map dump_passenger (bc_passengers b))),
      (''card_token'', JStr (bc_card_token b)), (''contact_email'', opt_str (bc_contact_email b))]"

definition replayed :: "replay \<Rightarrow> response" where
  "replayed r = \<lparr>rsp_status = rp_status_code r, rsp_headers = [(''Idempotency-Replayed'', ''true'')], rsp_body = rp_body r\<rparr>"

definition create_booking ::
  "(string \<Rightarrow> string) \<Rightarrow> (string \<Rightarrow> string) \<Rightarrow> (seat \<Rightarrow> seat \<Rightarrow> seat) \<Rightarrow> settings \<Rightarrow> time \<Rightarrow> draws \<Rightarrow> request \<Rightarrow>
   uuid \<Rightarrow> booking_create \<Rightarrow> string \<Rightarrow> world \<Rightarrow> (exn + response) \<times> world" where
  "create_booking sha256 fingerprint reread st now dr rq user_id payload key w =
     (case begin_claim sha256 st now key user_id ''POST /bookings'' (model_dump payload) w of
        (Inl e, w1) \<Rightarrow> (Inl e, rollback w1)
      | (Inr (Some r), w1) \<Rightarrow> (Inr (replayed r), w1)
      | (Inr None, w1) \<Rightarrow>
          (case run fingerprint reread dr (Some rq) user_id payload key w1 of
             (Inl (App e), w2) \<Rightarrow>
               (Inl (App e), complete_claim key user_id (status_code (ae_class e)) (to_problem e (rq_path rq)) None
                               (rollback w2))
           | (Inl e, w2) \<Rightarrow> (Inl e, release_claim key user_id (rollback w2))
           | (Inr (status, body), w2) \<Rightarrow>
               (Inr \<lparr>rsp_status = status, rsp_headers = [], rsp_body = body\<rparr>,
                complete_claim key user_id status body None w2)))"

subsection \<open>Reading\<close>

definition own_bookings :: "uuid \<Rightarrow> db \<Rightarrow> booking list" where
  "own_bookings user_id d =
     order_by_desc b_created_at (select_where (\<lambda>b. b_user_id b = user_id) (d_bookings d))"

definition list_bookings :: "uuid \<Rightarrow> db \<Rightarrow> nat \<Rightarrow> nat \<Rightarrow> (string \<times> json) list page" where
  "list_bookings user_id d p n =
     page_of p n (map (to_response d) (page_slice p n (own_bookings user_id d)))
       (count_where (\<lambda>b. b_user_id b = user_id) (d_bookings d))"

text \<open>A handler behind \<open>OwnedBooking\<close>.\<close>

definition with_booking ::
  "time \<Rightarrow> request option \<Rightarrow> string \<Rightarrow> user \<Rightarrow> (booking \<Rightarrow> world \<Rightarrow> (exn + 'a) \<times> world) \<Rightarrow> world \<Rightarrow>
   (exn + 'a) \<times> world" where
  "with_booking now rq ref u handler w =
     (case owned_booking now rq ref u w of
        (Inl e, w') \<Rightarrow> (Inl e, w')
      | (Inr b, w') \<Rightarrow> handler b w')"

definition get_booking ::
  "time \<Rightarrow> request option \<Rightarrow> string \<Rightarrow> user \<Rightarrow> world \<Rightarrow> (exn + (string \<times> json) list) \<times> world" where
  "get_booking now rq ref u = with_booking now rq ref u (\<lambda>b w. (Inr (to_response (w_cur w) b), w))"

definition booking_audit_log ::
  "time \<Rightarrow> request option \<Rightarrow> string \<Rightarrow> user \<Rightarrow> world \<Rightarrow> (exn + booking_audit list) \<times> world" where
  "booking_audit_log now rq ref u =
     with_booking now rq ref u (\<lambda>b w. (Inr (order_by a_seq (audit_rows (b_id b) (w_cur w))), w))"

subsection \<open>Changing\<close>

text \<open>\<open>if update.given_name: passenger.given_name = update.given_name\<close>.\<close>

definition new_name :: "string option \<Rightarrow> string \<Rightarrow> string" where
  "new_name x old = (case x of None \<Rightarrow> old | Some s \<Rightarrow> if s = [] then old else s)"

definition amend :: "passenger_update \<Rightarrow> passenger \<Rightarrow> passenger" where
  "amend u p = p\<lparr>p_given_name := new_name (pu_given_name u) (p_given_name p),
                 p_family_name := new_name (pu_family_name u) (p_family_name p)\<rparr>"

definition names_json :: "passenger \<Rightarrow> json" where
  "names_json p = JObj [(''given_name'', JStr (p_given_name p)), (''family_name'', JStr (p_family_name p))]"

text \<open>The loop: the recorded changes and the passengers of the booking as the session has them.\<close>

fun apply_updates :: "passenger_update list \<Rightarrow> passenger list \<Rightarrow> json list \<times> passenger list" where
  "apply_updates [] ps = ([], ps)"
| "apply_updates (u # us) ps =
     (case find (\<lambda>p. p_id p = pu_passenger_id u) ps of
        None \<Rightarrow> apply_updates us ps
      | Some p \<Rightarrow>
          (case apply_updates us (update_where (\<lambda>q. p_id q = p_id p) (amend u) ps) of
             (changes, ps') \<Rightarrow>
               (JObj [(''passenger_id'', JUuid (p_id p)), (''before'', names_json p), (''after'', names_json (amend u p))]
                  # changes, ps')))"

text \<open>The flush: the names of each passenger the session has, by primary key.\<close>

definition write_names :: "passenger list \<Rightarrow> db \<Rightarrow> db" where
  "write_names ps d =
     d\<lparr>d_passengers := map (\<lambda>r. case find (\<lambda>p. p_id p = p_id r) ps of
         None \<Rightarrow> r
       | Some p \<Rightarrow> r\<lparr>p_given_name := p_given_name p, p_family_name := p_family_name p\<rparr>) (d_passengers d)\<rparr>"

definition update_passengers ::
  "uuid \<Rightarrow> passenger_update list \<Rightarrow> booking \<Rightarrow> world \<Rightarrow> (exn + (string \<times> json) list) \<times> world" where
  "update_passengers user_id updates b w =
     (case require_state (b_state b) [BS_CONFIRMED, BS_TICKETED] of
        Inl e \<Rightarrow> (Inl e, w)
      | Inr _ \<Rightarrow>
          (case apply_updates updates (booking_passengers (b_id b) (w_cur w)) of
             (changes, ps) \<Rightarrow>
               (let d1 = write_names ps (w_cur w);
                    d2 = (if changes \<noteq> []
                          then audit_record (b_id b) AE_PASSENGER_UPDATED
                                 ((change_args (b_state b) (b_state b) [(''changes'', JList changes)])
                                  \<lparr>au_actor_type := ''user'', au_actor_id := Some user_id\<rparr>) d1
                          else d1);
                    w' = commit (map_cur (\<lambda>_. d2) w)
                in (Inr (to_response (w_cur w') (refresh_booking b (w_cur w'))), w'))))"

definition update_booking ::
  "time \<Rightarrow> request option \<Rightarrow> string \<Rightarrow> user \<Rightarrow> passenger_update list \<Rightarrow> world \<Rightarrow>
   (exn + (string \<times> json) list) \<times> world" where
  "update_booking now rq ref u updates = with_booking now rq ref u (update_passengers (u_id u) updates)"

definition cancel_booking ::
  "time \<Rightarrow> request option \<Rightarrow> string \<Rightarrow> user \<Rightarrow> world \<Rightarrow> (exn + (string \<times> json) list) \<times> world" where
  "cancel_booking now rq ref u =
     with_booking now rq ref u (\<lambda>b w.
       case require_state (b_state b) [BS_CONFIRMED, BS_TICKETED] of
         Inl e \<Rightarrow> (Inl e, w)
       | Inr _ \<Rightarrow> cancel now b (u_id u) w)"

subsection \<open>A retry is answered from the record\<close>

text \<open>What the client was told, in either way.\<close>

fun told :: "string \<Rightarrow> exn + response \<Rightarrow> (int \<times> (string \<times> json) list) option" where
  "told path (Inr r) = Some (rsp_status r, rsp_body r)"
| "told path (Inl (App e)) = Some (rsp_status (app_error_handler e path), rsp_body (app_error_handler e path))"
| "told path (Inl e) = None"

lemma run_code:
  assumes "run cf reread dr rq u payload key w = (Inr (code, body), w')"
  shows "code = 201"
  using assms
  by (auto simp: run_def ticket_and_confirm_def Let_def split: sum.splits prod.splits if_splits)

lemma status_code_pos: "status_code c \<noteq> 0"
  by (cases c) simp_all

lemma complete_claim_row:
  assumes k: "k \<in> set (d_idem (w_cur w))" "claim_of key u k"
  shows "\<exists>k' \<in> set (d_idem (w_com (complete_claim key u status body bk w))).
      claim_of key u k' \<and> ik_expires_at k' = ik_expires_at k \<and> ik_request_hash k' = ik_request_hash k \<and>
      ik_state k' = COMPLETED \<and> ik_response_status k' = Some status \<and> ik_response_body k' = Some body"
    "idle (complete_claim key u status body bk w)"
    "unique_key (\<lambda>k. (ik_key k, ik_user_id k)) (d_idem (w_cur w)) \<Longrightarrow>
     unique_key (\<lambda>k. (ik_key k, ik_user_id k)) (d_idem (w_com (complete_claim key u status body bk w)))"
proof -
  let ?f = "\<lambda>k. k\<lparr>ik_state := COMPLETED, ik_response_status := Some status,
                    ik_response_body := Some body, ik_booking_id := bk\<rparr>"
  have "select_one (claim_of key u) (d_idem (w_cur w)) \<noteq> None"
    using k by (auto simp: select_one_None)
  then have c: "complete_claim key u status body bk w =
      commit (map_cur (\<lambda>d. d\<lparr>d_idem := update_where (claim_of key u) ?f (d_idem d)\<rparr>) w)"
    unfolding complete_claim_def by (rule if_not_P)
  have "?f k \<in> set (update_where (claim_of key u) ?f (d_idem (w_cur w)))"
    using k by (force simp: set_update_where)
  moreover have "claim_of key u (?f k)" using k(2) by (simp add: claim_of_def)
  ultimately show "\<exists>k' \<in> set (d_idem (w_com (complete_claim key u status body bk w))).
      claim_of key u k' \<and> ik_expires_at k' = ik_expires_at k \<and> ik_request_hash k' = ik_request_hash k \<and>
      ik_state k' = COMPLETED \<and> ik_response_status k' = Some status \<and> ik_response_body k' = Some body"
    unfolding c by (intro bexI [of _ "?f k"]) simp_all
  show "idle (complete_claim key u status body bk w)" unfolding c by (simp add: idle_def)
  show "unique_key (\<lambda>k. (ik_key k, ik_user_id k)) (d_idem (w_com (complete_claim key u status body bk w)))"
    if "unique_key (\<lambda>k. (ik_key k, ik_user_id k)) (d_idem (w_cur w))"
    unfolding c using that by (simp add: unique_key_update_where)
qed

text \<open>A request that gets the claim, runs, and ends with something it told the client.\<close>

lemma begin_claims:
  assumes "idle w" "sound (w_com w)"
    and none: "\<forall>k \<in> set (d_idem (w_com w)). \<not> (claim_of key u k \<and> now \<le> ik_expires_at k)"
  obtains w1 k where "begin_claim sha st now key u ep payload w = (Inr None, w1)" "idle w1"
    "k \<in> set (d_idem (w_com w1))" "claim_of key u k" "ik_request_hash k = request_hash sha payload"
    "ik_expires_at k = now + seconds (idempotency_ttl_seconds st)"
    "unique_key (\<lambda>k. (ik_key k, ik_user_id k)) (d_idem (w_com w1))"
proof -
  have cur: "w_cur w = w_com w" using assms(1) by (simp add: idle_def)
  let ?dg = "request_hash sha payload"
  let ?rows = "delete_where (\<lambda>k. claim_of key u k \<and> ik_expires_at k < now) (d_idem (w_com w))"
  let ?k = "\<lparr>ik_key = key, ik_user_id = u, ik_endpoint = ep, ik_request_hash = ?dg, ik_state = IN_PROGRESS,
    ik_response_status = None, ik_response_body = None, ik_booking_id = None,
    ik_expires_at = now + seconds (idempotency_ttl_seconds st)\<rparr>"
  let ?d = "(w_com w)\<lparr>d_idem := ?rows @ [?k]\<rparr>"
  have "select_one (claim_of key u) ?rows = None"
    using none by (auto simp: select_one_None delete_where_def)
  then have d: "try_claim st now key u ep ?dg (w_com w) = (True, ?d)"
    by (simp add: try_claim_def Let_def)
  have "sound ?d" by (rule sound_try_claim [OF assms(2) d])
  then have "unique_key (\<lambda>k. (ik_key k, ik_user_id k)) (d_idem ?d)" unfolding sound_def db_ok_def by blast
  moreover have "begin_claim sha st now key u ep payload w = (Inr None, commit (map_cur (\<lambda>_. ?d) w))"
    unfolding begin_claim_def Let_def cur d by simp
  ultimately show thesis
    by (intro that [of "commit (map_cur (\<lambda>_. ?d) w)" ?k]) (simp_all add: idle_def claim_of_def)
qed

lemma release_claim_gone: "k \<in> set (d_idem (w_com (release_claim key u w))) \<Longrightarrow> \<not> claim_of key u k"
  by (auto simp: release_claim_def delete_where_def)

text \<open>
  C6: a retry within the lifetime of the claim replays the first outcome. Whatever the
  first request told the client, a booking or an error of the API, the same request gets
  the same status and body again, marked as replayed; no row is written, the gateway is not
  called and the fraud counters are not touched. When the first request ended in anything
  else no claim is left, and the retry starts afresh.
\<close>

theorem retry_replays_outcome:
  assumes w: "idle w" "sound (w_com w)"
    and none: "\<forall>k \<in> set (d_idem (w_com w)). \<not> (claim_of key u k \<and> now \<le> ik_expires_at k)"
    and first: "create_booking sha fp reread st now dr rq u payload key w = (r, w1)"
    and soon: "now2 \<le> now + seconds (idempotency_ttl_seconds st)"
  shows "case told (rq_path rq) r of
      Some (status, body) \<Rightarrow>
        create_booking sha fp2 reread2 st2 now2 dr2 rq2 u payload key w1 =
          (Inr \<lparr>rsp_status = status, rsp_headers = [(''Idempotency-Replayed'', ''true'')], rsp_body = body\<rparr>, w1)
    | None \<Rightarrow> \<forall>k \<in> set (d_idem (w_com w1)). \<not> claim_of key u k"
proof -
  obtain w0 k where b: "begin_claim sha st now key u ''POST /bookings'' (model_dump payload) w = (Inr None, w0)"
    "idle w0" "k \<in> set (d_idem (w_com w0))" "claim_of key u k"
    "ik_request_hash k = request_hash sha (model_dump payload)"
    "ik_expires_at k = now + seconds (idempotency_ttl_seconds st)"
    "unique_key (\<lambda>k. (ik_key k, ik_user_id k)) (d_idem (w_com w0))"
    by (rule begin_claims [OF w none])
  obtain x w2 where rn: "run fp reread dr (Some rq) u payload key w0 = (x, w2)"
    by (cases "run fp reread dr (Some rq) u payload key w0")
  have "d_idem (w_cur w0) = d_idem (w_com w0)" using b(2) by (simp add: idle_def)
  note d = claims.run_keeps [OF rn refl this]
  have again: "create_booking sha fp2 reread2 st2 now2 dr2 rq2 u payload key (complete_claim key u status body None w3) =
      (Inr (replayed \<lparr>rp_status_code = status, rp_body = body\<rparr>), complete_claim key u status body None w3)"
    if "d_idem (w_cur w3) = d_idem (w_com w0)" "status \<noteq> 0" for status body w3
  proof -
    note C = complete_claim_row [of k w3 key u status body None, unfolded that(1), OF b(3,4)]
    from C(1) obtain k' where k': "k' \<in> set (d_idem (w_com (complete_claim key u status body None w3)))"
      "claim_of key u k'" "now2 \<le> ik_expires_at k'" "ik_request_hash k' = request_hash sha (model_dump payload)"
      "ik_state k' = COMPLETED" "ik_response_status k' = Some status" "ik_response_body k' = Some body"
      using b(5,6) soon by auto
    from settled_replays [OF C(3) [OF b(7)] C(2) k'(1-6) that(2) k'(7)] show ?thesis
      by (simp add: create_booking_def)
  qed
  show ?thesis
  proof (cases x)
    case (Inr sb)
    obtain status body where sb: "sb = (status, body)" by (cases sb)
    have "status \<noteq> 0" using run_code rn Inr sb by fastforce
    from again [OF d(2) this] show ?thesis
      using first b(1) rn Inr sb by (auto simp: create_booking_def replayed_def)
  next
    case (Inl e)
    show ?thesis
    proof (cases "\<exists>a. e = App a")
      case True
      then obtain a where a: "e = App a" by blast
      have "d_idem (w_cur (rollback w2)) = d_idem (w_com w0)" using d(1) by simp
      from again [OF this status_code_pos] show ?thesis
        using first b(1) rn Inl a by (auto simp: create_booking_def replayed_def app_error_handler_def)
    next
      case False
      then have t: "told (rq_path rq) (Inl e) = None" by (cases e) auto
      have "r = Inl e" "w1 = release_claim key u (rollback w2)"
        using first b(1) rn Inl False by (cases e; simp add: create_booking_def)+
      with t show ?thesis using release_claim_gone by fastforce
    qed
  qed
qed

definition bare_world :: world where
  "bare_world = \<lparr>w_com = empty_db, w_cur = empty_db, w_gw = empty_gateway, w_redis = empty_redis, w_fresh = 0\<rparr>"

definition demo_request :: request where
  "demo_request = \<lparr>rq_client = None, rq_user_agent = [], rq_method = ''POST'', rq_path = ''/bookings''\<rparr>"

abbreviation demo_booking_request :: "time \<Rightarrow> world \<Rightarrow> (exn + response) \<times> world" where
  "demo_booking_request now w \<equiv> create_booking (\<lambda>s. s) (\<lambda>s. s) stale default_settings now demo_draws demo_request 7
     (demo_create [90] ''tok_test_aaaa11110000'') ''key-0001'' w"

theorem retry_replays_outcome_witness:
  "\<exists>body. demo_booking_request 9 (snd (demo_booking_request 5 bare_world)) =
     (Inr \<lparr>rsp_status = 404, rsp_headers = [(''Idempotency-Replayed'', ''true'')], rsp_body = body\<rparr>,
      snd (demo_booking_request 5 bare_world))"
proof -
  have w: "idle bare_world" "sound (w_com bare_world)" by (simp_all add: bare_world_def idle_def)
  have none: "\<forall>k \<in> set (d_idem (w_com bare_world)). \<not> (claim_of ''key-0001'' 7 k \<and> 5 \<le> ik_expires_at k)"
    by (simp add: bare_world_def empty_db_def)
  obtain r w1 where r: "demo_booking_request 5 bare_world = (r, w1)" by (cases "demo_booking_request 5 bare_world")
  have "\<exists>e. r = Inl (App e) \<and> ae_class e = NotFound"
    using r
    by (auto simp: create_booking_def begin_claim_def try_claim_def bare_world_def empty_db_def Let_def
        delete_where_def select_one_def run_def transact_def create_step_def lock_seats_for_holds_def
        select_where_def order_by_def demo_create_def raise_app_def)
  then obtain e where e: "r = Inl (App e)" "ae_class e = NotFound" by blast
  have "(9::time) \<le> 5 + seconds (idempotency_ttl_seconds default_settings)"
    by (simp add: seconds_def default_settings_def)
  from retry_replays_outcome [OF w none r this, of "\<lambda>s. s" stale default_settings demo_draws demo_request]
  show ?thesis by (simp add: e r app_error_handler_def)
qed

subsection \<open>Pages of bookings\<close>

lemma length_own_bookings: "length (own_bookings u d) = count_where (\<lambda>b. b_user_id b = u) (d_bookings d)"
  by (simp add: own_bookings_def order_by_desc_def select_where_def count_where_def)

interpretation bookings: numbered_pages "list_bookings u d" "map (to_response d) (own_bookings u d)" for u d
  by unfold_locales (simp add: list_bookings_def page_slice_map length_own_bookings)

text \<open>
  A client that starts at page one and goes on while \<open>has_more\<close> holds sees every booking
  of its own exactly once, newest first, and no booking of anybody else; the walk ends.
\<close>

theorem booking_pages_complete:
  assumes "0 < n"
  shows "(\<exists>k. \<not> pg_has_more (list_bookings u d k n)) \<and>
    (\<forall>k. \<not> pg_has_more (list_bookings u d k n) \<longrightarrow>
       concat (map (\<lambda>p. pg_items (list_bookings u d p n)) [1..<Suc k]) = map (to_response d) (own_bookings u d)) \<and>
    (\<forall>k. pg_has_more (list_bookings u d k n) \<longleftrightarrow> pg_items (list_bookings u d (Suc k) n) \<noteq> []) \<and>
    set (own_bookings u d) = {b \<in> set (d_bookings d). b_user_id b = u} \<and>
    sorted_wrt (\<lambda>a b. b_created_at b \<le> b_created_at a) (own_bookings u d)"
proof -
  have "sorted_wrt (\<lambda>a b. b_created_at b \<le> b_created_at a) (own_bookings u d)"
    using sorted_sort_key [of b_created_at "select_where (\<lambda>b. b_user_id b = u) (d_bookings d)"]
    by (simp add: own_bookings_def order_by_desc_def sorted_map sorted_wrt_rev)
  then show ?thesis
    using bookings.last_page [OF assms] bookings.pages_complete bookings.more_means_rows [OF assms]
    by (auto simp: own_bookings_def order_by_desc_def select_where_def)
qed

theorem booking_pages_complete_witness:
  "concat (map (\<lambda>p. pg_items (list_bookings 8 (empty_db\<lparr>d_bookings := [demo_booking ''K7R2MQ'' 8]\<rparr>) p 20)) [1..<Suc 1]) =
     map (to_response (empty_db\<lparr>d_bookings := [demo_booking ''K7R2MQ'' 8]\<rparr>))
       (own_bookings 8 (empty_db\<lparr>d_bookings := [demo_booking ''K7R2MQ'' 8]\<rparr>))"
proof -
  let ?d = "empty_db\<lparr>d_bookings := [demo_booking ''K7R2MQ'' 8]\<rparr>"
  have "\<not> pg_has_more (list_bookings 8 ?d 1 20)"
    by (simp add: list_bookings_def page_of_def count_where_def)
  moreover have "0 < (20::nat)" by simp
  ultimately show ?thesis using booking_pages_complete [of 20 8 ?d] by blast
qed

subsection \<open>Amending passengers\<close>

lemma amend_key [simp]: "p_id (amend u p) = p_id p" "p_booking_id (amend u p) = p_booking_id p"
  by (simp_all add: amend_def)

lemma apply_updates_ids: "apply_updates us ps = (cs, ps') \<Longrightarrow> map p_id ps' = map p_id ps"
proof (induction us arbitrary: ps cs)
  case Nil
  then show ?case by simp
next
  case (Cons u us)
  show ?case
  proof (cases "find (\<lambda>p. p_id p = pu_passenger_id u) ps")
    case None
    with Cons show ?thesis by auto
  next
    case (Some p)
    with Cons.prems obtain cs' where
      "apply_updates us (update_where (\<lambda>q. p_id q = p_id p) (amend u) ps) = (cs', ps')"
      by (auto split: prod.splits)
    from Cons.IH [OF this] show ?thesis by (simp add: map_key_update_where)
  qed
qed

text \<open>Everything of a passenger but the name.\<close>

definition nameless :: "passenger \<Rightarrow> passenger" where
  "nameless p = p\<lparr>p_given_name := [], p_family_name := []\<rparr>"

lemma write_names_row:
  "nameless (case find (\<lambda>p. p_id p = p_id r) ps of None \<Rightarrow> r
     | Some p \<Rightarrow> r\<lparr>p_given_name := p_given_name p, p_family_name := p_family_name p\<rparr>) = nameless r"
  by (simp add: nameless_def split: option.split)

lemma write_names_nameless: "map nameless (d_passengers (write_names ps d)) = map nameless (d_passengers d)"
  by (simp add: write_names_def write_names_row)

lemma write_names_other:
  assumes "r \<in> set (d_passengers d)" "p_id r \<notin> p_id ` set ps"
  shows "r \<in> set (d_passengers (write_names ps d))"
proof -
  have "find (\<lambda>p. p_id p = p_id r) ps = None" using assms(2) by (fastforce simp: find_None_iff image_iff)
  then show ?thesis using assms(1) by (force simp: write_names_def)
qed

lemma write_names_ids: "map p_id (d_passengers (write_names ps d)) = map p_id (d_passengers d)"
proof -
  have "map p_id (map nameless xs) = map p_id xs" for xs by (simp add: nameless_def)
  with write_names_nameless [of ps d] show ?thesis by metis
qed

lemma sound_write_names:
  assumes "sound d"
  shows "sound (write_names ps d)"
proof (rule sound_same_logs [OF assms])
  have "unique_key p_id (d_passengers (write_names ps d))"
    using assms by (simp add: unique_key_def write_names_ids sound_def db_ok_def)
  then show "db_ok (write_names ps d)"
    using assms unfolding sound_def db_ok_def by (simp add: write_names_def)
qed (simp_all add: write_names_def)

lemma update_passengers_total:
  "b_state b \<in> {BS_CONFIRMED, BS_TICKETED} \<Longrightarrow> \<exists>x w'. update_passengers uid us b w = (Inr x, w')"
  by (cases "apply_updates us (booking_passengers (b_id b) (w_cur w))")
     (auto simp: update_passengers_def require_state_def Let_def)

lemma update_passengers_effect:
  assumes "update_passengers uid us b w = (Inr x, w')"
  obtains ps rows cs where "apply_updates us (booking_passengers (b_id b) (w_cur w)) = (cs, ps)"
    "b_state b \<in> {BS_CONFIRMED, BS_TICKETED}" "idle w'"
    "w_com w' = (write_names ps (w_cur w))\<lparr>d_audit := d_audit (w_cur w) @ rows\<rparr>"
    "length rows = (if cs = [] then 0 else 1)" "sound (w_cur w) \<Longrightarrow> sound (w_com w')"
proof -
  obtain cs ps where a: "apply_updates us (booking_passengers (b_id b) (w_cur w)) = (cs, ps)"
    by (cases "apply_updates us (booking_passengers (b_id b) (w_cur w))")
  have st: "b_state b \<in> {BS_CONFIRMED, BS_TICKETED}"
    using assms by (auto simp: update_passengers_def require_state_def split: if_splits)
  let ?d = "write_names ps (w_cur w)"
  let ?a = "(change_args (b_state b) (b_state b) [(''changes'', JList cs)])\<lparr>au_actor_type := ''user'', au_actor_id := Some uid\<rparr>"
  have w': "w' = commit (map_cur (\<lambda>_. if cs \<noteq> [] then audit_record (b_id b) AE_PASSENGER_UPDATED ?a ?d else ?d) w)"
    using assms a st by (auto simp: update_passengers_def require_state_def Let_def)
  have da: "d_audit ?d = d_audit (w_cur w)" by (simp add: write_names_def)
  let ?rows = "if cs = [] then [] else [last (d_audit (audit_record (b_id b) AE_PASSENGER_UPDATED ?a ?d))]"
  show thesis
  proof (rule that [OF a st, where rows = ?rows])
    show "idle w'" unfolding w' by (simp add: idle_def)
    show "w_com w' = ?d\<lparr>d_audit := d_audit (w_cur w) @ ?rows\<rparr>"
      unfolding w' by (simp add: audit_record_def da [symmetric])
    show "length ?rows = (if cs = [] then 0 else 1)" by simp
    show "sound (w_com w')" if "sound (w_cur w)"
      unfolding w' using sound_write_names [OF that] by simp
  qed
qed


definition ada_patch :: "passenger_update list" where
  "ada_patch = [\<lparr>pu_passenger_id = 4, pu_given_name = Some ''Ada'', pu_family_name = None\<rparr>]"


end
