(* ===== verification/Sky_Inventory.thy ===== *)
theory Sky_Inventory
  imports Sky_Authz Sky_Pages
begin

text \<open>
  \<^verbatim>\<open>app/api/holds.py\<close> and \<^verbatim>\<open>app/api/flights.py\<close>: holding and releasing seats, searching flights
  and the seat map. \<open>now\<close> is the database clock of the transaction, \<open>clock\<close> the one of the
  application server. A departure date is a number of days since the epoch.
\<close>

subsection \<open>Holds\<close>

record hold_response =
  hr_hold_id :: "uuid option"
  hr_flight_id :: uuid
  hr_seat_no :: string
  hr_cabin :: string
  hr_price :: cents
  hr_currency :: string
  hr_expires_at :: "time option"
  hr_seconds_remaining :: int
  hr_active :: bool

definition hold_to_response :: "time \<Rightarrow> string \<Rightarrow> seat \<Rightarrow> hold_response" where
  "hold_to_response clock currency s =
     (let remaining = (case s_hold_expires_at s of None \<Rightarrow> 0 | Some e \<Rightarrow> max 0 ((e - clock) div 1000000));
          active = (case s_hold_expires_at s of None \<Rightarrow> False | Some e \<Rightarrow> e - clock > 0 \<and> s_status s = HELD)
      in \<lparr>hr_hold_id = s_hold_id s, hr_flight_id = s_flight_id s, hr_seat_no = s_seat_no s, hr_cabin = s_cabin s,
          hr_price = s_price s, hr_currency = currency, hr_expires_at = s_hold_expires_at s,
          hr_seconds_remaining = remaining, hr_active = active\<rparr>)"

definition currency_for :: "db \<Rightarrow> uuid \<Rightarrow> string" where
  "currency_for d flight_id =
     (case select_one (\<lambda>f. fl_id f = flight_id) (d_flights d) of
        None \<Rightarrow> ''CAD''
      | Some f \<Rightarrow> if fl_currency f = [] then ''CAD'' else fl_currency f)"

definition create_hold ::
  "settings \<Rightarrow> time \<Rightarrow> time \<Rightarrow> user \<Rightarrow> uuid \<times> string \<Rightarrow> world \<Rightarrow> (exn + hold_response) \<times> world" where
  "create_hold st now clock u payload w =
     (case transact (acquire_hold st now (w_fresh w) (u_id u) (fst payload) (snd payload) None)
             (w\<lparr>w_fresh := Suc (w_fresh w)\<rparr>) of
        (Inl e, w') \<Rightarrow> (Inl e, w')
      | (Inr s, w') \<Rightarrow> (Inr (hold_to_response clock (currency_for (w_cur w') (s_flight_id s)) s), w'))"

text \<open>Live holds only, soonest expiry first.\<close>

definition list_my_holds :: "time \<Rightarrow> time \<Rightarrow> user \<Rightarrow> db \<Rightarrow> hold_response list" where
  "list_my_holds now clock u d =
     map (\<lambda>s. hold_to_response clock (currency_for d (s_flight_id s)) s)
       (order_by (\<lambda>s. the (s_hold_expires_at s))
          (select_where (\<lambda>s. s_held_by s = Some (u_id u) \<and> s_status s = HELD \<and> after (s_hold_expires_at s) now)
             (d_seats d)))"

definition get_hold ::
  "time \<Rightarrow> time \<Rightarrow> request option \<Rightarrow> uuid \<Rightarrow> user \<Rightarrow> world \<Rightarrow> (exn + hold_response) \<times> world" where
  "get_hold now clock rq hold_id u w =
     (case owned_hold now rq hold_id u w of
        (Inl e, w') \<Rightarrow> (Inl e, w')
      | (Inr s, w') \<Rightarrow> (Inr (hold_to_response clock (currency_for (w_cur w') (s_flight_id s)) s), w'))"

definition delete_hold :: "time \<Rightarrow> request option \<Rightarrow> uuid \<Rightarrow> user \<Rightarrow> world \<Rightarrow> (exn + unit) \<times> world" where
  "delete_hold now rq hold_id u w =
     (case owned_hold now rq hold_id u w of
        (Inl e, w') \<Rightarrow> (Inl e, w')
      | (Inr s, w') \<Rightarrow>
          (case release_hold hold_id (s_held_by s) (w_cur w') of
             (released, d) \<Rightarrow>
               (if released then Inr () else Inl (raise_app NotFound ''Hold is no longer active''),
                commit (map_cur (\<lambda>_. d) w'))))"

subsection \<open>Flights\<close>

definition MAX_SEARCH_DAYS_AHEAD :: int where "MAX_SEARCH_DAYS_AHEAD = 365"

record flight_summary =
  fs_flight :: flight
  fs_airline_name :: "string option"
  fs_seats_available :: nat

text \<open>\<open>SUM(CASE WHEN takeable THEN 1 ELSE 0 END)\<close> per flight; a flight without seats counts zero.\<close>

definition seats_available :: "time \<Rightarrow> db \<Rightarrow> uuid \<Rightarrow> nat" where
  "seats_available now d flight_id =
     sum_list (map (\<lambda>s. if takeable now s then 1 else 0) (filter (\<lambda>s. s_flight_id s = flight_id) (d_seats d)))"

definition airline_of :: "db \<Rightarrow> flight \<Rightarrow> airline option" where
  "airline_of d f = select_one (\<lambda>a. al_iata a = fl_airline_iata f) (d_airlines d)"

definition base_filters :: "string \<Rightarrow> string \<Rightarrow> int \<Rightarrow> flight \<Rightarrow> bool" where
  "base_filters origin destination departure_date f =
     (let day_start = seconds (departure_date * 86400); day_end = day_start + seconds 86400 in
      fl_src_iata f = upper origin \<and> fl_dst_iata f = upper destination \<and>
      day_start \<le> fl_depart_at f \<and> fl_depart_at f < day_end)"

text \<open>The inner join with \<open>airlines\<close>: a flight whose airline is not there gives no row.\<close>

definition matching_flights :: "string \<Rightarrow> string \<Rightarrow> int \<Rightarrow> db \<Rightarrow> flight list" where
  "matching_flights origin destination departure_date d =
     order_by fl_depart_at
       (filter (\<lambda>f. airline_of d f \<noteq> None) (select_where (base_filters origin destination departure_date) (d_flights d)))"

definition search_flights ::
  "time \<Rightarrow> int \<Rightarrow> string \<Rightarrow> string \<Rightarrow> int \<Rightarrow> nat \<Rightarrow> nat \<Rightarrow> db \<Rightarrow> exn + flight_summary page" where
  "search_flights now today origin destination departure_date p n d =
     (if departure_date > today + MAX_SEARCH_DAYS_AHEAD
      then Inl (raise_app NotFound ''No flights scheduled that far ahead'')
      else Inr (page_of p n
        (map (\<lambda>f. \<lparr>fs_flight = f, fs_airline_name = map_option al_name (airline_of d f),
                   fs_seats_available = seats_available now d (fl_id f)\<rparr>)
           (page_slice p n (matching_flights origin destination departure_date d)))
        (count_where (base_filters origin destination departure_date) (d_flights d))))"

definition get_flight :: "time \<Rightarrow> uuid \<Rightarrow> db \<Rightarrow> exn + flight_summary" where
  "get_flight now flight_id d =
     (case select_one (\<lambda>f. fl_id f = flight_id) (d_flights d) of
        None \<Rightarrow> Inl (raise_app NotFound ''No such flight'')
      | Some f \<Rightarrow>
          Inr \<lparr>fs_flight = f, fs_airline_name = map_option al_name (airline_of d f),
               fs_seats_available = count_where (\<lambda>s. s_flight_id s = flight_id \<and> takeable now s) (d_seats d)\<rparr>)"

record seat_response =
  sr_seat_no :: string
  sr_row_no :: nat
  sr_seat_letter :: string
  sr_cabin :: string
  sr_price :: cents
  sr_is_exit_row :: bool
  sr_available :: bool

record seat_map_response =
  sm_flight_id :: uuid
  sm_currency :: string
  sm_total_seats :: nat
  sm_available_seats :: nat
  sm_seats :: "seat_response list"

definition seat_response_of :: "time \<Rightarrow> seat \<Rightarrow> seat_response" where
  "seat_response_of now s =
     \<lparr>sr_seat_no = s_seat_no s, sr_row_no = s_row_no s, sr_seat_letter = s_letter s, sr_cabin = s_cabin s,
      sr_price = s_price s, sr_is_exit_row = s_is_exit_row s, sr_available = takeable now s\<rparr>"

definition seat_map :: "time \<Rightarrow> uuid \<Rightarrow> db \<Rightarrow> exn + seat_map_response" where
  "seat_map now flight_id d =
     (case select_one (\<lambda>f. fl_id f = flight_id) (d_flights d) of
        None \<Rightarrow> Inl (raise_app NotFound ''No such flight'')
      | Some f \<Rightarrow>
          (let seats = map (seat_response_of now)
                 (sort_key (\<lambda>s. (s_row_no s, s_letter s)) (select_where (\<lambda>s. s_flight_id s = flight_id) (d_seats d)))
           in Inr \<lparr>sm_flight_id = flight_id, sm_currency = fl_currency f, sm_total_seats = length seats,
                   sm_available_seats = length (filter sr_available seats), sm_seats = seats\<rparr>))"

subsection \<open>What is advertised can be held\<close>

lemma seats_available_count:
  "seats_available now d f = count_where (\<lambda>s. s_flight_id s = f \<and> takeable now s) (d_seats d)"
proof -
  have "sum_list (map (\<lambda>s. if takeable now s then 1 else 0) (filter (\<lambda>s. s_flight_id s = f) ss)) =
      length (filter (\<lambda>s. s_flight_id s = f \<and> takeable now s) ss)" for ss
    by (induction ss) auto
  then show ?thesis by (simp add: seats_available_def count_where_def)
qed

lemma length_filter_sort: "length (filter p (sort_key k xs)) = length (filter p xs)"
  by (metis filter_sort length_sort)

lemma seat_map_available:
  assumes "seat_map now f d = Inr m"
  shows "sm_available_seats m = seats_available now d f" "sm_total_seats m = count_where (\<lambda>s. s_flight_id s = f) (d_seats d)"
    "set (sm_seats m) = seat_response_of now ` {s \<in> set (d_seats d). s_flight_id s = f}"
proof -
  let ?rows = "sort_key (\<lambda>s. (s_row_no s, s_letter s)) (select_where (\<lambda>s. s_flight_id s = f) (d_seats d))"
  have m: "sm_available_seats m = length (filter sr_available (map (seat_response_of now) ?rows))"
    "sm_total_seats m = length ?rows" "sm_seats m = map (seat_response_of now) ?rows"
    using assms by (auto simp: seat_map_def Let_def split: option.splits)
  have "filter sr_available (map (seat_response_of now) xs) = map (seat_response_of now) (filter (takeable now) xs)" for xs
    by (induction xs) (auto simp: seat_response_of_def)
  then show "sm_available_seats m = seats_available now d f"
    unfolding m seats_available_count
    by (simp add: length_filter_sort select_where_def count_where_def conj_commute)
  show "sm_total_seats m = count_where (\<lambda>s. s_flight_id s = f) (d_seats d)"
    unfolding m by (simp add: select_where_def count_where_def)
  show "set (sm_seats m) = seat_response_of now ` {s \<in> set (d_seats d). s_flight_id s = f}"
    unfolding m by (auto simp: select_where_def)
qed

lemma acquire_decides:
  assumes ok: "sound d" and s: "s \<in> set (d_seats d)" "upper (s_seat_no s) = s_seat_no s"
    and cap: "count_active_holds now u d < max_active_holds_per_user st"
  shows "takeable now s \<Longrightarrow> \<exists>s' d'. acquire_hold st now h u (s_flight_id s) (s_seat_no s) None d = Inr (s', d') \<and>
           s_id s' = s_id s \<and> s_held_by s' = Some u"
    "\<not> takeable now s \<Longrightarrow> \<exists>e. acquire_hold st now h u (s_flight_id s) (s_seat_no s) None d = Inl e \<and> is_app SeatUnavailable e"
proof -
  have hit: "seat_matches (s_flight_id s) (s_seat_no s) s" using s(2) by (simp add: seat_matches_def)
  have ss: "seats_ok (d_seats d)" by (rule soundD [OF ok])
  let ?hu = "hold_update now (effective_ttl st None) h u (s_flight_id s) (s_seat_no s) d"
  obtain r d' where hu: "?hu = (r, d')" by (cases ?hu)
  show "\<exists>s' d'. acquire_hold st now h u (s_flight_id s) (s_seat_no s) None d = Inr (s', d') \<and>
           s_id s' = s_id s \<and> s_held_by s' = Some u" if t: "takeable now s"
  proof (cases rule: hold_update_cases [OF ss hu])
    case 1
    with hit s(1) t show ?thesis by blast
  next
    case (2 s')
    then have "s' = s" using seats_ok_unique_hit [OF ss _ s(1) _ hit] by blast
    with 2 hu cap show ?thesis
      by (simp add: acquire_hold_def Let_def acquire_after_cap_def take_seat_def)
  qed
  show "\<exists>e. acquire_hold st now h u (s_flight_id s) (s_seat_no s) None d = Inl e \<and> is_app SeatUnavailable e"
    if t: "\<not> takeable now s"
  proof (cases rule: hold_update_cases [OF ss hu])
    case 1
    have "0 < count_where (seat_matches (s_flight_id s) (s_seat_no s)) (d_seats d)"
      using s(1) hit by (auto simp: count_where_def length_pos_if_in_set filter_empty_conv)
    with 1 hu cap show ?thesis
      by (simp add: acquire_hold_def Let_def acquire_after_cap_def)
  next
    case (2 s')
    then have "s' = s" using seats_ok_unique_hit [OF ss _ s(1) _ hit] by blast
    with 2 t show ?thesis by simp
  qed
qed

text \<open>
  C18: the seat map, the flight page and the search agree on availability, and it is the
  availability the hold path decides by: at that instant, a seat shown as available can be
  held by any account below its cap, and holding one shown as taken is refused with
  \<open>seat_unavailable\<close>. Seat numbers are stored in upper case, which is how a hold looks them up.
\<close>

theorem advertised_is_holdable:
  assumes ok: "sound d" and m: "seat_map now f d = Inr m" and r: "r \<in> set (sm_seats m)"
    and up: "upper (sr_seat_no r) = sr_seat_no r"
    and cap: "count_active_holds now u d < max_active_holds_per_user st"
  shows "(if sr_available r
      then \<exists>s d'. acquire_hold st now h u f (sr_seat_no r) None d = Inr (s, d') \<and> s_seat_no s = sr_seat_no r \<and>
             s_held_by s = Some u
      else \<exists>e. acquire_hold st now h u f (sr_seat_no r) None d = Inl e \<and> is_app SeatUnavailable e) \<and>
    (\<exists>x. get_flight now f d = Inr x \<and> fs_seats_available x = sm_available_seats m) \<and>
    seats_available now d f = sm_available_seats m"
proof -
  obtain s where s: "s \<in> set (d_seats d)" "s_flight_id s = f" "r = seat_response_of now s"
    using r seat_map_available(3) [OF m] by auto
  have n: "sr_seat_no r = s_seat_no s" "sr_available r = takeable now s" using s(3) by (simp_all add: seat_response_of_def)
  have u: "upper (s_seat_no s) = s_seat_no s" using up n by simp
  have same: "s_seat_no s' = s_seat_no s"
    if "acquire_hold st now h u f (s_seat_no s) None d = Inr (s', d')" for s' d'
  proof -
    have "hold_update now (effective_ttl st None) h u f (s_seat_no s) d = (Some s', d')"
      using acquire_hold_Inr [OF that] by blast
    then show ?thesis
      using u by (auto simp: hold_update_def Let_def seat_matches_def dest!: select_one_Some)
  qed
  have "\<exists>x. get_flight now f d = Inr x \<and> fs_seats_available x = sm_available_seats m"
    using m seat_map_available(1) [OF m]
    by (auto simp: seat_map_def get_flight_def seats_available_count split: option.splits)
  then show ?thesis
    using acquire_decides [OF ok s(1) u cap, of h] same n s(2) seat_map_available(1) [OF m] by auto
qed

subsection \<open>The sweep is invisible\<close>

definition unversioned :: "seat \<Rightarrow> seat" where
  "unversioned s = s\<lparr>s_version := 0\<rparr>"

lemma select_one_update_where:
  assumes "\<forall>r \<in> set t. q r \<longrightarrow> p (f r) = p r"
  shows "select_one p (update_where q f t) = map_option (\<lambda>r. if q r then f r else r) (select_one p t)"
  using assms by (induction t) (auto simp: select_one_def update_where_Cons)

lemma count_where_update_where:
  assumes "\<forall>r \<in> set t. q r \<longrightarrow> p (f r) = p r"
  shows "count_where p (update_where q f t) = count_where p t"
  using assms by (induction t) (auto simp: count_where_def update_where_Cons)

lemma swept_seat:
  assumes "sweepable now s" "now \<le> t"
  shows "takeable t (free_hold s) = takeable t s" "takeable t s"
    "\<not> (s_status s = HELD \<and> after (s_hold_expires_at s) t)"
    "unversioned (take_seat u h e (free_hold s)) = unversioned (take_seat u h e s)"
proof -
  have "takeable t s" using assms by (auto simp: sweepable_def takeable_def before_def split: option.splits)
  then show "takeable t (free_hold s) = takeable t s" "takeable t s" by simp_all
  show "\<not> (s_status s = HELD \<and> after (s_hold_expires_at s) t)"
    using assms by (auto simp: sweepable_def before_def after_def split: option.splits)
  show "unversioned (take_seat u h e (free_hold s)) = unversioned (take_seat u h e s)"
    by (simp add: unversioned_def take_seat_def free_hold_def)
qed

lemma seat_matches_free [simp]: "seat_matches f n (free_hold s) = seat_matches f n s"
  by (simp add: seat_matches_def)

lemma sweep_counts:
  assumes "sweep_expired_holds now d = (k, d')" "now \<le> t"
  shows "count_active_holds t u d' = count_active_holds t u d" "seats_available t d' f = seats_available t d f"
    "count_where (seat_matches f n) (d_seats d') = count_where (seat_matches f n) (d_seats d)"
proof -
  have d': "d_seats d' = update_where (sweepable now) free_hold (d_seats d)"
    using assms(1) by (auto simp: sweep_expired_holds_def)
  show "count_active_holds t u d' = count_active_holds t u d"
    unfolding count_active_holds_def d'
    by (rule count_where_update_where) (use swept_seat(3) [OF _ assms(2)] in \<open>auto simp: free_hold_def\<close>)
  show "seats_available t d' f = seats_available t d f"
    unfolding seats_available_count d'
    by (rule count_where_update_where) (use swept_seat(2) [OF _ assms(2)] in auto)
  show "count_where (seat_matches f n) (d_seats d') = count_where (seat_matches f n) (d_seats d)"
    unfolding d' by (rule count_where_update_where) simp
qed

lemma sweep_hold_update:
  assumes "sweep_expired_holds now d = (k, d')" "now \<le> t"
  shows "map_option unversioned (fst (hold_update t ttl h u f n d')) = map_option unversioned (fst (hold_update t ttl h u f n d))"
    "count_where (seat_matches f n) (d_seats (snd (hold_update t ttl h u f n d'))) =
     count_where (seat_matches f n) (d_seats (snd (hold_update t ttl h u f n d)))"
proof -
  let ?hit = "\<lambda>s. seat_matches f n s \<and> takeable t s"
  have d': "d_seats d' = update_where (sweepable now) free_hold (d_seats d)"
    using assms(1) by (auto simp: sweep_expired_holds_def)
  have "select_one ?hit (d_seats d') = map_option (\<lambda>r. if sweepable now r then free_hold r else r) (select_one ?hit (d_seats d))"
    unfolding d' by (rule select_one_update_where) (use swept_seat(2) [OF _ assms(2)] in auto)
  then show "map_option unversioned (fst (hold_update t ttl h u f n d')) =
      map_option unversioned (fst (hold_update t ttl h u f n d))"
    by (cases "select_one ?hit (d_seats d)") (auto simp: hold_update_def Let_def swept_seat(4) [OF _ assms(2)])
  have c: "count_where (seat_matches f n) (update_where p (take_seat u h e) ss) = count_where (seat_matches f n) ss" for p e ss
    by (rule count_where_update_where) (simp add: seat_matches_def)
  show "count_where (seat_matches f n) (d_seats (snd (hold_update t ttl h u f n d'))) =
     count_where (seat_matches f n) (d_seats (snd (hold_update t ttl h u f n d)))"
    using sweep_counts(3) [OF assms] by (simp add: hold_update_def Let_def c)
qed

lemma acquire_after_cap_fst:
  "map_sum id (\<lambda>x. unversioned (fst x)) (acquire_after_cap t ttl h u f n d) =
     (case map_option unversioned (fst (hold_update t ttl h u f n d)) of
        Some s \<Rightarrow> Inr s
      | None \<Rightarrow> Inl (if count_where (seat_matches f n) (d_seats (snd (hold_update t ttl h u f n d))) = 0
                     then raise_app NotFound (''Flight has no seat '' @ upper n)
                     else raise_app SeatUnavailable (''Seat '' @ upper n @ '' is already taken'')))"
  by (simp add: acquire_after_cap_def split: prod.split option.split)


text \<open>Seat 12A lapsed under user 8, seat 12B free.\<close>

definition lapsed_db :: db where
  "lapsed_db = demo_db\<lparr>d_flights := [\<lparr>fl_id = 1, fl_flight_no = ''AC101'', fl_airline_iata = ''AC'', fl_src_iata = ''YOW'',
      fl_dst_iata = ''YYZ'', fl_depart_at = 10, fl_arrive_at = 20, fl_aircraft_type = ''A320'', fl_base_fare = 5,
      fl_currency = ''CAD''\<rparr>],
    d_seats := [take_seat 8 90 3 (demo_seat 10 ''12A'' 12 ''A''), demo_seat 11 ''12B'' 12 ''B'']\<rparr>"

lemma lapsed_sound: "sound lapsed_db"
proof (rule sound_same_logs [OF empty_sound])
  show "db_ok lapsed_db"
    by (simp add: db_ok_def lapsed_db_def demo_db_def empty_db_def seats_ok_def tickets_ok_def audit_ok_def
        unique_key_def demo_seat_def seat_ok_def take_seat_def flight_ok_def)
qed (simp_all add: lapsed_db_def demo_db_def)


theorem advertised_is_holdable_witness:
  "\<exists>s d'. acquire_hold default_settings 5 91 7 1 ''12A'' None lapsed_db = Inr (s, d') \<and> s_seat_no s = ''12A'' \<and> s_held_by s = Some 7"
proof -
  let ?r = "seat_response_of 5 (take_seat 8 90 3 (demo_seat 10 ''12A'' 12 ''A''))"
  obtain m where m: "seat_map 5 1 lapsed_db = Inr m"
    by (simp add: seat_map_def lapsed_db_def select_one_def Let_def)
  have r: "?r \<in> set (sm_seats m)"
    unfolding seat_map_available(3) [OF m] by (simp add: lapsed_db_def demo_seat_def)
  have n: "sr_seat_no ?r = ''12A''" "sr_available ?r"
    by (simp_all add: seat_response_of_def demo_seat_def take_seat_def takeable_def before_def)
  have up: "upper (sr_seat_no ?r) = sr_seat_no ?r" unfolding n by code_simp
  have c: "count_active_holds 5 7 lapsed_db < max_active_holds_per_user default_settings"
    by (simp add: count_active_holds_def count_where_def lapsed_db_def demo_seat_def take_seat_def default_settings_def)
  from advertised_is_holdable [OF lapsed_sound m r up c, of 91] show ?thesis by (simp add: n)
qed

subsection \<open>The life of a hold\<close>

lemma hold_taken:
  assumes w: "idle w" "sound (w_com w)"
    and fresh: "\<forall>s \<in> set (d_seats (w_com w)). s_hold_id s \<noteq> Some (w_fresh w)"
    and c: "create_hold st now clock u (f, n) w = (Inr r, w1)"
  obtains s t where "s \<in> set (d_seats (w_com w))" "seat_matches f n s" "takeable now s" "s_id t = s_id s"
    "t = take_seat (u_id u) (w_fresh w) (now + seconds (hold_ttl_seconds st)) s"
    "d_seats (w_com w1) = update_where (\<lambda>x. x = s) (\<lambda>_. t) (d_seats (w_com w))" "idle w1" "sound (w_com w1)"
    "hr_hold_id r = Some (w_fresh w)" "t \<in> set (d_seats (w_com w1))"
    "\<forall>x \<in> set (d_seats (w_com w1)). s_hold_id x = Some (w_fresh w) \<longrightarrow> x = t"
proof -
  have cur: "w_cur w = w_com w" using w(1) by (simp add: idle_def)
  let ?h = "w_fresh w" and ?d = "w_com w"
  obtain t d1 where a: "acquire_hold st now ?h (u_id u) f n None ?d = Inr (t, d1)"
    "w1 = commit (map_cur (\<lambda>_. d1) (w\<lparr>w_fresh := Suc ?h\<rparr>))" "r = hold_to_response clock (currency_for (w_cur w1) (s_flight_id t)) t"
    using c by (auto simp: create_hold_def transact_def cur split: sum.splits prod.splits)
  have hu: "hold_update now (hold_ttl_seconds st) ?h (u_id u) f n ?d = (Some t, d1)"
    using acquire_hold_Inr [OF a(1)] by (simp add: effective_ttl_def)
  have ok: "seats_ok (d_seats ?d)" by (rule soundD [OF w(2)])
  from hu show thesis
  proof (cases rule: hold_update_cases [OF ok hu])
    case 1
    then show ?thesis by simp
  next
    case (2 s)
    let ?t = "take_seat (u_id u) ?h (now + seconds (hold_ttl_seconds st)) s"
    have t: "t = ?t" and d1: "d1 = ?d\<lparr>d_seats := update_where (\<lambda>x. x = s) (take_seat (u_id u) ?h (now + seconds (hold_ttl_seconds st))) (d_seats ?d)\<rparr>"
      using 2 by simp_all
    have tab: "d_seats d1 = update_where (\<lambda>x. x = s) (\<lambda>_. t) (d_seats ?d)"
      unfolding d1 t by (auto simp: update_where_def)
    have snd: "sound d1"
      by (rule sound_same_logs [OF w(2)])
         (use hold_update_ok [OF soundD(1) [OF w(2)] hu] d1 in simp_all)
    show ?thesis
    proof (rule that [of s t])
      show "\<forall>x \<in> set (d_seats (w_com w1)). s_hold_id x = Some ?h \<longrightarrow> x = t"
        using fresh by (auto simp: a(2) tab elim!: in_update_whereE)
      show "t \<in> set (d_seats (w_com w1))" using 2(1) by (force simp: a(2) tab set_update_where)
      show "hr_hold_id r = Some ?h" by (simp add: a(3) hold_to_response_def Let_def t take_seat_def)
    qed (use 2 t tab snd a(2) in \<open>simp_all add: idle_def\<close>)
  qed
qed

text \<open>
  The life of a hold. The hold id in the response releases the seat again for its
  holder and for nobody else: the row is AVAILABLE with no holder and no booking, every other
  row is as it was before the hold, and releasing a second time is a 404.
\<close>

theorem hold_release_roundtrip:
  assumes w: "idle w" "sound (w_com w)"
    and fresh: "\<forall>s \<in> set (d_seats (w_com w)). s_hold_id s \<noteq> Some (w_fresh w)"
    and c: "create_hold st now clock u (f, n) w = (Inr r, w1)"
    and x: "delete_hold now2 rq2 (w_fresh w) u w1 = (res, w2)"
  shows "hr_hold_id r = Some (w_fresh w) \<and> res = Inr () \<and>
    (\<exists>s \<in> set (d_seats (w_com w)). seat_matches f n s \<and> takeable now s \<and>
       (\<forall>x \<in> set (d_seats (w_com w)). x \<noteq> s \<longrightarrow> x \<in> set (d_seats (w_com w2))) \<and>
       (\<exists>x \<in> set (d_seats (w_com w2)). s_id x = s_id s \<and> s_status x = AVAILABLE \<and> s_held_by x = None \<and>
          s_booking_id x = None)) \<and>
    (\<exists>e. fst (delete_hold now3 rq3 (w_fresh w) u w2) = Inl e \<and> is_app NotFound e) \<and>
    (\<forall>v. u_id v \<noteq> u_id u \<longrightarrow> (\<exists>e. fst (delete_hold now3 rq3 (w_fresh w) v w1) = Inl e \<and> is_app NotFound e))"
proof -
  let ?h = "w_fresh w"
  obtain s t where s: "s \<in> set (d_seats (w_com w))" "seat_matches f n s" "takeable now s" "s_id t = s_id s"
    "t = take_seat (u_id u) ?h (now + seconds (hold_ttl_seconds st)) s"
    "d_seats (w_com w1) = update_where (\<lambda>x. x = s) (\<lambda>_. t) (d_seats (w_com w))" "idle w1" "sound (w_com w1)"
    "hr_hold_id r = Some ?h" "t \<in> set (d_seats (w_com w1))"
    "\<forall>x \<in> set (d_seats (w_com w1)). s_hold_id x = Some ?h \<longrightarrow> x = t"
    by (rule hold_taken [OF w fresh c])
  have cur: "w_cur w1 = w_com w1" using s(7) by (simp add: idle_def)
  have t: "s_hold_id t = Some ?h" "s_held_by t = Some (u_id u)" "s_status t = HELD" "s_booking_id t = None"
    using s(5) by (simp_all add: take_seat_def)
  let ?own = "\<lambda>y. s_hold_id y = Some ?h \<and> s_held_by y = Some (u_id u)"
  have "select_one ?own (d_seats (w_com w1)) = Some t"
  proof (cases "select_one ?own (d_seats (w_com w1))")
    case None
    with s(10) t show ?thesis by (auto simp: select_one_None)
  next
    case (Some y)
    with s(11) show ?thesis using select_one_Some [OF Some] by blast
  qed
  then have own: "owned_hold now2 rq2 ?h u w1 = (Inr t, w1)" by (simp add: owned_hold_def cur)
  let ?hit = "\<lambda>y. s_hold_id y = Some ?h \<and> s_status y = HELD \<and> s_held_by y = Some (u_id u)"
  have hit: "?hit y \<longleftrightarrow> y = t" if "y \<in> set (d_seats (w_com w1))" for y using s(11) t that by auto
  have ne: "0 < count_where ?hit (d_seats (w_com w1))"
    using s(10) t by (auto simp: count_where_def filter_empty_conv)
  have r2: "res = Inr ()" "d_seats (w_com w2) = update_where ?hit free_hold (d_seats (w_com w1))" "idle w2"
    using x own ne by (auto simp: delete_hold_def release_hold_def t(2) cur idle_def)
  have tab: "d_seats (w_com w2) = update_where (\<lambda>y. y = t) free_hold (d_seats (w_com w1))"
    unfolding r2(2) by (rule update_where_cong) (rule hit)
  have other: "y \<in> set (d_seats (w_com w2))" if y: "y \<in> set (d_seats (w_com w))" "y \<noteq> s" for y
  proof -
    have "y \<noteq> t" using fresh y(1) t(1) by blast
    with y have "y \<in> set (d_seats (w_com w1))" "y \<noteq> t" unfolding s(6) by (auto simp: set_update_where)
    then show ?thesis unfolding tab by (auto simp: set_update_where)
  qed
  have freed: "free_hold t \<in> set (d_seats (w_com w2))" unfolding tab using s(10) by (force simp: set_update_where)
  have gone: "\<forall>y \<in> set (d_seats (w_com w2)). s_hold_id y \<noteq> Some ?h"
    unfolding tab using s(11) by (auto elim!: in_update_whereE simp: free_hold_def)
  then have again: "fst (delete_hold now3 rq3 ?h u w2) = Inl (raise_app NotFound ''No such hold'')"
    using r2(3) by (auto simp: delete_hold_def owned_hold_def idle_def select_one_None split: option.split dest: select_one_Some)
  have foreign: "fst (delete_hold now3 rq3 ?h v w1) = Inl (raise_app NotFound ''No such hold'')" if "u_id v \<noteq> u_id u" for v
  proof -
    have "select_one (\<lambda>y. s_hold_id y = Some ?h \<and> s_held_by y = Some (u_id v)) (d_seats (w_com w1)) = None"
      using s(11) t(2) that by (auto simp: select_one_None)
    then show ?thesis by (simp add: delete_hold_def owned_hold_def cur)
  qed
  have "s_id (free_hold t) = s_id s \<and> s_status (free_hold t) = AVAILABLE \<and> s_held_by (free_hold t) = None \<and>
      s_booking_id (free_hold t) = None"
    using s(4) t(4) by (simp add: free_hold_def)
  then show ?thesis
    using s(1-3,9) r2(1) other freed again foreign by (metis is_app_raise_app)
qed

definition lapsed_world :: world where
  "lapsed_world = \<lparr>w_com = lapsed_db, w_cur = lapsed_db, w_gw = empty_gateway, w_redis = empty_redis, w_fresh = 91\<rparr>"

theorem hold_release_roundtrip_witness:
  "\<exists>r w1 w2. create_hold default_settings 5 5 demo_user (1, ''12A'') lapsed_world = (Inr r, w1) \<and>
     delete_hold 6 None 91 demo_user w1 = (Inr (), w2) \<and>
     (\<exists>x \<in> set (d_seats (w_com w2)). s_id x = 10 \<and> s_status x = AVAILABLE)"
proof -
  let ?s = "take_seat 8 90 3 (demo_seat 10 ''12A'' 12 ''A'')"
  have w: "idle lapsed_world" "sound (w_com lapsed_world)" "w_fresh lapsed_world = 91"
    using lapsed_sound by (simp_all add: lapsed_world_def idle_def)
  have fresh: "\<forall>s \<in> set (d_seats (w_com lapsed_world)). s_hold_id s \<noteq> Some (w_fresh lapsed_world)"
    by (simp add: lapsed_world_def lapsed_db_def demo_seat_def take_seat_def)
  have s: "?s \<in> set (d_seats lapsed_db)" "s_seat_no ?s = ''12A''" "s_flight_id ?s = 1" "takeable 5 ?s"
    by (simp_all add: lapsed_db_def demo_seat_def take_seat_def takeable_def before_def)
  have up: "upper (s_seat_no ?s) = s_seat_no ?s" unfolding s(2) by code_simp
  have c: "count_active_holds 5 7 lapsed_db < max_active_holds_per_user default_settings"
    by (simp add: count_active_holds_def count_where_def lapsed_db_def demo_seat_def take_seat_def default_settings_def)
  from acquire_decides(1) [OF lapsed_sound s(1) up c s(4), of 91] obtain t d where
    "acquire_hold default_settings 5 91 7 1 ''12A'' None lapsed_db = Inr (t, d)" unfolding s by blast
  then obtain r w1 where r: "create_hold default_settings 5 5 demo_user (1, ''12A'') lapsed_world = (Inr r, w1)"
    by (simp add: create_hold_def transact_def lapsed_world_def demo_user_def)
  obtain res w2 where d: "delete_hold 6 None (w_fresh lapsed_world) demo_user w1 = (res, w2)"
    by (cases "delete_hold 6 None (w_fresh lapsed_world) demo_user w1")
  from hold_release_roundtrip [OF w(1,2) fresh r d, of 7 None] obtain s' x where
    x: "res = Inr ()" "s' \<in> set (d_seats lapsed_db)" "seat_matches 1 ''12A'' s'"
      "x \<in> set (d_seats (w_com w2))" "s_id x = s_id s'" "s_status x = AVAILABLE"
    by (auto simp: lapsed_world_def)
  have "s_id s' = 10"
    using x(2,3) by (auto simp: lapsed_db_def seat_matches_def demo_seat_def take_seat_def upper_def upper_char_def)
  with r d x w(3) show ?thesis by auto
qed

subsection \<open>Two observations\<close>

text \<open>
  The cap is counted before the UPDATE and not again: two requests of one account that both
  counted before either wrote end above it.
\<close>

lemma cap_is_check_then_act:
  "let st = default_settings\<lparr>max_active_holds_per_user := 1\<rparr> in
   count_active_holds 5 7 demo_db < max_active_holds_per_user st \<and>
   (case acquire_after_cap 5 600 90 7 1 ''12A'' demo_db of
      Inr (_, d) \<Rightarrow> (case acquire_after_cap 5 600 91 7 1 ''12B'' d of
         Inr (_, d') \<Rightarrow> count_active_holds 5 7 d' > max_active_holds_per_user st | Inl _ \<Rightarrow> False)
    | Inl _ \<Rightarrow> False)"
proof -
  have u: "upper ''12A'' = ''12A''" "upper ''12B'' = ''12B''" by code_simp+
  show ?thesis
    by (simp add: demo_db_def demo_seat_def count_active_holds_def count_where_def acquire_after_cap_def hold_update_def
        Let_def select_one_def seat_matches_def u takeable_def update_where_def take_seat_def after_def seconds_def)
qed

text \<open>
  Releasing a hold does not ask whether a booking has pinned the seat: a seat whose payment
  is running goes back to inventory and keeps the id of the booking.
\<close>

lemma release_ignores_booking:
  assumes "s \<in> set (d_seats d)" "s_hold_id s = Some h" "s_status s = HELD" "s_held_by s = Some u"
    and "release_hold h (Some u) d = (r, d')"
  shows "r" "\<exists>x \<in> set (d_seats d'). s_id x = s_id s \<and> s_status x = AVAILABLE \<and> s_booking_id x = s_booking_id s"
proof -
  let ?hit = "\<lambda>s. s_hold_id s = Some h \<and> s_status s = HELD \<and> s_held_by s = Some u"
  show "r" using assms by (auto simp: release_hold_def Let_def count_where_def filter_empty_conv)
  have "free_hold s \<in> set (update_where ?hit free_hold (d_seats d))"
    using assms(1-4) by (force simp: set_update_where)
  then show "\<exists>x \<in> set (d_seats d'). s_id x = s_id s \<and> s_status x = AVAILABLE \<and> s_booking_id x = s_booking_id s"
    using assms(5) by (intro bexI [of _ "free_hold s"]) (auto simp: release_hold_def Let_def free_hold_def)
qed

end
