(* ===== verification/Sky_System.thy ===== *)
theory Sky_System
  imports Sky_Bookings Sky_Inventory
begin

text \<open>
  The system as a whole. Any number of requests run at the same time, and what Postgres
  makes atomic is one transaction: \<open>txn\<close> has one rule per transaction of the services, with
  whatever the session of the request remembers (the booking, the payment, the seats it
  loaded earlier) as free parameters, so that a path of \<open>txn\<close> is any interleaving of any
  number of requests, sagas and sweeps. A state is the supply of ids and the committed
  database. The invariant of the system is proved for \<open>txn\<close>; that the handlers only do what
  \<open>txn\<close> allows is the refinement of \<^verbatim>\<open>Sky_Requests\<close>.
\<close>

inductive txn :: "uuid \<times> db \<Rightarrow> uuid \<times> db \<Rightarrow> bool" where
  ids: "n \<le> m \<Longrightarrow> txn (n, d) (m, d)"
| event: "txn (n, d) (n, add_event now rq et sv ea d)"
| create: "create_step clock now n draw u payload key d = Inr (x, d') \<Longrightarrow>
    txn (n, d) (n + Suc (length (bc_passengers payload)), d')"
| fail: "fail_payment reread mem b c det ev d = Inr (y, d') \<Longrightarrow> txn (n, d) (n, d')"
| start: "b_id b < n \<Longrightarrow> start_payment (new_payment n b tok fp k now) d = Inr (p, d') \<Longrightarrow> txn (n, d) (Suc n, d')"
| mark: "mark_unknown p d = Inr (q, d') \<Longrightarrow> txn (n, d) (n, d')"
| decline: "decline_step reread dft p r a d = Inr (y, d') \<Longrightarrow> txn (n, d) (n, d')"
| approve: "approve_step b p r d = Inr (bp, d') \<Longrightarrow> txn (n, d) (n, d')"
| issue: "b_id b < n \<Longrightarrow> \<forall>q \<in> set ps. p_id q < n \<Longrightarrow>
    issue_tickets reread clock now draw n b ps mem u tok d = (z, d') \<Longrightarrow> txn (n, d) (n + length ps, d')"
| begin_comp: "begin_compensation b p msg d = Inr (b', d') \<Longrightarrow> txn (n, d) (n, d')"
| review: "review_step now b p e d = Inr (b', d') \<Longrightarrow> txn (n, d) (n, d')"
| void: "void_step now b p ev d = Inr (b', d') \<Longrightarrow> txn (n, d) (n, d')"
| confirm: "confirm_step b p d = Inr (b', d') \<Longrightarrow> txn (n, d) (n, d')"
| cancel_review: "cancel_review_step b e d = Inr (b', d') \<Longrightarrow> txn (n, d) (n, d')"
| cancel_rows: "cancel_step now b u paid d = Inr (bn, d') \<Longrightarrow> txn (n, d) (n, d')"
| hold: "acquire_after_cap now ttl n u f sn d = Inr (s, d') \<Longrightarrow> txn (n, d) (Suc n, d')"
| release: "release_hold h uo d = (rel, d') \<Longrightarrow> txn (n, d) (n, d')"
| sweep: "sweep_expired_holds now d = (cnt, d') \<Longrightarrow> txn (n, d) (n, d')"
| claim: "try_claim st now key u ep dg d = (c, d') \<Longrightarrow> txn (n, d) (n, d')"
| complete: "txn (n, w_cur w) (n, w_cur (complete_claim key u status body bk w))"
| unclaim: "txn (n, w_cur w) (n, w_cur (release_claim key u w))"
| patch: "update_passengers u us b w = (Inr x, w') \<Longrightarrow> txn (n, w_cur w) (n, w_cur w')"
| enroll: "register_step cr st now n salt raw rq rr d = Inr (usr, d') \<Longrightarrow> txn (n, d) (n + 4, d')"
| account_row: "txn (n, d) (n, set_user usr d)"
| token: "issue_refresh_token cr st now n raw u rq fam par d = Inr d' \<Longrightarrow> txn (n, d) (n + 2, d')"
| rotate: "exchange cr st now n raw rq row u d = Inr d' \<Longrightarrow> txn (n, d) (Suc n, d')"
| revoke: "revoke_family now fam reason d = (k, d') \<Longrightarrow> txn (n, d) (n, d')"

subsection \<open>Ids below the supply\<close>

lemma fresh_mono: "fresh_for n d \<Longrightarrow> n \<le> m \<Longrightarrow> fresh_for m d"
  unfolding fresh_for_def by (meson order_less_le_trans)

text \<open>\<open>fresh_for\<close> reads five tables only.\<close>

lemma fresh_cong:
  assumes "d_bookings d' = d_bookings d" "d_passengers d' = d_passengers d" "d_payments d' = d_payments d"
    "d_tickets d' = d_tickets d" "d_seats d' = d_seats d"
  shows "fresh_for n d' = fresh_for n d"
  using assms by (simp add: fresh_for_def)

lemma ball_update_where:
  "\<forall>r. P (f r) = P r \<Longrightarrow> (\<forall>x \<in> set (update_where p f t). P x) = (\<forall>x \<in> set t. P x)"
  by (induction t) (auto simp: update_where_Cons)

lemma fresh_rows [simp]:
  "fresh_for n (set_booking_state bid st d) = fresh_for n d" "fresh_for n (set_payment p d) = fresh_for n d"
  by (simp_all add: fresh_for_def set_booking_state_def set_payment_def ball_update_where)

lemma fresh_seats:
  assumes "fresh_for n d" "\<forall>s \<in> set ss. \<forall>b. s_booking_id s = Some b \<longrightarrow> b < n"
  shows "fresh_for n (d\<lparr>d_seats := ss\<rparr>)"
  using assms by (simp add: fresh_for_def)

lemma fresh_flush:
  assumes "fresh_for n d" "flush_seats ps d = Inr d'"
    and "\<forall>p \<in> set ps. \<forall>b. s_booking_id (snd p) = Some b \<longrightarrow> b < n"
  shows "fresh_for n d'"
  using assms
proof (induction ps arbitrary: d)
  case Nil
  then show ?case by simp
next
  case (Cons p ps)
  obtain old new where p: "p = (old, new)" by (cases p)
  with Cons.prems obtain d1 where
    d1: "update_seats (\<lambda>r. s_id r = s_id old) (flush_seat old new) d = Inr d1" "flush_seats ps d1 = Inr d'"
    by (auto split: sum.splits)
  have e: "d1 = d\<lparr>d_seats := update_where (\<lambda>r. s_id r = s_id old) (flush_seat old new) (d_seats d)\<rparr>"
    using d1(1) by (auto simp: update_seats_def split: if_splits)
  have "\<forall>s \<in> set (d_seats d). \<forall>b. s_booking_id s = Some b \<longrightarrow> b < n" using Cons.prems(1) by (simp add: fresh_for_def)
  then have "fresh_for n d1"
    unfolding e using Cons.prems(1,3) p
    by (intro fresh_seats) (auto elim!: in_update_whereE simp: flush_seat_def split: if_splits)
  from Cons.IH [OF this d1(2)] Cons.prems(3) show ?case by simp
qed

lemma fresh_release: "fresh_for n d \<Longrightarrow> release_seats_for_booking now bid d = (k, d') \<Longrightarrow> fresh_for n d'"
  by (auto simp: release_seats_for_booking_def fresh_for_def set_update_where void_ticket_def free_seat_def free_hold_def)

lemma fresh_create:
  assumes "fresh_for n d" "create_step clock now n draw u payload key d = Inr (x, d')"
  shows "fresh_for (n + Suc (length (bc_passengers payload))) d'"
proof -
  let ?m = "n + Suc (length (bc_passengers payload))"
  obtain b seats where bs: "book_seats n u payload key b seats d = Inr (x, d')" and b: "b_id b = n"
    using assms(2) by (auto simp: create_step_def Let_def new_booking_def split: if_splits sum.splits)
  obtain d1 where d1: "insert_booking b d = Inr d1"
    using bs by (auto simp: book_seats_def split: sum.splits)
  let ?o = "ordered_seats seats"
  let ?r = "passenger_rows (Suc n) (b_id b) (bc_passengers payload) ?o"
  obtain d2 where d2: "flush_seats (zip ?o (map (pin_seat (b_id b)) ?o)) d1 = Inr d2"
    using bs d1 by (auto simp: book_seats_def Let_def split: sum.splits if_splits)
  have d': "d' = audit_record (b_id b) AE_SEATS_LOCKED (locked_args ?o)
      (audit_record (b_id b) AE_BOOKING_CREATED (created_args u b ?o key) (d2\<lparr>d_passengers := d_passengers d2 @ ?r\<rparr>))"
    and x: "dft_passengers x = ?r"
    using bs d1 d2 by (auto simp: book_seats_def Let_def split: sum.splits if_splits)
  have "fresh_for ?m d" using fresh_mono [OF assms(1)] by simp
  then have "fresh_for ?m d1"
    using d1 b by (auto simp: insert_booking_def fresh_for_def split: if_splits)
  moreover have "\<forall>p \<in> set (zip ?o (map (pin_seat (b_id b)) ?o)). \<forall>c. s_booking_id (snd p) = Some c \<longrightarrow> c < ?m"
    using b by (auto simp: zip_map_self)
  ultimately have "fresh_for ?m d2" using fresh_flush [OF _ d2] by blast
  moreover have "\<forall>p \<in> set ?r. p_id p < ?m \<and> p_booking_id p < ?m"
    using create_ids(2) [OF assms(2)] x by auto
  ultimately have "fresh_for ?m (d2\<lparr>d_passengers := d_passengers d2 @ ?r\<rparr>)" by (auto simp: fresh_for_def)
  then show ?thesis unfolding d' by simp
qed

lemma fresh_fail:
  assumes "fresh_for n d" "fail_payment reread mem b c det ev d = Inr (y, d')"
  shows "fresh_for n d'"
proof -
  let ?d = "audit_record (b_id b) ev (change_args (b_state b) BS_PAYMENT_FAILED
    (dict_update [(''failure_code'', JStr c)] det)) d"
  let ?ss = "map (recall reread mem) (select_where (\<lambda>s. s_booking_id s = Some (b_id b)) (d_seats ?d))"
  obtain d2 where d2: "flush_seats (map (\<lambda>s. (s, unpin_seat s)) ?ss) ?d = Inr d2"
      "d' = set_booking_state (b_id b) BS_PAYMENT_FAILED d2"
    using assms(2) by (auto simp: fail_payment_def Let_def split: sum.splits)
  have "fresh_for n ?d" using assms(1) by simp
  from fresh_flush [OF this d2(1)] show ?thesis unfolding d2(2) by (simp add: unpin_seat_def)
qed

lemma issue_loop_ids:
  "issue_loop now draw n bid k locked ps = (e, ts, ws) \<Longrightarrow>
   (\<forall>t \<in> set ts. t_booking_id t = bid \<and> t_id t < n + k + length ps \<and> t_passenger_id t \<in> p_id ` set ps) \<and>
   (\<forall>p \<in> set ws. s_booking_id (snd p) = Some bid)"
proof (induction ps arbitrary: k e ts ws)
  case Nil
  then show ?case by simp
next
  case (Cons p ps)
  show ?case
  proof (cases "Option.bind (p_seat_inventory_id p) (\<lambda>i. find (\<lambda>s. s_id s = i) locked)")
    case None
    with Cons.prems show ?thesis by simp
  next
    case (Some s)
    obtain e1 ts1 ws1 where il: "issue_loop now draw n bid (Suc k) locked ps = (e1, ts1, ws1)"
      by (cases "issue_loop now draw n bid (Suc k) locked ps")
    with Cons.prems Some have "ts = new_ticket (n + k) bid p s (generate_eticket_number (draw k)) now # ts1"
      "ws = (s, book_seat bid s) # ws1" by auto
    with Cons.IH [OF il] show ?thesis by (auto simp: new_ticket_def book_seat_def)
  qed
qed

lemma fresh_issue:
  assumes f: "fresh_for n d" and b: "b_id b < n" and ps: "\<forall>q \<in> set ps. p_id q < n"
    and it: "issue_tickets reread clock now draw n b ps mem u tok d = (z, d')"
  shows "fresh_for (n + length ps) d'"
proof -
  let ?m = "n + length ps"
  let ?lk = "locked_seats reread mem d"
  obtain lost d1 where v: "verify_seats clock (b_id b) u ?lk d = (lost, d1)"
    by (cases "verify_seats clock (b_id b) u ?lk d")
  have "fresh_for ?m d" using fresh_mono [OF f] by simp
  then have f1: "fresh_for ?m d1" using verify_frame [OF v] by (auto simp: fresh_for_def)
  obtain err ts ws where il: "issue_loop now draw n (b_id b) 0 ?lk ps = (err, ts, ws)"
    by (cases "issue_loop now draw n (b_id b) 0 ?lk ps")
  have f2: "fresh_for ?m d2" if fi: "flush_issued ts ws d1 = Inr d2" for d2
  proof -
    obtain da where da: "flush_seats ws d1 = Inr da" "insert_tickets ts da = Inr d2"
      using fi by (auto simp: flush_issued_def split: sum.splits)
    have "fresh_for ?m da"
      by (rule fresh_flush [OF f1 da(1)]) (use issue_loop_ids [OF il] b in fastforce)
    moreover have "d2 = da\<lparr>d_tickets := d_tickets da @ ts\<rparr>" by (rule insert_tickets_rows [OF da(2)])
    moreover have "\<forall>t \<in> set ts. t_id t < ?m \<and> t_passenger_id t < ?m \<and> t_booking_id t < ?m"
      using issue_loop_ids [OF il] b ps by fastforce
    ultimately show ?thesis by (auto simp: fresh_for_def)
  qed
  show ?thesis
    using it v il f1 f2 by (auto simp: issue_tickets_def Let_def split: if_splits sum.splits option.splits)
qed

lemma fresh_steps:
  "fresh_for n d \<Longrightarrow> mark_unknown p d = Inr (q, d') \<Longrightarrow> fresh_for n d'"
  "fresh_for n d \<Longrightarrow> decline_step reread dft p r a d = Inr (y, d') \<Longrightarrow> fresh_for n d'"
  "fresh_for n d \<Longrightarrow> approve_step b p r d = Inr (bp, d') \<Longrightarrow> fresh_for n d'"
  "fresh_for n d \<Longrightarrow> begin_compensation b p msg d = Inr (b', d') \<Longrightarrow> fresh_for n d'"
  "fresh_for n d \<Longrightarrow> review_step now b p e d = Inr (b', d') \<Longrightarrow> fresh_for n d'"
  "fresh_for n d \<Longrightarrow> void_step now b p ev d = Inr (b', d') \<Longrightarrow> fresh_for n d'"
  "fresh_for n d \<Longrightarrow> confirm_step b p d = Inr (b', d') \<Longrightarrow> fresh_for n d'"
  "fresh_for n d \<Longrightarrow> cancel_review_step b e d = Inr (b', d') \<Longrightarrow> fresh_for n d'"
  "fresh_for n d \<Longrightarrow> cancel_step now b u paid d = Inr (bn, d') \<Longrightarrow> fresh_for n d'"
proof -
  show "fresh_for n d \<Longrightarrow> mark_unknown p d = Inr (q, d') \<Longrightarrow> fresh_for n d'"
    by (auto simp: mark_unknown_def Let_def)
  show "fresh_for n d \<Longrightarrow> decline_step reread dft p r a d = Inr (y, d') \<Longrightarrow> fresh_for n d'"
    unfolding decline_step_def by (erule fresh_fail [rotated], simp)
  show "fresh_for n d \<Longrightarrow> approve_step b p r d = Inr (bp, d') \<Longrightarrow> fresh_for n d'"
    by (auto simp: approve_step_def Let_def split: sum.splits)
  show "fresh_for n d \<Longrightarrow> begin_compensation b p msg d = Inr (b', d') \<Longrightarrow> fresh_for n d'"
    by (auto simp: begin_compensation_def split: sum.splits)
  show "fresh_for n d \<Longrightarrow> review_step now b p e d = Inr (b', d') \<Longrightarrow> fresh_for n d'"
    by (auto simp: review_step_def Let_def dest!: fresh_release [rotated] split: prod.splits)
  show "fresh_for n d \<Longrightarrow> void_step now b p ev d = Inr (b', d') \<Longrightarrow> fresh_for n d'"
    by (auto simp: void_step_def Let_def dest!: fresh_release [rotated] split: prod.splits sum.splits)
  show "fresh_for n d \<Longrightarrow> confirm_step b p d = Inr (b', d') \<Longrightarrow> fresh_for n d'"
    by (auto simp: confirm_step_def split: sum.splits)
  show "fresh_for n d \<Longrightarrow> cancel_review_step b e d = Inr (b', d') \<Longrightarrow> fresh_for n d'"
    by (auto simp: cancel_review_step_def)
  show "fresh_for n d \<Longrightarrow> cancel_step now b u paid d = Inr (bn, d') \<Longrightarrow> fresh_for n d'"
    by (auto simp: cancel_step_def Let_def dest!: fresh_release [rotated] split: prod.splits sum.splits option.splits)
qed

subsection \<open>The invariant\<close>

fun system_ok :: "uuid \<times> db \<Rightarrow> bool" where
  "system_ok (n, d) = (sound d \<and> fresh_for n d)"

lemma complete_claim_db:
  "\<exists>ks. w_cur (complete_claim key u status body bk w) = (w_cur w)\<lparr>d_idem := ks\<rparr> \<and>
     (unique_key (\<lambda>k. (ik_key k, ik_user_id k)) (d_idem (w_cur w)) \<longrightarrow> unique_key (\<lambda>k. (ik_key k, ik_user_id k)) ks)"
proof (cases "select_one (claim_of key u) (d_idem (w_cur w)) = None")
  case True
  then show ?thesis by (intro exI [of _ "d_idem (w_cur w)"]) (simp add: complete_claim_def)
next
  case False
  let ?ks = "update_where (claim_of key u) (\<lambda>k. k\<lparr>ik_state := COMPLETED, ik_response_status := Some status,
                    ik_response_body := Some body, ik_booking_id := bk\<rparr>) (d_idem (w_cur w))"
  have "w_cur (complete_claim key u status body bk w) = (w_cur w)\<lparr>d_idem := ?ks\<rparr>"
    unfolding complete_claim_def if_not_P [OF False] by simp
  then show ?thesis by (intro exI [of _ ?ks]) (simp add: unique_key_update_where)
qed

lemma release_claim_db:
  "\<exists>ks. w_cur (release_claim key u w) = (w_cur w)\<lparr>d_idem := ks\<rparr> \<and>
     (unique_key (\<lambda>k. (ik_key k, ik_user_id k)) (d_idem (w_cur w)) \<longrightarrow> unique_key (\<lambda>k. (ik_key k, ik_user_id k)) ks)"
  by (intro exI [of _ "delete_where (claim_of key u) (d_idem (w_cur w))"])
     (simp add: release_claim_def unique_key_delete_where)

lemma claims_only_ok:
  assumes "sound d" "fresh_for n d" "d' = d\<lparr>d_idem := ks\<rparr>"
    "unique_key (\<lambda>k. (ik_key k, ik_user_id k)) (d_idem d) \<longrightarrow> unique_key (\<lambda>k. (ik_key k, ik_user_id k)) ks"
  shows "sound d' \<and> fresh_for n d'"
proof
  have "unique_key (\<lambda>k. (ik_key k, ik_user_id k)) (d_idem d)" using assms(1) by (simp add: sound_def db_ok_def)
  then show "sound d'" unfolding assms(3) using sound_idemI [OF assms(1)] assms(4) by blast
  show "fresh_for n d'" using assms(2,3) by (simp add: fresh_for_def)
qed

lemma accounts_ok:
  "fresh_for n (set_user usr d) = fresh_for n d"
  "issue_refresh_token cr st now i raw u rq fam par d = Inr d' \<Longrightarrow> fresh_for n d' = fresh_for n d"
  "exchange cr st now i raw rq row u d = Inr d' \<Longrightarrow> fresh_for n d' = fresh_for n d"
  "revoke_family now fm reason d = (k, d') \<Longrightarrow> fresh_for n d' = fresh_for n d"
  "register_step cr st now i salt raw rq rr d = Inr (usr', d') \<Longrightarrow> fresh_for n d' = fresh_for n d"
proof -
  show "fresh_for n (set_user usr d) = fresh_for n d" by (rule fresh_cong) (simp_all add: set_user_def)
  show i: "issue_refresh_token cr st now i raw u rq fam par d = Inr d' \<Longrightarrow> fresh_for n d' = fresh_for n d"
    for cr st now i raw u rq fam par d d'
    by (rule fresh_cong) (auto simp: issue_refresh_token_def insert_token_def split: if_splits)
  show "exchange cr st now i raw rq row u d = Inr d' \<Longrightarrow> fresh_for n d' = fresh_for n d"
    by (auto simp: exchange_def Let_def fresh_for_def dest!: i split: sum.splits)
  show "revoke_family now fm reason d = (k, d') \<Longrightarrow> fresh_for n d' = fresh_for n d"
    by (rule fresh_cong) (auto simp: revoke_family_def)
  show "register_step cr st now i salt raw rq rr d = Inr (usr', d') \<Longrightarrow> fresh_for n d' = fresh_for n d"
    by (auto simp: register_step_def Let_def insert_user_def fresh_for_def dest!: i split: sum.splits if_splits)
qed

lemma seats_only_ok:
  assumes "sound d" "fresh_for n d" "d' = d\<lparr>d_seats := update_where p g (d_seats d)\<rparr>"
    and g: "\<And>s. seat_ok (g s)" "\<And>s. s_id (g s) = s_id s" "\<And>s. s_flight_id (g s) = s_flight_id s"
      "\<And>s. s_seat_no (g s) = s_seat_no s" "\<And>s b. s_booking_id (g s) = Some b \<Longrightarrow> s_booking_id s = Some b"
  shows "sound d' \<and> fresh_for n d'"
proof
  show "sound d'"
    unfolding assms(3)
    by (rule sound_seatsI [OF assms(1)]) (use soundD(3) [OF assms(1)] g in \<open>auto intro!: seats_ok_update_where\<close>)
  show "fresh_for n d'"
    unfolding assms(3)
  proof (rule fresh_seats [OF assms(2)], intro ballI allI impI)
    fix s b assume s: "s \<in> set (update_where p g (d_seats d))" "s_booking_id s = Some b"
    from s(1) have "\<exists>s0 \<in> set (d_seats d). s_booking_id s0 = Some b"
      by (rule in_update_whereE) (use s(2) g(5) in blast)+
    then show "b < n" using assms(2) by (auto simp: fresh_for_def)
  qed
qed

lemma inventory_ok:
  assumes "sound d" "fresh_for n d"
  shows "acquire_after_cap now ttl i u f sn d = Inr (s, d') \<Longrightarrow> sound d' \<and> fresh_for n d'"
    "release_hold h uo d = (rel, d') \<Longrightarrow> sound d' \<and> fresh_for n d'"
    "sweep_expired_holds now d = (cnt, d') \<Longrightarrow> sound d' \<and> fresh_for n d'"
proof -
  assume "acquire_after_cap now ttl i u f sn d = Inr (s, d')"
  then have "d' = d\<lparr>d_seats := update_where (\<lambda>s. seat_matches f sn s \<and> takeable now s)
      (take_seat u i (now + seconds ttl)) (d_seats d)\<rparr>"
    using acquire_after_cap_Inr [of now ttl i u f sn d s d'] by (simp add: hold_update_def Let_def)
  then show "sound d' \<and> fresh_for n d'"
    by (rule seats_only_ok [OF assms]) (simp_all add: take_seat_def seat_ok_def)
next
  assume "release_hold h uo d = (rel, d')"
  then obtain p where "d' = d\<lparr>d_seats := update_where p free_hold (d_seats d)\<rparr>"
    by (auto simp: release_hold_def Let_def)
  then show "sound d' \<and> fresh_for n d'"
    by (rule seats_only_ok [OF assms]) (simp_all add: free_hold_def seat_ok_def)
next
  assume "sweep_expired_holds now d = (cnt, d')"
  then have "d' = d\<lparr>d_seats := update_where (sweepable now) free_hold (d_seats d)\<rparr>"
    by (auto simp: sweep_expired_holds_def)
  then show "sound d' \<and> fresh_for n d'"
    by (rule seats_only_ok [OF assms]) (simp_all add: free_hold_def seat_ok_def)
qed

lemma fresh_patch:
  assumes "update_passengers u us b w = (Inr x, w')" "fresh_for n (w_cur w)"
  shows "fresh_for n (w_cur w')"
proof -
  obtain ps rows cs where e: "idle w'" "w_com w' = (write_names ps (w_cur w))\<lparr>d_audit := d_audit (w_cur w) @ rows\<rparr>"
    by (rule update_passengers_effect [OF assms(1)])
  have names: "fresh_for n d' = fresh_for n d"
    if "map nameless (d_passengers d') = map nameless (d_passengers d)" "d_bookings d' = d_bookings d"
      "d_payments d' = d_payments d" "d_tickets d' = d_tickets d" "d_seats d' = d_seats d" for d d'
  proof -
    have "(\<forall>p \<in> set ps. p_id p < n \<and> p_booking_id p < n) \<longleftrightarrow>
        (\<forall>p \<in> set (map nameless ps). p_id p < n \<and> p_booking_id p < n)" for ps
      by (simp add: nameless_def)
    then have "(\<forall>p \<in> set (d_passengers d'). p_id p < n \<and> p_booking_id p < n) \<longleftrightarrow>
        (\<forall>p \<in> set (d_passengers d). p_id p < n \<and> p_booking_id p < n)"
      using that(1) by metis
    then show ?thesis using that(2-5) unfolding fresh_for_def by fastforce
  qed
  have "w_cur w' = w_com w'" using e(1) by (simp add: idle_def)
  then show ?thesis
    using names [of "w_cur w'" "w_cur w"] assms(2) e(2) write_names_nameless [of ps "w_cur w"]
    by (simp add: write_names_def)
qed

lemma txn_ok: "txn s s' \<Longrightarrow> system_ok s \<Longrightarrow> system_ok s'"
proof (induction rule: txn.induct)
  case (ids n m d)
  then show ?case using fresh_mono by auto
next
  case (create clock now n draw u payload key d x d')
  then show ?case using fresh_create [OF _ create.hyps] sound_create_step [OF _ _ create.hyps] by simp
next
  case (fail reread mem b c det ev d y d' n)
  then show ?case using fresh_fail [OF _ fail.hyps] sound_fail_payment [OF _ fail.hyps] by simp
next
  case (start b n tok fp k now d p d')
  have "fresh_for (Suc n) d" using start.prems fresh_mono by auto
  then have "fresh_for (Suc n) d'"
    using start.hyps by (auto simp: start_payment_def insert_payment_def new_payment_def fresh_for_def split: sum.splits if_splits)
  then show ?case using start.prems sound_start_payment [OF _ start.hyps(2)] by simp
next
  case (issue b n ps reread clock now draw mem u tok d z d')
  then show ?case using fresh_issue [OF _ issue.hyps] sound_issue_tickets [OF _ issue.hyps(3)] by simp
next
  case (hold now ttl n u f sn d s d')
  then show ?case using inventory_ok(1) [OF _ _ hold.hyps, of n] fresh_mono [of n d' "Suc n"] by simp
next
  case (release h uo d rel d' n)
  then have "sound d" "fresh_for n d" by simp_all
  from inventory_ok(2) [OF this release.hyps] show ?case by simp
next
  case (sweep now d cnt d' n)
  then have "sound d" "fresh_for n d" by simp_all
  from inventory_ok(3) [OF this sweep.hyps] show ?case by simp
next
  case (claim st now key u ep dg d c d' n)
  then show ?case
    using sound_try_claim [OF _ claim.hyps] try_claim_frame [OF claim.hyps] by (auto simp: fresh_for_def)
next
  case (complete n w key u status body bk)
  then show ?case
    using complete_claim_db [where key = key and u = u and status = status and body = body and bk = bk and w = w]
      claims_only_ok by (metis system_ok.simps)
next
  case (unclaim n w key u)
  then show ?case using release_claim_db [of key u w] claims_only_ok by (metis system_ok.simps)
next
  case (patch u us b w x w' n)
  have "sound (w_com w')" "idle w'"
    using update_passengers_effect [OF patch.hyps] patch.prems by (metis system_ok.simps)+
  then show ?case using fresh_patch [OF patch.hyps] patch.prems by (simp add: idle_def)
next
  case (enroll cr st now n salt raw rq rr d usr d')
  then show ?case
    using sound_register_step [OF _ enroll.hyps] accounts_ok(5) [OF enroll.hyps] fresh_mono [of n d "n + 4"] by simp
next
  case (token cr st now n raw u rq fam par d d')
  then show ?case using sound_issue [OF _ token.hyps] accounts_ok(2) [OF token.hyps] fresh_mono [of n d "n + 2"] by simp
next
  case (rotate cr st now n raw rq row u d d')
  then show ?case
    using sound_exchange [OF _ rotate.hyps] accounts_ok(3) [OF rotate.hyps] fresh_mono [of n d "Suc n"] by simp
next
  case (revoke now fam reason d k d' n)
  then show ?case using sound_revoke_family [OF _ revoke.hyps] accounts_ok(4) [OF revoke.hyps] by simp
next
  case (account_row n d usr)
  then show ?case by (simp add: accounts_ok(1))
qed (auto dest: fresh_steps sound_steps)

lemma txn_path: "txn\<^sup>*\<^sup>* s t \<Longrightarrow> system_ok s \<Longrightarrow> system_ok t"
  by (induction rule: rtranclp_induct) (auto intro: txn_ok)

text \<open>
  C1: no interleaving breaks the system. From any sound state, whatever transactions of
  whatever requests, sagas and sweeps commit in whatever order, the database satisfies every
  constraint, no two valid tickets are for one seat or for one passenger, a booked seat
  belongs to a booking and a held one has a holder and an expiry, and the history of every
  booking is numbered without a gap.
\<close>

theorem interleavings_keep_system_sound:
  assumes "system_ok s" "txn\<^sup>*\<^sup>* s (n, d)"
  shows "sound d \<and> fresh_for n d \<and>
    (\<forall>t \<in> set (d_tickets d). \<forall>t' \<in> set (d_tickets d). live_ticket t \<longrightarrow> live_ticket t' \<longrightarrow>
       t_seat_id t = t_seat_id t' \<or> t_passenger_id t = t_passenger_id t' \<longrightarrow> t = t') \<and>
    (\<forall>s \<in> set (d_seats d). (s_status s = BOOKED \<longrightarrow> s_booking_id s \<noteq> None) \<and>
       (s_status s = HELD \<longrightarrow> s_held_by s \<noteq> None \<and> s_hold_expires_at s \<noteq> None)) \<and>
    (\<forall>b. map a_seq (audit_rows b d) = [1..<Suc (length (audit_rows b d))])"
proof -
  have "system_ok (n, d)" using txn_path [OF assms(2,1)] .
  then have ok: "sound d" "fresh_for n d" by simp_all
  have tk: "unique_key t_seat_id (filter live_ticket (d_tickets d))" "unique_key t_passenger_id (filter live_ticket (d_tickets d))"
    using soundD(5) [OF ok(1)] by (auto simp: tickets_ok_def)
  have "\<forall>t \<in> set (d_tickets d). \<forall>t' \<in> set (d_tickets d). live_ticket t \<longrightarrow> live_ticket t' \<longrightarrow>
       t_seat_id t = t_seat_id t' \<or> t_passenger_id t = t_passenger_id t' \<longrightarrow> t = t'"
    using unique_keyD [OF tk(1)] unique_keyD [OF tk(2)] by auto
  moreover have "\<forall>s \<in> set (d_seats d). seat_ok s"
    using soundD(3) [OF ok(1)] by (simp add: seats_ok_def list_all_iff)
  moreover have "\<forall>b. map a_seq (audit_rows b d) = [1..<Suc (length (audit_rows b d))]"
    using soundD(2) [OF ok(1)] by (simp add: gap_free_def del: upt_Suc)
  ultimately show ?thesis using ok by (auto simp: seat_ok_def simp del: upt_Suc)
qed

theorem interleavings_keep_system_sound_witness:
  "sound (snd (sweep_expired_holds 9 (snd (release_hold 90 None lapsed_db))))"
proof -
  obtain r d where r: "release_hold 90 None lapsed_db = (r, d)" by (cases "release_hold 90 None lapsed_db")
  obtain k d' where s: "sweep_expired_holds 9 d = (k, d')" by (cases "sweep_expired_holds 9 d")
  have i: "system_ok (91, lapsed_db)"
    using lapsed_sound by (simp add: fresh_for_def lapsed_db_def demo_db_def empty_db_def demo_seat_def take_seat_def)
  have "txn (91, lapsed_db) (91, d)" "txn (91, d) (91, d')"
    using txn.release [OF r] txn.sweep [OF s] by blast+
  then have "txn\<^sup>*\<^sup>* (91, lapsed_db) (91, d')" by (meson rtranclp.rtrancl_into_rtrancl rtranclp.rtrancl_refl)
  from interleavings_keep_system_sound [OF i this] show ?thesis by (simp add: r s)
qed

subsection \<open>History is append-only\<close>

text \<open>
  The triggers of the migration \<^verbatim>\<open>alembic/versions/0002_append_only_tables.py\<close>: a row of
  \<open>booking_audit\<close> or \<open>security_events\<close> that was there before a statement must be there, the
  same, after it; otherwise \<open>skylock_forbid_mutation\<close> raises.
\<close>

definition forbid_mutation :: "db \<Rightarrow> db \<Rightarrow> exn option" where
  "forbid_mutation old new =
     (if take (length (d_audit old)) (d_audit new) \<noteq> d_audit old
      then Some (IntegrityError ''Table booking_audit is append-only'')
      else if take (length (d_events old)) (d_events new) \<noteq> d_events old
      then Some (IntegrityError ''Table security_events is append-only'')
      else None)"

definition grows :: "db \<Rightarrow> db \<Rightarrow> bool" where
  "grows d d' = ((\<exists>as. d_audit d' = d_audit d @ as) \<and> (\<exists>es. d_events d' = d_events d @ es))"

lemma grows_refl [simp]: "grows d d"
  by (simp add: grows_def)

text \<open>What a transaction is made of, each on top of what was done before.\<close>

lemma grows_rows [intro!]:
  "grows d d' \<Longrightarrow> grows d (audit_record b et a d')" "grows d d' \<Longrightarrow> grows d (add_event now rq se sv ea d')"
  "grows d d' \<Longrightarrow> grows d (set_booking_state bid st d')" "grows d d' \<Longrightarrow> grows d (set_payment p d')"
  "grows d d' \<Longrightarrow> grows d (d'\<lparr>d_passengers := ps\<rparr>)" "grows d d' \<Longrightarrow> grows d (d'\<lparr>d_seats := ss\<rparr>)"
  "grows d d' \<Longrightarrow> grows d (d'\<lparr>d_idem := ks\<rparr>)" "grows d d' \<Longrightarrow> grows d (d'\<lparr>d_tokens := rs\<rparr>)"
  "grows d d' \<Longrightarrow> grows d (set_user u d')"
  by (auto simp: grows_def audit_record_def add_event_def set_booking_state_def set_payment_def set_user_def split: prod.split)

lemma grows_same: "grows d d' \<Longrightarrow> d_audit d'' = d_audit d' \<and> d_events d'' = d_events d' \<Longrightarrow> grows d d''"
  by (simp add: grows_def)

lemma grows_statements:
  "grows d d' \<Longrightarrow> flush_seats ws d' = Inr d'' \<Longrightarrow> grows d d''"
  "grows d d' \<Longrightarrow> insert_tickets ts d' = Inr d'' \<Longrightarrow> grows d d''"
  "grows d d' \<Longrightarrow> insert_booking b d' = Inr d'' \<Longrightarrow> grows d d''"
  "grows d d' \<Longrightarrow> insert_payment p d' = Inr d'' \<Longrightarrow> grows d d''"
  "grows d d' \<Longrightarrow> insert_user u d' = Inr d'' \<Longrightarrow> grows d d''"
  "grows d d' \<Longrightarrow> issue_refresh_token cr st now i raw uid rq fam par d' = Inr d'' \<Longrightarrow> grows d d''"
  "grows d d' \<Longrightarrow> release_seats_for_booking now bid d' = (k, d'') \<Longrightarrow> grows d d''"
proof -
  show "grows d d' \<Longrightarrow> flush_seats ws d' = Inr d'' \<Longrightarrow> grows d d''" using flush_seats_frame by fastforce
  show "grows d d' \<Longrightarrow> insert_tickets ts d' = Inr d'' \<Longrightarrow> grows d d''"
    using insert_tickets_rows [of ts d' d''] by (simp add: grows_def)
  show "grows d d' \<Longrightarrow> insert_booking b d' = Inr d'' \<Longrightarrow> grows d d''"
    "grows d d' \<Longrightarrow> insert_payment p d' = Inr d'' \<Longrightarrow> grows d d''"
    "grows d d' \<Longrightarrow> insert_user u d' = Inr d'' \<Longrightarrow> grows d d''"
    "grows d d' \<Longrightarrow> issue_refresh_token cr st now i raw uid rq fam par d' = Inr d'' \<Longrightarrow> grows d d''"
    unfolding issue_refresh_token_def by (erule grows_same, rule insert_frames, assumption)+
  show "grows d d' \<Longrightarrow> release_seats_for_booking now bid d' = (k, d'') \<Longrightarrow> grows d d''"
    by (auto simp: release_seats_for_booking_def grows_def)
qed

lemma grows_create:
  assumes "create_step clock now n draw u payload key d = Inr (x, d')"
  shows "grows d d'"
proof -
  obtain b seats where bs: "book_seats n u payload key b seats d = Inr (x, d')"
    using assms by (auto simp: create_step_def Let_def split: if_splits sum.splits)
  then obtain d1 d2 ws where "insert_booking b d = Inr d1" "flush_seats ws d1 = Inr d2"
    "\<exists>ps a a'. d' = audit_record (b_id b) AE_SEATS_LOCKED a (audit_record (b_id b) AE_BOOKING_CREATED a' (d2\<lparr>d_passengers := ps\<rparr>))"
    by (fastforce simp: book_seats_def Let_def split: sum.splits if_splits)
  then show ?thesis using grows_statements(1,3) by (blast intro: grows_refl)
qed

lemma grows_fail: "grows d d0 \<Longrightarrow> fail_payment reread mem b c det ev d0 = Inr (y, d') \<Longrightarrow> grows d d'"
  by (auto simp: fail_payment_def Let_def dest!: grows_statements(1) [rotated] split: sum.splits)

lemma grows_verify: "grows d d0 \<Longrightarrow> verify_seats clock bid u ss d0 = (l, d') \<Longrightarrow> grows d d'"
proof (induction ss arbitrary: d0 l)
  case Nil
  then show ?case by simp
next
  case (Cons s ss)
  show ?case
  proof (cases "is_lost bid u s")
    case True
    with Cons show ?thesis by (auto split: prod.splits)
  next
    case False
    show ?thesis
      by (rule Cons.IH [OF _ Cons.prems(2) [unfolded verify_seats.simps(2) if_not_P [OF False]]])
         (use Cons.prems(1) in auto)
  qed
qed

lemma grows_issue:
  assumes "issue_tickets reread clock now draw n b ps mem u tok d = (z, d')"
  shows "grows d d'"
proof -
  let ?lk = "locked_seats reread mem d"
  obtain lost d1 where v: "verify_seats clock (b_id b) u ?lk d = (lost, d1)"
    by (cases "verify_seats clock (b_id b) u ?lk d")
  have g1: "grows d d1" by (rule grows_verify [OF grows_refl v])
  obtain err ts ws where il: "issue_loop now draw n (b_id b) 0 ?lk ps = (err, ts, ws)"
    by (cases "issue_loop now draw n (b_id b) 0 ?lk ps")
  have g2: "grows d d2" if "flush_issued ts ws d1 = Inr d2" for d2
    using that g1 by (auto simp: flush_issued_def dest: grows_statements(1,2) split: sum.splits)
  show ?thesis
    using assms v il g1 g2 by (auto simp: issue_tickets_def Let_def split: if_splits sum.splits option.splits)
qed

lemma grows_saga:
  "start_payment p d = Inr (q, d') \<Longrightarrow> grows d d'" "mark_unknown p d = Inr (q, d') \<Longrightarrow> grows d d'"
  "decline_step reread dft p r a d = Inr (y, d') \<Longrightarrow> grows d d'" "approve_step b p r d = Inr (bp, d') \<Longrightarrow> grows d d'"
  "begin_compensation b p msg d = Inr (b', d') \<Longrightarrow> grows d d'" "review_step now b p e d = Inr (b', d') \<Longrightarrow> grows d d'"
  "void_step now b p ev d = Inr (b', d') \<Longrightarrow> grows d d'" "confirm_step b p d = Inr (b', d') \<Longrightarrow> grows d d'"
  "cancel_review_step b e d = Inr (b', d') \<Longrightarrow> grows d d'" "cancel_step now b u paid d = Inr (bn, d') \<Longrightarrow> grows d d'"
proof -
  show "start_payment p d = Inr (q, d') \<Longrightarrow> grows d d'"
    by (auto simp: start_payment_def dest: grows_statements(4) [OF grows_refl] split: sum.splits)
  show "mark_unknown p d = Inr (q, d') \<Longrightarrow> grows d d'" by (auto simp: mark_unknown_def Let_def)
  show "decline_step reread dft p r a d = Inr (y, d') \<Longrightarrow> grows d d'"
    unfolding decline_step_def by (erule grows_fail [rotated]) auto
  show "approve_step b p r d = Inr (bp, d') \<Longrightarrow> grows d d'"
    by (auto simp: approve_step_def Let_def split: sum.splits)
  show "begin_compensation b p msg d = Inr (b', d') \<Longrightarrow> grows d d'"
    by (auto simp: begin_compensation_def split: sum.splits)
  show "review_step now b p e d = Inr (b', d') \<Longrightarrow> grows d d'"
    by (auto simp: review_step_def Let_def elim!: grows_statements(7) [rotated] split: prod.splits)
  show "void_step now b p ev d = Inr (b', d') \<Longrightarrow> grows d d'"
    by (auto simp: void_step_def Let_def elim!: grows_statements(7) [rotated] split: prod.splits sum.splits)
  show "confirm_step b p d = Inr (b', d') \<Longrightarrow> grows d d'"
    by (auto simp: confirm_step_def split: sum.splits)
  show "cancel_review_step b e d = Inr (b', d') \<Longrightarrow> grows d d'"
    by (auto simp: cancel_review_step_def)
  show "cancel_step now b u paid d = Inr (bn, d') \<Longrightarrow> grows d d'"
    by (auto simp: cancel_step_def Let_def elim!: grows_statements(7) [rotated] split: prod.splits sum.splits option.splits)
qed

lemma grows_accounts:
  "exchange cr st now i raw rq row u d = Inr d' \<Longrightarrow> grows d d'"
  "register_step cr st now i salt raw rq rr d = Inr (usr, d') \<Longrightarrow> grows d d'"
  "revoke_family now fm reason d = (k, d') \<Longrightarrow> grows d d'"
proof -
  show "exchange cr st now i raw rq row u d = Inr d' \<Longrightarrow> grows d d'"
    by (auto simp: exchange_def Let_def elim!: grows_statements(6) [rotated] split: sum.splits)
  show "register_step cr st now i salt raw rq rr d = Inr (usr, d') \<Longrightarrow> grows d d'"
    by (auto simp: register_step_def Let_def elim!: grows_statements(5) [rotated] grows_statements(6) [rotated] split: sum.splits)
  show "revoke_family now fm reason d = (k, d') \<Longrightarrow> grows d d'" by (auto simp: revoke_family_def)
qed

lemma txn_grows: "txn s s' \<Longrightarrow> grows (snd s) (snd s')"
proof (induction rule: txn.induct)
  case (hold now ttl n u f sn d s d')
  then show ?case using acquire_after_cap_Inr [OF hold] by (auto simp: hold_update_def Let_def)
next
  case (complete n w key u status body bk)
  then show ?case
    using complete_claim_db [where key = key and u = u and status = status and body = body and bk = bk and w = w] by auto
next
  case (unclaim n w key u)
  then show ?case using release_claim_db [of key u w] by auto
next
  case (claim st now key u ep dg d c d' n)
  then show ?case using try_claim_frame [OF claim] by auto
next
  case (patch u us b w x w' n)
  obtain ps rows cs where "idle w'" "w_com w' = (write_names ps (w_cur w))\<lparr>d_audit := d_audit (w_cur w) @ rows\<rparr>"
    by (rule update_passengers_effect [OF patch])
  then show ?case by (simp add: grows_def idle_def write_names_def)
next
  case (token cr st now n raw u rq fam par d d')
  then show ?case using grows_statements(6) [OF grows_refl token] by simp
next
  case (fail reread mem b c det ev d y d' n)
  then show ?case using grows_fail [OF grows_refl fail] by simp
qed (auto simp: release_hold_def sweep_expired_holds_def Let_def intro: grows_create grows_issue
      grows_saga grows_accounts)

lemma txn_path_grows: "txn\<^sup>*\<^sup>* s t \<Longrightarrow> grows (snd s) (snd t)"
proof (induction rule: rtranclp_induct)
  case base
  then show ?case by simp
next
  case (step y z)
  then show ?case using txn_grows [of y z] by (auto simp: grows_def)
qed

text \<open>
  C11: the append-only triggers never fire. Along every interleaving the two history tables
  only get rows added at the end, so whatever was once recorded of a booking or an incident
  is there unchanged in every later state.
\<close>

theorem history_is_append_only:
  assumes "txn\<^sup>*\<^sup>* (n, d) (n', d')"
  shows "forbid_mutation d d' = None \<and> set (d_audit d) \<subseteq> set (d_audit d') \<and> set (d_events d) \<subseteq> set (d_events d')"
  using txn_path_grows [OF assms] by (auto simp: grows_def forbid_mutation_def)

theorem history_is_append_only_witness:
  "forbid_mutation lapsed_db (add_event 5 None SE_LOGIN_FAILED SV_LOW no_args (snd (sweep_expired_holds 9 lapsed_db))) = None"
proof -
  obtain k d where s: "sweep_expired_holds 9 lapsed_db = (k, d)" by (cases "sweep_expired_holds 9 lapsed_db")
  have "txn (91, lapsed_db) (91, d)" "txn (91, d) (91, add_event 5 None SE_LOGIN_FAILED SV_LOW no_args d)"
    by (rule txn.sweep [OF s], rule txn.event)
  then have "txn\<^sup>*\<^sup>* (91, lapsed_db) (91, add_event 5 None SE_LOGIN_FAILED SV_LOW no_args d)"
    by (meson rtranclp.rtrancl_into_rtrancl rtranclp.rtrancl_refl)
  from history_is_append_only [OF this] show ?thesis by (simp add: s)
qed

end
