(* ===== verification/Sky_Requests.thy ===== *)
theory Sky_Requests
  imports Sky_System
begin

text \<open>
  The refinement between the handlers and the transactions of \<^verbatim>\<open>Sky_System\<close>: whatever a request
  does, step by step over the world, is a path of \<open>txn\<close> over the database, so every invariant
  of the interleavings holds for the service. The saga is covered by interpreting
  \<open>saga_invariant\<close> at the predicate \<open>reachable by txn\<close>.
\<close>

subsection \<open>The handlers only do what the transactions allow\<close>

text \<open>
  \<open>serves w w'\<close>: one request, or one pass of the background sweep, takes the process from \<open>w\<close>
  to \<open>w'\<close>. Every request has a session of its own, which begins at the committed rows
  (\<open>get_db\<close>); one rule per route that writes. Reads that are denied write too: a security event.
\<close>

inductive serves :: "world \<Rightarrow> world \<Rightarrow> bool" where
  signup: "register cr st now salt raw rq rr (rollback w) = (r1, w') \<Longrightarrow> serves w w'"
| signin: "login cr st now raw rq lr (rollback w) = (r2, w') \<Longrightarrow> serves w w'"
| refresh: "refresh_tokens cr st now nraw rq raw (rollback w) = (r3, w') \<Longrightarrow> serves w w'"
| signout: "serves w (logout cr now raw (rollback w))"
| hold: "create_hold st now clock u hp (rollback w) = (r4, w') \<Longrightarrow> serves w w'"
| show_hold: "get_hold now clock rq hid u (rollback w) = (r5, w') \<Longrightarrow> serves w w'"
| unhold: "delete_hold now rq hid u (rollback w) = (r6, w') \<Longrightarrow> serves w w'"
| book: "create_booking sha fp reread st now dr req uid payload key (rollback w) = (r7, w') \<Longrightarrow> serves w w'"
| show_booking: "get_booking now rq ref u (rollback w) = (r8, w') \<Longrightarrow> serves w w'"
| show_audit: "booking_audit_log now rq ref u (rollback w) = (r9, w') \<Longrightarrow> serves w w'"
| patch: "update_booking now rq ref u us (rollback w) = (r10, w') \<Longrightarrow> serves w w'"
| cancel: "cancel_booking now rq ref u (rollback w) = (r11, w') \<Longrightarrow> serves w w'"
| admin: "require_admin now u (rollback w) = (r12, w') \<Longrightarrow> serves w w'"
| sweep: "transact (\<lambda>d. Inr (sweep_expired_holds now d)) (rollback w) = (r13, w') \<Longrightarrow> serves w w'"

lemma txn_star: "txn\<^sup>*\<^sup>* s (n, d) \<Longrightarrow> txn (n, d) t \<Longrightarrow> txn\<^sup>*\<^sup>* s t"
  by (rule rtranclp.rtrancl_into_rtrancl)

interpretation reach: saga_invariant "\<lambda>n d. txn\<^sup>*\<^sup>* s (n, d)" for s
  by unfold_locales (rule txn_star, assumption, rule txn.intros; assumption)+

lemma reach_step:
  assumes "reach.at_inv s w" "txn\<^sup>*\<^sup>* (w_fresh w, w_cur w) (n, d)" "w_fresh w \<le> n"
  shows "reach.at_inv s (commit (map_cur (\<lambda>_. d) (w\<lparr>w_fresh := n\<rparr>)))"
  using assms rtranclp_trans [of txn s "(w_fresh w, w_cur w)" "(n, d)"] by (simp add: reach.at_inv_def)

lemmas reach_txn = reach_step [OF _ r_into_rtranclp]

lemma reach_transact:
  assumes "reach.at_inv s w" "transact body (w\<lparr>w_fresh := n\<rparr>) = (r, w')" "w_fresh w \<le> n"
    and "\<And>x d. body (w_cur w) = Inr (x, d) \<Longrightarrow> txn\<^sup>*\<^sup>* (w_fresh w, w_cur w) (n, d)"
  shows "reach.at_inv s w'"
proof -
  have "txn\<^sup>*\<^sup>* s (n, d)" if "body (w_cur w) = Inr (x, d)" for x d
    using assms(1) assms(4) [OF that] by (auto simp: reach.at_inv_def)
  then show ?thesis by (rule reach.transacted_ids(1) [OF assms(1-3)])
qed

lemma reach_denied: "reach.at_inv s w \<Longrightarrow> reach.at_inv s (deny now rq uid rt rid w)"
  by (simp add: deny_def)

lemma reach_owned:
  "reach.at_inv s w \<Longrightarrow> owned_booking now rq ref u w = (r, w') \<Longrightarrow> reach.at_inv s w'"
  "reach.at_inv s w \<Longrightarrow> owned_hold now rq hid u w = (r', w') \<Longrightarrow> reach.at_inv s w'"
  by (auto simp: owned_booking_def owned_hold_def intro: reach_denied split: option.splits)

lemma reach_with_booking:
  assumes "reach.at_inv s w" "with_booking now rq ref u handler w = (r, w')"
    and "\<And>b v x v'. reach.at_inv s v \<Longrightarrow> handler b v = (x, v') \<Longrightarrow> reach.at_inv s v'"
  shows "reach.at_inv s w'"
  using assms(2) reach_owned(1) [OF assms(1)] assms(3)
  by (fastforce simp: with_booking_def split: prod.splits sum.splits)

lemma reach_patched:
  assumes "reach.at_inv s w" "update_passengers uid us b w = (r, w')"
  shows "reach.at_inv s w'"
proof (cases r)
  case (Inl e)
  then show ?thesis
    using assms by (auto simp: update_passengers_def Let_def split: sum.splits prod.splits)
next
  case (Inr x)
  with assms(2) have up: "update_passengers uid us b w = (Inr x, w')" by simp
  have "idle w'" "w_fresh w' = w_fresh w"
    using up by (auto simp: update_passengers_def Let_def idle_def split: sum.splits prod.splits)
  moreover have "txn\<^sup>*\<^sup>* s (w_fresh w, w_cur w')"
    using txn_star [OF _ txn.patch [OF up, of "w_fresh w"]] assms(1) by (simp add: reach.at_inv_def)
  ultimately show ?thesis by (simp add: reach.at_inv_def idle_def)
qed

lemma reach_claims:
  assumes "reach.at_inv s w"
  shows "reach.at_inv s (complete_claim key uid status body bk w)" "reach.at_inv s (release_claim key uid w)"
proof -
  have "w_fresh (complete_claim key uid status body bk w) = w_fresh w"
    "w_com (complete_claim key uid status body bk w) \<in> {w_com w, w_cur (complete_claim key uid status body bk w)}"
    by (simp_all add: complete_claim_def)
  then show "reach.at_inv s (complete_claim key uid status body bk w)"
    using assms txn_star [OF _ txn.complete, of s "w_fresh w" w] by (auto simp: reach.at_inv_def)
  have "w_fresh (release_claim key uid w) = w_fresh w" "w_com (release_claim key uid w) = w_cur (release_claim key uid w)"
    by (simp_all add: release_claim_def)
  then show "reach.at_inv s (release_claim key uid w)"
    using assms txn_star [OF _ txn.unclaim, of s "w_fresh w" w key uid] by (simp add: reach.at_inv_def)
qed

lemma reach_begin:
  assumes "reach.at_inv s w" "begin_claim sha st now key uid ep payload w = (r, w')"
  shows "reach.at_inv s w'"
proof -
  obtain c d where t: "try_claim st now key uid ep (request_hash sha payload) (w_cur w) = (c, d)"
    by (cases "try_claim st now key uid ep (request_hash sha payload) (w_cur w)")
  have "w' = commit (map_cur (\<lambda>_. d) w)"
    using assms(2) t by (auto simp: begin_claim_def Let_def split: if_splits sum.splits)
  then show ?thesis
    using assms(1) txn_star [OF _ txn.claim [OF t, of "w_fresh w"]] by (simp add: reach.at_inv_def)
qed

lemma reach_booked:
  assumes "reach.at_inv s w" "create_booking sha fp reread st now dr rq uid payload key w = (r, w')"
  shows "reach.at_inv s w'"
proof -
  obtain x w1 where b: "begin_claim sha st now key uid ''POST /bookings'' (model_dump payload) w = (x, w1)"
    by (cases "begin_claim sha st now key uid ''POST /bookings'' (model_dump payload) w")
  obtain y w2 where r: "run fp reread dr (Some rq) uid payload key w1 = (y, w2)"
    by (cases "run fp reread dr (Some rq) uid payload key w1")
  have 1: "reach.at_inv s w1" by (rule reach_begin [OF assms(1) b])
  have 2: "reach.at_inv s w2" by (rule reach.ran [OF r 1])
  show ?thesis
    using assms(2) b r 1 2 reach_claims [OF 2] reach_claims [OF reach.other_parts(5) [OF 2]]
    by (auto simp: create_booking_def split: sum.splits option.splits exn.splits)
qed

lemma reach_login:
  assumes "reach.at_inv s w" "login cr st now raw rq lr w = (r, w')"
  shows "reach.at_inv s w'"
proof -
  have ev: "txn\<^sup>*\<^sup>* t (n, d) \<Longrightarrow> txn\<^sup>*\<^sup>* t (n, login_event now' rq' et sv ac em dc dt d)" for t n d now' rq' et sv ac em dc dt
    unfolding login_event_def by (erule txn_star) (rule txn.event)
  have row: "txn\<^sup>*\<^sup>* t (n, d) \<Longrightarrow> txn\<^sup>*\<^sup>* t (n, set_user v d)" for t n d v
    by (erule txn_star) (rule txn.account_row)
  have ok: "reach.at_inv s w1"
    if t: "transact (\<lambda>d. case issue_refresh_token cr st now (w_fresh w) raw (u_id u) rq None None (set_user u' d) of
          Inl e \<Rightarrow> Inl e
        | Inr d' \<Rightarrow> Inr ((), login_event now rq SE_LOGIN_SUCCEEDED SV_INFO (Some (u_id u)) em None [] d'))
        (w\<lparr>w_fresh := w_fresh w + 3\<rparr>) = (x, w1)" for u u' em x w1
  proof (rule reach_transact [OF assms(1) t])
    fix y d
    assume "(case issue_refresh_token cr st now (w_fresh w) raw (u_id u) rq None None (set_user u' (w_cur w)) of
          Inl e \<Rightarrow> Inl e
        | Inr d' \<Rightarrow> Inr ((), login_event now rq SE_LOGIN_SUCCEEDED SV_INFO (Some (u_id u)) em None [] d')) = Inr (y, d)"
    then obtain d1 where i: "issue_refresh_token cr st now (w_fresh w) raw (u_id u) rq None None (set_user u' (w_cur w)) = Inr d1"
      "d = login_event now rq SE_LOGIN_SUCCEEDED SV_INFO (Some (u_id u)) em None [] d1"
      by (auto split: sum.splits)
    have "txn\<^sup>*\<^sup>* (w_fresh w, w_cur w) (w_fresh w + 2, d1)"
      by (rule txn_star [OF row txn.token [OF i(1)]]) simp
    then have "txn\<^sup>*\<^sup>* (w_fresh w, w_cur w) (w_fresh w + 3, d1)" by (rule txn_star [OF _ txn.ids]) simp
    then show "txn\<^sup>*\<^sup>* (w_fresh w, w_cur w) (w_fresh w + 3, d)" unfolding i(2) by (rule ev)
  qed simp
  have com: "reach.at_inv s (commit (map_cur f w))" if "txn\<^sup>*\<^sup>* s (w_fresh w, f (w_cur w))" for f
    using assms(1) that by (simp add: reach.at_inv_def)
  have cur: "txn\<^sup>*\<^sup>* s (w_fresh w, w_cur w)" using assms(1) by (simp add: reach.at_inv_def)
  have com1: "reach.at_inv s (commit (map_cur (login_event now rq et sv ac em dc dt) w))" for et sv ac em dc dt
    by (rule com) (rule ev [OF cur])
  have com2: "reach.at_inv s (commit (map_cur (\<lambda>d. login_event now rq et sv ac em dc dt (set_user v d)) w))"
    for et sv ac em dc dt v
    by (rule com) (rule ev [OF row [OF cur]])
  show ?thesis
  proof (cases "select_one (\<lambda>u. u_email u = normalize_email (lr_email lr)) (d_users (w_cur w))")
    case None
    then show ?thesis using assms com1 by (auto simp: login_def Let_def split: if_splits)
  next
    case (Some u)
    then show ?thesis
      using assms(2) com1 com2 ok
      by (cases "is_locked now u"; cases "verify_password cr (lr_password lr) (Some (u_password_hash u))")
        (fastforce simp: login_def Let_def split: prod.splits sum.splits)+
  qed
qed

lemma reach_refresh:
  assumes "reach.at_inv s w" "refresh_tokens cr st now nraw rq raw w = (r, w')"
  shows "reach.at_inv s w'"
proof -
  obtain x w1 where r: "rotate_refresh_token cr st now nraw rq raw w = (x, w1)"
    by (cases "rotate_refresh_token cr st now nraw rq raw w")
  have cur: "txn\<^sup>*\<^sup>* s (w_fresh w, w_cur w)" using assms(1) by (simp add: reach.at_inv_def)
  have reuse: "reach.at_inv s w2" if "reuse_detected now rq row w = (e, w2)" for row e w2
  proof -
    obtain k d where v: "revoke_family now (rt_family_id row) ''reuse_detected'' (w_cur w) = (k, d)"
      by (cases "revoke_family now (rt_family_id row) ''reuse_detected'' (w_cur w)")
    have "txn\<^sup>*\<^sup>* s (w_fresh w, add_event now rq et sv ea d)" for et sv ea
      by (rule txn_star [OF txn_star [OF cur txn.revoke [OF v]] txn.event])
    then show ?thesis using that v by (auto simp: reuse_detected_def record_security_event_def reach.at_inv_def)
  qed
  have rot: "reach.at_inv s (map_cur (\<lambda>_. d) (w\<lparr>w_fresh := Suc (w_fresh w)\<rparr>))"
    if "exchange cr st now (w_fresh w) nraw rq row u (w_cur w) = Inr d" for row u d
    using txn_star [OF cur txn.rotate [OF that]] reach.more_ids [of s "w_fresh w" "w_com w" "Suc (w_fresh w)"] assms(1)
    by (simp add: reach.at_inv_def)
  have "reach.at_inv s w1"
    using r assms(1) reuse rot
    by (auto simp: rotate_refresh_token_def refresh_rejected_def split: option.splits if_splits prod.splits sum.splits)
  then show ?thesis
    using assms(2) r reach.drawn [of s w1 "Suc (w_fresh w1)"] by (auto simp: refresh_tokens_def split: sum.splits)
qed

lemma serves_reach:
  assumes "serves w w'" "reach.at_inv s (rollback w)"
  shows "reach.at_inv s w'"
proof -
  note 0 = assms(2)
  from assms(1) show ?thesis
  proof cases
    case (signup cr st now salt raw rq rr r1)
    obtain x w1 where t: "transact (register_step cr st now (w_fresh w) salt raw rq rr)
        ((rollback w)\<lparr>w_fresh := w_fresh (rollback w) + 4\<rparr>) = (x, w1)" by force
    have "w' = w1" using signup t by (auto simp: register_def split: sum.splits)
    moreover have "reach.at_inv s w1"
      by (rule reach_transact [OF 0 t]) (auto intro: txn.enroll)
    ultimately show ?thesis by simp
  next
    case (signout cr now raw)
    have "txn\<^sup>*\<^sup>* s (w_fresh w, snd (revoke_family now f rs (w_com w)))" for f rs
      using assms(2) txn_star [OF _ txn.revoke [OF prod.collapse [symmetric]]] by (simp add: reach.at_inv_def)
    with 0 show ?thesis unfolding signout by (auto simp: logout_def reach.at_inv_def split: option.splits)
  next
    case (hold st now clock u hp r4)
    obtain x w1 where t: "transact (acquire_hold st now (w_fresh w) (u_id u) (fst hp) (snd hp) None)
        ((rollback w)\<lparr>w_fresh := Suc (w_fresh (rollback w))\<rparr>) = (x, w1)" by force
    have "w' = w1" using hold t by (auto simp: create_hold_def split: sum.splits)
    moreover have "reach.at_inv s w1"
      by (rule reach_transact [OF 0 t]) (auto simp: acquire_hold_def Let_def split: if_splits intro: txn.hold)
    ultimately show ?thesis by simp
  next
    case (show_hold now clock rq hid u r5)
    then show ?thesis using reach_owned(2) [OF 0] by (auto simp: get_hold_def split: prod.splits sum.splits)
  next
    case (unhold now rq hid u r6)
    obtain x w1 where o: "owned_hold now rq hid u (rollback w) = (x, w1)" by force
    have 1: "reach.at_inv s w1" by (rule reach_owned(2) [OF 0 o])
    then have "reach.at_inv s (commit (map_cur (\<lambda>_. d) w1))" if "release_hold hid uo (w_cur w1) = (rel, d)" for uo rel d
      using txn_star [OF _ txn.release [OF that]] by (simp add: reach.at_inv_def)
    with 1 unhold o show ?thesis by (auto simp: delete_hold_def split: sum.splits prod.splits)
  next
    case (sweep now r13)
    have "txn\<^sup>*\<^sup>* s (w_fresh w, d)" if "sweep_expired_holds now (w_com w) = (k, d)" for k d
      using txn_star [OF _ txn.sweep [OF that]] assms(2) by (simp add: reach.at_inv_def)
    then show ?thesis by (intro reach.transacted(1) [OF 0 sweep]) simp
  next
    case (patch now rq ref u us r10)
    then show ?thesis unfolding update_booking_def by (rule reach_with_booking [OF 0]) (rule reach_patched)
  next
    case (cancel now rq ref u r11)
    then show ?thesis unfolding cancel_booking_def
      by (rule reach_with_booking [OF 0]) (auto split: sum.splits intro: reach.cancelled)
  next
    case (signin cr st now raw rq lr r2)
    then show ?thesis by (rule reach_login [OF 0])
  next
    case (refresh cr st now nraw rq raw r3)
    then show ?thesis by (rule reach_refresh [OF 0])
  next
    case (book sha fp reread st now dr req uid payload key r7)
    then show ?thesis by (rule reach_booked [OF 0])
  next
    case (show_booking now rq ref u r8)
    then show ?thesis unfolding get_booking_def by (rule reach_with_booking [OF 0]) simp
  next
    case (show_audit now rq ref u r9)
    then show ?thesis unfolding booking_audit_log_def by (rule reach_with_booking [OF 0]) simp
  next
    case (admin now u r12)
    then show ?thesis using 0 by (auto simp: require_admin_def split: if_splits)
  qed
qed

text \<open>
  C2: the service refines the transactions. Whatever sequence of requests and sweeps the
  process serves, whatever their outcomes, the committed database and the supply of ids move
  along a path of \<open>txn\<close>; and where the database was sound before, it is sound after.
\<close>

theorem requests_refine_transactions:
  assumes "serves\<^sup>*\<^sup>* w w'"
  shows "txn\<^sup>*\<^sup>* (w_fresh w, w_com w) (w_fresh w', w_com w') \<and>
    (system_ok (w_fresh w, w_com w) \<longrightarrow> sound (w_com w'))"
proof -
  let ?s = "(w_fresh w, w_com w)"
  have "reach.at_inv ?s (rollback v)" if "serves\<^sup>*\<^sup>* w v" for v
    using that
  proof (induction rule: rtranclp_induct)
    case base
    show ?case by (simp add: reach.at_inv_def)
  next
    case (step y z)
    from serves_reach [OF step(2,3)] show ?case by simp
  qed
  from this [OF assms] have t: "txn\<^sup>*\<^sup>* ?s (w_fresh w', w_com w')" by (simp add: reach.at_inv_def)
  then show ?thesis using txn_path [OF t] by simp
qed

theorem requests_refine_transactions_witness:
  "sound (w_com (snd (create_hold default_settings 9 9 demo_user (1, ''1a'')
     (rollback (snd (delete_hold 8 None 90 demo_user (rollback lapsed_world)))))))"
proof -
  let ?w1 = "snd (delete_hold 8 None 90 demo_user (rollback lapsed_world))"
  let ?w2 = "snd (create_hold default_settings 9 9 demo_user (1, ''1a'') (rollback ?w1))"
  have "serves lapsed_world ?w1" "serves ?w1 ?w2"
    by (rule serves.unhold [OF prod.collapse [symmetric]], rule serves.hold [OF prod.collapse [symmetric]])
  then have "serves\<^sup>*\<^sup>* lapsed_world ?w2" by (meson rtranclp.rtrancl_into_rtrancl rtranclp.rtrancl_refl)
  moreover have "system_ok (w_fresh lapsed_world, w_com lapsed_world)"
    using lapsed_sound
    by (simp add: lapsed_world_def fresh_for_def lapsed_db_def demo_db_def empty_db_def demo_seat_def take_seat_def)
  ultimately show ?thesis using requests_refine_transactions [of lapsed_world ?w2] by blast
qed

end
