(* ===== verification/Sky_RateLimit.thy ===== *)
theory Sky_RateLimit
  imports Sky_World
begin

text \<open>
  \<^verbatim>\<open>app/security/ratelimit.py\<close>: the sliding-window limiter. Each request, allowed or not,
  leaves one member in the sorted set of its bucket and subject.
\<close>

record limit =
  lim_name :: string
  lim_max_requests :: nat
  lim_window_seconds :: int

definition lim_retry_after :: "limit \<Rightarrow> int" where
  "lim_retry_after l = lim_window_seconds l"

definition LIMITS :: "(string \<times> limit) list" where
  "LIMITS =
     [(''login'', \<lparr>lim_name = ''login'', lim_max_requests = 10, lim_window_seconds = 300\<rparr>),
      (''register'', \<lparr>lim_name = ''register'', lim_max_requests = 10, lim_window_seconds = 3600\<rparr>),
      (''refresh'', \<lparr>lim_name = ''refresh'', lim_max_requests = 30, lim_window_seconds = 300\<rparr>),
      (''hold'', \<lparr>lim_name = ''hold'', lim_max_requests = 30, lim_window_seconds = 60\<rparr>),
      (''booking'', \<lparr>lim_name = ''booking'', lim_max_requests = 10, lim_window_seconds = 60\<rparr>),
      (''search'', \<lparr>lim_name = ''search'', lim_max_requests = 120, lim_window_seconds = 60\<rparr>),
      (''global'', \<lparr>lim_name = ''global'', lim_max_requests = 600, lim_window_seconds = 60\<rparr>)]"

text \<open>The key and the member; \<open>hex8\<close> is \<open>uuid4().hex[:8]\<close>.\<close>

definition limit_key :: "limit \<Rightarrow> string \<Rightarrow> string" where
  "limit_key l subject = ''rl:'' @ lim_name l @ '':'' @ subject"

definition limit_member :: "int \<Rightarrow> string \<Rightarrow> string" where
  "limit_member now_ms hex8 = show_int now_ms @ ''-'' @ hex8"

text \<open>One request at \<open>now_ms\<close>: the number of requests in the window, itself included.\<close>

definition limit_count :: "limit \<Rightarrow> string \<Rightarrow> int \<Rightarrow> string \<Rightarrow> redis \<Rightarrow> nat \<times> redis" where
  "limit_count l key now_ms member r =
     (let cutoff = now_ms - lim_window_seconds l * 1000;
          r1 = zremrangebyscore now_ms key 0 cutoff r;
          r2 = zadd now_ms key member now_ms r1;
          n = zcard now_ms key r2
      in (n, expire now_ms key (lim_window_seconds l + 1) r2))"

text \<open>\<open>up\<close> says whether Redis answers: when it does not, the limiter fails open.\<close>

definition check_limit ::
  "settings \<Rightarrow> bool \<Rightarrow> limit \<Rightarrow> string \<Rightarrow> int \<Rightarrow> string \<Rightarrow> time \<Rightarrow> request option \<Rightarrow> world \<Rightarrow>
   (exn + unit) \<times> world" where
  "check_limit st up l subject now_ms hex8 now rq w =
     (if \<not> rate_limit_enabled st then (Inr (), w)
      else if \<not> up then (Inr (), w)
      else
        (case limit_count l (limit_key l subject) now_ms (limit_member now_ms hex8) (w_redis w) of
           (count, r') \<Rightarrow>
             let w' = w\<lparr>w_redis := r'\<rparr> in
             if count > lim_max_requests l
             then (Inl (App (rate_limited
                     (Some (''Rate limit exceeded for '' @ lim_name l @ '': '' @
                            show_nat (lim_max_requests l) @ '' requests per '' @
                            show_int (lim_window_seconds l) @ ''s''))
                     (lim_retry_after l) [])),
                   record_security_event_bg now rq SE_RATE_LIMITED SV_LOW
                     (no_args\<lparr>ev_decision := Some ''block'',
                        ev_detail := JObj [(''bucket'', JStr (lim_name l)), (''subject'', JStr subject),
                          (''count'', JInt (int count)), (''limit'', JInt (int (lim_max_requests l))),
                          (''window_seconds'', JInt (lim_window_seconds l))]\<rparr>) w')
             else (Inr (), w')))"

text \<open>
  The dependency \<open>rate_limit(bucket)\<close>: always per address, and per user as well when the
  middleware found one. Each check takes its own draw.
\<close>

definition rate_limit ::
  "settings \<Rightarrow> bool \<Rightarrow> string \<Rightarrow> string option \<Rightarrow> int \<Rightarrow> string \<times> string \<Rightarrow> time \<Rightarrow> request option \<Rightarrow>
   world \<Rightarrow> (exn + unit) \<times> world" where
  "rate_limit st up bucket user_id now_ms hexes now rq w =
     (case map_of LIMITS bucket of
        None \<Rightarrow> (Inl (RuntimeError bucket), w)
      | Some l \<Rightarrow>
          (let ip = (case client_ip rq of None \<Rightarrow> ''unknown'' | Some i \<Rightarrow> if i = [] then ''unknown'' else i) in
           case check_limit st up l (''ip:'' @ ip) now_ms (fst hexes) now rq w of
             (Inl e, w1) \<Rightarrow> (Inl e, w1)
           | (Inr _, w1) \<Rightarrow>
               (case user_id of
                  None \<Rightarrow> (Inr (), w1)
                | Some u \<Rightarrow> if u = [] then (Inr (), w1)
                            else check_limit st up l (''user:'' @ u) now_ms (snd hexes) now rq w1)))"

subsection \<open>The sliding window\<close>

lemma limit_count_touch:
  "limit_count l key now m r = touch_pipe now (lim_window_seconds l) key m r"
  by (simp add: limit_count_def touch_pipe_def trim_def Let_def)

text \<open>A sequence of requests of one subject, and the decision for each: allowed or not.\<close>

fun decisions :: "limit \<Rightarrow> string \<Rightarrow> (int \<times> string) list \<Rightarrow> redis \<Rightarrow> bool list" where
  "decisions l key [] r = []"
| "decisions l key ((t, m) # rs) r =
     (case limit_count l key t m r of
        (n, r') \<Rightarrow> (\<not> n > lim_max_requests l) # decisions l key rs r')"

text \<open>What the limiter promises: a request passes when the window behind it is not full.\<close>

fun window_spec :: "nat \<Rightarrow> int \<Rightarrow> int list \<Rightarrow> int list \<Rightarrow> bool list" where
  "window_spec mx w hist [] = []"
| "window_spec mx w hist (t # ts) =
     (length (filter (\<lambda>s. t - w * 1000 < s) (hist @ [t])) \<le> mx) # window_spec mx w (hist @ [t]) ts"

text \<open>The window of the key holds the requests made so far, one member each.\<close>

definition tracks :: "int \<Rightarrow> int \<Rightarrow> string \<Rightarrow> (int \<times> string) list \<Rightarrow> redis \<Rightarrow> bool" where
  "tracks now w key hist r =
     (window_key now w key r \<and>
      (\<forall>t \<ge> now. set (window t w key r) =
          {e. e \<in> (\<lambda>(s, m). (m, s)) ` set hist \<and> in_window t w e}))"

lemma tracks_count:
  assumes tr: "tracks now w key hist r" and d: "distinct (map snd hist)" and t: "now \<le> t"
  shows "length (window t w key r) = length (filter (\<lambda>s. t - w * 1000 < s) (map fst hist))"
proof -
  let ?sw = "\<lambda>(s, m). (m, s)"
  have "distinct (map fst (window t w key r))"
    using tr by (simp add: tracks_def window_key_def window_def distinct_map_filter)
  then have "length (window t w key r) = card (set (window t w key r))"
    by (simp add: distinct_card distinct_map)
  also have "set (window t w key r) = ?sw ` set (filter (\<lambda>(s, m). t - w * 1000 < s) hist)"
    using tr t by (auto simp: tracks_def in_window_def)
  also have "card \<dots> = card (set (filter (\<lambda>(s, m). t - w * 1000 < s) hist))"
    by (intro card_image) (auto simp: inj_on_def)
  also have "\<dots> = length (filter (\<lambda>(s, m). t - w * 1000 < s) hist)"
    using d by (intro distinct_card distinct_filter) (simp add: distinct_map)
  also have "\<dots> = length (filter (\<lambda>s. t - w * 1000 < s) (map fst hist))"
    by (simp add: filter_map o_def case_prod_unfold)
  finally show ?thesis .
qed

lemma tracks_touch:
  assumes tr: "tracks now w key hist r" and t: "now \<le> t" "0 \<le> t" "0 \<le> w"
    and m: "m \<notin> snd ` set hist" and tp: "touch_pipe t w key m r = (n, r')"
  shows "tracks t w key (hist @ [(t, m)]) r'" and "n = Suc (length (window t w key r))"
proof -
  have wk: "window_key t w key r"
    using tr t window_key_later by (auto simp: tracks_def)
  note spec = touch_pipe_spec [OF wk tp t(2) t(3)]
  have nm: "m \<notin> fst ` set (window t w key r)"
    using tr t m by (force simp: tracks_def)
  then have keep: "filter (\<lambda>e. fst e \<noteq> m) (window t w key r) = window t w key r"
    by (auto simp: filter_id_conv)
  have z: "r_zsets r' key = insort_key zscore_key (m, t) (window t w key r)"
    using spec(2) keep by simp
  show "n = Suc (length (window t w key r))"
    using spec(1) z by simp
  have "set (window t' w key r') = {e. e \<in> (\<lambda>(s, m). (m, s)) ` set (hist @ [(t, m)]) \<and> in_window t' w e}"
    if "t \<le> t'" for t'
  proof -
    have "set (window t w key r) = {e. e \<in> (\<lambda>(s, m). (m, s)) ` set hist \<and> in_window t w e}"
      using tr t by (simp add: tracks_def)
    then have "set (r_zsets r' key) =
        insert (m, t) {e. e \<in> (\<lambda>(s, m). (m, s)) ` set hist \<and> in_window t w e}"
      using z by (simp add: set_insort_key)
    moreover have "in_window t' w e \<Longrightarrow> in_window t w e" for e
      using that by (auto simp: in_window_def)
    ultimately show ?thesis
      by (auto simp: window_def)
  qed
  with spec(3) show "tracks t w key (hist @ [(t, m)]) r'"
    by (simp add: tracks_def)
qed

lemma decisions_spec:
  assumes "tracks now (lim_window_seconds l) key hist r" "0 \<le> now" "0 < lim_window_seconds l"
    and "sorted (now # map fst reqs)" "distinct (map snd (hist @ reqs))"
  shows "decisions l key reqs r =
         window_spec (lim_max_requests l) (lim_window_seconds l) (map fst hist) (map fst reqs)"
  using assms
proof (induction reqs arbitrary: now hist r)
  case Nil
  then show ?case by simp
next
  case (Cons tm reqs)
  let ?w = "lim_window_seconds l"
  obtain t m where tm: "tm = (t, m)" by (cases tm)
  obtain n r' where tp: "touch_pipe t ?w key m r = (n, r')"
    by (cases "touch_pipe t ?w key m r")
  have t: "now \<le> t" "0 \<le> t" using Cons.prems(2,4) tm by auto
  have m: "m \<notin> snd ` set hist" using Cons.prems(5) tm by auto
  note touch = tracks_touch [OF Cons.prems(1) t less_imp_le [OF Cons.prems(3)] m tp]
  have d: "distinct (map snd hist)" using Cons.prems(5) by simp
  have n: "n = length (filter (\<lambda>s. t - ?w * 1000 < s) (map fst hist @ [t]))"
    using touch(2) tracks_count [OF Cons.prems(1) d t(1)] Cons.prems(3) by simp
  have IH: "decisions l key reqs r' =
      window_spec (lim_max_requests l) ?w (map fst (hist @ [(t, m)])) (map fst reqs)"
    using Cons.prems tm touch(1) t by (intro Cons.IH [of t]) auto
  have "decisions l key (tm # reqs) r = (n \<le> lim_max_requests l) # decisions l key reqs r'"
    using tp tm by (simp add: limit_count_touch not_less)
  then show ?case
    using IH n tm by simp
qed

lemma tracks_initial: "tracks now w key [] empty_redis"
  using window_key_initial [of now w key]
  by (simp add: tracks_def window_def) (simp add: empty_redis_def)

text \<open>
  C10: the Redis implementation is the sliding window it is meant to be: for requests in
  time order, each with a member of its own, a request is allowed exactly when it and the
  requests of the last \<open>window\<close> seconds (refused ones included) are at most \<open>max_requests\<close>.
  Key expiry never changes a decision.
\<close>

theorem limiter_is_sliding_window:
  assumes "0 < lim_window_seconds l" "sorted (0 # map fst reqs)" "distinct (map snd reqs)"
  shows "decisions l key reqs empty_redis =
         window_spec (lim_max_requests l) (lim_window_seconds l) [] (map fst reqs)"
  using decisions_spec [OF tracks_initial, of 0 l reqs key] assms by simp

theorem limiter_is_sliding_window_witness:
  "decisions \<lparr>lim_name = ''x'', lim_max_requests = 1, lim_window_seconds = 1\<rparr> ''k''
     [(5, ''a''), (700, ''b''), (1699, ''c''), (2800, ''d'')] empty_redis = [True, False, False, True]"
proof -
  let ?l = "\<lparr>lim_name = ''x'', lim_max_requests = 1, lim_window_seconds = 1\<rparr>"
  let ?reqs = "[(5 :: int, ''a''), (700, ''b''), (1699, ''c''), (2800, ''d'')]"
  have "0 < lim_window_seconds ?l" "sorted (0 # map fst ?reqs)" "distinct (map snd ?reqs)"
    by simp_all
  from limiter_is_sliding_window [OF this, of "''k''"] show ?thesis by simp
qed

text \<open>The times of the requests that were allowed.\<close>

fun allowed_times :: "bool list \<Rightarrow> int list \<Rightarrow> int list" where
  "allowed_times (b # bs) (t # ts) = (if b then t # allowed_times bs ts else allowed_times bs ts)"
| "allowed_times _ _ = []"

lemma window_spec_bound:
  assumes "sorted (hist @ ts)"
    and "\<And>P. length (filter P acc) \<le> length (filter P hist)"
    and "\<And>t. length (filter (\<lambda>s. t - w * 1000 < s \<and> s \<le> t) acc) \<le> mx"
  shows "length (filter (\<lambda>s. t - w * 1000 < s \<and> s \<le> t)
           (acc @ allowed_times (window_spec mx w hist ts) ts)) \<le> mx"
  using assms
proof (induction ts arbitrary: hist acc)
  case Nil
  then show ?case by simp
next
  case (Cons u ts)
  let ?ok = "length (filter (\<lambda>s. u - w * 1000 < s) (hist @ [u])) \<le> mx"
  have sub: "length (filter P acc) \<le> length (filter P (hist @ [u]))" for P
    using Cons.prems(2) [of P] by simp
  show ?case
  proof (cases ?ok)
    case False
    have "length (filter (\<lambda>s. t - w * 1000 < s \<and> s \<le> t)
        (acc @ allowed_times (window_spec mx w (hist @ [u]) ts) ts)) \<le> mx"
      using Cons.prems(1,3) sub by (intro Cons.IH) auto
    with False show ?thesis by simp
  next
    case True
    have sub': "length (filter P (acc @ [u])) \<le> length (filter P (hist @ [u]))" for P
      using Cons.prems(2) [of P] by simp
    have bound: "length (filter (\<lambda>s. t' - w * 1000 < s \<and> s \<le> t') (acc @ [u])) \<le> mx" for t'
    proof (cases "t' - w * 1000 < u \<and> u \<le> t'")
      case False
      then show ?thesis using Cons.prems(3) [of t'] by auto
    next
      case in_w: True
      then have "length (filter (\<lambda>s. t' - w * 1000 < s \<and> s \<le> t') (acc @ [u])) \<le>
          length (filter (\<lambda>s. u - w * 1000 < s) (acc @ [u]))"
        by (intro length_filter_impl) auto
      also have "\<dots> \<le> length (filter (\<lambda>s. u - w * 1000 < s) (hist @ [u]))"
        by (rule sub')
      finally show ?thesis using True by simp
    qed
    have "length (filter (\<lambda>s. t - w * 1000 < s \<and> s \<le> t)
        ((acc @ [u]) @ allowed_times (window_spec mx w (hist @ [u]) ts) ts)) \<le> mx"
      using Cons.prems(1) sub' bound by (intro Cons.IH) auto
    with True show ?thesis by simp
  qed
qed

text \<open>
  C23: no edge to slip through: in any span of \<open>window\<close> seconds, wherever it starts, at most
  \<open>max_requests\<close> requests of a subject are allowed.
\<close>

theorem limiter_bounds_every_window:
  assumes "0 < lim_window_seconds l" "sorted (0 # map fst reqs)" "distinct (map snd reqs)"
  shows "length (filter (\<lambda>s. t - lim_window_seconds l * 1000 < s \<and> s \<le> t)
           (allowed_times (decisions l key reqs empty_redis) (map fst reqs))) \<le> lim_max_requests l"
proof -
  have eq: "decisions l key reqs empty_redis =
      window_spec (lim_max_requests l) (lim_window_seconds l) [] (map fst reqs)"
    using decisions_spec [OF tracks_initial, of 0 l reqs key] assms by simp
  show ?thesis
    unfolding eq using window_spec_bound [of "[]" "map fst reqs" "[]"] assms(2) by simp
qed

theorem limiter_bounds_every_window_witness:
  "length (filter (\<lambda>s. 1200 - 1000 < s \<and> s \<le> 1200)
     (allowed_times (decisions \<lparr>lim_name = ''x'', lim_max_requests = 1, lim_window_seconds = 1\<rparr> ''k''
        [(5, ''a''), (700, ''b''), (1100, ''c'')] empty_redis) [5, 700, 1100])) \<le> 1"
proof -
  let ?l = "\<lparr>lim_name = ''x'', lim_max_requests = 1, lim_window_seconds = 1\<rparr>"
  let ?reqs = "[(5 :: int, ''a''), (700, ''b''), (1100, ''c'')]"
  have "0 < lim_window_seconds ?l" "sorted (0 # map fst ?reqs)" "distinct (map snd ?reqs)"
    by simp_all
  from limiter_bounds_every_window [OF this, of 1200 "''k''"] show ?thesis by simp
qed

end
