(* ===== verification/Sky_Routes.thy ===== *)
theory Sky_Routes
  imports Sky_Requests Sky_RateLimit
begin

text \<open>
  A request from the wire to the answer: the middleware (\<^verbatim>\<open>app/security/context.py\<close>), the rate
  limiter of the route, the session of the request (\<open>get_db\<close>), the caller (\<open>current_user\<close>), the
  body, the handler, and the exception handlers of \<^verbatim>\<open>app/errors.py\<close>, in the order FastAPI runs
  them: the dependencies of the decorator, those of the signature, the validation of
  parameters and body, the handler. The parser of the bearer scheme (\<open>HTTPBearer\<close>) and the error
  list of pydantic are not code of the repository: they are the parameters \<open>bearer\<close> and
  \<open>hc_errors\<close>.
\<close>

record call =
  hc_request :: request
  hc_authorization :: string
  hc_redis_up :: bool
  hc_ms :: int
  hc_hexes :: "string \<times> string"
  hc_now :: time
  hc_errors :: "(string list \<times> string) list"

subsection \<open>Answers\<close>

text \<open>An exception without a handler of its own is the plain 500 of the server.\<close>

definition answer_error :: "string \<Rightarrow> exn \<Rightarrow> response" where
  "answer_error path e =
     (case e of
        App a \<Rightarrow> app_error_handler a path
      | HttpError code detail \<Rightarrow> http_error_handler code detail [] path
      | _ \<Rightarrow> \<lparr>rsp_status = 500, rsp_headers = [], rsp_body = []\<rparr>)"

definition reject :: "call \<Rightarrow> world \<Rightarrow> response \<times> world" where
  "reject c w =
     (validation_handler (hc_errors c) (rq_path (hc_request c)),
      record_security_event_bg (hc_now c) (Some (hc_request c)) SE_VALIDATION_REJECTED SV_INFO
        (no_args\<lparr>ev_detail := validation_event_detail (hc_errors c)\<rparr>) w)"

text \<open>
  The stages of a route. \<open>get_db\<close> opens a session on the committed rows and rolls back when
  an exception passes through it.
\<close>

definition serve ::
  "crypto \<Rightarrow> settings \<Rightarrow> string \<Rightarrow> call \<Rightarrow> (db \<Rightarrow> exn + 'u) \<Rightarrow> 'p option \<Rightarrow>
   ('u \<Rightarrow> 'p \<Rightarrow> world \<Rightarrow> (exn + response) \<times> world) \<Rightarrow> world \<Rightarrow> response \<times> world" where
  "serve cr st bucket c caller payload handler w =
     (let path = rq_path (hc_request c) in
      case rate_limit st (hc_redis_up c) bucket (fst (auth_context cr (hc_now c) (hc_authorization c)))
             (hc_ms c) (hc_hexes c) (hc_now c) (Some (hc_request c)) (rollback w) of
        (Inl e, w1) \<Rightarrow> (answer_error path e, rollback w1)
      | (Inr _, w1) \<Rightarrow>
          (case caller (w_cur w1) of
             Inl e \<Rightarrow> (answer_error path e, rollback w1)
           | Inr u \<Rightarrow>
               (case payload of
                  None \<Rightarrow> reject c (rollback w1)
                | Some p \<Rightarrow>
                    (case handler u p w1 of
                       (Inl e, w2) \<Rightarrow> (answer_error path e, rollback w2)
                     | (Inr r, w2) \<Rightarrow> (r, w2)))))"

subsection \<open>The routes with a rate limit\<close>

definition json_answer :: "int \<Rightarrow> ('a \<Rightarrow> (string \<times> json) list) \<Rightarrow> (exn + 'a) \<times> world \<Rightarrow> (exn + response) \<times> world" where
  "json_answer status body r =
     (case r of
        (Inl e, w) \<Rightarrow> (Inl e, w)
      | (Inr x, w) \<Rightarrow> (Inr \<lparr>rsp_status = status, rsp_headers = [], rsp_body = body x\<rparr>, w))"

definition hold_body :: "hold_response \<Rightarrow> (string \<times> json) list" where
  "hold_body h =
     [(''hold_id'', (case hr_hold_id h of None \<Rightarrow> JNull | Some i \<Rightarrow> JUuid i)), (''flight_id'', JUuid (hr_flight_id h)),
      (''seat_no'', JStr (hr_seat_no h)), (''cabin'', JStr (hr_cabin h)), (''price'', JMoney (hr_price h)),
      (''currency'', JStr (hr_currency h)),
      (''expires_at'', (case hr_expires_at h of None \<Rightarrow> JNull | Some t \<Rightarrow> JTime t)),
      (''seconds_remaining'', JInt (hr_seconds_remaining h)), (''active'', JBool (hr_active h))]"

definition token_body :: "token_response \<Rightarrow> (string \<times> json) list" where
  "token_body t =
     [(''access_token'', JStr (tr_access_token t)), (''refresh_token'', JStr (tr_refresh_token t)),
      (''token_type'', JStr (tr_token_type t)), (''expires_in'', JInt (tr_expires_in t))]"

definition post_booking ::
  "(string \<Rightarrow> string) \<Rightarrow> (string \<Rightarrow> string) \<Rightarrow> (seat \<Rightarrow> seat \<Rightarrow> seat) \<Rightarrow> crypto \<Rightarrow> (string \<Rightarrow> string option) \<Rightarrow>
   settings \<Rightarrow> date \<Rightarrow> draws \<Rightarrow> call \<Rightarrow> booking_create \<Rightarrow> string \<Rightarrow> world \<Rightarrow> response \<times> world" where
  "post_booking sha256 fingerprint reread cr bearer st today dr c body key =
     serve cr st ''booking'' c (current_user cr (hc_now c) (bearer (hc_authorization c)))
       (if idem_key_ok key then parse_booking_create today body else None)
       (\<lambda>u p. create_booking sha256 fingerprint reread st (hc_now c) dr (hc_request c) (u_id u) p key)"

definition post_hold ::
  "crypto \<Rightarrow> (string \<Rightarrow> string option) \<Rightarrow> settings \<Rightarrow> time \<Rightarrow> call \<Rightarrow> uuid \<times> string \<Rightarrow> world \<Rightarrow> response \<times> world" where
  "post_hold cr bearer st clock c body =
     serve cr st ''hold'' c (current_user cr (hc_now c) (bearer (hc_authorization c))) (parse_hold_request body)
       (\<lambda>u p w. json_answer 201 hold_body (create_hold st (hc_now c) clock u p w))"

definition post_register ::
  "crypto \<Rightarrow> (string \<Rightarrow> bool) \<Rightarrow> settings \<Rightarrow> string \<Rightarrow> string \<Rightarrow> call \<Rightarrow> register_request \<Rightarrow> world \<Rightarrow> response \<times> world" where
  "post_register cr valid_email st salt raw c body =
     serve cr st ''register'' c (\<lambda>_. Inr ()) (parse_register valid_email body)
       (\<lambda>_ p w. json_answer 201 token_body (register cr st (hc_now c) salt raw (Some (hc_request c)) p w))"

definition post_login ::
  "crypto \<Rightarrow> (string \<Rightarrow> bool) \<Rightarrow> settings \<Rightarrow> string \<Rightarrow> call \<Rightarrow> login_request \<Rightarrow> world \<Rightarrow> response \<times> world" where
  "post_login cr valid_email st raw c body =
     serve cr st ''login'' c (\<lambda>_. Inr ()) (parse_login valid_email body)
       (\<lambda>_ p w. json_answer 200 token_body (login cr st (hc_now c) raw (Some (hc_request c)) p w))"

definition post_refresh ::
  "crypto \<Rightarrow> settings \<Rightarrow> string \<Rightarrow> call \<Rightarrow> string \<Rightarrow> world \<Rightarrow> response \<times> world" where
  "post_refresh cr st new_raw c body =
     serve cr st ''refresh'' c (\<lambda>_. Inr ()) (parse_refresh body)
       (\<lambda>_ raw w. json_answer 200 token_body (refresh_tokens cr st (hc_now c) new_raw (Some (hc_request c)) raw w))"

subsection \<open>What a refused request can change\<close>

text \<open>The rows of every table but the event log.\<close>

definition same_but_events :: "db \<Rightarrow> db \<Rightarrow> bool" where
  "same_but_events d d' = (d'\<lparr>d_events := d_events d\<rparr> = d)"

lemma same_refl [simp]: "same_but_events d d"
  by (simp add: same_but_events_def)

lemma same_event: "same_but_events d (add_event now rq et sv a d)"
  by (simp add: same_but_events_def add_event_def split: prod.splits)

lemma check_limit_effect:
  assumes "check_limit st up l subj ms h now rq w = (r, w')"
  shows "w_gw w' = w_gw w" "w_fresh w' = w_fresh w"
    "r = Inr u \<Longrightarrow> w_com w' = w_com w \<and> w_cur w' = w_cur w"
    "r = Inl e \<Longrightarrow> same_but_events (w_com w) (w_com w') \<and> is_app RateLimited e"
  using assms
  by (auto simp: check_limit_def Let_def rate_limited_def same_event split: if_splits prod.splits)

lemma rate_limit_effect:
  assumes "rate_limit st up b uid ms h now rq w = (r, w')" "map_of LIMITS b \<noteq> None"
  shows "w_gw w' = w_gw w" "w_fresh w' = w_fresh w"
    "r = Inr u \<Longrightarrow> w_com w' = w_com w \<and> w_cur w' = w_cur w"
    "r = Inl e \<Longrightarrow> same_but_events (w_com w) (w_com w') \<and> is_app RateLimited e"
proof -
  obtain l where l: "map_of LIMITS b = Some l" using assms(2) by blast
  let ?ip = "''ip:'' @ (case client_ip rq of None \<Rightarrow> ''unknown'' | Some i \<Rightarrow> if i = [] then ''unknown'' else i)"
  obtain x w1 where c: "check_limit st up l ?ip ms (fst h) now rq w = (x, w1)"
    by (cases "check_limit st up l ?ip ms (fst h) now rq w")
  note e1 = check_limit_effect [OF c]
  show "w_gw w' = w_gw w" "w_fresh w' = w_fresh w" "r = Inr u \<Longrightarrow> w_com w' = w_com w \<and> w_cur w' = w_cur w"
    "r = Inl e \<Longrightarrow> same_but_events (w_com w) (w_com w') \<and> is_app RateLimited e"
    using assms(1) l c e1
    by (auto simp: rate_limit_def Let_def dest: check_limit_effect split: sum.splits option.splits if_splits)
qed

lemma answer_app: "is_app k e \<Longrightarrow> rsp_status (answer_error path e) = status_code k"
  by (cases e) (auto simp: answer_error_def app_error_handler_def)

text \<open>What a route did, by the stage it got to.\<close>

lemma serve_stages:
  assumes "serve cr st b c caller payload handler w = (r, w')" "map_of LIMITS b \<noteq> None"
  obtains (limited) "rsp_status r = 429" "same_but_events (w_com w) (w_com w')" "w_gw w' = w_gw w" "w_fresh w' = w_fresh w"
  | (unknown) e where "caller (w_com w) = Inl e" "r = answer_error (rq_path (hc_request c)) e" "w_com w' = w_com w"
      "w_gw w' = w_gw w" "w_fresh w' = w_fresh w"
  | (invalid) u where "caller (w_com w) = Inr u" "payload = None" "rsp_status r = 422"
      "same_but_events (w_com w) (w_com w')" "w_gw w' = w_gw w" "w_fresh w' = w_fresh w"
  | (handled) u p w1 x w2 where "caller (w_com w) = Inr u" "payload = Some p" "idle w1" "w_com w1 = w_com w" "w_gw w1 = w_gw w"
      "w_fresh w1 = w_fresh w" "handler u p w1 = (x, w2)"
      "r = (case x of Inl e \<Rightarrow> answer_error (rq_path (hc_request c)) e | Inr a \<Rightarrow> a)" "w_com w' = w_com w2" "w_gw w' = w_gw w2"
      "fst (rate_limit st (hc_redis_up c) b (fst (auth_context cr (hc_now c) (hc_authorization c)))
             (hc_ms c) (hc_hexes c) (hc_now c) (Some (hc_request c)) (rollback w)) = Inr ()"
proof -
  let ?rl = "rate_limit st (hc_redis_up c) b (fst (auth_context cr (hc_now c) (hc_authorization c)))
             (hc_ms c) (hc_hexes c) (hc_now c) (Some (hc_request c)) (rollback w)"
  obtain x w1 where rl: "?rl = (x, w1)" by (cases ?rl)
  note eff = rate_limit_effect [OF rl assms(2)]
  show thesis
  proof (cases x)
    case (Inl e)
    then show thesis
      using limited assms(1) rl eff(1,2) eff(4) [OF Inl] answer_app [of RateLimited e]
      by (auto simp: serve_def Let_def)
  next
    case ok: (Inr v)
    then have same: "w_com w1 = w_com w" "w_cur w1 = w_com w" "w_gw w1 = w_gw w" "w_fresh w1 = w_fresh w"
      using eff(1,2) eff(3) [OF ok] by auto
    show thesis
    proof (cases "caller (w_com w)")
      case (Inl e)
      then show thesis using unknown assms(1) rl ok same by (auto simp: serve_def Let_def)
    next
      case u: (Inr u)
      show thesis
      proof (cases payload)
        case None
        then show thesis
          using invalid [OF u] assms(1) rl ok same u
          by (auto simp: serve_def Let_def reject_def validation_handler_def same_event)
      next
        case (Some p)
        obtain y w2 where h: "handler u p w1 = (y, w2)" by (cases "handler u p w1")
        show thesis
        proof (rule handled [OF u Some _ same(1,3,4) h])
          show "idle w1" using same by (simp add: idle_def)
          show "r = (case y of Inl e \<Rightarrow> answer_error (rq_path (hc_request c)) e | Inr a \<Rightarrow> a)"
            "w_com w' = w_com w2" "w_gw w' = w_gw w2"
            using assms(1) rl ok same u Some h by (auto simp: serve_def Let_def split: sum.splits)
          show "fst ?rl = Inr ()" using rl ok by simp
        qed
      qed
    qed
  qed
qed

text \<open>
  C9: no booking and no charge without every guard. If a POST to \<open>/bookings\<close> changes any
  committed row outside the event log, or anything at the gateway, then the limiter let the
  request through, the bearer token names an active account, the idempotency key and the
  body were accepted, and the saga ran for that account and that body. Otherwise the
  answer is the 429 of the limiter, the 401 of the token check or the 422 of the validation.
\<close>

theorem no_booking_without_every_guard:
  assumes "post_booking sha fp reread cr bearer st today dr c body key w = (r, w')"
  shows "rsp_status r = 429 \<and> same_but_events (w_com w) (w_com w') \<and> w_gw w' = w_gw w \<or>
    (\<exists>e. current_user cr (hc_now c) (bearer (hc_authorization c)) (w_com w) = Inl e \<and>
       r = answer_error (rq_path (hc_request c)) e \<and> rsp_status r = 401 \<and> w_com w' = w_com w \<and> w_gw w' = w_gw w) \<or>
    (\<not> idem_key_ok key \<or> parse_booking_create today body = None) \<and> rsp_status r = 422 \<and>
       same_but_events (w_com w) (w_com w') \<and> w_gw w' = w_gw w \<or>
    (\<exists>u p w1 x. current_user cr (hc_now c) (bearer (hc_authorization c)) (w_com w) = Inr u \<and> u_is_active u \<and>
       idem_key_ok key \<and> parse_booking_create today body = Some p \<and>
       fst (rate_limit st (hc_redis_up c) ''booking'' (fst (auth_context cr (hc_now c) (hc_authorization c)))
             (hc_ms c) (hc_hexes c) (hc_now c) (Some (hc_request c)) (rollback w)) = Inr () \<and>
       idle w1 \<and> w_com w1 = w_com w \<and> w_gw w1 = w_gw w \<and>
       (\<exists>w2. create_booking sha fp reread st (hc_now c) dr (hc_request c) (u_id u) p key w1 = (x, w2) \<and>
          w_com w' = w_com w2 \<and> w_gw w' = w_gw w2))"
proof -
  have L: "map_of LIMITS ''booking'' \<noteq> None" by (simp add: LIMITS_def)
  show ?thesis
  proof (rule serve_stages [OF assms [unfolded post_booking_def] L], goal_cases)
    case 1
    then show ?case by blast
  next
    case (2 e)
    have "is_app InvalidToken e"
      using 2(1) by (auto simp: current_user_def decode_access_token_def split: option.splits sum.splits if_splits jwt_error.splits)
    then have "rsp_status r = 401" using answer_app 2(2) by fastforce
    with 2 show ?case by blast
  next
    case (3 u)
    then have "\<not> idem_key_ok key \<or> parse_booking_create today body = None" by (auto split: if_splits)
    with 3 show ?case by blast
  next
    case (4 u p w1 x w2)
    have "u_is_active u"
      using 4(1) by (auto simp: current_user_def split: option.splits sum.splits if_splits)
    moreover have "idem_key_ok key" "parse_booking_create today body = Some p" using 4(2) by (auto split: if_splits)
    ultimately show ?case using 4 by blast
  qed
qed

theorem no_booking_without_every_guard_witness:
  "let c = \<lparr>hc_request = \<lparr>rq_client = Some ''10.0.0.1'', rq_user_agent = ''curl'', rq_method = ''POST'', rq_path = ''/bookings''\<rparr>,
            hc_authorization = [], hc_redis_up = True, hc_ms = 5000, hc_hexes = (''a1'', ''b2''), hc_now = 9, hc_errors = []\<rparr>;
       rw = post_booking id id (\<lambda>_ s. s) demo_crypto (\<lambda>_. None) default_settings (2026, 1, 1) demo_draws c
              (demo_create [90] ''tok_visa_4242'') ''key-0001'' lapsed_world
   in rsp_status (fst rw) \<in> {401, 422, 429} \<and> w_gw (snd rw) = w_gw lapsed_world"
proof -
  let ?c = "\<lparr>hc_request = \<lparr>rq_client = Some ''10.0.0.1'', rq_user_agent = ''curl'', rq_method = ''POST'', rq_path = ''/bookings''\<rparr>,
            hc_authorization = [], hc_redis_up = True, hc_ms = 5000, hc_hexes = (''a1'', ''b2''), hc_now = 9, hc_errors = []\<rparr>"
  let ?rw = "post_booking id id (\<lambda>_ s. s) demo_crypto (\<lambda>_. None) default_settings (2026, 1, 1) demo_draws ?c
              (demo_create [90] ''tok_visa_4242'') ''key-0001'' lapsed_world"
  have anon: "current_user demo_crypto now None d \<noteq> Inr u" for now d u by (simp add: current_user_def)
  have "?rw = (fst ?rw, snd ?rw)" by simp
  from no_booking_without_every_guard [OF this] anon
  have "rsp_status (fst ?rw) \<in> {401, 422, 429} \<and> w_gw (snd ?rw) = w_gw lapsed_world" by blast
  then show ?thesis by (simp only: Let_def)
qed

end
