(* ===== verification/Sky_Admin.thy ===== *)
theory Sky_Admin
  imports Sky_System
begin

text \<open>
  What operators read: the security event log of \<^verbatim>\<open>app/api/admin.py\<close>, behind a cursor on the
  growing id (\<open>CursorPage\<close> of \<^verbatim>\<open>app/schemas/common.py\<close>), the read-only dashboard of
  \<^verbatim>\<open>app/api/dashboard.py\<close> and \<open>/health\<close>. A page is the context handed to its template. The
  locale \<open>cursor_feed\<close> says what a client sees that follows the cursor while rows are being
  added; the event log interprets it.
\<close>

section \<open>Pages behind a cursor\<close>

record 'a cursor_page =
  cp_items :: "'a list"
  cp_next_cursor :: "nat option"
  cp_has_more :: bool

text \<open>\<open>rows\<close> is the result of a query with \<open>LIMIT limit + 1\<close>.\<close>

definition cursor_cut :: "('e \<Rightarrow> 'a) \<Rightarrow> ('e \<Rightarrow> nat) \<Rightarrow> nat \<Rightarrow> 'e list \<Rightarrow> 'a cursor_page" where
  "cursor_cut resp ident limit rows =
     (let has_more = limit < length rows; shown = take limit rows in
      \<lparr>cp_items = map resp shown,
       cp_next_cursor = (if shown \<noteq> [] \<and> has_more then Some (ident (last shown)) else None),
       cp_has_more = has_more\<rparr>)"

text \<open>
  A client that follows \<open>next_cursor\<close>: one request per state of the store, until a page has
  no cursor or the client stops.
\<close>

fun walk :: "(nat option \<Rightarrow> 's \<Rightarrow> 'a cursor_page) \<Rightarrow> nat option \<Rightarrow> 's list \<Rightarrow> 'a list" where
  "walk fetch c [] = []"
| "walk fetch c (s # ss) =
     (let pg = fetch c s in
      cp_items pg @ (case cp_next_cursor pg of None \<Rightarrow> [] | Some k \<Rightarrow> walk fetch (Some k) ss))"

locale cursor_feed =
  fixes fetch :: "nat option \<Rightarrow> 's \<Rightarrow> 'a cursor_page"
    and older :: "nat option \<Rightarrow> 's \<Rightarrow> 'e list"
    and resp :: "'e \<Rightarrow> 'a"
    and ident :: "'e \<Rightarrow> nat"
    and limit :: nat
    and ok :: "'s \<Rightarrow> bool"
    and later :: "'s \<Rightarrow> 's \<Rightarrow> bool"
  assumes fetch: "fetch c s = cursor_cut resp ident limit (take (Suc limit) (older c s))"
    and positive: "0 < limit"
    and below: "ok s \<Longrightarrow> older c s = xs @ e # ys \<Longrightarrow> older (Some (ident e)) s = ys"
    and stable: "ok s \<Longrightarrow> later s s' \<Longrightarrow> e \<in> set (older c s) \<Longrightarrow>
      older (Some (ident e)) s' = older (Some (ident e)) s"
    and kept: "ok s \<Longrightarrow> later s s' \<Longrightarrow> ok s'"
begin

lemma more_rows:
  assumes "ok s" "limit < length (older c s)"
  obtains e where "e \<in> set (older c s)" "cp_next_cursor (fetch c s) = Some (ident e)"
    "older (Some (ident e)) s = drop limit (older c s)" "cp_items (fetch c s) = map resp (take limit (older c s))"
proof
  let ?e = "older c s ! (limit - 1)"
  have split: "older c s = take (limit - 1) (older c s) @ ?e # drop limit (older c s)"
    using assms(2) positive id_take_nth_drop [of "limit - 1" "older c s"] by simp
  show "?e \<in> set (older c s)" using assms(2) by simp
  show "older (Some (ident ?e)) s = drop limit (older c s)" by (rule below [OF assms(1) split])
  have "last (take limit (older c s)) = ?e" using assms(2) positive by (subst last_conv_nth) (auto simp: min_def)
  then show "cp_next_cursor (fetch c s) = Some (ident ?e)"
    using assms(2) positive by (auto simp: fetch cursor_cut_def Let_def min_def)
  show "cp_items (fetch c s) = map resp (take limit (older c s))"
    by (simp add: fetch cursor_cut_def Let_def min_def)
qed

lemma last_rows:
  assumes "length (older c s) \<le> limit"
  shows "cp_next_cursor (fetch c s) = None" "cp_items (fetch c s) = map resp (older c s)"
  using assms by (simp_all add: fetch cursor_cut_def Let_def min_def)

text \<open>
  Whatever is added between the requests, a client that asks often enough sees the rows of
  the first request, each once, in order, and nothing else.
\<close>

lemma walk_complete:
  assumes "ok s" "successively later (s # ss)" "length (older c s) \<le> length (s # ss)"
  shows "walk fetch c (s # ss) = map resp (older c s)"
  using assms
proof (induction ss arbitrary: c s)
  case Nil
  then show ?case using last_rows [of c s] positive by simp
next
  case (Cons s' ss)
  show ?case
  proof (cases "length (older c s) \<le> limit")
    case True
    then show ?thesis using last_rows [of c s] by simp
  next
    case False
    then have "limit < length (older c s)" by simp
    then obtain e where e: "e \<in> set (older c s)" "cp_next_cursor (fetch c s) = Some (ident e)"
      "older (Some (ident e)) s = drop limit (older c s)" "cp_items (fetch c s) = map resp (take limit (older c s))"
      by (rule more_rows [OF Cons.prems(1)])
    have l: "later s s'" "successively later (s' # ss)" using Cons.prems(2) by simp_all
    have o: "older (Some (ident e)) s' = drop limit (older c s)"
      using stable [OF Cons.prems(1) l(1) e(1)] e(3) by simp
    have "walk fetch (Some (ident e)) (s' # ss) = map resp (older (Some (ident e)) s')"
      using Cons.IH [OF kept [OF Cons.prems(1) l(1)] l(2)] o Cons.prems(3) positive by simp
    then have "walk fetch c (s # s' # ss) = map resp (take limit (older c s)) @ map resp (drop limit (older c s))"
      using e(2,4) o by (simp only: walk.simps(2) [of _ c] Let_def option.simps)
    then show ?thesis by (metis append_take_drop_id map_append)
  qed
qed

end

section \<open>The security event log\<close>

text \<open>The members' string values (\<^verbatim>\<open>app/domain/enums.py\<close>).\<close>

fun security_event_type_value :: "security_event_type \<Rightarrow> string" where
  "security_event_type_value SE_LOGIN_SUCCEEDED = ''LOGIN_SUCCEEDED''"
| "security_event_type_value SE_LOGIN_FAILED = ''LOGIN_FAILED''"
| "security_event_type_value SE_ACCOUNT_LOCKED = ''ACCOUNT_LOCKED''"
| "security_event_type_value SE_REGISTERED = ''REGISTERED''"
| "security_event_type_value SE_REFRESH_ROTATED = ''REFRESH_ROTATED''"
| "security_event_type_value SE_REFRESH_REUSE_DETECTED = ''REFRESH_REUSE_DETECTED''"
| "security_event_type_value SE_REFRESH_REJECTED = ''REFRESH_REJECTED''"
| "security_event_type_value SE_AUTHZ_DENIED = ''AUTHZ_DENIED''"
| "security_event_type_value SE_RATE_LIMITED = ''RATE_LIMITED''"
| "security_event_type_value SE_CARDING_SUSPECTED = ''CARDING_SUSPECTED''"
| "security_event_type_value SE_CARDING_BLOCKED = ''CARDING_BLOCKED''"
| "security_event_type_value SE_PAYMENT_DECLINED = ''PAYMENT_DECLINED''"
| "security_event_type_value SE_IDEMPOTENCY_KEY_REUSED = ''IDEMPOTENCY_KEY_REUSED''"
| "security_event_type_value SE_VALIDATION_REJECTED = ''VALIDATION_REJECTED''"
| "security_event_type_value SE_MANUAL_REVIEW_REQUIRED = ''MANUAL_REVIEW_REQUIRED''"

record event_query =
  eq_event_type :: "string option"
  eq_severity :: "string option"
  eq_since :: "time option"

text \<open>
  The constraints on the query string. A violation is FastAPI's \<open>RequestValidationError\<close>, here
  \<open>HttpError 422\<close>; the handler that turns it into a response and an event is in \<^verbatim>\<open>Sky_Routes\<close>.
\<close>

definition event_query_ok :: "event_query \<Rightarrow> int option \<Rightarrow> int \<Rightarrow> bool" where
  "event_query_ok q cursor limit =
     ((case eq_event_type q of None \<Rightarrow> True | Some t \<Rightarrow> length t \<le> 40) \<and>
      (case eq_severity q of None \<Rightarrow> True
         | Some s \<Rightarrow> s \<in> set [''info'', ''low'', ''medium'', ''high'', ''critical'']) \<and>
      (case cursor of None \<Rightarrow> True | Some c \<Rightarrow> 0 \<le> c) \<and> 1 \<le> limit \<and> limit \<le> 200)"

text \<open>\<open>if event_type:\<close>, \<open>if severity:\<close> skip the filter for the empty string as for None.\<close>

definition truthy_is :: "string option \<Rightarrow> string \<Rightarrow> bool" where
  "truthy_is f s = (case f of None \<Rightarrow> True | Some t \<Rightarrow> t = [] \<or> s = t)"

definition event_matches :: "event_query \<Rightarrow> security_event \<Rightarrow> bool" where
  "event_matches q e =
     (truthy_is (eq_event_type q) (security_event_type_value (se_event_type e)) \<and>
      truthy_is (eq_severity q) (severity_value (se_severity e)) \<and>
      (case eq_since q of None \<Rightarrow> True | Some t \<Rightarrow> t \<le> se_occurred_at e))"

text \<open>\<open>if cursor:\<close> skips the filter for 0 as for None.\<close>

definition below_cursor :: "nat option \<Rightarrow> security_event \<Rightarrow> bool" where
  "below_cursor cursor e = (case cursor of None \<Rightarrow> True | Some c \<Rightarrow> c = 0 \<or> se_id e < c)"

record security_event_response =
  sr_id :: nat
  sr_occurred_at :: time
  sr_event_type :: string
  sr_severity :: string
  sr_actor_user_id :: "uuid option"
  sr_actor_email :: "string option"
  sr_ip :: "string option"
  sr_path :: "string option"
  sr_resource_type :: "string option"
  sr_resource_id :: "string option"
  sr_decision :: "string option"
  sr_detail :: json

definition event_response :: "security_event \<Rightarrow> security_event_response" where
  "event_response e =
     \<lparr>sr_id = se_id e, sr_occurred_at = se_occurred_at e,
      sr_event_type = security_event_type_value (se_event_type e), sr_severity = severity_value (se_severity e),
      sr_actor_user_id = se_actor_user_id e, sr_actor_email = se_actor_email e, sr_ip = se_ip e,
      sr_path = se_path e, sr_resource_type = se_resource_type e, sr_resource_id = se_resource_id e,
      sr_decision = se_decision e, sr_detail = se_detail e\<rparr>"

definition event_rows :: "event_query \<Rightarrow> nat option \<Rightarrow> db \<Rightarrow> security_event list" where
  "event_rows q cursor d =
     order_by_desc se_id (select_where (\<lambda>e. event_matches q e \<and> below_cursor cursor e) (d_events d))"

definition list_security_events ::
  "event_query \<Rightarrow> nat option \<Rightarrow> nat \<Rightarrow> db \<Rightarrow> security_event_response cursor_page" where
  "list_security_events q cursor limit d =
     cursor_cut event_response se_id limit (take (limit + 1) (event_rows q cursor d))"

text \<open>The route: the validation, the scope, the query.\<close>

definition security_events_route ::
  "time \<Rightarrow> user \<Rightarrow> event_query \<Rightarrow> int option \<Rightarrow> int \<Rightarrow> world \<Rightarrow>
   (exn + security_event_response cursor_page) \<times> world" where
  "security_events_route now u q cursor limit w =
     (case require_admin now u w of
        (Inl e, w') \<Rightarrow> (Inl e, w')
      | (Inr _, w') \<Rightarrow>
          if event_query_ok q cursor limit
          then (Inr (list_security_events q (map_option nat cursor) (nat limit) (w_cur w')), w')
          else (Inl (HttpError 422 ''Request validation failed''), w'))"

text \<open>With the ids of the table counting from one, newest first is the table reversed.\<close>

lemma event_ids_nth: "event_ids d \<Longrightarrow> i < length (d_events d) \<Longrightarrow> se_id (d_events d ! i) = Suc i"
  unfolding event_ids_def using nth_map [of i "d_events d" se_id] by (simp del: upt_Suc)

lemma sorted_event_ids: "event_ids d \<Longrightarrow> sorted (map se_id (d_events d))"
  by (simp add: event_ids_def del: upt_Suc)

lemma event_rows_rev:
  assumes "event_ids d"
  shows "event_rows q c d = rev (filter (\<lambda>e. event_matches q e \<and> below_cursor c e) (d_events d))"
  unfolding event_rows_def order_by_desc_def select_where_def
  by (simp add: sort_key_id_if_sorted [OF sorted_filter [OF sorted_event_ids [OF assms]]])

lemma below_prefix:
  assumes "event_ids d" "0 < k" "k \<le> Suc (length (d_events d))"
  shows "filter (\<lambda>e. p e \<and> below_cursor (Some k) e) (d_events d) = filter p (take (k - 1) (d_events d))"
proof -
  let ?t = "take (k - 1) (d_events d)" and ?r = "drop (k - 1) (d_events d)"
  have "\<forall>e \<in> set ?t. below_cursor (Some k) e"
    using assms event_ids_nth [OF assms(1)] by (auto simp: below_cursor_def in_set_conv_nth)
  moreover have "\<forall>e \<in> set ?r. \<not> below_cursor (Some k) e"
  proof
    fix e assume "e \<in> set ?r"
    then obtain i where "i < length ?r" "e = ?r ! i" by (metis in_set_conv_nth)
    then have "k - 1 + i < length (d_events d)" "e = d_events d ! (k - 1 + i)" by simp_all
    then have "se_id e = Suc (k - 1 + i)" using event_ids_nth [OF assms(1)] by blast
    then show "\<not> below_cursor (Some k) e" using assms(2) by (simp add: below_cursor_def)
  qed
  ultimately have "filter (\<lambda>e. p e \<and> below_cursor (Some k) e) ?t = filter p ?t"
    "filter (\<lambda>e. p e \<and> below_cursor (Some k) e) ?r = []"
    by (auto intro: filter_cong)
  then show ?thesis by (metis append_take_drop_id append_Nil2 filter_append)
qed

lemma filter_split:
  "filter P zs = as @ e # bs \<Longrightarrow> \<exists>us vs. zs = us @ e # vs \<and> filter P us = as \<and> P e"
proof (induction zs arbitrary: as)
  case Nil
  then show ?case by simp
next
  case (Cons z zs)
  show ?case
  proof (cases "P z \<and> as = []")
    case True
    then have "z # zs = [] @ e # zs" "P e" using Cons.prems by auto
    then show ?thesis using True by (metis filter.simps(1))
  next
    case False
    define as' where "as' = (if P z then tl as else as)"
    have "filter P zs = as' @ e # bs"
      using Cons.prems False by (cases as) (auto simp: as'_def split: if_splits)
    from Cons.IH [OF this] obtain us vs where u: "zs = us @ e # vs" "filter P us = as'" "P e" by blast
    have "filter P (z # us) = as" using Cons.prems False u by (cases as) (auto simp: as'_def split: if_splits)
    with u show ?thesis by (metis append_Cons)
  qed
qed

lemma rows_below:
  assumes ids: "event_ids d" and rows: "event_rows q c d = xs @ e # ys"
  shows "event_rows q (Some (se_id e)) d = ys" "0 < se_id e" "se_id e \<le> length (d_events d)"
proof -
  let ?P = "\<lambda>e. event_matches q e \<and> below_cursor c e"
  have "filter ?P (d_events d) = rev ys @ e # rev xs"
    using rows unfolding event_rows_rev [OF ids] by (simp add: rev_swap)
  then obtain us vs where D: "d_events d = us @ e # vs" and E: "filter ?P us = rev ys" "?P e"
    using filter_split by metis
  have id: "se_id e = Suc (length us)"
    using event_ids_nth [OF ids, of "length us"] unfolding D by (simp add: nth_append)
  have less: "se_id x < se_id e" if x: "x \<in> set us" for x
  proof -
    obtain i where "i < length us" "x = us ! i" using x by (metis in_set_conv_nth)
    then show ?thesis using event_ids_nth [OF ids, of i] unfolding D id by (simp add: nth_append)
  qed
  have "below_cursor c x" if "x \<in> set us" for x
    using less [OF that] E(2) by (auto simp: below_cursor_def split: option.splits)
  then have "filter (event_matches q) us = filter ?P us" by (intro filter_cong) auto
  moreover have "take (se_id e - 1) (d_events d) = us" unfolding D id by simp
  ultimately have "filter (event_matches q) (take (se_id e - 1) (d_events d)) = rev ys" using E(1) by simp
  moreover show "0 < se_id e" "se_id e \<le> length (d_events d)" unfolding id D by simp_all
  ultimately show "event_rows q (Some (se_id e)) d = ys"
    using below_prefix [OF ids, of "se_id e" "event_matches q"] by (simp add: event_rows_rev [OF ids])
qed

lemma rows_stable:
  assumes "event_ids d" "event_ids d'" "grows d d'" "0 < k" "k \<le> length (d_events d)"
  shows "event_rows q (Some k) d' = event_rows q (Some k) d"
proof -
  obtain es where D: "d_events d' = d_events d @ es"
    using assms(3) by (metis append_take_drop_id grows_def)
  show ?thesis
    using below_prefix [OF assms(1,4)] below_prefix [OF assms(2,4)] assms(5)
    by (simp add: event_rows_rev assms(1,2) D)
qed

interpretation event_log: cursor_feed "\<lambda>c s. list_security_events q c (Suc m) (snd s)" "\<lambda>c s. event_rows q c (snd s)"
    event_response se_id "Suc m" system_ok "txn\<^sup>*\<^sup>*" for q m
proof
  fix s s' :: "uuid \<times> db" and c xs ys e
  assume ok: "system_ok s"
  then have ids: "event_ids (snd s)" by (cases s) (simp add: sound_def)
  show "event_rows q (Some (se_id e)) (snd s) = ys" if "event_rows q c (snd s) = xs @ e # ys"
    by (rule rows_below(1) [OF ids that])
  show "event_rows q (Some (se_id e)) (snd s') = event_rows q (Some (se_id e)) (snd s)"
    if t: "txn\<^sup>*\<^sup>* s s'" and e: "e \<in> set (event_rows q c (snd s))"
  proof -
    have i: "event_ids (snd s')" using txn_path [OF t ok] by (cases s') (simp add: sound_def)
    obtain us vs where "event_rows q c (snd s) = us @ e # vs" using e by (metis split_list)
    from rows_stable [OF ids i txn_path_grows [OF t] rows_below(2,3) [OF ids this]] show ?thesis .
  qed
qed (auto simp: list_security_events_def intro: txn_path)



text \<open>The documented meaning of \<open>cursor\<close> is \<open>id < cursor\<close>; at 0 the code returns the newest page.\<close>

lemma cursor_zero_is_ignored: "list_security_events q (Some 0) limit d = list_security_events q None limit d"
  by (simp add: list_security_events_def event_rows_def below_cursor_def)

section \<open>The dashboard\<close>

text \<open>
  \<open>secrets.compare_digest\<close> on two strings: equality, and a \<open>TypeError\<close> when one of them has a
  character outside ASCII.
\<close>

definition compare_digest :: "string \<Rightarrow> string \<Rightarrow> exn + bool" where
  "compare_digest a b =
     (if list_all (\<lambda>c. of_char c < (128 :: nat)) (a @ b) then Inr (a = b) else Inl (RuntimeError ''TypeError''))"

definition dashboard_auth :: "settings \<Rightarrow> (string \<times> string) option \<Rightarrow> exn + string" where
  "dashboard_auth st credentials =
     (if \<not> dashboard_enabled st then Inl (HttpError 404 ''Dashboard is disabled'')
      else case credentials of
             None \<Rightarrow> Inl (HttpError 401 ''Dashboard login required'')
           | Some (username, password) \<Rightarrow>
               (case (compare_digest username (dashboard_user st), compare_digest password (dashboard_password st)) of
                  (Inl e, _) \<Rightarrow> Inl e
                | (Inr _, Inl e) \<Rightarrow> Inl e
                | (Inr ok_user, Inr ok_pass) \<Rightarrow>
                    if ok_user \<and> ok_pass then Inr username
                    else Inl (HttpError 401 ''Invalid dashboard credentials'')))"

record dash_stats =
  st_active_holds :: nat
  st_seats_booked :: nat
  st_bookings_confirmed :: nat
  st_needs_review :: nat
  st_high_severity_events :: nat
  st_flights :: nat
  st_generated_at :: time

text \<open>\<open>now\<close> is the clock of the database, \<open>clock\<close> the one of the process.\<close>

definition live_hold :: "time \<Rightarrow> seat \<Rightarrow> bool" where
  "live_hold now s = (s_status s = HELD \<and> after (s_hold_expires_at s) now)"

definition stats :: "time \<Rightarrow> time \<Rightarrow> db \<Rightarrow> dash_stats" where
  "stats now clock d =
     \<lparr>st_active_holds = count_where (live_hold now) (d_seats d),
      st_seats_booked = count_where (\<lambda>s. s_status s = BOOKED) (d_seats d),
      st_bookings_confirmed = count_where (\<lambda>b. b_state b = BS_CONFIRMED) (d_bookings d),
      st_needs_review = count_where (\<lambda>b. b_state b = BS_NEEDS_MANUAL_REVIEW) (d_bookings d),
      st_high_severity_events = count_where (\<lambda>e. severity_value (se_severity e) \<in> set [''high'', ''critical'']) (d_events d),
      st_flights = length (d_flights d),
      st_generated_at = clock\<rparr>"

record dash_hold =
  dh_seat_no :: string
  dh_flight_no :: string
  dh_route :: string
  dh_email :: string
  dh_expires_at :: "time option"
  dh_seconds_remaining :: int
  dh_attached_to_booking :: bool

definition right_arrow :: string where
  "right_arrow = [CHR 0xE2, CHR 0x86, CHR 0x92]"

text \<open>The inner join with \<open>flights\<close> and the outer join with \<open>users\<close>, both on a primary key.\<close>

definition hold_row :: "time \<Rightarrow> db \<Rightarrow> seat \<Rightarrow> dash_hold option" where
  "hold_row clock d s =
     (case select_one (\<lambda>f. fl_id f = s_flight_id s) (d_flights d) of
        None \<Rightarrow> None
      | Some f \<Rightarrow> Some
          \<lparr>dh_seat_no = s_seat_no s, dh_flight_no = fl_flight_no f,
           dh_route = fl_src_iata f @ right_arrow @ fl_dst_iata f,
           dh_email = (case s_held_by s of
               None \<Rightarrow> em_dash
             | Some i \<Rightarrow> (case find_user i d of
                 None \<Rightarrow> em_dash
               | Some u \<Rightarrow> if u_email u = [] then em_dash else u_email u)),
           dh_expires_at = s_hold_expires_at s,
           dh_seconds_remaining = (case s_hold_expires_at s of None \<Rightarrow> 0 | Some t \<Rightarrow> max 0 ((t - clock) div 1000000)),
           dh_attached_to_booking = (s_booking_id s \<noteq> None)\<rparr>)"

definition expiry_key :: "seat \<Rightarrow> time" where
  "expiry_key s = (case s_hold_expires_at s of None \<Rightarrow> 0 | Some t \<Rightarrow> t)"

definition active_holds :: "time \<Rightarrow> time \<Rightarrow> nat \<Rightarrow> db \<Rightarrow> dash_hold list" where
  "active_holds now clock limit d =
     take limit (List.map_filter (hold_row clock d)
       (order_by expiry_key (select_where (live_hold now) (d_seats d))))"

text \<open>The server-side timestamp of an audit row is not part of the row here.\<close>

record audit_entry =
  ae_ref :: string
  ae_booking_state :: booking_state
  ae_seq :: nat
  ae_event_type :: audit_event
  ae_from_state :: "booking_state option"
  ae_to_state :: "booking_state option"
  ae_actor_type :: string
  ae_entry_detail :: json

definition audit_entry_of :: "db \<Rightarrow> booking_audit \<Rightarrow> audit_entry option" where
  "audit_entry_of d r =
     (case select_one (\<lambda>b. b_id b = a_booking_id r) (d_bookings d) of
        None \<Rightarrow> None
      | Some b \<Rightarrow> Some
          \<lparr>ae_ref = b_ref b, ae_booking_state = b_state b, ae_seq = a_seq r, ae_event_type = a_event_type r,
           ae_from_state = a_from_state r, ae_to_state = a_to_state r, ae_actor_type = a_actor_type r,
           ae_entry_detail = a_detail r\<rparr>)"

definition audit_entries :: "nat \<Rightarrow> db \<Rightarrow> audit_entry list" where
  "audit_entries limit d = take limit (List.map_filter (audit_entry_of d) (order_by_desc a_id (d_audit d)))"

definition dash_security_events :: "nat \<Rightarrow> string option \<Rightarrow> db \<Rightarrow> security_event list" where
  "dash_security_events limit severity d =
     take limit (order_by_desc se_id (select_where (\<lambda>e. truthy_is severity (severity_value (se_severity e))) (d_events d)))"

text \<open>The routes: the context of each template, behind \<open>dashboard_auth\<close>.\<close>

definition behind_login :: "settings \<Rightarrow> (string \<times> string) option \<Rightarrow> 'a \<Rightarrow> exn + 'a" where
  "behind_login st cred page = (case dashboard_auth st cred of Inl e \<Rightarrow> Inl e | Inr _ \<Rightarrow> Inr page)"

definition dash_index :: "settings \<Rightarrow> (string \<times> string) option \<Rightarrow> time \<Rightarrow> time \<Rightarrow> db \<Rightarrow> exn + dash_stats" where
  "dash_index st cred now clock d = behind_login st cred (stats now clock d)"

definition holds_page ::
  "settings \<Rightarrow> (string \<times> string) option \<Rightarrow> time \<Rightarrow> time \<Rightarrow> db \<Rightarrow> exn + (dash_hold list \<times> dash_stats)" where
  "holds_page st cred now clock d = behind_login st cred (active_holds now clock 100 d, stats now clock d)"

definition holds_rows :: "settings \<Rightarrow> (string \<times> string) option \<Rightarrow> time \<Rightarrow> time \<Rightarrow> db \<Rightarrow> exn + dash_hold list" where
  "holds_rows st cred now clock d = behind_login st cred (active_holds now clock 100 d)"

definition audit_page ::
  "settings \<Rightarrow> (string \<times> string) option \<Rightarrow> time \<Rightarrow> time \<Rightarrow> int \<Rightarrow> db \<Rightarrow> exn + (audit_entry list \<times> dash_stats)" where
  "audit_page st cred now clock limit d =
     (case behind_login st cred (audit_entries (nat limit) d, stats now clock d) of
        Inl e \<Rightarrow> Inl e
      | Inr page \<Rightarrow> if 1 \<le> limit \<and> limit \<le> 500 then Inr page else Inl (HttpError 422 ''Request validation failed''))"

definition severity_filter_ok :: "string option \<Rightarrow> bool" where
  "severity_filter_ok severity = event_query_ok \<lparr>eq_event_type = None, eq_severity = severity, eq_since = None\<rparr> None 1"

definition security_page ::
  "settings \<Rightarrow> (string \<times> string) option \<Rightarrow> time \<Rightarrow> time \<Rightarrow> string option \<Rightarrow> db \<Rightarrow>
   exn + (security_event list \<times> string option \<times> dash_stats)" where
  "security_page st cred now clock severity d =
     (case behind_login st cred (dash_security_events 60 severity d, severity, stats now clock d) of
        Inl e \<Rightarrow> Inl e
      | Inr page \<Rightarrow>
          if severity_filter_ok severity then Inr page else Inl (HttpError 422 ''Request validation failed''))"

definition security_rows ::
  "settings \<Rightarrow> (string \<times> string) option \<Rightarrow> string option \<Rightarrow> db \<Rightarrow> exn + security_event list" where
  "security_rows st cred severity d =
     (case behind_login st cred (dash_security_events 60 severity d) of
        Inl e \<Rightarrow> Inl e
      | Inr page \<Rightarrow>
          if severity_filter_ok severity then Inr page else Inl (HttpError 422 ''Request validation failed''))"

lemma login_needed:
  "dashboard_auth st cred = Inr user \<longleftrightarrow>
   (dashboard_enabled st \<and> cred = Some (dashboard_user st, dashboard_password st) \<and> user = dashboard_user st \<and>
    list_all (\<lambda>c. of_char c < (128 :: nat)) (dashboard_user st @ dashboard_password st))"
  by (auto simp: dashboard_auth_def compare_digest_def list_all_iff split: option.splits if_splits)

lemma map_filter_total: "\<forall>x \<in> set xs. f x \<noteq> None \<Longrightarrow> List.map_filter f xs = map (\<lambda>x. the (f x)) xs"
  by (induction xs) (auto simp: List.map_filter_simps)

text \<open>
  What the dashboard shows of the holds is behind the login and is true. The page is served
  only for the configured credentials; with every seat on a flight that exists it lists as many holds as
  the counter says, up to the limit, none of them over, the soonest to expire first, and
  no hold that is left out expires before one that is shown.
\<close>

theorem dashboard_shows_live_holds:
  assumes "holds_page st cred now clock d = Inr (hs, sts)"
    and fk: "\<forall>s \<in> set (d_seats d). select_one (\<lambda>f. fl_id f = s_flight_id s) (d_flights d) \<noteq> None"
  shows "cred = Some (dashboard_user st, dashboard_password st) \<and> dashboard_enabled st \<and>
    length hs = min 100 (st_active_holds sts) \<and>
    sorted (map (\<lambda>h. the (dh_expires_at h)) hs) \<and>
    (\<forall>h \<in> set hs. \<exists>t. dh_expires_at h = Some t \<and> now < t) \<and>
    (\<forall>s \<in> set (d_seats d). live_hold now s \<longrightarrow> the (hold_row clock d s) \<notin> set hs \<longrightarrow>
       (\<forall>h \<in> set hs. the (dh_expires_at h) \<le> expiry_key s))"
proof -
  let ?live = "order_by expiry_key (select_where (live_hold now) (d_seats d))"
  let ?row = "\<lambda>s. the (hold_row clock d s)"
  have hs: "hs = active_holds now clock 100 d" "sts = stats now clock d" and auth: "dashboard_auth st cred \<noteq> Inl e" for e
    using assms(1) by (auto simp: holds_page_def behind_login_def split: sum.splits)
  have cred: "cred = Some (dashboard_user st, dashboard_password st)" "dashboard_enabled st"
    using auth login_needed [of st cred] by (cases "dashboard_auth st cred"; simp)+
  have mem: "s \<in> set (d_seats d)" "live_hold now s" if "s \<in> set ?live" for s
    using that by (auto simp: order_by_def select_where_def)
  have some: "\<forall>s \<in> set ?live. hold_row clock d s \<noteq> None"
    using fk mem(1) by (auto simp: hold_row_def split: option.splits)
  have rows: "hs = map ?row (take 100 ?live)"
    unfolding hs active_holds_def map_filter_total [OF some] by (simp add: take_map)
  have exp: "dh_expires_at (?row s) = s_hold_expires_at s" "\<exists>t. s_hold_expires_at s = Some t \<and> now < t"
    "the (s_hold_expires_at s) = expiry_key s" if "s \<in> set ?live" for s
    using some mem(2) [OF that] that
    by (auto simp: hold_row_def live_hold_def after_def expiry_key_def split: option.splits)
  have key: "map (\<lambda>h. the (dh_expires_at h)) hs = map expiry_key (take 100 ?live)"
    unfolding rows using exp by (auto dest: in_set_takeD)
  have srt: "sorted (map expiry_key ?live)" by (simp add: order_by_def)
  have "length ?live = st_active_holds sts"
    unfolding hs by (simp add: stats_def order_by_def select_where_def count_where_def)
  then have len: "length hs = min 100 (st_active_holds sts)" unfolding rows by (simp add: min.commute)
  have "sorted (map expiry_key (take 100 ?live))" using sorted_wrt_take [OF srt] by (simp add: take_map)
  then have sorted: "sorted (map (\<lambda>h. the (dh_expires_at h)) hs)" unfolding key .
  have fut: "\<forall>h \<in> set hs. \<exists>t. dh_expires_at h = Some t \<and> now < t"
    unfolding rows using exp by (force dest: in_set_takeD)
  have left: "the (dh_expires_at h) \<le> expiry_key s"
    if sh: "s \<in> set (d_seats d)" "live_hold now s" "?row s \<notin> set hs" "h \<in> set hs" for s h
  proof -
    have "s \<in> set ?live" using sh(1,2) by (simp add: order_by_def select_where_def)
    then have "s \<in> set (take 100 ?live) \<or> s \<in> set (drop 100 ?live)" by (metis Un_iff append_take_drop_id set_append)
    moreover have "s \<notin> set (take 100 ?live)" using sh(3) unfolding rows by auto
    ultimately have dr: "s \<in> set (drop 100 ?live)" by blast
    obtain s' where s': "s' \<in> set (take 100 ?live)" "h = ?row s'" using sh(4) unfolding rows by auto
    have "sorted (map expiry_key (take 100 ?live) @ map expiry_key (drop 100 ?live))"
      using srt by (metis append_take_drop_id map_append)
    then have "expiry_key s' \<le> expiry_key s" using s'(1) dr by (auto simp: sorted_append)
    moreover have "the (dh_expires_at h) = expiry_key s'" using exp(1,3) [OF in_set_takeD [OF s'(1)]] s'(2) by simp
    ultimately show ?thesis by simp
  qed
  from cred len sorted fut left show ?thesis by blast
qed

theorem dashboard_shows_live_holds_witness:
  "\<exists>hs sts. holds_page default_settings (Some (''dash'', ''dash-dev-password'')) 0 0 lapsed_db = Inr (hs, sts) \<and>
     length hs = min 100 (st_active_holds sts)"
proof -
  have "dashboard_auth default_settings (Some (''dash'', ''dash-dev-password'')) = Inr ''dash''"
    by (simp add: login_needed default_settings_def)
  then obtain hs sts where h: "holds_page default_settings (Some (''dash'', ''dash-dev-password'')) 0 0 lapsed_db = Inr (hs, sts)"
    by (simp add: holds_page_def behind_login_def)
  have "\<forall>s \<in> set (d_seats lapsed_db). select_one (\<lambda>f. fl_id f = s_flight_id s) (d_flights lapsed_db) \<noteq> None"
    by (simp add: lapsed_db_def demo_db_def empty_db_def demo_seat_def take_seat_def select_one_def)
  from dashboard_shows_live_holds [OF h this] h show ?thesis by blast
qed

section \<open>Health\<close>

text \<open>\<open>/health\<close>: the two probes return None or the name of the exception they raise.\<close>

definition probe_text :: "string option \<Rightarrow> string" where
  "probe_text r = (case r of None \<Rightarrow> ''ok'' | Some exc \<Rightarrow> ''error: '' @ exc)"

definition health :: "string option \<Rightarrow> string option \<Rightarrow> string \<Rightarrow> (string \<times> json) list" where
  "health database redis env =
     (let healthy = (probe_text database = ''ok'') in
      [(''status'', JStr (if healthy \<and> probe_text redis = ''ok'' then ''ok'' else ''degraded'')),
       (''checks'', JObj [(''database'', JStr (probe_text database)), (''redis'', JStr (probe_text redis))]),
       (''environment'', JStr env)])"

end
