(* ===== verification/Sky_Reference.thy ===== *)
theory Sky_Reference
  imports Sky_World Sky_Schemas Sky_Pages "HOL-Library.AList"
begin

text \<open>
  \<^verbatim>\<open>scripts/seed_reference.py\<close>: airports, airlines and routes from three downloaded files. The
  model starts from the text of the files (\<open>fetch\<close> is a download and a cache). \<open>csv.reader\<close> is
  the automaton of Python's \<open>csv\<close> module with the default dialect; \<open>float()\<close> is the parameter
  \<open>to_float\<close>, None where it raises. The codes and names of the files are taken as ASCII.
\<close>

subsection \<open>Python's csv reader\<close>

datatype csv_state = StartRecord | StartField | InField | InQuoted | QuoteInQuoted | EatCrnl

type_synonym csv_reader = "csv_state \<times> string \<times> string list"

definition csv_start :: csv_reader where
  "csv_start = (StartRecord, [], [])"

definition newline_char :: "char \<Rightarrow> bool" where
  "newline_char c = (c = CHR 0x0A \<or> c = CHR 0x0D)"

text \<open>One character; \<open>None\<close> is the end of a line. A finished field is appended to the record.\<close>

fun csv_field :: "csv_reader \<Rightarrow> char option \<Rightarrow> csv_reader" where
  "csv_field (st, f, fs) c =
     (case c of
        None \<Rightarrow> (StartRecord, [], fs @ [f])
      | Some x \<Rightarrow>
          if newline_char x then (EatCrnl, [], fs @ [f])
          else if x = CHR '','' then (StartField, [], fs @ [f])
          else if st = StartField \<and> x = CHR 0x22 then (InQuoted, f, fs)
          else (InField, f @ [x], fs))"

fun csv_step :: "csv_reader \<Rightarrow> char option \<Rightarrow> exn + csv_reader" where
  "csv_step (StartRecord, f, fs) c =
     (case c of
        None \<Rightarrow> Inr (StartRecord, f, fs)
      | Some x \<Rightarrow> if newline_char x then Inr (EatCrnl, f, fs) else Inr (csv_field (StartField, f, fs) c))"
| "csv_step (StartField, f, fs) c = Inr (csv_field (StartField, f, fs) c)"
| "csv_step (InField, f, fs) c = Inr (csv_field (InField, f, fs) c)"
| "csv_step (InQuoted, f, fs) c =
     (case c of
        None \<Rightarrow> Inr (InQuoted, f, fs)
      | Some x \<Rightarrow> if x = CHR 0x22 then Inr (QuoteInQuoted, f, fs) else Inr (InQuoted, f @ [x], fs))"
| "csv_step (QuoteInQuoted, f, fs) c =
     (if c = Some (CHR 0x22) then Inr (InQuoted, f @ [CHR 0x22], fs) else Inr (csv_field (InField, f, fs) c))"
| "csv_step (EatCrnl, f, fs) c =
     (case c of
        None \<Rightarrow> Inr (StartRecord, f, fs)
      | Some x \<Rightarrow> if newline_char x then Inr (EatCrnl, f, fs)
                  else Inl (ValueError ''new-line character seen in unquoted field''))"

fun csv_line :: "csv_reader \<Rightarrow> string \<Rightarrow> exn + csv_reader" where
  "csv_line r [] = csv_step r None"
| "csv_line r (x # xs) = (case csv_step r (Some x) of Inl e \<Rightarrow> Inl e | Inr r' \<Rightarrow> csv_line r' xs)"

text \<open>The lines of \<open>io.StringIO\<close>, each with its line feed.\<close>

fun split_lines :: "string \<Rightarrow> string list" where
  "split_lines [] = []"
| "split_lines (c # cs) =
     (if c = CHR 0x0A then [c] # split_lines cs
      else case split_lines cs of [] \<Rightarrow> [[c]] | l # ls \<Rightarrow> (c # l) # ls)"

text \<open>A record ends with the line after which the reader is back at the start; at the end of
  the file an open quoted field is closed.\<close>

fun csv_records :: "csv_reader \<Rightarrow> string list \<Rightarrow> exn + string list list" where
  "csv_records (st, f, fs) [] = Inr (if st = InQuoted then [fs @ [f]] else [])"
| "csv_records r (l # ls) =
     (case csv_line r l of
        Inl e \<Rightarrow> Inl e
      | Inr (st, f, fs) \<Rightarrow>
          if st = StartRecord
          then (case csv_records csv_start ls of Inl e \<Rightarrow> Inl e | Inr rs \<Rightarrow> Inr (fs # rs))
          else csv_records (st, f, fs) ls)"

definition csv_read :: "string \<Rightarrow> exn + string list list" where
  "csv_read raw = csv_records csv_start (split_lines raw)"

text \<open>
  \<open>csv.DictReader\<close>: the first record names the columns, empty records are skipped, a short
  record has None in the missing columns; of two columns with one name the last counts.
\<close>

definition dict_row :: "string list \<Rightarrow> string list \<Rightarrow> string \<Rightarrow> string option" where
  "dict_row header r k =
     Option.bind (map_of (rev (zip header (map Some r @ replicate (length header - length r) None))) k) id"

definition dict_rows :: "string list list \<Rightarrow> (string \<Rightarrow> string option) list" where
  "dict_rows rs =
     (case rs of
        [] \<Rightarrow> []
      | header # body \<Rightarrow> map (dict_row header) (filter (\<lambda>r. r \<noteq> []) body))"

subsection \<open>The three files\<close>

definition USEFUL_AIRPORT_TYPES :: "string set" where
  "USEFUL_AIRPORT_TYPES = {''large_airport'', ''medium_airport''}"

definition BATCH :: nat where "BATCH = 2000"

text \<open>\<open>row.get(k) or ''\<close>.\<close>

definition get_or :: "(string \<Rightarrow> string option) \<Rightarrow> string \<Rightarrow> string" where
  "get_or row k = (case row k of None \<Rightarrow> [] | Some v \<Rightarrow> v)"

definition parse_airport :: "(string \<Rightarrow> rat option) \<Rightarrow> (string \<Rightarrow> string option) \<Rightarrow> airport option" where
  "parse_airport to_float row =
     (let iata = upper (strip (get_or row ''iata_code'')) in
      if length iata \<noteq> 3 \<or> \<not> list_all is_alpha iata then None
      else if row ''type'' \<notin> Some ` USEFUL_AIRPORT_TYPES then None
      else if strip (get_or row ''scheduled_service'') \<noteq> ''yes'' then None
      else Some
        \<lparr>ap_iata = iata,
         ap_icao = or_none (take 4 (upper (strip (get_or row ''gps_code'')))),
         ap_name = take 200 (if get_or row ''name'' = [] then iata else get_or row ''name''),
         ap_city = or_none (take 120 (strip (get_or row ''municipality''))),
         ap_country = or_none (take 2 (upper (strip (get_or row ''iso_country'')))),
         ap_coords = (case (Option.bind (row ''latitude_deg'') to_float, Option.bind (row ''longitude_deg'') to_float) of
                        (Some lat, Some lon) \<Rightarrow> Some (lat, lon)
                      | _ \<Rightarrow> None)\<rparr>)"

text \<open>\<open>list({r['iata']: r for r in rows}.values())\<close>: the place of the first, the value of the last.\<close>

definition last_per_key :: "('r \<Rightarrow> string) \<Rightarrow> 'r list \<Rightarrow> 'r list" where
  "last_per_key k rows = map snd (fold (\<lambda>r. AList.update (k r) r) rows [])"

definition parse_airports :: "(string \<Rightarrow> rat option) \<Rightarrow> string \<Rightarrow> exn + airport list" where
  "parse_airports to_float raw =
     (case csv_read raw of
        Inl e \<Rightarrow> Inl e
      | Inr rs \<Rightarrow> Inr (last_per_key ap_iata (List.map_filter (parse_airport to_float) (dict_rows rs))))"

definition backslash_N :: string where
  "backslash_N = [CHR 0x5C, CHR ''N'']"

definition parse_airline :: "string list \<Rightarrow> airline option" where
  "parse_airline rec =
     (if length rec < 8 then None
      else
        let iata = upper (strip (rec ! 3)); icao = strip (rec ! 4) in
        if length iata \<noteq> 2 \<or> iata \<in> {''-'', backslash_N} \<or> \<not> list_all is_alnum iata then None
        else if strip (rec ! 7) \<noteq> ''Y'' then None
        else Some
          \<lparr>al_iata = iata,
           al_icao = (if icao \<notin> {backslash_N, ''-'', []} then or_none (take 3 (upper icao)) else None),
           al_name = (if take 200 (strip (rec ! 1)) = [] then iata else take 200 (strip (rec ! 1))),
           al_country = or_none (take 80 (strip (rec ! 6))),
           al_active = True\<rparr>)"

definition parse_airlines :: "string \<Rightarrow> exn + airline list" where
  "parse_airlines raw =
     (case csv_read raw of
        Inl e \<Rightarrow> Inl e
      | Inr rs \<Rightarrow> Inr (last_per_key al_iata (List.map_filter parse_airline rs)))"

definition route_key :: "route \<Rightarrow> string \<times> string \<times> string" where
  "route_key r = (ro_airline_iata r, ro_src_iata r, ro_dst_iata r)"

definition parse_route :: "string set \<Rightarrow> string set \<Rightarrow> string list \<Rightarrow> route option" where
  "parse_route airports airlines rec =
     (if length rec < 9 then None
      else
        let airline = upper (strip (rec ! 0)); src = upper (strip (rec ! 2)); dst = upper (strip (rec ! 4));
            stops = strip (rec ! 7); equipment = strip (rec ! 8)
        in if airline \<notin> airlines \<or> src \<notin> airports \<or> dst \<notin> airports then None
           else if src = dst \<or> stops \<notin> {''0'', []} then None
           else Some \<lparr>ro_airline_iata = airline, ro_src_iata = src, ro_dst_iata = dst,
                      ro_equipment = or_none (take 120 equipment)\<rparr>)"

fun route_loop ::
  "string set \<Rightarrow> string set \<Rightarrow> (string \<times> string \<times> string) set \<Rightarrow> string list list \<Rightarrow> route list" where
  "route_loop airports airlines seen [] = []"
| "route_loop airports airlines seen (rec # recs) =
     (case parse_route airports airlines rec of
        None \<Rightarrow> route_loop airports airlines seen recs
      | Some r \<Rightarrow>
          if route_key r \<in> seen then route_loop airports airlines seen recs
          else r # route_loop airports airlines (insert (route_key r) seen) recs)"

definition parse_routes :: "string \<Rightarrow> string set \<Rightarrow> string set \<Rightarrow> exn + route list" where
  "parse_routes raw airports airlines =
     (case csv_read raw of Inl e \<Rightarrow> Inl e | Inr rs \<Rightarrow> Inr (route_loop airports airlines {} rs))"

subsection \<open>The load\<close>

text \<open>\<open>INSERT ... ON CONFLICT (key) DO NOTHING\<close>.\<close>

definition insert_missing :: "('r \<Rightarrow> 'k) \<Rightarrow> 'r list \<Rightarrow> 'r list \<Rightarrow> 'r list" where
  "insert_missing k rows t = fold (\<lambda>r t. if k r \<in> k ` set t then t else t @ [r]) rows t"

definition batches :: "nat \<Rightarrow> 'r list \<Rightarrow> 'r list list" where
  "batches n rows = map (\<lambda>p. page_slice p n rows) [1..<Suc ((length rows + n - 1) div n)]"

definition bulk_upsert :: "('r \<Rightarrow> 'k) \<Rightarrow> 'r list \<Rightarrow> 'r list \<Rightarrow> 'r list" where
  "bulk_upsert k rows t = (if rows = [] then t else fold (insert_missing k) (batches BATCH rows) t)"

definition seed_reference :: "(string \<Rightarrow> rat option) \<Rightarrow> string \<Rightarrow> string \<Rightarrow> string \<Rightarrow> db \<Rightarrow> exn + db" where
  "seed_reference to_float airports_raw airlines_raw routes_raw d =
     (case parse_airports to_float airports_raw of
        Inl e \<Rightarrow> Inl e
      | Inr airports \<Rightarrow>
          (case parse_airlines airlines_raw of
             Inl e \<Rightarrow> Inl e
           | Inr airlines \<Rightarrow>
               (case parse_routes routes_raw (ap_iata ` set airports) (al_iata ` set airlines) of
                  Inl e \<Rightarrow> Inl e
                | Inr routes \<Rightarrow>
                    Inr (d\<lparr>d_airports := bulk_upsert ap_iata airports (d_airports d),
                           d_airlines := bulk_upsert al_iata airlines (d_airlines d),
                           d_routes := bulk_upsert route_key routes (d_routes d)\<rparr>))))"

subsection \<open>What is loaded\<close>

lemma insert_missing_Cons:
  "insert_missing k (r # rs) t = insert_missing k rs (if k r \<in> k ` set t then t else t @ [r])"
  by (simp add: insert_missing_def)

lemma insert_missing_append: "insert_missing k (xs @ ys) t = insert_missing k ys (insert_missing k xs t)"
  by (simp add: insert_missing_def)

lemma insert_missing_rows: "\<exists>xs. insert_missing k rs t = t @ xs \<and> set xs \<subseteq> set rs"
proof (induction rs arbitrary: t)
  case Nil
  then show ?case by (simp add: insert_missing_def)
next
  case (Cons r rs)
  obtain xs where "insert_missing k rs (if k r \<in> k ` set t then t else t @ [r]) = (if k r \<in> k ` set t then t else t @ [r]) @ xs"
    "set xs \<subseteq> set rs" using Cons by blast
  then show ?case
    by (intro exI [of _ "(if k r \<in> k ` set t then [] else [r]) @ xs"]) (auto simp: insert_missing_Cons)
qed

lemma insert_missing_keys: "k ` set (insert_missing k rs t) = k ` set t \<union> k ` set rs"
  by (induction rs arbitrary: t) (auto simp: insert_missing_Cons insert_missing_def [of k "[]"])

lemma insert_missing_unique: "unique_key k t \<Longrightarrow> unique_key k (insert_missing k rs t)"
  by (induction rs arbitrary: t) (auto simp: insert_missing_Cons insert_missing_def [of k "[]"] unique_key_def)

lemma insert_missing_done: "k ` set rs \<subseteq> k ` set t \<Longrightarrow> insert_missing k rs t = t"
  by (induction rs arbitrary: t) (auto simp: insert_missing_Cons insert_missing_def [of k "[]"])

text \<open>The batches are the rows, so the size of a batch does not matter.\<close>

lemma concat_batches: "0 < n \<Longrightarrow> concat (batches n rows) = rows"
proof -
  assume n: "0 < n"
  have "length rows \<le> (length rows + n - 1) div n * n"
    using n div_mult_mod_eq [of "length rows + n - 1" n] mod_less_divisor [OF n, of "length rows + n - 1"] by linarith
  then show ?thesis by (simp only: batches_def slices_prefix take_all)
qed

lemma bulk_upsert_missing: "bulk_upsert k rows t = insert_missing k rows t"
proof -
  have "fold (insert_missing k) bs t = insert_missing k (concat bs) t" for bs
    by (induction bs arbitrary: t) (simp_all add: insert_missing_append insert_missing_def [of k "[]"])
  then show ?thesis by (simp add: bulk_upsert_def concat_batches BATCH_def insert_missing_def)
qed

lemma last_per_key_set: "set (last_per_key k rows) \<subseteq> set rows"
proof -
  have "snd ` set (fold (\<lambda>r. AList.update (k r) r) rows al) \<subseteq> snd ` set al \<union> set rows" for al
  proof (induction rows arbitrary: al)
    case Nil
    then show ?case by simp
  next
    case (Cons r rows)
    have "snd ` set (AList.update (k r) r al) \<subseteq> insert r (snd ` set al)"
      by (induction al) (auto split: if_splits)
    with Cons [of "AList.update (k r) r al"] show ?case by auto
  qed
  from this [of "[]"] show ?thesis by (simp add: last_per_key_def)
qed

text \<open>The widths of the columns, and what a route is.\<close>

definition airport_fits :: "airport \<Rightarrow> bool" where
  "airport_fits a = (length (ap_iata a) = 3 \<and> list_all is_alpha (ap_iata a) \<and> length (ap_name a) \<le> 200 \<and>
     (\<forall>s. ap_icao a = Some s \<longrightarrow> s \<noteq> [] \<and> length s \<le> 4) \<and> (\<forall>s. ap_city a = Some s \<longrightarrow> s \<noteq> [] \<and> length s \<le> 120) \<and>
     (\<forall>s. ap_country a = Some s \<longrightarrow> s \<noteq> [] \<and> length s \<le> 2))"

definition airline_fits :: "airline \<Rightarrow> bool" where
  "airline_fits a = (length (al_iata a) = 2 \<and> list_all is_alnum (al_iata a) \<and> al_name a \<noteq> [] \<and> length (al_name a) \<le> 200 \<and>
     (\<forall>s. al_icao a = Some s \<longrightarrow> s \<noteq> [] \<and> length s \<le> 3) \<and> (\<forall>s. al_country a = Some s \<longrightarrow> s \<noteq> [] \<and> length s \<le> 80))"

definition route_fits :: "db \<Rightarrow> route \<Rightarrow> bool" where
  "route_fits d r = (ro_src_iata r \<noteq> ro_dst_iata r \<and> ro_airline_iata r \<in> al_iata ` set (d_airlines d) \<and>
     {ro_src_iata r, ro_dst_iata r} \<subseteq> ap_iata ` set (d_airports d) \<and>
     (\<forall>s. ro_equipment r = Some s \<longrightarrow> s \<noteq> [] \<and> length s \<le> 120))"

lemma or_none_fits: "or_none (take n s) = Some t \<Longrightarrow> t \<noteq> [] \<and> length t \<le> n"
  by (auto simp: or_none_def split: if_splits)

lemma parse_airport_fits: "parse_airport to_float row = Some a \<Longrightarrow> airport_fits a"
  by (auto simp: parse_airport_def airport_fits_def Let_def dest!: or_none_fits split: if_splits)

lemma parse_airline_fits: "parse_airline rec = Some a \<Longrightarrow> airline_fits a"
  by (auto simp: parse_airline_def airline_fits_def Let_def dest!: or_none_fits split: if_splits)

lemma parse_route_fits:
  "parse_route (ap_iata ` set aps) (al_iata ` set als) rec = Some r \<Longrightarrow>
   ap_iata ` set aps \<subseteq> ap_iata ` set (d_airports d) \<Longrightarrow> al_iata ` set als \<subseteq> al_iata ` set (d_airlines d) \<Longrightarrow> route_fits d r"
  by (auto simp: parse_route_def route_fits_def Let_def dest!: or_none_fits split: if_splits)

lemma route_loop_rows:
  "r \<in> set (route_loop aps als seen recs) \<Longrightarrow> \<exists>rec \<in> set recs. parse_route aps als rec = Some r"
  by (induction recs arbitrary: seen) (auto split: option.splits if_splits)

lemma seed_reference_again:
  assumes "seed_reference to_float a l r d = Inr d'"
  shows "seed_reference to_float a l r d' = Inr d'"
proof -
  obtain aps als rts where p: "parse_airports to_float a = Inr aps" "parse_airlines l = Inr als"
    "parse_routes r (ap_iata ` set aps) (al_iata ` set als) = Inr rts"
    and d': "d' = d\<lparr>d_airports := insert_missing ap_iata aps (d_airports d),
        d_airlines := insert_missing al_iata als (d_airlines d), d_routes := insert_missing route_key rts (d_routes d)\<rparr>"
    using assms by (auto simp: seed_reference_def bulk_upsert_missing split: sum.splits)
  then show ?thesis
    by (simp add: seed_reference_def bulk_upsert_missing insert_missing_done insert_missing_keys)
qed

text \<open>
  C20: the reference load can be repeated and keeps what is there. It only appends rows, keeps the keys
  unique, and a second run with the same files changes nothing; every row it appends fits
  the columns, and every route it appends joins two different airports of the table and is
  flown by an airline of the table.
\<close>

theorem reference_load_repeatable:
  assumes "seed_reference to_float a l r d = Inr d'"
  shows "seed_reference to_float a l r d' = Inr d' \<and>
    (\<exists>as. d_airports d' = d_airports d @ as \<and> list_all airport_fits as) \<and>
    (\<exists>ls. d_airlines d' = d_airlines d @ ls \<and> list_all airline_fits ls) \<and>
    (\<exists>rs. d_routes d' = d_routes d @ rs \<and> list_all (route_fits d') rs) \<and>
    (unique_key ap_iata (d_airports d) \<longrightarrow> unique_key ap_iata (d_airports d')) \<and>
    (unique_key al_iata (d_airlines d) \<longrightarrow> unique_key al_iata (d_airlines d')) \<and>
    (unique_key route_key (d_routes d) \<longrightarrow> unique_key route_key (d_routes d'))"
proof -
  obtain aps als rts where p: "parse_airports to_float a = Inr aps" "parse_airlines l = Inr als"
    "parse_routes r (ap_iata ` set aps) (al_iata ` set als) = Inr rts"
    and d': "d' = d\<lparr>d_airports := insert_missing ap_iata aps (d_airports d),
        d_airlines := insert_missing al_iata als (d_airlines d), d_routes := insert_missing route_key rts (d_routes d)\<rparr>"
    using assms by (auto simp: seed_reference_def bulk_upsert_missing split: sum.splits)
  have "set aps \<subseteq> set (List.map_filter (parse_airport to_float) (dict_rows rs))" if "csv_read a = Inr rs" for rs
    using p(1) that last_per_key_set [of ap_iata] by (auto simp: parse_airports_def)
  then have fa: "\<forall>x \<in> set aps. airport_fits x"
    using p(1) parse_airport_fits by (force simp: parse_airports_def map_filter_def split: sum.splits)
  have "set als \<subseteq> set (List.map_filter parse_airline rs)" if "csv_read l = Inr rs" for rs
    using p(2) that last_per_key_set [of al_iata] by (auto simp: parse_airlines_def)
  then have fl: "\<forall>x \<in> set als. airline_fits x"
    using p(2) parse_airline_fits by (force simp: parse_airlines_def map_filter_def split: sum.splits)
  have keys: "ap_iata ` set aps \<subseteq> ap_iata ` set (d_airports d')" "al_iata ` set als \<subseteq> al_iata ` set (d_airlines d')"
    unfolding d' by (simp_all add: insert_missing_keys)
  have fr: "\<forall>x \<in> set rts. route_fits d' x"
    using p(3) parse_route_fits [OF _ keys] by (auto simp: parse_routes_def dest!: route_loop_rows split: sum.splits)
  have again: "seed_reference to_float a l r d' = Inr d'" by (rule seed_reference_again [OF assms])
  have "\<exists>as. d_airports d' = d_airports d @ as \<and> list_all airport_fits as"
    "\<exists>ls. d_airlines d' = d_airlines d @ ls \<and> list_all airline_fits ls"
    "\<exists>rs. d_routes d' = d_routes d @ rs \<and> list_all (route_fits d') rs"
    using insert_missing_rows [of ap_iata aps "d_airports d"] insert_missing_rows [of al_iata als "d_airlines d"]
      insert_missing_rows [of route_key rts "d_routes d"] fa fl fr
    by (auto simp: d' list_all_iff subset_eq)
  moreover have "unique_key ap_iata (d_airports d) \<longrightarrow> unique_key ap_iata (d_airports d')"
    "unique_key al_iata (d_airlines d) \<longrightarrow> unique_key al_iata (d_airlines d')"
    "unique_key route_key (d_routes d) \<longrightarrow> unique_key route_key (d_routes d')"
    unfolding d' by (simp_all add: insert_missing_unique)
  ultimately show ?thesis using again by blast
qed

theorem reference_load_repeatable_witness:
  "\<exists>d'. seed_reference (\<lambda>_. None) [] ''1,Air Canada,x,AC,ACA,C,Canada,Y'' [] empty_db = Inr d' \<and>
     map al_iata (d_airlines d') = [''AC''] \<and>
     seed_reference (\<lambda>_. None) [] ''1,Air Canada,x,AC,ACA,C,Canada,Y'' [] d' = Inr d'"
proof -
  have "csv_read ''1,Air Canada,x,AC,ACA,C,Canada,Y'' =
      Inr [[''1'', ''Air Canada'', ''x'', ''AC'', ''ACA'', ''C'', ''Canada'', ''Y'']]"
    by (simp add: csv_read_def csv_start_def newline_char_def)
  moreover have "parse_airline [''1'', ''Air Canada'', ''x'', ''AC'', ''ACA'', ''C'', ''Canada'', ''Y''] =
      Some \<lparr>al_iata = ''AC'', al_icao = Some ''ACA'', al_name = ''Air Canada'', al_country = Some ''Canada'', al_active = True\<rparr>"
    by (simp add: parse_airline_def Let_def strip_def is_space_def upper_def upper_char_def or_none_def backslash_N_def
        is_alnum_def is_alpha_def is_upper_def is_digit_def less_eq_char_def)
  ultimately have "parse_airlines ''1,Air Canada,x,AC,ACA,C,Canada,Y'' =
      Inr [\<lparr>al_iata = ''AC'', al_icao = Some ''ACA'', al_name = ''Air Canada'', al_country = Some ''Canada'', al_active = True\<rparr>]"
    by (simp add: parse_airlines_def last_per_key_def map_filter_def)
  then have load: "seed_reference (\<lambda>_. None) [] ''1,Air Canada,x,AC,ACA,C,Canada,Y'' [] empty_db = Inr (empty_db\<lparr>d_airlines :=
      [\<lparr>al_iata = ''AC'', al_icao = Some ''ACA'', al_name = ''Air Canada'', al_country = Some ''Canada'', al_active = True\<rparr>]\<rparr>)"
    by (simp add: seed_reference_def parse_airports_def parse_routes_def csv_read_def csv_start_def bulk_upsert_missing
        dict_rows_def last_per_key_def map_filter_def insert_missing_def empty_db_def)
  from reference_load_repeatable [OF this] load show ?thesis by simp
qed

end
