(* ===== verification/Sky_Seed.thy ===== *)
theory Sky_Seed
  imports Sky_Reference Sky_Holds Sky_SagaFacts
begin

text \<open>
  \<^verbatim>\<open>scripts/seed_flights.py\<close>: bookable flights with their fare classes and seats on the routes of
  the reference data. Floating-point arithmetic is exact arithmetic followed by the rounding
  \<open>fl\<close> of each operation; the great-circle distance (sines and square roots) is the
  parameter \<open>great_circle_km\<close>, \<open>func.md5\<close> of Postgres is \<open>md5\<close>, and \<open>random\<close> is a record of its
  draws. The closing report (a query and log lines) is left out.
\<close>

subsection \<open>Aircraft\<close>

record cabin_block =
  cb_cabin :: string
  cb_code :: string
  cb_multiplier :: rat
  cb_first_row :: nat
  cb_last_row :: nat
  cb_letters :: string
  cb_exit_rows :: "nat list"

definition seat_count :: "cabin_block \<Rightarrow> nat" where
  "seat_count b = (cb_last_row b - cb_first_row b + 1) * length (cb_letters b)"

definition CabinBlock :: "string \<Rightarrow> string \<Rightarrow> rat \<Rightarrow> nat \<Rightarrow> nat \<Rightarrow> string \<Rightarrow> nat list \<Rightarrow> cabin_block" where
  "CabinBlock cabin code mult first_row last_row letters exit_rows =
     \<lparr>cb_cabin = cabin, cb_code = code, cb_multiplier = mult, cb_first_row = first_row, cb_last_row = last_row,
      cb_letters = letters, cb_exit_rows = exit_rows\<rparr>"

definition AIRCRAFT :: "(string \<times> cabin_block list) list" where
  "AIRCRAFT =
     [(''CRJ9'', [CabinBlock ''economy'' ''Y'' 1 1 19 ''ABCD'' [10]]),
      (''A320'', [CabinBlock ''business'' ''J'' (28 / 10) 1 3 ''ACDF'' [],
                  CabinBlock ''economy'' ''Y'' 1 10 32 ''ABCDEF'' [14, 15]]),
      (''B738'', [CabinBlock ''business'' ''J'' (28 / 10) 1 4 ''ACDF'' [],
                  CabinBlock ''economy'' ''Y'' 1 10 33 ''ABCDEF'' [16, 17]]),
      (''B77W'', [CabinBlock ''business'' ''J'' (34 / 10) 1 7 ''ACDFGJ'' [],
                  CabinBlock ''premium'' ''W'' (17 / 10) 20 24 ''ACDEFGHJ'' [],
                  CabinBlock ''economy'' ''Y'' 1 30 57 ''ABCDEFGHJK'' [40, 41]])]"

definition EXIT_ROW_SURCHARGE :: rat where "EXIT_ROW_SURCHARGE = 28"

text \<open>\<open>random.choice\<close> with the draw \<open>k\<close>.\<close>

definition aircraft_for :: "nat \<Rightarrow> rat \<Rightarrow> string" where
  "aircraft_for k distance_km =
     (if distance_km < 700 then choice [''CRJ9'', ''A320''] k
      else if distance_km < 2500 then choice [''A320'', ''B738''] k
      else if distance_km < 6000 then choice [''B738'', ''B77W''] k
      else ''B77W'')"

subsection \<open>Duration and price\<close>

text \<open>\<open>round(x)\<close>: the nearest integer, a tie goes to the even one.\<close>

definition round_half_even :: "rat \<Rightarrow> int" where
  "round_half_even x =
     (let f = \<lfloor>x\<rfloor>; r = x - of_int f in
      if r < 1 / 2 then f else if 1 / 2 < r then f + 1 else if even f then f else f + 1)"

definition block_minutes :: "(rat \<Rightarrow> rat) \<Rightarrow> rat \<Rightarrow> int" where
  "block_minutes fl distance_km = round_half_even (fl (fl (distance_km / 850) * 60)) + 35"

text \<open>\<open>Decimal(str(round(x, 2)))\<close> is the two-decimal number nearest to the float.\<close>

definition base_fare_for :: "(rat \<Rightarrow> rat) \<Rightarrow> rat \<Rightarrow> cents" where
  "base_fare_for fl distance_km =
     money (68 + of_int (round_half_even (fl (distance_km * fl (85 / 1000)) * 100)) / 100)"

subsection \<open>Which routes\<close>

definition DEMO_HUBS :: "string list" where
  "DEMO_HUBS = [''YOW'', ''YYZ'', ''YUL'', ''YVR'', ''JFK'', ''LHR'', ''ORD'', ''SFO'']"

text \<open>Per scale: the routes, the flights per route and day, the hubs.\<close>

definition SCALES :: "(string \<times> nat \<times> nat \<times> string list option) list" where
  "SCALES = [(''demo'', 24, 1, Some DEMO_HUBS), (''small'', 150, 1, None), (''full'', 600, 2, None)]"

definition DEPARTURE_SLOTS :: "(nat \<times> nat) list" where
  "DEPARTURE_SLOTS = [(7, 5), (9, 40), (12, 15), (14, 50), (17, 30), (20, 10)]"

definition coords_of :: "db \<Rightarrow> string \<Rightarrow> (rat \<times> rat) option" where
  "coords_of d iata = Option.bind (select_one (\<lambda>a. ap_iata a = iata) (d_airports d)) ap_coords"

definition has_coords :: "db \<Rightarrow> route \<Rightarrow> bool" where
  "has_coords d r = (coords_of d (ro_src_iata r) \<noteq> None \<and> coords_of d (ro_dst_iata r) \<noteq> None)"

text \<open>Routes are in the order of their ids; \<open>if hubs\<close> is false for None and for the empty list.\<close>

definition pick_routes :: "(string \<Rightarrow> string) \<Rightarrow> nat \<Rightarrow> string list option \<Rightarrow> db \<Rightarrow> route list" where
  "pick_routes md5 count hubs d =
     (let hub_list = (case hubs of None \<Rightarrow> [] | Some hs \<Rightarrow> hs);
          in_hubs = (\<lambda>r. hub_list = [] \<or> (ro_src_iata r \<in> set hub_list \<and> ro_dst_iata r \<in> set hub_list));
          routes = take count (order_by (\<lambda>r. md5 (ro_airline_iata r @ ro_src_iata r @ ro_dst_iata r))
                     (filter in_hubs (select_where (has_coords d) (d_routes d))))
      in if hub_list \<noteq> [] \<and> length routes < count
         then routes @ take (count - length routes)
                (filter (\<lambda>r. r \<notin> set routes) (select_where (has_coords d) (d_routes d)))
         else routes)"

subsection \<open>The departures\<close>

record seed_draws =
  sd_choice :: "nat \<Rightarrow> nat"
  sd_sample :: "nat \<Rightarrow> nat \<Rightarrow> (nat \<times> nat) list \<Rightarrow> (nat \<times> nat) list"

record departure =
  dp_route :: route
  dp_flight_no :: string
  dp_depart :: time
  dp_minutes :: int
  dp_base_fare :: cents
  dp_aircraft :: string

definition slot_time :: "time \<Rightarrow> nat \<times> nat \<times> nat \<Rightarrow> time" where
  "slot_time day0 slot =
     (case slot of (day, hour, minute) \<Rightarrow> day0 + seconds (int day * 86400 + int hour * 3600 + int minute * 60))"

definition route_departures ::
  "(rat \<times> rat \<Rightarrow> rat \<times> rat \<Rightarrow> rat) \<Rightarrow> (rat \<Rightarrow> rat) \<Rightarrow> seed_draws \<Rightarrow> nat \<Rightarrow> time \<Rightarrow> int \<Rightarrow> db \<Rightarrow> nat \<Rightarrow> nat \<Rightarrow> route \<Rightarrow>
   departure list" where
  "route_departures great_circle_km fl dr per_day day0 days d i n r =
     (let distance = great_circle_km (the (coords_of d (ro_src_iata r))) (the (coords_of d (ro_dst_iata r)));
          slots = sd_sample dr i (min per_day (length DEPARTURE_SLOTS)) DEPARTURE_SLOTS
      in map (\<lambda>slot. \<lparr>dp_route = r, dp_flight_no = ro_airline_iata r @ show_nat n, dp_depart = slot_time day0 slot,
                      dp_minutes = block_minutes fl distance, dp_base_fare = base_fare_for fl distance,
                      dp_aircraft = aircraft_for (sd_choice dr i) distance\<rparr>)
           (List.product [0..<nat days] slots))"

text \<open>The loop over the routes; \<open>flight_no_counter.get(airline, 100)\<close> is a total function.\<close>

fun departures ::
  "(rat \<times> rat \<Rightarrow> rat \<times> rat \<Rightarrow> rat) \<Rightarrow> (rat \<Rightarrow> rat) \<Rightarrow> seed_draws \<Rightarrow> nat \<Rightarrow> time \<Rightarrow> int \<Rightarrow> db \<Rightarrow> nat \<Rightarrow>
   (string \<Rightarrow> nat) \<Rightarrow> route list \<Rightarrow> departure list" where
  "departures gc fl dr per_day day0 days d i counter [] = []"
| "departures gc fl dr per_day day0 days d i counter (r # rs) =
     (let a = ro_airline_iata r; n = counter a in
      route_departures gc fl dr per_day day0 days d i n r @
      departures gc fl dr per_day day0 days d (Suc i) (counter(a := n + 1)) rs)"

subsection \<open>Rows\<close>

definition seat_price :: "cents \<Rightarrow> cabin_block \<Rightarrow> nat \<Rightarrow> cents" where
  "seat_price base_fare b row_no =
     (let cabin_price = money (of_cents base_fare * cb_multiplier b) in
      if row_no \<in> set (cb_exit_rows b) then money (of_cents cabin_price + EXIT_ROW_SURCHARGE) else cabin_price)"

definition block_seat :: "uuid \<Rightarrow> uuid \<Rightarrow> cents \<Rightarrow> cabin_block \<Rightarrow> uuid \<times> nat \<times> char \<Rightarrow> seat" where
  "block_seat flight_id fare_class_id base_fare b pos =
     (case pos of (i, row_no, letter) \<Rightarrow>
        \<lparr>s_id = i, s_flight_id = flight_id, s_seat_no = show_nat row_no @ [letter], s_row_no = row_no,
         s_letter = [letter], s_cabin = cb_cabin b, s_fare_class_id = fare_class_id,
         s_is_exit_row = (row_no \<in> set (cb_exit_rows b)), s_price = seat_price base_fare b row_no,
         s_status = AVAILABLE, s_held_by = None, s_hold_id = None, s_hold_expires_at = None,
         s_booking_id = None, s_version = 0\<rparr>)"

definition block_positions :: "cabin_block \<Rightarrow> (nat \<times> char) list" where
  "block_positions b = List.product [cb_first_row b..<Suc (cb_last_row b)] (cb_letters b)"

text \<open>\<open>fresh\<close> is the next id: the fare class of a block, then its seats.\<close>

fun block_rows :: "uuid \<Rightarrow> uuid \<Rightarrow> cents \<Rightarrow> cabin_block list \<Rightarrow> fare_class list \<times> seat list \<times> uuid" where
  "block_rows fresh flight_id base_fare [] = ([], [], fresh)"
| "block_rows fresh flight_id base_fare (b # bs) =
     (let seats = map (block_seat flight_id fresh base_fare b) (enumerate (Suc fresh) (block_positions b)) in
      case block_rows (Suc fresh + length seats) flight_id base_fare bs of
        (fares', seats', fresh') \<Rightarrow>
          (\<lparr>fc_id = fresh, fc_flight_id = flight_id, fc_code = cb_code b, fc_cabin = cb_cabin b,
            fc_multiplier = cb_multiplier b, fc_seats_total = seat_count b\<rparr> # fares', seats @ seats', fresh'))"

definition flight_row :: "uuid \<Rightarrow> departure \<Rightarrow> flight" where
  "flight_row i p =
     \<lparr>fl_id = i, fl_flight_no = dp_flight_no p, fl_airline_iata = ro_airline_iata (dp_route p),
      fl_src_iata = ro_src_iata (dp_route p), fl_dst_iata = ro_dst_iata (dp_route p), fl_depart_at = dp_depart p,
      fl_arrive_at = dp_depart p + seconds (dp_minutes p * 60), fl_aircraft_type = dp_aircraft p,
      fl_base_fare = dp_base_fare p, fl_currency = ''CAD''\<rparr>"

definition layout :: "string \<Rightarrow> cabin_block list" where
  "layout aircraft = the (map_of AIRCRAFT aircraft)"

fun flight_rows :: "uuid \<Rightarrow> departure list \<Rightarrow> flight list \<times> fare_class list \<times> seat list" where
  "flight_rows fresh [] = ([], [], [])"
| "flight_rows fresh (p # ps) =
     (case block_rows (Suc fresh) fresh (dp_base_fare p) (layout (dp_aircraft p)) of
        (fares, seats, fresh') \<Rightarrow>
          (case flight_rows fresh' ps of
             (fs, fares', seats') \<Rightarrow> (flight_row fresh p # fs, fares @ fares', seats @ seats')))"

subsection \<open>The run\<close>

definition flight_instance :: "flight \<Rightarrow> string \<times> string \<times> time" where
  "flight_instance f = (fl_airline_iata f, fl_flight_no f, fl_depart_at f)"

text \<open>\<open>delete(Flight)\<close>: fare classes and seats cascade, bookings and tickets restrict, passengers lose
  their seat.\<close>

definition delete_flights :: "db \<Rightarrow> exn + db" where
  "delete_flights d =
     (let gone = fl_id ` set (d_flights d);
          lost = s_id ` set (filter (\<lambda>s. s_flight_id s \<in> gone) (d_seats d))
      in if (\<exists>b \<in> set (d_bookings d). b_flight_id b \<in> gone) \<or> (\<exists>t \<in> set (d_tickets d). t_seat_id t \<in> lost)
         then Inl (IntegrityError ''flights'')
         else Inr (d\<lparr>d_flights := [], d_fares := filter (\<lambda>c. fc_flight_id c \<notin> gone) (d_fares d),
                     d_seats := filter (\<lambda>s. s_flight_id s \<notin> gone) (d_seats d),
                     d_passengers := map (\<lambda>p. if p_seat_inventory_id p \<in> Some ` lost then p\<lparr>p_seat_inventory_id := None\<rparr> else p)
                       (d_passengers d)\<rparr>))"

text \<open>The inserts of one transaction: a broken key, check or reference undoes them all.\<close>

definition insert_generated :: "flight list \<times> fare_class list \<times> seat list \<Rightarrow> db \<Rightarrow> exn + db" where
  "insert_generated rows d =
     (case rows of (fs, fares, seats) \<Rightarrow>
        let d' = d\<lparr>d_flights := d_flights d @ fs, d_fares := d_fares d @ fares, d_seats := d_seats d @ seats\<rparr> in
        if list_all (\<lambda>f. length (fl_flight_no f) \<le> 8) fs \<and>
           unique_key fl_id (d_flights d') \<and> unique_key flight_instance (d_flights d') \<and> list_all flight_ok fs \<and>
           list_all (\<lambda>f. fl_airline_iata f \<in> al_iata ` set (d_airlines d) \<and>
                         {fl_src_iata f, fl_dst_iata f} \<subseteq> ap_iata ` set (d_airports d)) fs \<and>
           unique_key fc_id (d_fares d') \<and> unique_key (\<lambda>c. (fc_flight_id c, fc_code c)) (d_fares d') \<and>
           unique_key s_id (d_seats d') \<and> unique_key (\<lambda>s. (s_flight_id s, s_seat_no s)) (d_seats d') \<and>
           list_all seat_ok seats
        then Inr d' else Inl (IntegrityError ''flights''))"

definition seed_flights ::
  "(rat \<times> rat \<Rightarrow> rat \<times> rat \<Rightarrow> rat) \<Rightarrow> (rat \<Rightarrow> rat) \<Rightarrow> (string \<Rightarrow> string) \<Rightarrow> seed_draws \<Rightarrow> string \<Rightarrow> int \<Rightarrow> time \<Rightarrow> bool \<Rightarrow>
   uuid \<Rightarrow> db \<Rightarrow> exn + db" where
  "seed_flights gc fl md5 dr scale days day0 wipe fresh d =
     (case map_of SCALES scale of
        None \<Rightarrow> Inl (RuntimeError scale)
      | Some (count, per_day, hubs) \<Rightarrow>
          if d_routes d = [] then Inl (RuntimeError ''No routes in the database.'')
          else
            (case (if wipe then delete_flights d else Inr d) of
               Inl e \<Rightarrow> Inl e
             | Inr d1 \<Rightarrow>
                 insert_generated
                   (flight_rows fresh
                      (departures gc fl dr per_day day0 days d1 0 (\<lambda>_. 100) (pick_routes md5 count hubs d1))) d1))"

end
