(* ===== verification/Sky_SeedFacts.thy ===== *)
theory Sky_SeedFacts
  imports Sky_Seed
begin

text \<open>
  What the flight generator of \<^verbatim>\<open>Sky_Seed\<close> produces: ids that are drawn once, seat numbers the
  routes accept, keys that hold, seats that can be sold.
\<close>

subsection \<open>Ids drawn from a range\<close>

definition drawn_from :: "uuid \<Rightarrow> uuid \<Rightarrow> uuid list \<Rightarrow> bool" where
  "drawn_from n m xs = (distinct xs \<and> set xs \<subseteq> {n..<m})"

lemma drawn_append:
  "drawn_from n k xs \<Longrightarrow> drawn_from k m ys \<Longrightarrow> n \<le> k \<Longrightarrow> k \<le> m \<Longrightarrow> drawn_from n m (xs @ ys)"
  by (fastforce simp: drawn_from_def)

lemma drawn_mono: "drawn_from n m xs \<Longrightarrow> n' \<le> n \<Longrightarrow> m \<le> m' \<Longrightarrow> drawn_from n' m' xs"
  by (fastforce simp: drawn_from_def)

lemma drawn_simps [simp]: "drawn_from n m []" "drawn_from n m [n] \<longleftrightarrow> n < m" "drawn_from n m [n..<m]"
  by (auto simp: drawn_from_def)

subsection \<open>Layouts\<close>

definition block_ok :: "cabin_block \<Rightarrow> bool" where
  "block_ok b = (distinct (cb_letters b) \<and> list_all is_upper (cb_letters b) \<and> cb_letters b \<noteq> [] \<and>
     cb_first_row b \<le> cb_last_row b \<and> cb_last_row b < 1000 \<and> 0 \<le> cb_multiplier b)"

definition good_layout :: "cabin_block list \<Rightarrow> bool" where
  "good_layout bs = (distinct (map cb_code bs) \<and> list_all block_ok bs \<and>
     sorted_wrt (\<lambda>b c. cb_last_row b < cb_first_row c) bs)"

lemma aircraft_layouts: "bs \<in> snd ` set AIRCRAFT \<Longrightarrow> good_layout bs"
  by (auto simp: AIRCRAFT_def CabinBlock_def good_layout_def block_ok_def is_upper_def less_eq_char_def)

lemma aircraft_known: "map_of AIRCRAFT (aircraft_for k x) \<noteq> None"
proof -
  have "choice xs k \<in> set xs" if "xs \<noteq> []" for xs :: "string list" using that by (rule choice_in_set)
  from this [of "[''CRJ9'', ''A320'']"] this [of "[''A320'', ''B738'']"] this [of "[''B738'', ''B77W'']"]
  have "aircraft_for k x \<in> {''CRJ9'', ''A320'', ''B738'', ''B77W''}" by (auto simp: aircraft_for_def)
  then show ?thesis by (auto simp: AIRCRAFT_def)
qed

lemma layout_good: "good_layout (layout (aircraft_for k x))"
proof -
  obtain bs where "map_of AIRCRAFT (aircraft_for k x) = Some bs" using aircraft_known by blast
  moreover from this have "bs \<in> snd ` set AIRCRAFT" by (force dest: map_of_SomeD)
  ultimately show ?thesis using aircraft_layouts by (simp add: layout_def)
qed

subsection \<open>The rows of one flight\<close>

definition seat_label :: "nat \<times> char \<Rightarrow> string" where
  "seat_label p = show_nat (fst p) @ [snd p]"

lemma seat_label_inj: "inj_on seat_label A"
  by (auto simp: inj_on_def seat_label_def)

lemma block_seat_columns:
  "s_id (block_seat f c bf b p) = fst p" "s_seat_no (block_seat f c bf b p) = seat_label (snd p)"
  "s_flight_id (block_seat f c bf b p) = f" "s_fare_class_id (block_seat f c bf b p) = c"
  "s_status (block_seat f c bf b p) = AVAILABLE" "s_booking_id (block_seat f c bf b p) = None"
  "s_row_no (block_seat f c bf b p) = fst (snd p)" "s_price (block_seat f c bf b p) = seat_price bf b (fst (snd p))"
  by (simp_all add: block_seat_def seat_label_def split: prod.splits)

lemma block_seats_columns:
  "map s_id (map (block_seat f c bf b) (enumerate k ps)) = [k..<k + length ps]"
  "map s_seat_no (map (block_seat f c bf b) (enumerate k ps)) = map seat_label ps"
proof -
  have "map (\<lambda>p. fst p) (enumerate k ps) = [k..<k + length ps]" by (simp add: map_fst_enumerate)
  then show "map s_id (map (block_seat f c bf b) (enumerate k ps)) = [k..<k + length ps]"
    by (simp add: block_seat_columns o_def)
  have "map (\<lambda>p. seat_label (snd p)) (enumerate k ps) = map seat_label ps"
    by (induction ps arbitrary: k) simp_all
  then show "map s_seat_no (map (block_seat f c bf b) (enumerate k ps)) = map seat_label ps"
    by (simp add: block_seat_columns o_def)
qed

lemma length_positions: "block_ok b \<Longrightarrow> length (block_positions b) = seat_count b"
  by (simp add: block_positions_def seat_count_def length_product block_ok_def Suc_diff_le)

text \<open>Everything a later proof needs of the blocks of one flight.\<close>

lemma block_rows_facts:
  assumes "block_rows n f bf bs = (fcs, ss, m)" "list_all block_ok bs"
  shows "n \<le> m \<and> drawn_from n m (map fc_id fcs) \<and> drawn_from n m (map s_id ss) \<and>
    map fc_code fcs = map cb_code bs \<and> (\<forall>c \<in> set fcs. fc_flight_id c = f) \<and>
    map s_seat_no ss = concat (map (\<lambda>b. map seat_label (block_positions b)) bs) \<and>
    length ss = sum_list (map seat_count bs) \<and>
    (\<forall>s \<in> set ss. s_flight_id s = f \<and> s_fare_class_id s \<in> fc_id ` set fcs \<and> s_status s = AVAILABLE \<and> s_booking_id s = None \<and>
       (\<exists>b \<in> set bs. \<exists>r. s_price s = seat_price bf b r)) \<and>
    (\<forall>c \<in> set fcs. count_where (\<lambda>s. s_fare_class_id s = fc_id c) ss = fc_seats_total c)"
  using assms
proof (induction bs arbitrary: n fcs ss)
  case Nil
  then show ?case by simp
next
  case (Cons b bs)
  let ?seats = "map (block_seat f n bf b) (enumerate (Suc n) (block_positions b))"
  let ?k = "Suc n + length ?seats"
  obtain fcs' ss' where r: "block_rows ?k f bf bs = (fcs', ss', m)"
    and e: "ss = ?seats @ ss'" and fcs: "\<exists>c. fcs = c # fcs' \<and> fc_id c = n \<and> fc_flight_id c = f \<and> fc_code c = cb_code b \<and>
      fc_seats_total c = seat_count b"
    using Cons.prems(1) by (auto simp: Let_def split: prod.splits)
  note IH = Cons.IH [OF r]
  have ok: "block_ok b" "list_all block_ok bs" using Cons.prems(2) by simp_all
  note I = IH [OF ok(2)]
  obtain c where c: "fcs = c # fcs'" "fc_id c = n" "fc_flight_id c = f" "fc_code c = cb_code b"
    "fc_seats_total c = seat_count b" using fcs by blast
  have len: "length ?seats = seat_count b" using length_positions [OF ok(1)] by simp
  have heads: "\<forall>s \<in> set ?seats. s_flight_id s = f \<and> s_fare_class_id s = n \<and> s_status s = AVAILABLE \<and> s_booking_id s = None \<and>
      (\<exists>r. s_price s = seat_price bf b r)"
    by (auto simp: block_seat_columns)
  have ids: "drawn_from n m (map s_id ss)"
    unfolding e map_append block_seats_columns
    by (rule drawn_append [of _ ?k]) (use I in \<open>auto simp: drawn_from_def\<close>)
  have fids: "drawn_from n m (map fc_id fcs)"
    unfolding c(1) using I c(2) by (auto simp: drawn_from_def)
  have later: "fc_id x \<noteq> n" if "x \<in> set fcs'" for x using I that by (auto simp: drawn_from_def)
  have cnt_head: "count_where (\<lambda>s. s_fare_class_id s = n) ss = seat_count b"
  proof -
    have "filter (\<lambda>s. s_fare_class_id s = n) ss' = []" using I later by (fastforce simp: filter_empty_conv)
    moreover have "filter (\<lambda>s. s_fare_class_id s = n) ?seats = ?seats" using heads by (simp add: filter_id_conv)
    ultimately show ?thesis unfolding count_where_def e filter_append using len by simp
  qed
  have cnt_tail: "count_where (\<lambda>s. s_fare_class_id s = fc_id x) ss = fc_seats_total x" if "x \<in> set fcs'" for x
  proof -
    have "filter (\<lambda>s. s_fare_class_id s = fc_id x) ?seats = []"
      using heads later [OF that] by (auto simp: filter_empty_conv block_seat_columns)
    then show ?thesis using I that unfolding count_where_def e filter_append by (simp add: count_where_def)
  qed
  have "map s_seat_no ss = concat (map (\<lambda>b. map seat_label (block_positions b)) (b # bs))"
    unfolding e map_append block_seats_columns using I by simp
  moreover have "length ss = sum_list (map seat_count (b # bs))" unfolding e using I len by simp
  moreover have "\<forall>s \<in> set ss. s_flight_id s = f \<and> s_fare_class_id s \<in> fc_id ` set fcs \<and> s_status s = AVAILABLE \<and>
      s_booking_id s = None \<and> (\<exists>b \<in> set (b # bs). \<exists>r. s_price s = seat_price bf b r)"
    unfolding e c(1) using heads I c(2) by (auto simp: block_seat_columns)
  ultimately show ?case
    using ids fids I c cnt_head cnt_tail by auto
qed

text \<open>No two seats of a flight have one number, and a hold request accepts every number.\<close>

lemma positions_rows: "p \<in> set (block_positions b) \<Longrightarrow> cb_first_row b \<le> fst p \<and> fst p \<le> cb_last_row b \<and> snd p \<in> set (cb_letters b)"
  by (auto simp: block_positions_def)

lemma distinct_labels:
  assumes "good_layout bs"
  shows "distinct (concat (map (\<lambda>b. map seat_label (block_positions b)) bs))"
  using assms
proof (induction bs)
  case Nil
  then show ?case by simp
next
  case (Cons b bs)
  then have g: "good_layout bs" "block_ok b" "\<forall>c \<in> set bs. cb_last_row b < cb_first_row c"
    by (simp_all add: good_layout_def)
  have "distinct (block_positions b)" using g(2) by (simp add: block_positions_def distinct_product block_ok_def)
  then have "distinct (map seat_label (block_positions b))" by (simp add: distinct_map seat_label_inj)
  moreover have "p \<noteq> q" if "p \<in> set (block_positions b)" "c \<in> set bs" "q \<in> set (block_positions c)" for p q c
    using positions_rows [OF that(1)] positions_rows [OF that(3)] g(3) that(2) by fastforce
  then have "set (map seat_label (block_positions b)) \<inter>
      set (concat (map (\<lambda>b. map seat_label (block_positions b)) bs)) = {}"
    using seat_label_inj [of UNIV] by (fastforce simp: inj_on_def)
  ultimately show ?case using Cons.IH [OF g(1)] by simp
qed

lemma length_show_nat: "length (show_nat n) \<ge> 1" "n < 1000 \<Longrightarrow> length (show_nat n) \<le> 3"
proof -
  show "length (show_nat n) \<ge> 1" by (subst show_nat.simps) simp
  have 1: "length (show_nat n) \<le> 1" if "n < 10" for n using that by (subst show_nat.simps) simp
  have 2: "length (show_nat n) \<le> 2" if "n < 100" for n
    using that 1 [of "n div 10"] by (subst show_nat.simps) auto
  show "n < 1000 \<Longrightarrow> length (show_nat n) \<le> 3"
    using 2 [of "n div 10"] by (subst show_nat.simps) auto
qed

lemma label_accepted:
  assumes "block_ok b" "p \<in> set (block_positions b)"
  shows "upper (seat_label p) = seat_label p" "parse_hold_request (f, seat_label p) = Some (f, seat_label p)"
proof -
  have row: "fst p < 1000" and letter: "is_upper (snd p)"
    using assms positions_rows [OF assms(2)] by (auto simp: block_ok_def list_all_iff)
  have dig: "list_all is_digit (show_nat (fst p))" by (rule show_nat_digits)
  have up: "upper_char c = c" if "is_digit c \<or> is_upper c" for c
    using that by (auto simp: upper_char_def is_digit_def is_upper_def less_eq_char_def)
  then show "upper (seat_label p) = seat_label p"
    using dig letter by (auto simp: upper_def seat_label_def list_all_iff intro: map_idI)
  have nsp: "\<not> is_space c" if "is_digit c \<or> is_upper c" for c
    using that by (auto simp: is_space_def is_digit_def is_upper_def less_eq_char_def)
  have "show_nat (fst p) \<noteq> []" using length_show_nat(1) [of "fst p"] by auto
  then have "strip (seat_label p) = seat_label p"
    using dig letter nsp by (cases "show_nat (fst p)") (auto simp: strip_def seat_label_def list_all_iff)
  moreover have "seat_number_ok (seat_label p)"
    using length_show_nat [of "fst p"] row dig letter by (simp add: seat_number_ok_def seat_label_def is_alpha_def)
  ultimately show "parse_hold_request (f, seat_label p) = Some (f, seat_label p)" by (simp add: parse_hold_request_def)
qed

subsection \<open>The rows of many flights\<close>

definition instance_of :: "departure \<Rightarrow> string \<times> string \<times> time" where
  "instance_of p = (ro_airline_iata (dp_route p), dp_flight_no p, dp_depart p)"

definition sellable :: "seat \<Rightarrow> bool" where
  "sellable s = (s_status s = AVAILABLE \<and> s_booking_id s = None \<and> upper (s_seat_no s) = s_seat_no s \<and>
     parse_hold_request (s_flight_id s, s_seat_no s) = Some (s_flight_id s, s_seat_no s))"

text \<open>The rows made from the departures \<open>ps\<close> with ids from \<open>n\<close> up to \<open>m\<close>.\<close>

definition generated ::
  "uuid \<Rightarrow> uuid \<Rightarrow> departure list \<Rightarrow> flight list \<Rightarrow> fare_class list \<Rightarrow> seat list \<Rightarrow> bool" where
  "generated n m ps fs fcs ss =
     (drawn_from n m (map fl_id fs) \<and> drawn_from n m (map fc_id fcs) \<and> drawn_from n m (map s_id ss) \<and>
      map flight_instance fs = map instance_of ps \<and> (\<forall>f \<in> set fs. \<exists>p \<in> set ps. f = flight_row (fl_id f) p) \<and>
      (\<forall>c \<in> set fcs. fc_flight_id c \<in> fl_id ` set fs) \<and> (\<forall>s \<in> set ss. s_flight_id s \<in> fl_id ` set fs) \<and>
      (\<forall>s \<in> set ss. s_fare_class_id s \<in> fc_id ` set fcs \<and> sellable s) \<and>
      distinct (map (\<lambda>c. (fc_flight_id c, fc_code c)) fcs) \<and> distinct (map (\<lambda>s. (s_flight_id s, s_seat_no s)) ss) \<and>
      (\<forall>f \<in> set fs. count_where (\<lambda>s. s_flight_id s = fl_id f) ss = sum_list (map seat_count (layout (fl_aircraft_type f)))) \<and>
      (\<forall>c \<in> set fcs. count_where (\<lambda>s. s_fare_class_id s = fc_id c) ss = fc_seats_total c))"

lemma generated_one:
  assumes "block_rows (Suc n) n (dp_base_fare p) (layout (dp_aircraft p)) = (fcs, ss, m)" "good_layout (layout (dp_aircraft p))"
  shows "n < m" "generated n m [p] [flight_row n p] fcs ss"
proof -
  have ok: "list_all block_ok (layout (dp_aircraft p))" using assms(2) by (simp add: good_layout_def)
  note B = block_rows_facts [OF assms(1) ok]
  show "n < m" using B by simp
  have dl: "distinct (map s_seat_no ss)" using B distinct_labels [OF assms(2)] by simp
  have dc: "distinct (map fc_code fcs)" using B assms(2) by (simp add: good_layout_def)
  have sell: "sellable s" if s: "s \<in> set ss" for s
  proof -
    have "s_seat_no s \<in> set (map s_seat_no ss)" using s by simp
    then obtain b q where b: "b \<in> set (layout (dp_aircraft p))" "q \<in> set (block_positions b)" "s_seat_no s = seat_label q"
      using B by auto
    then have "block_ok b" using ok by (simp add: list_all_iff)
    from label_accepted [OF this b(2)] show ?thesis using B s b(3) by (simp add: sellable_def)
  qed
  have "distinct (map (\<lambda>s. (s_flight_id s, s_seat_no s)) ss)"
    using dl by (auto simp: distinct_map inj_on_def)
  moreover have "distinct (map (\<lambda>c. (fc_flight_id c, fc_code c)) fcs)"
    using dc by (auto simp: distinct_map inj_on_def)
  moreover have "count_where (\<lambda>s. s_flight_id s = n) ss = sum_list (map seat_count (layout (dp_aircraft p)))"
    using B by (simp add: count_where_def filter_id_conv [THEN iffD2])
  moreover have "drawn_from n m (map fc_id fcs)" "drawn_from n m (map s_id ss)"
    using B drawn_mono [of "Suc n" m _ n m] by auto
  ultimately show "generated n m [p] [flight_row n p] fcs ss"
    using B sell by (simp add: generated_def flight_row_def flight_instance_def instance_of_def)
qed

lemma count_none: "\<forall>x \<in> set xs. \<not> P x \<Longrightarrow> count_where P xs = 0"
  by (simp add: count_where_def)

lemma count_append [simp]: "count_where P (xs @ ys) = count_where P xs + count_where P ys"
  by (simp add: count_where_def)

lemma generated_append:
  assumes a: "generated n k ps fs fcs ss" and b: "generated k m qs gs gcs ts" and le: "n \<le> k" "k \<le> m"
  shows "generated n m (ps @ qs) (fs @ gs) (fcs @ gcs) (ss @ ts)"
proof -
  have fl: "fl_id f < k" if "f \<in> set fs" for f using a that by (auto simp: generated_def drawn_from_def)
  have gl: "k \<le> fl_id f" if "f \<in> set gs" for f using b that by (auto simp: generated_def drawn_from_def)
  have sl: "s_flight_id s < k" if "s \<in> set ss" for s
    using a that fl by (auto simp: generated_def dest!: bspec)
  have tl: "k \<le> s_flight_id s" if "s \<in> set ts" for s
    using b that gl by (auto simp: generated_def dest!: bspec)
  have cl: "fc_flight_id c < k" "fc_id c < k" if "c \<in> set fcs" for c
    using a that fl by (auto simp: generated_def drawn_from_def dest!: bspec)
  have dl: "k \<le> fc_flight_id c" "k \<le> fc_id c" if "c \<in> set gcs" for c
    using b that gl by (auto simp: generated_def drawn_from_def dest!: bspec)
  have sc: "s_fare_class_id s < k" if "s \<in> set ss" for s
    using a that cl(2) by (auto simp: generated_def dest!: bspec)
  have tc: "k \<le> s_fare_class_id s" if "s \<in> set ts" for s
    using b that dl(2) by (auto simp: generated_def dest!: bspec)
  have d1: "distinct (map (\<lambda>c. (fc_flight_id c, fc_code c)) (fcs @ gcs))"
    using a b cl(1) dl(1) by (fastforce simp: generated_def)
  have d2: "distinct (map (\<lambda>s. (s_flight_id s, s_seat_no s)) (ss @ ts))"
    using a b sl tl by (fastforce simp: generated_def)
  have n1: "count_where (\<lambda>s. s_flight_id s = fl_id f) ts = 0" if "f \<in> set fs" for f
    using fl [OF that] tl by (intro count_none) fastforce
  have n2: "count_where (\<lambda>s. s_flight_id s = fl_id f) ss = 0" if "f \<in> set gs" for f
    using gl [OF that] sl by (intro count_none) fastforce
  have n3: "count_where (\<lambda>s. s_fare_class_id s = fc_id c) ts = 0" if "c \<in> set fcs" for c
    using cl(2) [OF that] tc by (intro count_none) fastforce
  have n4: "count_where (\<lambda>s. s_fare_class_id s = fc_id c) ss = 0" if "c \<in> set gcs" for c
    using dl(2) [OF that] sc by (intro count_none) fastforce
  have ids: "drawn_from n m (map fl_id (fs @ gs))" "drawn_from n m (map fc_id (fcs @ gcs))" "drawn_from n m (map s_id (ss @ ts))"
    unfolding map_append by (rule drawn_append [of _ k]; use a b le in \<open>simp add: generated_def\<close>)+
  show ?thesis
    unfolding generated_def
    apply (intro conjI ids d1 d2)
    using a b n1 n2 n3 n4 by (auto simp: generated_def)
qed

lemma flight_rows_generated:
  assumes "flight_rows n ps = (fs, fcs, ss)" "\<forall>p \<in> set ps. good_layout (layout (dp_aircraft p))"
  shows "\<exists>m \<ge> n. generated n m ps fs fcs ss"
  using assms
proof (induction ps arbitrary: n fs fcs ss)
  case Nil
  then show ?case by (intro exI [of _ n]) (simp add: generated_def)
next
  case (Cons p ps)
  obtain c1 s1 k where b: "block_rows (Suc n) n (dp_base_fare p) (layout (dp_aircraft p)) = (c1, s1, k)"
    by (cases "block_rows (Suc n) n (dp_base_fare p) (layout (dp_aircraft p))")
  obtain f2 c2 s2 where r: "flight_rows k ps = (f2, c2, s2)" by (cases "flight_rows k ps")
  note G = generated_one [OF b]
  obtain m where m: "k \<le> m" "generated k m ps f2 c2 s2" using Cons.IH [OF r] Cons.prems(2) by auto
  have g: "good_layout (layout (dp_aircraft p))" using Cons.prems(2) by simp
  have "generated n m ([p] @ ps) ([flight_row n p] @ f2) (c1 @ c2) (s1 @ s2)"
    by (rule generated_append [OF G(2) [OF g] m(2) less_imp_le [OF G(1) [OF g]] m(1)])
  then show ?case using Cons.prems(1) b r m(1) G(1) [OF g] by (intro exI [of _ m]) auto
qed

subsection \<open>The departures\<close>

lemma round_nonneg: "0 \<le> x \<Longrightarrow> 0 \<le> round_half_even x"
  by (simp add: round_half_even_def Let_def)

lemma digit_unique:
  fixes m :: nat
  assumes "m < c" "m' < c" "m + a * c = m' + b * c"
  shows "m = m' \<and> a = b"
proof -
  have "m = m'" using assms mod_mult_self1 [of m a c] mod_mult_self1 [of m' b c] by (metis mod_less)
  then show ?thesis using assms by simp
qed

lemma slot_time_inj: "inj_on (slot_time day0) {(day, h, m). h < 24 \<and> m < 60}"
proof (rule inj_onI)
  fix x y :: "nat \<times> nat \<times> nat"
  assume t: "slot_time day0 x = slot_time day0 y"
    and xy: "x \<in> {(day, h, m). h < 24 \<and> m < 60}" "y \<in> {(day, h, m). h < 24 \<and> m < 60}"
  obtain day h m day' h' m' where v: "x = (day, h, m)" "y = (day', h', m')" by (cases x, cases y)
  have b: "h < 24" "m < 60" "h' < 24" "m' < 60" using xy v by simp_all
  from t v have e: "day * 1440 + h * 60 + m = day' * 1440 + h' * 60 + m'" by (simp add: slot_time_def seconds_def)
  have "m + (h + day * 24) * 60 = m' + (h' + day' * 24) * 60" using e by simp
  from digit_unique [OF b(2,4) this] digit_unique [OF b(1,3)] show "x = y" unfolding v by blast
qed

text \<open>What the code relies on: distances are not negative, rounding keeps the sign, and
  \<open>random.sample\<close> draws without repetition.\<close>

definition geometry_ok :: "(rat \<times> rat \<Rightarrow> rat \<times> rat \<Rightarrow> rat) \<Rightarrow> (rat \<Rightarrow> rat) \<Rightarrow> bool" where
  "geometry_ok gc fl = ((\<forall>a b. 0 \<le> gc a b) \<and> (\<forall>x. 0 \<le> x \<longrightarrow> 0 \<le> fl x))"

definition sample_ok :: "seed_draws \<Rightarrow> bool" where
  "sample_ok dr = (\<forall>i k xs. distinct xs \<longrightarrow> k \<le> length xs \<longrightarrow>
     distinct (sd_sample dr i k xs) \<and> set (sd_sample dr i k xs) \<subseteq> set xs \<and> length (sd_sample dr i k xs) = k)"

lemma fare_nonneg: "geometry_ok gc fl \<Longrightarrow> 0 \<le> x \<Longrightarrow> 0 \<le> base_fare_for fl x \<and> 0 < block_minutes fl x"
proof -
  assume g: "geometry_ok gc fl" and x: "0 \<le> x"
  have fl: "0 \<le> fl y" if "0 \<le> y" for y using g that by (simp add: geometry_ok_def)
  have "0 \<le> fl (x * fl (85 / 1000)) * 100" "0 \<le> fl (fl (x / 850) * 60)" using x by (simp_all add: fl)
  from round_nonneg [OF this(1)] round_nonneg [OF this(2)] show ?thesis
    by (simp add: base_fare_for_def block_minutes_def money_nonneg)
qed

lemma route_departures_facts:
  assumes "geometry_ok gc fl" "sample_ok dr" "p \<in> set (route_departures gc fl dr k day0 days d i n r)"
  shows "dp_route p = r" "dp_flight_no p = ro_airline_iata r @ show_nat n" "good_layout (layout (dp_aircraft p))"
    "0 < dp_minutes p" "0 \<le> dp_base_fare p"
proof -
  have g: "0 \<le> gc a b" for a b using assms(1) unfolding geometry_ok_def by blast
  have f: "0 \<le> base_fare_for fl (gc x y)" "0 < block_minutes fl (gc x y)" for x y
    using fare_nonneg [OF assms(1) g] by blast+
  show "dp_route p = r" "dp_flight_no p = ro_airline_iata r @ show_nat n" "good_layout (layout (dp_aircraft p))"
    "0 < dp_minutes p" "0 \<le> dp_base_fare p"
    using assms(3) by (auto simp: route_departures_def Let_def f layout_good)
qed

lemma route_departures_distinct:
  assumes "sample_ok dr"
  shows "distinct (map instance_of (route_departures gc fl dr k day0 days d i n r))"
proof -
  let ?k = "min k (length DEPARTURE_SLOTS)"
  let ?slots = "sd_sample dr i ?k DEPARTURE_SLOTS"
  have D: "distinct DEPARTURE_SLOTS" by (simp add: DEPARTURE_SLOTS_def)
  have S: "distinct ?slots" "set ?slots \<subseteq> set DEPARTURE_SLOTS"
    using assms D unfolding sample_ok_def by (meson min.cobounded2)+
  have "set (List.product [0..<nat days] ?slots) \<subseteq> {(day, h, m). h < 24 \<and> m < 60}"
    using S(2) by (auto simp: DEPARTURE_SLOTS_def)
  then have "inj_on (slot_time day0) (set (List.product [0..<nat days] ?slots))"
    by (rule inj_on_subset [OF slot_time_inj])
  moreover have "distinct (List.product [0..<nat days] ?slots)" using S(1) by (simp add: distinct_product)
  ultimately have "distinct (map (slot_time day0) (List.product [0..<nat days] ?slots))"
    by (simp add: distinct_map)
  then show ?thesis
    by (auto simp: route_departures_def Let_def instance_of_def distinct_map inj_on_def)
qed

text \<open>The flight numbers of an airline count up from the counter.\<close>

definition planned :: "(string \<Rightarrow> nat) \<Rightarrow> route list \<Rightarrow> departure \<Rightarrow> bool" where
  "planned cnt rs p = (dp_route p \<in> set rs \<and> good_layout (layout (dp_aircraft p)) \<and>
     0 < dp_minutes p \<and> 0 \<le> dp_base_fare p \<and>
     (\<exists>n. dp_flight_no p = ro_airline_iata (dp_route p) @ show_nat n \<and> cnt (ro_airline_iata (dp_route p)) \<le> n \<and>
        n < cnt (ro_airline_iata (dp_route p)) + length rs))"

lemma departures_planned:
  assumes "geometry_ok gc fl" "sample_ok dr" "p \<in> set (departures gc fl dr k day0 days d i cnt rs)"
  shows "planned cnt rs p"
  using assms(3)
proof (induction rs arbitrary: i cnt)
  case Nil
  then show ?case by simp
next
  case (Cons r rs)
  let ?a = "ro_airline_iata r"
  from Cons.prems consider (head) "p \<in> set (route_departures gc fl dr k day0 days d i (cnt ?a) r)"
    | (tail) "p \<in> set (departures gc fl dr k day0 days d (Suc i) (cnt(?a := cnt ?a + 1)) rs)"
    by (auto simp: Let_def)
  then show ?case
  proof cases
    case head
    from route_departures_facts [OF assms(1,2) head] show ?thesis by (auto simp: planned_def)
  next
    case tail
    from Cons.IH [OF tail] show ?thesis by (fastforce simp: planned_def split: if_splits)
  qed
qed

lemma departures_distinct:
  assumes "geometry_ok gc fl" "sample_ok dr"
  shows "distinct (map instance_of (departures gc fl dr k day0 days d i cnt rs))"
proof (induction rs arbitrary: i cnt)
  case Nil
  then show ?case by simp
next
  case (Cons r rs)
  let ?a = "ro_airline_iata r"
  let ?H = "route_departures gc fl dr k day0 days d i (cnt ?a) r"
  let ?T = "departures gc fl dr k day0 days d (Suc i) (cnt(?a := cnt ?a + 1)) rs"
  have False if p: "p \<in> set ?H" and q: "q \<in> set ?T" and e: "instance_of p = instance_of q" for p q
  proof -
    from e have a: "ro_airline_iata (dp_route q) = ?a" "dp_flight_no q = ?a @ show_nat (cnt ?a)"
      using route_departures_facts(1,2) [OF assms p] by (auto simp: instance_of_def)
    with departures_planned [OF assms q] show False by (auto simp: planned_def)
  qed
  then have "set (map instance_of ?H) \<inter> set (map instance_of ?T) = {}" by (auto simp: image_iff) metis
  then show ?case
    using route_departures_distinct [OF assms(2)] Cons.IH by (simp add: Let_def)
qed

subsection \<open>The seeded database\<close>

lemma picked: "set (pick_routes md5 count hubs d) \<subseteq> set (d_routes d)" "length (pick_routes md5 count hubs d) \<le> count"
proof -
  have "set (take n (order_by key (filter P (select_where Q rs)))) \<subseteq> set rs" for n P Q and rs :: "route list" and key :: "route \<Rightarrow> string"
    by (auto simp: order_by_def select_where_def dest!: in_set_takeD)
  moreover have "set (take n (filter P (select_where Q rs))) \<subseteq> set rs" for n P Q and rs :: "route list"
    by (auto simp: select_where_def dest!: in_set_takeD)
  ultimately show "set (pick_routes md5 count hubs d) \<subseteq> set (d_routes d)"
    unfolding pick_routes_def Let_def by (auto split: if_splits)
  have 1: "length (take c xs) \<le> c" for c and xs :: "route list" by simp
  have 2: "length (take c xs @ take (c - length (take c xs)) ys) \<le> c" for c and xs ys :: "route list"
    by (auto simp: min_def)
  show "length (pick_routes md5 count hubs d) \<le> count"
    unfolding pick_routes_def Let_def by (split if_split) (intro conjI impI 1 2)
qed

text \<open>
  C19: the generated inventory can be sold. On a sound database with reference data and no
  flights, the flight generator succeeds for every scale, number of days, draw and order of
  routes: no key, check or reference is broken and the database stays sound. Every seat is free
  at once, has a number that a hold request accepts as it is, and belongs to a
  flight; every flight has all the seats of its aircraft, leaves before it arrives and does not
  cost less than nothing; the total of every fare class is the number of its seats.
\<close>

theorem seeded_inventory_is_sellable:
  assumes scale: "map_of SCALES scale = Some preset"
    and d: "sound d" "d_flights d = []" "d_fares d = []" "d_seats d = []" "d_routes d \<noteq> []"
    and ref: "\<forall>r \<in> set (d_routes d). route_fits d r \<and> length (ro_airline_iata r) = 2"
    and env: "geometry_ok gc fl" "sample_ok dr"
  shows "\<exists>d'. seed_flights gc fl md5 dr scale days day0 wipe n d = Inr d' \<and> sound d' \<and>
    (\<forall>s \<in> set (d_seats d'). takeable now s \<and> upper (s_seat_no s) = s_seat_no s \<and>
       parse_hold_request (s_flight_id s, s_seat_no s) = Some (s_flight_id s, s_seat_no s) \<and>
       s_flight_id s \<in> fl_id ` set (d_flights d')) \<and>
    (\<forall>f \<in> set (d_flights d'). flight_ok f \<and>
       count_where (\<lambda>s. s_flight_id s = fl_id f) (d_seats d') = sum_list (map seat_count (layout (fl_aircraft_type f)))) \<and>
    (\<forall>c \<in> set (d_fares d'). count_where (\<lambda>s. s_fare_class_id s = fc_id c) (d_seats d') = fc_seats_total c)"
proof -
  obtain count per_day hubs where preset: "preset = (count, per_day, hubs)" by (cases preset)
  have cnt: "count \<le> 600" using scale preset by (auto simp: SCALES_def split: if_splits)
  have wiped: "(if wipe then delete_flights d else Inr d) = Inr d" using d by (simp add: delete_flights_def)
  let ?rs = "pick_routes md5 count hubs d"
  let ?ps = "departures gc fl dr per_day day0 days d 0 (\<lambda>_. 100) ?rs"
  obtain fs fcs ss where rows: "flight_rows n ?ps = (fs, fcs, ss)" by (cases "flight_rows n ?ps")
  have D: "planned (\<lambda>_. 100) ?rs p" if "p \<in> set ?ps" for p by (rule departures_planned [OF env that])
  obtain m where G: "generated n m ?ps fs fcs ss"
    using flight_rows_generated [OF rows] D by (auto simp: planned_def)
  have plan: "\<exists>p \<in> set ?ps. f = flight_row (fl_id f) p" if "f \<in> set fs" for f using G that by (simp add: generated_def)
  have fok: "flight_ok f \<and> length (fl_flight_no f) \<le> 8 \<and> fl_airline_iata f \<in> al_iata ` set (d_airlines d) \<and>
      {fl_src_iata f, fl_dst_iata f} \<subseteq> ap_iata ` set (d_airports d)" if f: "f \<in> set fs" for f
  proof -
    obtain p where p: "p \<in> set ?ps" "f = flight_row (fl_id f) p" using plan [OF f] by blast
    obtain k where k: "dp_flight_no p = ro_airline_iata (dp_route p) @ show_nat k" "k < 100 + length ?rs"
      "dp_route p \<in> set ?rs" "0 < dp_minutes p" "0 \<le> dp_base_fare p" using D [OF p(1)] by (auto simp: planned_def)
    have r: "route_fits d (dp_route p)" "length (ro_airline_iata (dp_route p)) = 2"
      using ref picked(1) k(3) by blast+
    have "length (show_nat k) \<le> 3" using length_show_nat(2) [of k] k(2) picked(2) [of md5 count hubs d] cnt by simp
    then show ?thesis
      using k r by (subst p(2), subst (1 2 3 4) p(2)) (simp add: flight_row_def flight_ok_def route_fits_def seconds_def)
  qed
  have sok: "seat_ok s" "takeable now s" if "s \<in> set ss" for s
    using G that by (auto simp: generated_def sellable_def seat_ok_def takeable_def)
  have uq: "unique_key flight_instance fs" using G departures_distinct [OF env] by (simp add: generated_def unique_key_def)
  let ?d' = "d\<lparr>d_flights := fs, d_fares := fcs, d_seats := ss\<rparr>"
  have keys: "unique_key fl_id fs" "unique_key fc_id fcs" "unique_key s_id ss" "unique_key (\<lambda>c. (fc_flight_id c, fc_code c)) fcs"
    "unique_key (\<lambda>s. (s_flight_id s, s_seat_no s)) ss"
    using G by (simp_all add: generated_def drawn_from_def unique_key_def)
  have "insert_generated (fs, fcs, ss) d = Inr ?d'"
    using d keys uq fok sok by (simp add: insert_generated_def list_all_iff)
  then have run: "seed_flights gc fl md5 dr scale days day0 wipe n d = Inr ?d'"
    using scale preset d wiped rows by (simp add: seed_flights_def)
  have "db_ok ?d'"
    using d(1) keys fok sok by (simp add: sound_def db_ok_def seats_ok_def list_all_iff)
  then have "sound ?d'"
    using d(1) by (simp add: sound_def gap_free_def audit_ids_def event_ids_def audit_rows_def)
  with run show ?thesis
    using G fok sok(2) by (intro exI [of _ ?d']) (auto simp: generated_def sellable_def)
qed

definition ottawa_db :: db where
  "ottawa_db = empty_db\<lparr>
     d_airports := [\<lparr>ap_iata = ''YOW'', ap_icao = Some ''CYOW'', ap_name = ''Ottawa'', ap_city = Some ''Ottawa'', ap_country = Some ''CA'',
                     ap_coords = Some (45, -76)\<rparr>,
                    \<lparr>ap_iata = ''YYZ'', ap_icao = Some ''CYYZ'', ap_name = ''Pearson'', ap_city = Some ''Toronto'', ap_country = Some ''CA'',
                     ap_coords = Some (44, -80)\<rparr>],
     d_airlines := [\<lparr>al_iata = ''AC'', al_icao = Some ''ACA'', al_name = ''Air Canada'', al_country = Some ''Canada'', al_active = True\<rparr>],
     d_routes := [\<lparr>ro_airline_iata = ''AC'', ro_src_iata = ''YOW'', ro_dst_iata = ''YYZ'', ro_equipment = None\<rparr>]\<rparr>"

theorem seeded_inventory_is_sellable_witness:
  "\<exists>d'. seed_flights (\<lambda>p q. \<bar>fst p - fst q\<bar> * 111 + \<bar>snd p - snd q\<bar> * 80) id id
       \<lparr>sd_choice = (\<lambda>i. i), sd_sample = (\<lambda>i k xs. take k xs)\<rparr> ''demo'' 7 0 False 1 ottawa_db = Inr d' \<and> sound d'"
proof -
  have snd: "sound ottawa_db"
    by (simp add: ottawa_db_def sound_def db_ok_def empty_db_def seats_ok_def tickets_ok_def audit_ok_def unique_key_def
        gap_free_def audit_rows_def audit_ids_def event_ids_def)
  have rows: "d_flights ottawa_db = []" "d_fares ottawa_db = []" "d_seats ottawa_db = []" "d_routes ottawa_db \<noteq> []"
    by (simp_all add: ottawa_db_def empty_db_def)
  have ref: "\<forall>r \<in> set (d_routes ottawa_db). route_fits ottawa_db r \<and> length (ro_airline_iata r) = 2"
    by (simp add: ottawa_db_def route_fits_def empty_db_def)
  have geo: "geometry_ok (\<lambda>p q. \<bar>fst p - fst q\<bar> * 111 + \<bar>snd p - snd q\<bar> * 80) id" by (simp add: geometry_ok_def)
  have smp: "sample_ok \<lparr>sd_choice = (\<lambda>i. i), sd_sample = (\<lambda>i k xs. take k xs)\<rparr>"
    by (auto simp: sample_ok_def dest: in_set_takeD)
  have "map_of SCALES ''demo'' = Some (24, 1, Some DEMO_HUBS)" by (simp add: SCALES_def)
  from seeded_inventory_is_sellable [OF this snd rows ref geo smp] show ?thesis by blast
qed

end
