(* ===== verification/Sky_Schema.thy ===== *)
theory Sky_Schema
  imports Sky_Models "HOL-Library.AList"
begin

text \<open>
  The language the migrations are written in: column types, CHECK and WHERE expressions with
  SQL's three truth values, the DDL statements the revisions of \<^verbatim>\<open>alembic/versions\<close> issue, and
  the catalogue of a database they act on, with the errors of the SQL standard's classes.
  A statement that fails changes nothing. \<open>catalog_ok\<close> is the referential integrity of
  the catalogue; every statement keeps it (\<open>exec_keeps_catalog_ok\<close>), and it is what makes
  a creation undone by the matching drop (\<open>undo_script_restores\<close>).
\<close>

subsection \<open>Cells, rows and expressions\<close>

datatype cell =
    Null
  | VText string
  | VNum int
  | VBool bool
  | VUuid uuid
  | VTime time
  | VRat rat
  | VJson json

text \<open>A row gives the cell of each column; a column the table does not have is \<open>Null\<close>.\<close>

type_synonym row = "string \<Rightarrow> cell"

datatype sql_expr =
    Col string
  | Lit string
  | Num int
  | Gt sql_expr sql_expr
  | Ge sql_expr sql_expr
  | Eq sql_expr sql_expr
  | Ne sql_expr sql_expr
  | InList sql_expr "string list"
  | IsNull sql_expr
  | IsNotNull sql_expr
  | Or sql_expr sql_expr
  | And sql_expr sql_expr

fun expr_columns :: "sql_expr \<Rightarrow> string list" where
  "expr_columns (Col c) = [c]"
| "expr_columns (Lit s) = []"
| "expr_columns (Num n) = []"
| "expr_columns (Gt a b) = expr_columns a @ expr_columns b"
| "expr_columns (Ge a b) = expr_columns a @ expr_columns b"
| "expr_columns (Eq a b) = expr_columns a @ expr_columns b"
| "expr_columns (Ne a b) = expr_columns a @ expr_columns b"
| "expr_columns (InList a ss) = expr_columns a"
| "expr_columns (IsNull a) = expr_columns a"
| "expr_columns (IsNotNull a) = expr_columns a"
| "expr_columns (Or a b) = expr_columns a @ expr_columns b"
| "expr_columns (And a b) = expr_columns a @ expr_columns b"

text \<open>Comparisons are defined on cells of one type; with \<open>Null\<close> they are \<open>Null\<close>.\<close>

fun cell_less :: "cell \<Rightarrow> cell \<Rightarrow> cell" where
  "cell_less (VNum a) (VNum b) = VBool (a < b)"
| "cell_less (VTime a) (VTime b) = VBool (a < b)"
| "cell_less _ _ = Null"

definition cell_eq :: "cell \<Rightarrow> cell \<Rightarrow> cell" where
  "cell_eq a b = (if a = Null \<or> b = Null then Null else VBool (a = b))"

fun sql_not :: "cell \<Rightarrow> cell" where
  "sql_not (VBool b) = VBool (\<not> b)"
| "sql_not _ = Null"

fun sql_or :: "cell \<Rightarrow> cell \<Rightarrow> cell" where
  "sql_or (VBool True) _ = VBool True"
| "sql_or _ (VBool True) = VBool True"
| "sql_or (VBool False) (VBool False) = VBool False"
| "sql_or _ _ = Null"

fun sql_and :: "cell \<Rightarrow> cell \<Rightarrow> cell" where
  "sql_and (VBool False) _ = VBool False"
| "sql_and _ (VBool False) = VBool False"
| "sql_and (VBool True) (VBool True) = VBool True"
| "sql_and _ _ = Null"

fun eval_sql :: "row \<Rightarrow> sql_expr \<Rightarrow> cell" where
  "eval_sql r (Col c) = r c"
| "eval_sql r (Lit s) = VText s"
| "eval_sql r (Num n) = VNum n"
| "eval_sql r (Gt a b) = cell_less (eval_sql r b) (eval_sql r a)"
| "eval_sql r (Ge a b) = sql_not (cell_less (eval_sql r a) (eval_sql r b))"
| "eval_sql r (Eq a b) = cell_eq (eval_sql r a) (eval_sql r b)"
| "eval_sql r (Ne a b) = sql_not (cell_eq (eval_sql r a) (eval_sql r b))"
| "eval_sql r (InList a ss) =
     foldr (\<lambda>s acc. sql_or (cell_eq (eval_sql r a) (VText s)) acc) ss (VBool False)"
| "eval_sql r (IsNull a) = VBool (eval_sql r a = Null)"
| "eval_sql r (IsNotNull a) = VBool (eval_sql r a \<noteq> Null)"
| "eval_sql r (Or a b) = sql_or (eval_sql r a) (eval_sql r b)"
| "eval_sql r (And a b) = sql_and (eval_sql r a) (eval_sql r b)"

text \<open>A CHECK refuses a row only when it is false; a WHERE keeps one only when it is true.\<close>

definition check_passes :: "sql_expr \<Rightarrow> row \<Rightarrow> bool" where
  "check_passes e r = (eval_sql r e \<noteq> VBool False)"

definition where_holds :: "sql_expr option \<Rightarrow> row \<Rightarrow> bool" where
  "where_holds w r = (case w of None \<Rightarrow> True | Some e \<Rightarrow> eval_sql r e = VBool True)"

text \<open>
  A unique key: among the rows under its WHERE clause, no two agree on its columns; rows
  with a null there are not compared.
\<close>

definition key_holds :: "string list \<Rightarrow> sql_expr option \<Rightarrow> row list \<Rightarrow> bool" where
  "key_holds cols w rows =
     distinct (map (\<lambda>r. map r cols)
       (filter (\<lambda>r. where_holds w r \<and> (\<forall>c\<in>set cols. r c \<noteq> Null)) rows))"

subsection \<open>Tables\<close>

datatype sql_type =
    String nat
  | Text
  | UUID
  | Integer
  | SmallInteger
  | BigInteger
  | Boolean
  | Float
  | Numeric nat nat
  | DateTime
  | INET
  | JSONB
  | LargeBinary

text \<open>\<open>DateTime\<close> is \<open>DateTime(timezone=True)\<close>, the only instant type of the schema.\<close>

text \<open>A server default is SQL text (\<open>sa.text\<close>, \<open>func.now()\<close>) or a literal.\<close>

datatype server_default = SqlText string | SqlLiteral string

record column =
  col_name :: string
  col_type :: sql_type
  col_nullable :: bool
  col_autoincrement :: bool
  col_server_default :: "server_default option"

definition Column :: "string \<Rightarrow> sql_type \<Rightarrow> bool \<Rightarrow> column" where
  "Column n ty nullable =
     \<lparr>col_name = n, col_type = ty, col_nullable = nullable, col_autoincrement = False,
      col_server_default = None\<rparr>"

datatype ondelete = RESTRICT | CASCADE | SET_NULL

datatype constr =
    PrimaryKeyConstraint "string list"
  | UniqueConstraint "string list" "string option"
  | ForeignKeyConstraint "string list" string "string list" ondelete
  | CheckConstraint sql_expr string

text \<open>The columns of a constraint, the key a constraint makes, the table it refers to.\<close>

fun constr_columns :: "constr \<Rightarrow> string list" where
  "constr_columns (PrimaryKeyConstraint cs) = cs"
| "constr_columns (UniqueConstraint cs n) = cs"
| "constr_columns (ForeignKeyConstraint cs t rs od) = cs"
| "constr_columns (CheckConstraint e n) = expr_columns e"

fun key_columns :: "constr \<Rightarrow> string list option" where
  "key_columns (PrimaryKeyConstraint cs) = Some cs"
| "key_columns (UniqueConstraint cs n) = Some cs"
| "key_columns (ForeignKeyConstraint cs t rs od) = None"
| "key_columns (CheckConstraint e n) = None"

fun references :: "constr \<Rightarrow> (string \<times> string list) option" where
  "references (ForeignKeyConstraint cs t rs od) = Some (t, rs)"
| "references (PrimaryKeyConstraint cs) = None"
| "references (UniqueConstraint cs n) = None"
| "references (CheckConstraint e n) = None"

text \<open>The name of a constraint: its own, or the one Postgres makes from table and columns.\<close>

fun joined :: "string list \<Rightarrow> string" where
  "joined [] = []"
| "joined [c] = c"
| "joined (c # cs) = c @ ''_'' @ joined cs"

fun constr_name :: "string \<Rightarrow> constr \<Rightarrow> string" where
  "constr_name t (PrimaryKeyConstraint cs) = t @ ''_pkey''"
| "constr_name t (UniqueConstraint cs (Some n)) = n"
| "constr_name t (UniqueConstraint cs None) = t @ ''_'' @ joined cs @ ''_key''"
| "constr_name t (ForeignKeyConstraint cs t' rs od) = t @ ''_'' @ joined cs @ ''_fkey''"
| "constr_name t (CheckConstraint e n) = n"

record table_def =
  tb_columns :: "column list"
  tb_constraints :: "constr set"

record index_def =
  ix_name :: string
  ix_table :: string
  ix_columns :: "string list"
  ix_unique :: bool
  ix_where :: "sql_expr option"

datatype privilege = SELECT | INSERT | UPDATE | DELETE | TRUNCATE

record trigger_def =
  tg_name :: string
  tg_table :: string
  tg_events :: "privilege list"
  tg_each_row :: bool
  tg_function :: string

subsection \<open>The catalogue\<close>

datatype pg_error =
    DuplicateTable
  | UndefinedTable
  | UndefinedColumn
  | UndefinedObject
  | UndefinedFunction
  | DuplicateColumn
  | DuplicateObject
  | InvalidForeignKey
  | NotNullViolation
  | UniqueViolation
  | DependentObjectsStillExist
  | InsufficientPrivilege
  | RestrictViolation

text \<open>
  A function is known by the error its body raises. Grants are per role and table;
  \<open>pg_defaults\<close> are the default privileges of the tables the owner, who runs the
  migrations, creates.
\<close>

record pg =
  pg_tables :: "(string \<times> table_def) list"
  pg_indexes :: "index_def list"
  pg_functions :: "(string \<times> pg_error) list"
  pg_triggers :: "trigger_def list"
  pg_roles :: "string list"
  pg_owner :: string
  pg_defaults :: "string \<Rightarrow> privilege set"
  pg_grants :: "string \<Rightarrow> string \<Rightarrow> privilege set"
  pg_rows :: "string \<Rightarrow> row list"

definition table_names :: "pg \<Rightarrow> string set" where
  "table_names c = fst ` set (pg_tables c)"

text \<open>Tables, indexes and the indexes behind keys share one name space.\<close>

definition key_names :: "string \<Rightarrow> constr set \<Rightarrow> string set" where
  "key_names n ks = constr_name n ` {k \<in> ks. key_columns k \<noteq> None}"

definition relation_names :: "pg \<Rightarrow> string set" where
  "relation_names c =
     table_names c \<union> ix_name ` set (pg_indexes c) \<union>
     (\<Union>x\<in>set (pg_tables c). key_names (fst x) (tb_constraints (snd x)))"

definition column_names :: "table_def \<Rightarrow> string list" where
  "column_names t = map col_name (tb_columns t)"

definition edit_table :: "string \<Rightarrow> (table_def \<Rightarrow> table_def) \<Rightarrow> pg \<Rightarrow> pg" where
  "edit_table n f c = c\<lparr>pg_tables := map (\<lambda>(m, t). (m, if m = n then f t else t)) (pg_tables c)\<rparr>"

text \<open>On a new table the owner has every privilege, another role the default ones.\<close>

definition initial_privileges :: "pg \<Rightarrow> string \<Rightarrow> privilege set" where
  "initial_privileges c r =
     (if r = pg_owner c then {SELECT, INSERT, UPDATE, DELETE, TRUNCATE}
      else if r \<in> set (pg_roles c) then pg_defaults c r else {})"

text \<open>A foreign key is legal if it refers to a key of a table that exists (or the one being made).\<close>

definition fk_error :: "string \<Rightarrow> constr set \<Rightarrow> pg \<Rightarrow> constr \<Rightarrow> pg_error option" where
  "fk_error n cons c k =
     (case references k of
        None \<Rightarrow> None
      | Some (t, rs) \<Rightarrow>
          (if t = n then (if \<exists>k'\<in>cons. key_columns k' = Some rs then None else Some InvalidForeignKey)
           else case map_of (pg_tables c) t of
                  None \<Rightarrow> Some UndefinedTable
                | Some td \<Rightarrow>
                    (if \<exists>k'\<in>tb_constraints td. key_columns k' = Some rs then None
                     else Some InvalidForeignKey)))"

text \<open>Does a foreign key of another table refer to \<open>n\<close> (to one of the columns \<open>cols\<close>)?\<close>

definition referred :: "string \<Rightarrow> pg \<Rightarrow> bool" where
  "referred n c =
     (\<exists>(m, t)\<in>set (pg_tables c). m \<noteq> n \<and> (\<exists>k\<in>tb_constraints t. map_option fst (references k) = Some n))"

definition referred_columns :: "string \<Rightarrow> string list \<Rightarrow> pg \<Rightarrow> bool" where
  "referred_columns n cols c =
     (\<exists>(m, t)\<in>set (pg_tables c). \<exists>k\<in>tb_constraints t.
        case references k of None \<Rightarrow> False | Some (t', rs) \<Rightarrow> t' = n \<and> set cols \<inter> set rs \<noteq> {})"

definition referred_key :: "string \<Rightarrow> string list option \<Rightarrow> pg \<Rightarrow> bool" where
  "referred_key n key c =
     (\<exists>(m, t)\<in>set (pg_tables c). \<exists>k\<in>tb_constraints t.
        case references k of None \<Rightarrow> False | Some (t', rs) \<Rightarrow> t' = n \<and> key = Some rs)"

subsection \<open>Statements\<close>

datatype ddl =
    CreateTable string "column list" "constr list"
  | DropTable string
  | CreateIndex index_def
  | DropIndex string string
  | AddColumn string string sql_type bool
  | DropColumn string string
  | DropConstraint string string
  | CreateUniqueConstraint string string "string list"
  | CreateFunction string pg_error
  | DropFunctionIfExists string
  | CreateTrigger trigger_def
  | DropTriggerIfExists string string
  | GrantIfRole "privilege list" string string
  | RevokeIfRole "privilege list" string string

fun exec_ddl :: "ddl \<Rightarrow> pg \<Rightarrow> pg_error + pg" where
  "exec_ddl (CreateTable n cols cons) c =
     (if n \<in> relation_names c \<or> key_names n (set cons) \<inter> relation_names c \<noteq> {}
      then Inl DuplicateTable
      else if \<exists>k\<in>set cons. \<not> set (constr_columns k) \<subseteq> set (map col_name cols) then Inl UndefinedColumn
      else case List.find (\<lambda>k. fk_error n (set cons) c k \<noteq> None) cons of
             Some k \<Rightarrow> Inl (the (fk_error n (set cons) c k))
           | None \<Rightarrow>
               Inr (c\<lparr>pg_tables := pg_tables c @ [(n, \<lparr>tb_columns = cols, tb_constraints = set cons\<rparr>)],
                      pg_grants := (\<lambda>r t. if t = n then initial_privileges c r else pg_grants c r t)\<rparr>))"
| "exec_ddl (DropTable n) c =
     (if n \<notin> table_names c then Inl UndefinedTable
      else if referred n c then Inl DependentObjectsStillExist
      else Inr (c\<lparr>pg_tables := filter (\<lambda>(m, t). m \<noteq> n) (pg_tables c),
                  pg_indexes := filter (\<lambda>i. ix_table i \<noteq> n) (pg_indexes c),
                  pg_triggers := filter (\<lambda>g. tg_table g \<noteq> n) (pg_triggers c),
                  pg_grants := (\<lambda>r t. if t = n then {} else pg_grants c r t),
                  pg_rows := (pg_rows c)(n := [])\<rparr>))"
| "exec_ddl (CreateIndex i) c =
     (if ix_name i \<in> relation_names c then Inl DuplicateTable
      else if ix_table i \<notin> table_names c then Inl UndefinedTable
      else if ix_unique i \<and> \<not> key_holds (ix_columns i) (ix_where i) (pg_rows c (ix_table i))
      then Inl UniqueViolation
      else Inr (c\<lparr>pg_indexes := pg_indexes c @ [i]\<rparr>))"
| "exec_ddl (DropIndex n t) c =
     (if n \<notin> ix_name ` set (pg_indexes c) then Inl UndefinedObject
      else Inr (c\<lparr>pg_indexes := filter (\<lambda>i. ix_name i \<noteq> n) (pg_indexes c)\<rparr>))"
| "exec_ddl (AddColumn n cn ty nullable) c =
     (case map_of (pg_tables c) n of
        None \<Rightarrow> Inl UndefinedTable
      | Some t \<Rightarrow>
          (if cn \<in> set (column_names t) then Inl DuplicateColumn
           else if \<not> nullable \<and> pg_rows c n \<noteq> [] then Inl NotNullViolation
           else Inr (edit_table n (\<lambda>t. t\<lparr>tb_columns := tb_columns t @ [Column cn ty nullable]\<rparr>) c)))"
| "exec_ddl (DropColumn n cn) c =
     (case map_of (pg_tables c) n of
        None \<Rightarrow> Inl UndefinedTable
      | Some t \<Rightarrow>
          (if cn \<notin> set (column_names t) then Inl UndefinedColumn
           else if referred_columns n [cn] c then Inl DependentObjectsStillExist
           else Inr ((edit_table n (\<lambda>t. t\<lparr>tb_columns := filter (\<lambda>k. col_name k \<noteq> cn) (tb_columns t),
                          tb_constraints := {k \<in> tb_constraints t. cn \<notin> set (constr_columns k)}\<rparr>) c)
                  \<lparr>pg_indexes := filter (\<lambda>i. \<not> (ix_table i = n \<and>
                       (cn \<in> set (ix_columns i) \<or>
                        cn \<in> set (case ix_where i of None \<Rightarrow> [] | Some e \<Rightarrow> expr_columns e)))) (pg_indexes c),
                   pg_rows := (pg_rows c)(n := map (\<lambda>r. r(cn := Null)) (pg_rows c n))\<rparr>)))"
| "exec_ddl (DropConstraint name n) c =
     (case map_of (pg_tables c) n of
        None \<Rightarrow> Inl UndefinedTable
      | Some t \<Rightarrow>
          (if \<not> (\<exists>k\<in>tb_constraints t. constr_name n k = name) then Inl UndefinedObject
           else if \<exists>k\<in>tb_constraints t. constr_name n k = name \<and> referred_key n (key_columns k) c
           then Inl DependentObjectsStillExist
           else Inr (edit_table n (\<lambda>t. t\<lparr>tb_constraints :=
                        {k \<in> tb_constraints t. constr_name n k \<noteq> name}\<rparr>) c)))"
| "exec_ddl (CreateUniqueConstraint name n cols) c =
     (case map_of (pg_tables c) n of
        None \<Rightarrow> Inl UndefinedTable
      | Some t \<Rightarrow>
          (if name \<in> relation_names c then Inl DuplicateTable
           else if \<not> set cols \<subseteq> set (column_names t) then Inl UndefinedColumn
           else if \<not> key_holds cols None (pg_rows c n) then Inl UniqueViolation
           else Inr (edit_table n (\<lambda>t. t\<lparr>tb_constraints :=
                        insert (UniqueConstraint cols (Some name)) (tb_constraints t)\<rparr>) c)))"
| "exec_ddl (CreateFunction f e) c = Inr (c\<lparr>pg_functions := AList.update f e (pg_functions c)\<rparr>)"
| "exec_ddl (DropFunctionIfExists f) c =
     (if \<exists>g\<in>set (pg_triggers c). tg_function g = f then Inl DependentObjectsStillExist
      else Inr (c\<lparr>pg_functions := filter (\<lambda>(g, e). g \<noteq> f) (pg_functions c)\<rparr>))"
| "exec_ddl (CreateTrigger g) c =
     (if tg_table g \<notin> table_names c then Inl UndefinedTable
      else if tg_function g \<notin> fst ` set (pg_functions c) then Inl UndefinedFunction
      else if \<exists>h\<in>set (pg_triggers c). tg_name h = tg_name g \<and> tg_table h = tg_table g
      then Inl DuplicateObject
      else Inr (c\<lparr>pg_triggers := pg_triggers c @ [g]\<rparr>))"
| "exec_ddl (DropTriggerIfExists g n) c =
     Inr (c\<lparr>pg_triggers := filter (\<lambda>h. \<not> (tg_name h = g \<and> tg_table h = n)) (pg_triggers c)\<rparr>)"
| "exec_ddl (GrantIfRole ps n r) c =
     (if r \<notin> set (pg_roles c) then Inr c
      else if n \<notin> table_names c then Inl UndefinedTable
      else Inr (c\<lparr>pg_grants := (\<lambda>r' t. if r' = r \<and> t = n then pg_grants c r t \<union> set ps
                                       else pg_grants c r' t)\<rparr>))"
| "exec_ddl (RevokeIfRole ps n r) c =
     (if r \<notin> set (pg_roles c) then Inr c
      else if n \<notin> table_names c then Inl UndefinedTable
      else Inr (c\<lparr>pg_grants := (\<lambda>r' t. if r' = r \<and> t = n then pg_grants c r t - set ps
                                       else pg_grants c r' t)\<rparr>))"

text \<open>A script: the statements in order, stopping at the first error.\<close>

fun exec_script :: "ddl list \<Rightarrow> pg \<Rightarrow> pg_error + pg" where
  "exec_script [] c = Inr c"
| "exec_script (s # ss) c = (case exec_ddl s c of Inl e \<Rightarrow> Inl e | Inr c' \<Rightarrow> exec_script ss c')"

lemma exec_script_append:
  "exec_script (xs @ ys) c = (case exec_script xs c of Inl e \<Rightarrow> Inl e | Inr c' \<Rightarrow> exec_script ys c')"
  by (induction xs arbitrary: c) (auto split: sum.splits)

subsection \<open>The catalogue stays sound\<close>

text \<open>
  What belongs to a table names a table that exists, constraints name columns of their
  table, foreign keys and triggers what they refer to, and rows have cells in the columns of
  their table only.
\<close>

definition table_ok :: "string set \<Rightarrow> row list \<Rightarrow> table_def \<Rightarrow> bool" where
  "table_ok names rows t =
     ((\<forall>k\<in>tb_constraints t. set (constr_columns k) \<subseteq> set (column_names t) \<and>
                             fst ` set_option (references k) \<subseteq> names) \<and>
      (\<forall>r\<in>set rows. \<forall>cn. cn \<notin> set (column_names t) \<longrightarrow> r cn = Null))"

definition catalog_ok :: "pg \<Rightarrow> bool" where
  "catalog_ok c =
     (distinct (map fst (pg_tables c)) \<and>
      (\<forall>i\<in>set (pg_indexes c). ix_table i \<in> table_names c) \<and>
      (\<forall>g\<in>set (pg_triggers c). tg_table g \<in> table_names c \<and> tg_function g \<in> fst ` set (pg_functions c)) \<and>
      list_all (\<lambda>x. table_ok (table_names c) (pg_rows c (fst x)) (snd x)) (pg_tables c) \<and>
      (\<forall>n. n \<notin> table_names c \<longrightarrow> pg_rows c n = [] \<and> (\<forall>r. pg_grants c r n = {})))"

lemma table_names_frame [simp]:
  "table_names (c\<lparr>pg_indexes := is\<rparr>) = table_names c" "table_names (c\<lparr>pg_functions := fs\<rparr>) = table_names c"
  "table_names (c\<lparr>pg_triggers := gs\<rparr>) = table_names c" "table_names (c\<lparr>pg_grants := ps\<rparr>) = table_names c"
  "table_names (c\<lparr>pg_rows := rs\<rparr>) = table_names c"
  by (simp_all add: table_names_def)

lemma catalog_ok_table:
  "catalog_ok c \<Longrightarrow> x \<in> set (pg_tables c) \<Longrightarrow> table_ok (table_names c) (pg_rows c (fst x)) (snd x)"
  by (simp add: catalog_ok_def list_all_iff)

lemma catalog_ok_reference:
  assumes "catalog_ok c" "x \<in> set (pg_tables c)" "k \<in> tb_constraints (snd x)" "references k = Some (t, rs)"
  shows "t \<in> table_names c"
proof -
  have "fst ` set_option (references k) \<subseteq> table_names c"
    using catalog_ok_table [OF assms(1,2)] assms(3) by (simp add: table_ok_def)
  with assms(4) show ?thesis by simp
qed

lemma edit_table_frame [simp]:
  "pg_indexes (edit_table n f c) = pg_indexes c" "pg_functions (edit_table n f c) = pg_functions c"
  "pg_triggers (edit_table n f c) = pg_triggers c" "pg_roles (edit_table n f c) = pg_roles c"
  "pg_owner (edit_table n f c) = pg_owner c" "pg_defaults (edit_table n f c) = pg_defaults c"
  "pg_grants (edit_table n f c) = pg_grants c" "pg_rows (edit_table n f c) = pg_rows c"
  by (simp_all add: edit_table_def)

lemma map_fst_edit [simp]: "map fst (pg_tables (edit_table n f c)) = map fst (pg_tables c)"
  by (auto simp: edit_table_def)

lemma table_names_edit [simp]: "table_names (edit_table n f c) = table_names c"
  unfolding table_names_def by (metis list.set_map map_fst_edit)

lemma in_edit_table:
  assumes "x \<in> set (pg_tables (edit_table n f c))"
  obtains u where "(fst x, u) \<in> set (pg_tables c)" "snd x = (if fst x = n then f u else u)"
  using assms by (auto simp: edit_table_def)

lemma map_of_edit_table:
  "map_of (pg_tables (edit_table n f c)) m =
     map_option (\<lambda>t. if m = n then f t else t) (map_of (pg_tables c) m)"
proof -
  have "map_of (map (\<lambda>(m, t). (m, if m = n then f t else t)) xs) m =
          map_option (\<lambda>t. if m = n then f t else t) (map_of xs m)" for xs
    by (induction xs) auto
  then show ?thesis by (simp add: edit_table_def)
qed

lemma edit_table_twice [simp]: "edit_table n g (edit_table n f c) = edit_table n (\<lambda>t. g (f t)) c"
  by (auto simp: edit_table_def intro!: arg_cong [where f = "\<lambda>ts. c\<lparr>pg_tables := ts\<rparr>"])

lemma edit_table_update [simp]:
  "edit_table n f (c\<lparr>pg_indexes := is\<rparr>) = (edit_table n f c)\<lparr>pg_indexes := is\<rparr>"
  "edit_table n f (c\<lparr>pg_rows := rs\<rparr>) = (edit_table n f c)\<lparr>pg_rows := rs\<rparr>"
  by (simp_all add: edit_table_def)

lemma edit_table_same:
  assumes "distinct (map fst (pg_tables c))" "map_of (pg_tables c) n = Some t" "f t = t"
  shows "edit_table n f c = c"
proof -
  have "map (\<lambda>(m, u). (m, if m = n then f u else u)) (pg_tables c) = pg_tables c"
    by (rule map_idI) (use assms in \<open>auto dest: eq_key_imp_eq_value simp: map_of_eq_Some_iff\<close>)
  then show ?thesis by (simp add: edit_table_def)
qed

text \<open>An edit of one table keeps the catalogue sound if it keeps that table's own clauses.\<close>

lemma catalog_ok_edit:
  assumes c: "catalog_ok c"
    and f: "\<And>u. map_of (pg_tables c) n = Some u \<Longrightarrow> table_ok (table_names c) (pg_rows c n) u \<Longrightarrow>
              table_ok (table_names c) (pg_rows c n) (f u)"
  shows "catalog_ok (edit_table n f c)"
proof -
  have "table_ok (table_names c) (pg_rows c (fst x)) (snd x)"
    if x: "x \<in> set (pg_tables (edit_table n f c))" for x
  proof -
    obtain u where u: "(fst x, u) \<in> set (pg_tables c)" "snd x = (if fst x = n then f u else u)"
      using x by (rule in_edit_table)
    then have t: "table_ok (table_names c) (pg_rows c (fst x)) u" "map_of (pg_tables c) (fst x) = Some u"
      using c by (auto simp: catalog_ok_def list_all_iff)
    show ?thesis
    proof (cases "fst x = n")
      case True
      then show ?thesis using f [of u] t u(2) by simp
    next
      case False
      then show ?thesis using t u(2) by simp
    qed
  qed
  then have "\<forall>x\<in>set (pg_tables (edit_table n f c)). table_ok (table_names c) (pg_rows c (fst x)) (snd x)"
    by blast
  with c show ?thesis unfolding catalog_ok_def list_all_iff by simp
qed

lemma table_ok_add_column:
  "table_ok names rows t \<Longrightarrow> table_ok names rows (t\<lparr>tb_columns := tb_columns t @ cols\<rparr>)"
  by (fastforce simp: table_ok_def column_names_def)

lemma table_ok_fewer_constraints:
  "table_ok names rows t \<Longrightarrow> table_ok names rows (t\<lparr>tb_constraints := {k \<in> tb_constraints t. P k}\<rparr>)"
  by (simp add: table_ok_def column_names_def)

lemma column_names_drop:
  "column_names (t\<lparr>tb_columns := filter (\<lambda>k. col_name k \<noteq> cn) (tb_columns t), tb_constraints := ks\<rparr>) =
     filter (\<lambda>c. c \<noteq> cn) (column_names t)"
  by (simp add: column_names_def filter_map o_def)

lemma table_ok_drop_column:
  "table_ok names rows t \<Longrightarrow>
   table_ok names (map (\<lambda>r. r(cn := Null)) rows)
     (t\<lparr>tb_columns := filter (\<lambda>k. col_name k \<noteq> cn) (tb_columns t),
        tb_constraints := {k \<in> tb_constraints t. cn \<notin> set (constr_columns k)}\<rparr>)"
  unfolding table_ok_def column_names_drop by auto

lemma table_ok_mono:
  "table_ok names rows t \<Longrightarrow> names \<subseteq> names' \<Longrightarrow> table_ok names' rows t"
  by (fastforce simp: table_ok_def)

lemma exec_AddColumn_ok:
  assumes "catalog_ok c" "exec_ddl (AddColumn n cn ty nl) c = Inr c'"
  shows "catalog_ok c'"
proof -
  have "c' = edit_table n (\<lambda>t. t\<lparr>tb_columns := tb_columns t @ [Column cn ty nl]\<rparr>) c"
    using assms(2) by (auto split: option.splits if_splits)
  then show ?thesis by (simp add: catalog_ok_edit [OF assms(1)] table_ok_add_column)
qed

lemma exec_DropConstraint_ok:
  assumes "catalog_ok c" "exec_ddl (DropConstraint name n) c = Inr c'"
  shows "catalog_ok c'"
proof -
  have "c' = edit_table n (\<lambda>t. t\<lparr>tb_constraints := {k \<in> tb_constraints t. constr_name n k \<noteq> name}\<rparr>) c"
    using assms(2) by (auto split: option.splits if_splits)
  then show ?thesis by (simp add: catalog_ok_edit [OF assms(1)] table_ok_fewer_constraints)
qed

lemma exec_CreateUnique_ok:
  assumes "catalog_ok c" "exec_ddl (CreateUniqueConstraint name n cols) c = Inr c'"
  shows "catalog_ok c'"
proof -
  from assms(2) obtain t where t: "map_of (pg_tables c) n = Some t" "set cols \<subseteq> set (column_names t)"
    and c': "c' = edit_table n (\<lambda>t. t\<lparr>tb_constraints :=
                        insert (UniqueConstraint cols (Some name)) (tb_constraints t)\<rparr>) c"
    by (auto split: option.splits if_splits)
  show ?thesis
    unfolding c' by (rule catalog_ok_edit [OF assms(1)]) (use t in \<open>auto simp: table_ok_def column_names_def\<close>)
qed

lemma exec_DropColumn_ok:
  assumes c: "catalog_ok c" and e: "exec_ddl (DropColumn n cn) c = Inr c'"
  shows "catalog_ok c'"
proof -
  let ?f = "\<lambda>t. t\<lparr>tb_columns := filter (\<lambda>k. col_name k \<noteq> cn) (tb_columns t),
                  tb_constraints := {k \<in> tb_constraints t. cn \<notin> set (constr_columns k)}\<rparr>"
  from e obtain p where
    c': "c' = (edit_table n ?f c)\<lparr>pg_indexes := filter p (pg_indexes c),
                pg_rows := (pg_rows c)(n := map (\<lambda>r. r(cn := Null)) (pg_rows c n))\<rparr>"
    by (auto split: option.splits if_splits)
  have names: "table_names c' = table_names c"
    using c' table_names_edit [of n ?f c] by (simp add: table_names_def)
  have "table_ok (table_names c) (pg_rows c' (fst x)) (snd x)" if x: "x \<in> set (pg_tables c')" for x
  proof -
    have "x \<in> set (pg_tables (edit_table n ?f c))" using x c' by simp
    then obtain u where u: "(fst x, u) \<in> set (pg_tables c)" "snd x = (if fst x = n then ?f u else u)"
      by (rule in_edit_table)
    then have "table_ok (table_names c) (pg_rows c (fst x)) u" using c by (auto simp: catalog_ok_def list_all_iff)
    then show ?thesis using u(2) c' table_ok_drop_column by (cases "fst x = n") auto
  qed
  moreover have "pg_rows c' m = []" if "m \<notin> table_names c" for m
    using that c c' by (auto simp: catalog_ok_def list_all_iff)
  moreover have "distinct (map fst (pg_tables c'))" using c c' by (simp add: catalog_ok_def list_all_iff)
  ultimately show ?thesis
    using c names unfolding catalog_ok_def list_all_iff by (auto simp: c')
qed

lemma fk_target:
  assumes "fk_error n cons c k = None" "references k = Some (t, rs)" "t \<noteq> n"
  shows "t \<in> table_names c"
  using assms by (force simp: fk_error_def table_names_def split: option.splits dest: map_of_SomeD)

lemma exec_CreateTable_ok:
  assumes c: "catalog_ok c" and e: "exec_ddl (CreateTable n cols cons) c = Inr c'"
  shows "catalog_ok c'"
proof -
  let ?t = "\<lparr>tb_columns = cols, tb_constraints = set cons\<rparr>"
  from e have new: "n \<notin> table_names c" and cs: "\<forall>k\<in>set cons. set (constr_columns k) \<subseteq> set (map col_name cols)"
    and fk: "\<forall>k\<in>set cons. fk_error n (set cons) c k = None"
    and c': "c' = c\<lparr>pg_tables := pg_tables c @ [(n, ?t)],
                   pg_grants := (\<lambda>r t. if t = n then initial_privileges c r else pg_grants c r t)\<rparr>"
    by (auto simp: relation_names_def find_None_iff split: if_splits option.splits)
  have names: "table_names c' = insert n (table_names c)" by (auto simp: c' table_names_def)
  have "fst ` set_option (references k) \<subseteq> insert n (table_names c)" if "k \<in> set cons" for k
    using bspec [OF fk that] by (cases "references k") (auto dest: fk_target)
  then have "table_ok (table_names c') (pg_rows c' n) ?t"
    using cs c new unfolding names by (auto simp: table_ok_def column_names_def catalog_ok_def list_all_iff c')
  moreover have "table_ok (table_names c') (pg_rows c' (fst x)) (snd x)" if "x \<in> set (pg_tables c)" for x
  proof -
    have "table_ok (table_names c) (pg_rows c (fst x)) (snd x)" using that c by (simp add: catalog_ok_def list_all_iff)
    then have "table_ok (table_names c') (pg_rows c (fst x)) (snd x)"
      by (rule table_ok_mono) (auto simp: names)
    then show ?thesis by (simp add: c')
  qed
  ultimately have "\<forall>x\<in>set (pg_tables c'). table_ok (table_names c') (pg_rows c' (fst x)) (snd x)"
    by (auto simp: c')
  then show ?thesis
    using c new unfolding catalog_ok_def list_all_iff names by (auto simp: c' table_names_def)
qed

lemma exec_DropTable_ok:
  assumes c: "catalog_ok c" and e: "exec_ddl (DropTable n) c = Inr c'"
  shows "catalog_ok c'"
proof -
  from e have nr: "\<not> referred n c"
    and c': "c' = c\<lparr>pg_tables := filter (\<lambda>(m, t). m \<noteq> n) (pg_tables c),
                  pg_indexes := filter (\<lambda>i. ix_table i \<noteq> n) (pg_indexes c),
                  pg_triggers := filter (\<lambda>g. tg_table g \<noteq> n) (pg_triggers c),
                  pg_grants := (\<lambda>r t. if t = n then {} else pg_grants c r t),
                  pg_rows := (pg_rows c)(n := [])\<rparr>"
    by (auto split: if_splits)
  have names: "table_names c' = table_names c - {n}" by (auto simp: c' table_names_def)
  have "table_ok (table_names c') (pg_rows c' (fst x)) (snd x)" if x: "x \<in> set (pg_tables c')" for x
  proof -
    from x have x: "x \<in> set (pg_tables c)" "fst x \<noteq> n" by (auto simp: c')
    then have "\<forall>k\<in>tb_constraints (snd x). map_option fst (references k) \<noteq> Some n"
      using nr by (force simp: referred_def)
    then have "\<forall>k\<in>tb_constraints (snd x). n \<notin> fst ` set_option (references k)"
      by (auto simp: map_option_case split: option.splits)
    moreover have "table_ok (table_names c) (pg_rows c (fst x)) (snd x)"
      using c x by (simp add: catalog_ok_def list_all_iff)
    ultimately have "table_ok (table_names c - {n}) (pg_rows c (fst x)) (snd x)"
      unfolding table_ok_def by (simp add: subset_Diff_insert)
    then show ?thesis using x unfolding names by (simp add: c')
  qed
  then have "\<forall>x\<in>set (pg_tables c'). table_ok (table_names c') (pg_rows c' (fst x)) (snd x)" by blast
  moreover have "distinct (map fst (filter p xs))" if "distinct (map fst xs)"
    for p and xs :: "(string \<times> table_def) list"
    using that by (induction xs) auto
  ultimately show ?thesis
    using c unfolding catalog_ok_def list_all_iff names by (simp add: c')
qed

theorem exec_keeps_catalog_ok:
  assumes "catalog_ok c" "exec_ddl s c = Inr c'"
  shows "catalog_ok c'"
proof (cases s)
  case (CreateTable n cols cons)
  then show ?thesis using assms exec_CreateTable_ok by blast
next
  case (DropTable n)
  then show ?thesis using assms exec_DropTable_ok by blast
next
  case (AddColumn n cn ty nl)
  then show ?thesis using assms exec_AddColumn_ok by blast
next
  case (DropColumn n cn)
  then show ?thesis using assms exec_DropColumn_ok by blast
next
  case (DropConstraint name n)
  then show ?thesis using assms exec_DropConstraint_ok by blast
next
  case (CreateUniqueConstraint name n cols)
  then show ?thesis using assms exec_CreateUnique_ok by blast
next
  case (CreateFunction f e)
  have "fst ` set (AList.update f e fs) = insert f (fst ` set fs)" for fs :: "(string \<times> pg_error) list"
    by (metis dom_map_of_conv_image_fst dom_fun_upd option.distinct(1) update_conv')
  moreover from assms(1) have "\<forall>g\<in>set (pg_triggers c). tg_table g \<in> table_names c \<and>
      tg_function g \<in> insert f (fst ` set (pg_functions c))"
    by (simp add: catalog_ok_def)
  moreover have "c' = c\<lparr>pg_functions := AList.update f e (pg_functions c)\<rparr>"
    using CreateFunction assms(2) by simp
  ultimately show ?thesis using assms(1) by (simp add: catalog_ok_def)
next
  case (DropFunctionIfExists f)
  then have "c' = c\<lparr>pg_functions := filter (\<lambda>(g, e). g \<noteq> f) (pg_functions c)\<rparr>"
    "\<forall>g\<in>set (pg_triggers c). tg_function g \<noteq> f"
    using assms(2) by (auto split: if_splits)
  moreover from this have "table_names c' = table_names c" by (simp add: table_names_def)
  moreover have "fst ` set (filter (\<lambda>(g, e). g \<noteq> f) fs) = fst ` set fs - {f}"
    for fs :: "(string \<times> pg_error) list" by force
  ultimately show ?thesis using assms(1) unfolding catalog_ok_def by simp
next
  case (CreateIndex i)
  with assms show ?thesis by (auto simp: catalog_ok_def simp del: split_paired_All split: if_splits)
next
  case (DropIndex n t)
  with assms show ?thesis by (auto simp: catalog_ok_def split: if_splits)
next
  case (CreateTrigger g)
  with assms(2) have "c' = c\<lparr>pg_triggers := pg_triggers c @ [g]\<rparr>" "tg_table g \<in> table_names c"
    "tg_function g \<in> fst ` set (pg_functions c)"
    by (simp_all split: if_splits)
  with assms(1) show ?thesis by (simp add: catalog_ok_def)
next
  case (DropTriggerIfExists g n)
  with assms show ?thesis by (auto simp: catalog_ok_def)
next
  case (GrantIfRole ps n r)
  with assms show ?thesis by (auto simp: catalog_ok_def split: if_splits)
next
  case (RevokeIfRole ps n r)
  with assms show ?thesis by (auto simp: catalog_ok_def split: if_splits)
qed

theorem exec_script_keeps_catalog_ok:
  "catalog_ok c \<Longrightarrow> exec_script ss c = Inr c' \<Longrightarrow> catalog_ok c'"
  by (induction ss arbitrary: c) (auto split: sum.splits intro: exec_keeps_catalog_ok)

subsection \<open>Undoing a creation\<close>

fun undo :: "ddl \<Rightarrow> ddl option" where
  "undo (CreateTable n cols cons) = Some (DropTable n)"
| "undo (CreateIndex i) = Some (DropIndex (ix_name i) (ix_table i))"
| "undo _ = None"

lemma undo_CreateTable:
  assumes c: "catalog_ok c" and e: "exec_ddl (CreateTable n cols cons) c = Inr c'"
  shows "exec_ddl (DropTable n) c' = Inr c"
proof -
  from e have new: "n \<notin> table_names c"
    and c': "c' = c\<lparr>pg_tables := pg_tables c @ [(n, \<lparr>tb_columns = cols, tb_constraints = set cons\<rparr>)],
                   pg_grants := (\<lambda>r t. if t = n then initial_privileges c r else pg_grants c r t)\<rparr>"
    by (auto simp: relation_names_def split: if_splits option.splits)
  have "map_option fst (references k) \<noteq> Some n" if "x \<in> set (pg_tables c)" "k \<in> tb_constraints (snd x)" for x k
    using catalog_ok_reference [OF c that] new by (cases "references k") auto
  then have nr: "\<not> referred n c'" by (force simp: referred_def c')
  have "filter (\<lambda>(m, t). m \<noteq> n) (pg_tables c') = pg_tables c"
    using new by (auto simp: c' table_names_def filter_id_conv intro: rev_image_eqI)
  moreover have "filter (\<lambda>i. ix_table i \<noteq> n) (pg_indexes c') = pg_indexes c"
    "filter (\<lambda>g. tg_table g \<noteq> n) (pg_triggers c') = pg_triggers c"
    using c new by (auto simp: catalog_ok_def list_all_iff c' filter_id_conv)
  moreover have "(\<lambda>r t. if t = n then {} else pg_grants c' r t) = pg_grants c" "(pg_rows c')(n := []) = pg_rows c"
    using c new by (auto simp: catalog_ok_def list_all_iff c' fun_eq_iff)
  moreover have "n \<in> table_names c'" by (simp add: table_names_def c')
  ultimately have "exec_ddl (DropTable n) c' =
      Inr (c'\<lparr>pg_tables := pg_tables c, pg_indexes := pg_indexes c, pg_triggers := pg_triggers c,
              pg_grants := pg_grants c, pg_rows := pg_rows c\<rparr>)"
    using nr by simp
  then show ?thesis by (simp add: c')
qed

lemma undo_CreateIndex:
  assumes "exec_ddl (CreateIndex i) c = Inr c'"
  shows "exec_ddl (DropIndex (ix_name i) (ix_table i)) c' = Inr c"
proof -
  from assms have "ix_name i \<notin> ix_name ` set (pg_indexes c)"
    and c': "c' = c\<lparr>pg_indexes := pg_indexes c @ [i]\<rparr>"
    by (auto simp: relation_names_def split: if_splits)
  then have "filter (\<lambda>j. ix_name j \<noteq> ix_name i) (pg_indexes c) = pg_indexes c"
    unfolding filter_id_conv by (metis imageI)
  then show ?thesis by (simp add: c')
qed

lemma undo_restores:
  assumes "catalog_ok c" "exec_ddl s c = Inr c'" "undo s = Some u"
  shows "exec_ddl u c' = Inr c"
  using assms undo_CreateTable undo_CreateIndex by (cases s) auto

text \<open>The drops of a script of creations, in the opposite order, give the database back.\<close>

theorem undo_script_restores:
  assumes "catalog_ok c" "exec_script ss c = Inr c'" "map undo ss = map Some us"
  shows "exec_script (rev us) c' = Inr c"
  using assms
proof (induction ss arbitrary: c us)
  case Nil
  then show ?case by simp
next
  case (Cons s ss)
  obtain u us' where us: "us = u # us'" "undo s = Some u" "map undo ss = map Some us'"
    using Cons.prems(3) by (cases us) auto
  obtain c1 where c1: "exec_ddl s c = Inr c1" "exec_script ss c1 = Inr c'"
    using Cons.prems(2) by (auto split: sum.splits)
  have "exec_script (rev us') c' = Inr c1"
    by (rule Cons.IH) (use c1 us Cons.prems(1) exec_keeps_catalog_ok in auto)
  moreover have "exec_ddl u c1 = Inr c" using undo_restores Cons.prems(1) c1(1) us(2) by blast
  ultimately show ?case by (simp add: us exec_script_append)
qed

subsection \<open>Scripts of creations\<close>

text \<open>What a script of \<open>CREATE TABLE\<close> and \<open>CREATE INDEX\<close> adds to the catalogue.\<close>

fun created_tables :: "ddl list \<Rightarrow> (string \<times> table_def) list" where
  "created_tables (CreateTable n cols cons # ss) =
     (n, \<lparr>tb_columns = cols, tb_constraints = set cons\<rparr>) # created_tables ss"
| "created_tables (_ # ss) = created_tables ss"
| "created_tables [] = []"

fun created_indexes :: "ddl list \<Rightarrow> index_def list" where
  "created_indexes (CreateIndex i # ss) = i # created_indexes ss"
| "created_indexes (_ # ss) = created_indexes ss"
| "created_indexes [] = []"

definition new_grants :: "string set \<Rightarrow> pg \<Rightarrow> string \<Rightarrow> string \<Rightarrow> privilege set" where
  "new_grants ns c r t = (if t \<in> ns then initial_privileges c r else pg_grants c r t)"

theorem exec_creations:
  assumes "exec_script ss c = Inr c'" "list_all (\<lambda>s. undo s \<noteq> None) ss"
  shows "c' = c\<lparr>pg_tables := pg_tables c @ created_tables ss,
               pg_indexes := pg_indexes c @ created_indexes ss,
               pg_grants := new_grants (fst ` set (created_tables ss)) c\<rparr>"
  using assms
proof (induction ss arbitrary: c)
  case Nil
  then show ?case by (simp add: new_grants_def [abs_def])
next
  case (Cons s ss)
  then obtain c1 where c1: "exec_ddl s c = Inr c1" "exec_script ss c1 = Inr c'" "undo s \<noteq> None"
    and rest: "list_all (\<lambda>s. undo s \<noteq> None) ss"
    by (auto split: sum.splits)
  note IH = Cons.IH [OF c1(2) rest]
  show ?case
  proof (cases s)
    case (CreateTable n cols cons)
    with c1(1) have "c1 = c\<lparr>pg_tables := pg_tables c @ [(n, \<lparr>tb_columns = cols, tb_constraints = set cons\<rparr>)],
        pg_grants := (\<lambda>r t. if t = n then initial_privileges c r else pg_grants c r t)\<rparr>"
      by (auto split: if_splits option.splits)
    then show ?thesis unfolding IH CreateTable by (auto simp: new_grants_def initial_privileges_def fun_eq_iff)
  next
    case (CreateIndex i)
    with c1(1) have "c1 = c\<lparr>pg_indexes := pg_indexes c @ [i]\<rparr>" by (auto split: if_splits)
    moreover from this have "new_grants ns c1 = new_grants ns c" for ns
      by (simp add: new_grants_def initial_privileges_def fun_eq_iff)
    ultimately show ?thesis unfolding IH CreateIndex by simp
  qed (use c1(3) in auto)
qed

text \<open>
  A check on names alone that makes such a script succeed: \<open>rel\<close> holds the names taken,
  \<open>ks\<close> the keys of each table.
\<close>

definition keys_of :: "constr list \<Rightarrow> string list list" where
  "keys_of cons = List.map_filter key_columns cons"

definition new_names :: "string \<Rightarrow> constr list \<Rightarrow> string list" where
  "new_names n cons = n # map (constr_name n) (filter (\<lambda>k. key_columns k \<noteq> None) cons)"

definition constr_fits :: "(string \<times> string list list) list \<Rightarrow> string list \<Rightarrow> constr \<Rightarrow> bool" where
  "constr_fits ks cols k =
     (list_all (\<lambda>c. ListMem c cols) (constr_columns k) \<and>
      (case references k of None \<Rightarrow> True
       | Some (t, rs) \<Rightarrow> (case map_of ks t of None \<Rightarrow> False | Some keys \<Rightarrow> rs \<in> set keys)))"

fun plan_ok :: "ddl list \<Rightarrow> string list \<Rightarrow> (string \<times> string list list) list \<Rightarrow> bool" where
  "plan_ok [] rel ks = True"
| "plan_ok (CreateTable n cols cons # ss) rel ks =
     (list_all (\<lambda>x. x \<notin> set rel) (new_names n cons) \<and>
      list_all (constr_fits ((n, keys_of cons) # ks) (map col_name cols)) cons \<and>
      plan_ok ss (new_names n cons @ rel) ((n, keys_of cons) # ks))"
| "plan_ok (CreateIndex i # ss) rel ks =
     (ix_name i \<notin> set rel \<and> ix_table i \<in> fst ` set ks \<and> \<not> ix_unique i \<and> plan_ok ss (ix_name i # rel) ks)"
| "plan_ok (_ # ss) rel ks = False"

definition covers :: "pg \<Rightarrow> string list \<Rightarrow> (string \<times> string list list) list \<Rightarrow> bool" where
  "covers c rel ks =
     (relation_names c \<subseteq> set rel \<and> fst ` set ks = table_names c \<and>
      (\<forall>(t, keys)\<in>set ks. \<exists>td. map_of (pg_tables c) t = Some td \<and>
         (\<forall>rs\<in>set keys. \<exists>k\<in>tb_constraints td. key_columns k = Some rs)))"

lemma set_keys_of: "rs \<in> set (keys_of cons) \<longleftrightarrow> (\<exists>k\<in>set cons. key_columns k = Some rs)"
  by (force simp: keys_of_def List.map_filter_def)

lemma set_new_names: "set (new_names n cons) = insert n (key_names n (set cons))"
  by (auto simp: new_names_def key_names_def)

lemma plan_CreateTable:
  assumes cov: "covers c rel ks"
    and new: "list_all (\<lambda>x. x \<notin> set rel) (new_names n cons)"
    and fits: "list_all (constr_fits ((n, keys_of cons) # ks) (map col_name cols)) cons"
  obtains c' where "exec_ddl (CreateTable n cols cons) c = Inr c'"
    "covers c' (new_names n cons @ rel) ((n, keys_of cons) # ks)"
proof -
  have fresh: "n \<notin> relation_names c" "key_names n (set cons) \<inter> relation_names c = {}"
    using new cov by (auto simp: list_all_iff set_new_names covers_def)
  have fk: "fk_error n (set cons) c k = None" if k: "k \<in> set cons" for k
  proof (cases "references k")
    case None
    then show ?thesis by (simp add: fk_error_def)
  next
    case (Some x)
    obtain t rs where x: "x = (t, rs)" by (cases x)
    have "case map_of ((n, keys_of cons) # ks) t of None \<Rightarrow> False | Some keys \<Rightarrow> rs \<in> set keys"
      using fits k Some x by (auto simp: list_all_iff constr_fits_def)
    then have key: "t = n \<and> rs \<in> set (keys_of cons) \<or> (\<exists>keys. t \<noteq> n \<and> (t, keys) \<in> set ks \<and> rs \<in> set keys)"
      by (auto split: if_splits option.splits dest: map_of_SomeD)
    show ?thesis
    proof (cases "t = n")
      case True
      then show ?thesis using key Some x by (auto simp: fk_error_def set_keys_of)
    next
      case False
      with key cov obtain td where "map_of (pg_tables c) t = Some td"
        "\<exists>k\<in>tb_constraints td. key_columns k = Some rs"
        unfolding covers_def by fast
      then show ?thesis using False Some x by (simp add: fk_error_def)
    qed
  qed
  let ?c = "c\<lparr>pg_tables := pg_tables c @ [(n, \<lparr>tb_columns = cols, tb_constraints = set cons\<rparr>)],
              pg_grants := (\<lambda>r t. if t = n then initial_privileges c r else pg_grants c r t)\<rparr>"
  have "List.find (\<lambda>k. fk_error n (set cons) c k \<noteq> None) cons = None"
    using fk by (auto simp: find_None_iff)
  then have "exec_ddl (CreateTable n cols cons) c = Inr ?c"
    using fresh fits by (auto simp: list_all_iff constr_fits_def ListMem_iff)
  moreover have "covers ?c (new_names n cons @ rel) ((n, keys_of cons) # ks)"
  proof -
    have "n \<notin> table_names c" using fresh(1) by (simp add: relation_names_def)
    then have "map_of (pg_tables c) n = None" by (simp add: table_names_def map_of_eq_None_iff)
    then have look: "map_of (pg_tables ?c) t = (if t = n then Some \<lparr>tb_columns = cols, tb_constraints = set cons\<rparr>
                 else map_of (pg_tables c) t)" for t
      by (auto simp: map_add_def split: option.splits)
    have "\<exists>td. map_of (pg_tables ?c) t = Some td \<and> (\<forall>rs\<in>set keys. \<exists>k\<in>tb_constraints td. key_columns k = Some rs)"
      if "(t, keys) \<in> set ((n, keys_of cons) # ks)" for t keys
    proof (cases "(t, keys) = (n, keys_of cons)")
      case True
      then show ?thesis unfolding look by (simp add: set_keys_of)
    next
      case False
      with that have "(t, keys) \<in> set ks" by auto
      moreover from this cov \<open>n \<notin> table_names c\<close> have "t \<noteq> n" by (force simp: covers_def)
      ultimately show ?thesis using cov unfolding look covers_def by auto
    qed
    moreover have "relation_names ?c \<subseteq> set (new_names n cons @ rel)"
      using cov by (auto simp: covers_def relation_names_def set_new_names table_names_def)
    moreover have "fst ` set ((n, keys_of cons) # ks) = table_names ?c"
      using cov by (auto simp: covers_def table_names_def)
    ultimately show ?thesis unfolding covers_def by blast
  qed
  ultimately show ?thesis by (rule that)
qed

theorem plan_succeeds:
  "plan_ok ss rel ks \<Longrightarrow> covers c rel ks \<Longrightarrow> \<exists>c'. exec_script ss c = Inr c'"
proof (induction ss rel ks arbitrary: c rule: plan_ok.induct)
  case (2 n cols cons ss rel ks)
  obtain c' where "exec_ddl (CreateTable n cols cons) c = Inr c'"
    "covers c' (new_names n cons @ rel) ((n, keys_of cons) # ks)"
    by (rule plan_CreateTable [OF 2(3)]) (use 2(2) in auto)
  with 2 show ?case by auto
next
  case (3 i ss rel ks)
  let ?c = "c\<lparr>pg_indexes := pg_indexes c @ [i]\<rparr>"
  have "exec_ddl (CreateIndex i) c = Inr ?c" using 3(2,3) by (auto simp: covers_def)
  moreover have "covers ?c (ix_name i # rel) ks" using 3(3) by (auto simp: covers_def relation_names_def)
  ultimately show ?case using 3 by auto
qed auto

subsection \<open>Statements on rows\<close>

text \<open>
  May \<open>role\<close> run a statement of the kind \<open>verb\<close> on \<open>n\<close> that touches \<open>k\<close> rows? First the
  privilege, then the triggers: one FOR EACH ROW runs only if
  there is a row, one FOR EACH STATEMENT always, and the function behind it raises.
\<close>

definition fires :: "privilege \<Rightarrow> string \<Rightarrow> nat \<Rightarrow> trigger_def \<Rightarrow> bool" where
  "fires verb n k g = (tg_table g = n \<and> verb \<in> set (tg_events g) \<and> (tg_each_row g \<longrightarrow> 0 < k))"

definition dml_guard :: "string \<Rightarrow> privilege \<Rightarrow> string \<Rightarrow> nat \<Rightarrow> pg \<Rightarrow> pg_error option" where
  "dml_guard role verb n k c =
     (if n \<notin> table_names c then Some UndefinedTable
      else if verb \<notin> pg_grants c role n then Some InsufficientPrivilege
      else case List.find (fires verb n k) (pg_triggers c) of
             None \<Rightarrow> None
           | Some g \<Rightarrow> map_of (pg_functions c) (tg_function g))"

text \<open>
  Deleting a row of \<open>n\<close> also deletes the rows of the tables whose foreign key to \<open>n\<close> says
  \<open>ON DELETE CASCADE\<close>; the trigger of such a table refuses the whole statement. \<open>cascades\<close>
  lists those tables.
\<close>

fun cascade_from :: "string \<Rightarrow> constr \<Rightarrow> bool" where
  "cascade_from n (ForeignKeyConstraint cs t rs od) = (t = n \<and> od = CASCADE)"
| "cascade_from n (PrimaryKeyConstraint cs) = False"
| "cascade_from n (UniqueConstraint cs nm) = False"
| "cascade_from n (CheckConstraint e nm) = False"

definition cascades :: "string \<Rightarrow> pg \<Rightarrow> string list" where
  "cascades n c = map fst (filter (\<lambda>(m, t). \<exists>k\<in>tb_constraints t. cascade_from n k) (pg_tables c))"

end
