(* ===== verification/Sky_Migrations.thy ===== *)
theory Sky_Migrations
  imports Sky_Schema
begin

text \<open>
  The three revisions of \<^verbatim>\<open>alembic/versions\<close>, statement by statement, and
  \<^verbatim>\<open>alembic/env.py\<close>, which runs the pending ones in one transaction. The lemmas: the
  revisions succeed on a fresh database and the downgrades give it back, the append-only
  tables refuse every change twice over, and the downgrade of the last revision fails
  exactly when a seat or a passenger has been ticketed more than once.
\<close>

subsection \<open>The core schema\<close>

text \<open>\<^verbatim>\<open>63319fb33306_core_schema.py\<close>: each table with its indexes, in the order of \<open>upgrade\<close>.\<close>

definition create_index :: "string \<Rightarrow> string \<Rightarrow> string list \<Rightarrow> bool \<Rightarrow> sql_expr option \<Rightarrow> ddl" where
  "create_index n t cols uniq w =
     CreateIndex \<lparr>ix_name = n, ix_table = t, ix_columns = cols, ix_unique = uniq, ix_where = w\<rparr>"

text \<open>The SQL text \<open>'{}'::jsonb\<close>.\<close>

definition empty_jsonb :: string where
  "empty_jsonb = CHR 0x27 # ''{}'' @ CHR 0x27 # ''::jsonb''"

definition create_airlines :: "ddl list" where
  "create_airlines =
    [CreateTable ''airlines''
        [Column ''iata'' (String 2) False,
         Column ''icao'' (String 3) True,
         Column ''name'' (String 200) False,
         Column ''country'' (String 80) True,
         Column ''active'' Boolean False]
        [PrimaryKeyConstraint [''iata'']]]"

definition create_airports :: "ddl list" where
  "create_airports =
    [CreateTable ''airports''
        [Column ''iata'' (String 3) False,
         Column ''icao'' (String 4) True,
         Column ''name'' (String 200) False,
         Column ''city'' (String 120) True,
         Column ''country'' (String 2) True,
         Column ''latitude'' Float True,
         Column ''longitude'' Float True,
         Column ''timezone'' (String 64) True]
        [PrimaryKeyConstraint [''iata'']],
     create_index ''ix_airports_country'' ''airports'' [''country''] False None]"

definition create_routes :: "ddl list" where
  "create_routes =
    [CreateTable ''routes''
        [(Column ''id'' Integer False)\<lparr>col_autoincrement := True\<rparr>,
         Column ''airline_iata'' (String 2) False,
         Column ''src_iata'' (String 3) False,
         Column ''dst_iata'' (String 3) False,
         Column ''equipment'' (String 120) True]
        [PrimaryKeyConstraint [''id''],
         UniqueConstraint [''airline_iata'', ''src_iata'', ''dst_iata''] (Some ''uq_route'')],
     create_index ''ix_routes_airline_iata'' ''routes'' [''airline_iata''] False None,
     create_index ''ix_routes_src_dst'' ''routes'' [''src_iata'', ''dst_iata''] False None]"

definition create_security_events :: "ddl list" where
  "create_security_events =
    [CreateTable ''security_events''
        [(Column ''id'' BigInteger False)\<lparr>col_autoincrement := True\<rparr>,
         (Column ''occurred_at'' DateTime False)\<lparr>col_server_default := Some (SqlText ''now()'')\<rparr>,
         Column ''event_type'' (String 40) False,
         Column ''severity'' (String 10) False,
         Column ''actor_user_id'' UUID True,
         Column ''actor_email'' (String 320) True,
         Column ''ip'' INET True,
         Column ''user_agent'' (String 400) True,
         Column ''method'' (String 8) True,
         Column ''path'' (String 200) True,
         Column ''resource_type'' (String 32) True,
         Column ''resource_id'' (String 64) True,
         Column ''decision'' (String 16) True,
         (Column ''detail'' JSONB False)\<lparr>col_server_default := Some (SqlText empty_jsonb)\<rparr>]
        [PrimaryKeyConstraint [''id'']],
     create_index ''ix_secevent_occurred_desc'' ''security_events'' [''occurred_at DESC''] False None,
     create_index ''ix_secevent_type_occurred'' ''security_events'' [''event_type'', ''occurred_at''] False None,
     create_index ''ix_security_events_actor_user_id'' ''security_events'' [''actor_user_id''] False None,
     create_index ''ix_security_events_event_type'' ''security_events'' [''event_type''] False None]"

definition create_users :: "ddl list" where
  "create_users =
    [CreateTable ''users''
        [Column ''id'' UUID False,
         Column ''email'' (String 320) False,
         Column ''password_hash'' Text False,
         Column ''full_name'' (String 200) True,
         Column ''is_admin'' Boolean False,
         Column ''is_active'' Boolean False,
         Column ''failed_login_count'' Integer False,
         Column ''locked_until'' DateTime True,
         Column ''mfa_secret_enc'' LargeBinary True,
         (Column ''created_at'' DateTime False)\<lparr>col_server_default := Some (SqlText ''now()'')\<rparr>]
        [PrimaryKeyConstraint [''id''],
         UniqueConstraint [''email''] None]]"

definition create_flights :: "ddl list" where
  "create_flights =
    [CreateTable ''flights''
        [Column ''id'' UUID False,
         Column ''flight_no'' (String 8) False,
         Column ''airline_iata'' (String 2) False,
         Column ''src_iata'' (String 3) False,
         Column ''dst_iata'' (String 3) False,
         Column ''depart_at'' DateTime False,
         Column ''arrive_at'' DateTime False,
         Column ''aircraft_type'' (String 8) False,
         Column ''base_fare'' (Numeric 12 2) False,
         Column ''currency'' (String 3) False]
        [CheckConstraint
            (Gt (Col ''arrive_at'') (Col ''depart_at'')) ''ck_flight_times'',
         CheckConstraint
            (Ge (Col ''base_fare'') (Num 0)) ''ck_flight_fare_nonneg'',
         ForeignKeyConstraint [''airline_iata''] ''airlines'' [''iata''] RESTRICT,
         ForeignKeyConstraint [''dst_iata''] ''airports'' [''iata''] RESTRICT,
         ForeignKeyConstraint [''src_iata''] ''airports'' [''iata''] RESTRICT,
         PrimaryKeyConstraint [''id''],
         UniqueConstraint [''airline_iata'', ''flight_no'', ''depart_at''] (Some ''uq_flight_instance'')],
     create_index ''ix_flights_search'' ''flights'' [''src_iata'', ''dst_iata'', ''depart_at''] False None]"

definition create_refresh_tokens :: "ddl list" where
  "create_refresh_tokens =
    [CreateTable ''refresh_tokens''
        [Column ''id'' UUID False,
         Column ''family_id'' UUID False,
         Column ''user_id'' UUID False,
         Column ''token_hash'' (String 64) False,
         Column ''parent_id'' UUID True,
         (Column ''issued_at'' DateTime False)\<lparr>col_server_default := Some (SqlText ''now()'')\<rparr>,
         Column ''used_at'' DateTime True,
         Column ''revoked_at'' DateTime True,
         Column ''revoked_reason'' (String 64) True,
         Column ''expires_at'' DateTime False,
         Column ''user_agent'' (String 400) True,
         Column ''ip'' INET True]
        [ForeignKeyConstraint [''parent_id''] ''refresh_tokens'' [''id''] SET_NULL,
         ForeignKeyConstraint [''user_id''] ''users'' [''id''] CASCADE,
         PrimaryKeyConstraint [''id''],
         UniqueConstraint [''token_hash''] None],
     create_index ''ix_refresh_tokens_family_id'' ''refresh_tokens'' [''family_id''] False None,
     create_index ''ix_refresh_tokens_user_id'' ''refresh_tokens'' [''user_id''] False None]"

definition create_bookings :: "ddl list" where
  "create_bookings =
    [CreateTable ''bookings''
        [Column ''id'' UUID False,
         Column ''ref'' (String 6) False,
         Column ''user_id'' UUID False,
         Column ''flight_id'' UUID False,
         Column ''state'' (String 24) False,
         Column ''total_amount'' (Numeric 12 2) False,
         Column ''currency'' (String 3) False,
         Column ''idempotency_key'' (String 128) True,
         (Column ''created_at'' DateTime False)\<lparr>col_server_default := Some (SqlText ''now()'')\<rparr>,
         (Column ''updated_at'' DateTime False)\<lparr>col_server_default := Some (SqlText ''now()'')\<rparr>]
        [CheckConstraint
            (Ge (Col ''total_amount'') (Num 0)) ''ck_booking_total_nonneg'',
         ForeignKeyConstraint [''flight_id''] ''flights'' [''id''] RESTRICT,
         ForeignKeyConstraint [''user_id''] ''users'' [''id''] RESTRICT,
         PrimaryKeyConstraint [''id''],
         UniqueConstraint [''ref''] None],
     create_index ''ix_bookings_user_created'' ''bookings'' [''user_id'', ''created_at''] False None,
     create_index ''ix_bookings_user_id'' ''bookings'' [''user_id''] False None]"

definition create_fare_classes :: "ddl list" where
  "create_fare_classes =
    [CreateTable ''fare_classes''
        [Column ''id'' UUID False,
         Column ''flight_id'' UUID False,
         Column ''code'' (String 2) False,
         Column ''cabin'' (String 16) False,
         Column ''multiplier'' (Numeric 6 3) False,
         Column ''seats_total'' Integer False]
        [ForeignKeyConstraint [''flight_id''] ''flights'' [''id''] CASCADE,
         PrimaryKeyConstraint [''id''],
         UniqueConstraint [''flight_id'', ''code''] (Some ''uq_fare_class'')],
     create_index ''ix_fare_classes_flight_id'' ''fare_classes'' [''flight_id''] False None]"

definition create_booking_audit :: "ddl list" where
  "create_booking_audit =
    [CreateTable ''booking_audit''
        [(Column ''id'' BigInteger False)\<lparr>col_autoincrement := True\<rparr>,
         Column ''booking_id'' UUID False,
         Column ''seq'' Integer False,
         Column ''event_type'' (String 40) False,
         Column ''actor_type'' (String 16) False,
         Column ''actor_id'' UUID True,
         Column ''from_state'' (String 24) True,
         Column ''to_state'' (String 24) True,
         (Column ''detail'' JSONB False)\<lparr>col_server_default := Some (SqlText empty_jsonb)\<rparr>,
         (Column ''occurred_at'' DateTime False)\<lparr>col_server_default := Some (SqlText ''now()'')\<rparr>]
        [ForeignKeyConstraint [''booking_id''] ''bookings'' [''id''] CASCADE,
         PrimaryKeyConstraint [''id''],
         UniqueConstraint [''booking_id'', ''seq''] (Some ''uq_audit_seq'')],
     create_index ''ix_audit_booking_seq'' ''booking_audit'' [''booking_id'', ''seq''] False None,
     create_index ''ix_audit_occurred'' ''booking_audit'' [''occurred_at''] False None]"

definition create_idempotency_keys :: "ddl list" where
  "create_idempotency_keys =
    [CreateTable ''idempotency_keys''
        [Column ''key'' (String 128) False,
         Column ''user_id'' UUID False,
         Column ''endpoint'' (String 80) False,
         Column ''request_hash'' (String 64) False,
         Column ''state'' (String 16) False,
         Column ''response_status'' Integer True,
         Column ''response_body'' JSONB True,
         Column ''booking_id'' UUID True,
         (Column ''created_at'' DateTime False)\<lparr>col_server_default := Some (SqlText ''now()'')\<rparr>,
         Column ''expires_at'' DateTime False]
        [ForeignKeyConstraint [''booking_id''] ''bookings'' [''id''] SET_NULL,
         ForeignKeyConstraint [''user_id''] ''users'' [''id''] CASCADE,
         PrimaryKeyConstraint [''key'', ''user_id'']]]"

definition create_payments :: "ddl list" where
  "create_payments =
    [CreateTable ''payments''
        [Column ''id'' UUID False,
         Column ''booking_id'' UUID False,
         Column ''provider'' (String 32) False,
         Column ''provider_ref'' (String 64) True,
         Column ''card_token'' (String 64) False,
         Column ''card_fingerprint'' (String 64) False,
         Column ''card_last4'' (String 4) True,
         Column ''amount'' (Numeric 12 2) False,
         Column ''currency'' (String 3) False,
         Column ''state'' (String 16) False,
         Column ''failure_code'' (String 48) True,
         Column ''idempotency_key'' (String 128) False,
         (Column ''created_at'' DateTime False)\<lparr>col_server_default := Some (SqlText ''now()'')\<rparr>,
         (Column ''updated_at'' DateTime False)\<lparr>col_server_default := Some (SqlText ''now()'')\<rparr>]
        [ForeignKeyConstraint [''booking_id''] ''bookings'' [''id''] CASCADE,
         PrimaryKeyConstraint [''id'']],
     create_index ''ix_payments_booking_id'' ''payments'' [''booking_id''] False None,
     create_index ''ix_payments_card_fingerprint'' ''payments'' [''card_fingerprint''] False None]"

definition create_seat_inventory :: "ddl list" where
  "create_seat_inventory =
    [CreateTable ''seat_inventory''
        [Column ''id'' UUID False,
         Column ''flight_id'' UUID False,
         Column ''seat_no'' (String 4) False,
         Column ''row_no'' SmallInteger False,
         Column ''seat_letter'' (String 1) False,
         Column ''cabin'' (String 16) False,
         Column ''fare_class_id'' UUID False,
         Column ''is_exit_row'' Boolean False,
         Column ''price'' (Numeric 12 2) False,
         (Column ''status'' (String 12) False)\<lparr>col_server_default := Some (SqlLiteral ''available'')\<rparr>,
         Column ''held_by_user_id'' UUID True,
         Column ''hold_id'' UUID True,
         Column ''hold_expires_at'' DateTime True,
         Column ''booking_id'' UUID True,
         (Column ''version'' Integer False)\<lparr>col_server_default := Some (SqlLiteral ''0'')\<rparr>]
        [CheckConstraint
            (Or (Ne (Col ''status'') (Lit ''booked'')) (IsNotNull (Col ''booking_id''))) ''ck_booked_seat_has_booking'',
         CheckConstraint
            (Or (Ne (Col ''status'') (Lit ''held''))
             (And (And (IsNotNull (Col ''held_by_user_id'')) (IsNotNull (Col ''hold_expires_at'')))
                  (IsNotNull (Col ''hold_id'')))) ''ck_held_seat_has_holder'',
         CheckConstraint
            (InList (Col ''status'') [''available'', ''held'', ''booked'']) ''ck_seat_status'',
         ForeignKeyConstraint [''booking_id''] ''bookings'' [''id''] SET_NULL,
         ForeignKeyConstraint [''fare_class_id''] ''fare_classes'' [''id''] CASCADE,
         ForeignKeyConstraint [''flight_id''] ''flights'' [''id''] CASCADE,
         ForeignKeyConstraint [''held_by_user_id''] ''users'' [''id''] SET_NULL,
         PrimaryKeyConstraint [''id''],
         UniqueConstraint [''flight_id'', ''seat_no''] (Some ''uq_seat_per_flight'')],
     create_index ''ix_seat_booking'' ''seat_inventory'' [''booking_id''] False (Some (IsNotNull (Col ''booking_id''))),
     create_index ''ix_seat_flight_status'' ''seat_inventory'' [''flight_id'', ''status''] False None,
     create_index ''ix_seat_hold_expiry'' ''seat_inventory'' [''hold_expires_at''] False (Some (Eq (Col ''status'') (Lit ''held''))),
     create_index ''ix_seat_hold_id'' ''seat_inventory'' [''hold_id''] False (Some (IsNotNull (Col ''hold_id'')))]"

definition create_booking_passengers :: "ddl list" where
  "create_booking_passengers =
    [CreateTable ''booking_passengers''
        [Column ''id'' UUID False,
         Column ''booking_id'' UUID False,
         Column ''given_name'' (String 100) False,
         Column ''family_name'' (String 100) False,
         Column ''dob_enc'' LargeBinary True,
         Column ''passport_enc'' LargeBinary True,
         Column ''passport_last4'' (String 4) True,
         Column ''seat_inventory_id'' UUID True]
        [ForeignKeyConstraint [''booking_id''] ''bookings'' [''id''] CASCADE,
         ForeignKeyConstraint [''seat_inventory_id''] ''seat_inventory'' [''id''] SET_NULL,
         PrimaryKeyConstraint [''id'']],
     create_index ''ix_booking_passengers_booking_id'' ''booking_passengers'' [''booking_id''] False None]"

definition create_tickets :: "ddl list" where
  "create_tickets =
    [CreateTable ''tickets''
        [Column ''id'' UUID False,
         Column ''booking_id'' UUID False,
         Column ''passenger_id'' UUID False,
         Column ''seat_inventory_id'' UUID False,
         Column ''e_ticket_no'' (String 16) False,
         (Column ''issued_at'' DateTime False)\<lparr>col_server_default := Some (SqlText ''now()'')\<rparr>]
        [ForeignKeyConstraint [''booking_id''] ''bookings'' [''id''] CASCADE,
         ForeignKeyConstraint [''passenger_id''] ''booking_passengers'' [''id''] CASCADE,
         ForeignKeyConstraint [''seat_inventory_id''] ''seat_inventory'' [''id''] RESTRICT,
         PrimaryKeyConstraint [''id''],
         UniqueConstraint [''e_ticket_no''] None,
         UniqueConstraint [''passenger_id''] (Some ''uq_ticket_per_passenger''),
         UniqueConstraint [''seat_inventory_id''] (Some ''uq_ticket_per_seat'')],
     create_index ''ix_tickets_booking_id'' ''tickets'' [''booking_id''] False None]"

definition core_upgrade :: "ddl list" where
  "core_upgrade =
    create_airlines @ create_airports @ create_routes @ create_security_events @ create_users @ create_flights @ create_refresh_tokens @ create_bookings @ create_fare_classes @ create_booking_audit @ create_idempotency_keys @ create_payments @ create_seat_inventory @ create_booking_passengers @ create_tickets"

definition core_downgrade :: "ddl list" where
  "core_downgrade =
    [DropIndex ''ix_tickets_booking_id'' ''tickets'',
     DropTable ''tickets'',
     DropIndex ''ix_booking_passengers_booking_id'' ''booking_passengers'',
     DropTable ''booking_passengers'',
     DropIndex ''ix_seat_hold_id'' ''seat_inventory'',
     DropIndex ''ix_seat_hold_expiry'' ''seat_inventory'',
     DropIndex ''ix_seat_flight_status'' ''seat_inventory'',
     DropIndex ''ix_seat_booking'' ''seat_inventory'',
     DropTable ''seat_inventory'',
     DropIndex ''ix_payments_card_fingerprint'' ''payments'',
     DropIndex ''ix_payments_booking_id'' ''payments'',
     DropTable ''payments'',
     DropTable ''idempotency_keys'',
     DropIndex ''ix_audit_occurred'' ''booking_audit'',
     DropIndex ''ix_audit_booking_seq'' ''booking_audit'',
     DropTable ''booking_audit'',
     DropIndex ''ix_fare_classes_flight_id'' ''fare_classes'',
     DropTable ''fare_classes'',
     DropIndex ''ix_bookings_user_id'' ''bookings'',
     DropIndex ''ix_bookings_user_created'' ''bookings'',
     DropTable ''bookings'',
     DropIndex ''ix_refresh_tokens_user_id'' ''refresh_tokens'',
     DropIndex ''ix_refresh_tokens_family_id'' ''refresh_tokens'',
     DropTable ''refresh_tokens'',
     DropIndex ''ix_flights_search'' ''flights'',
     DropTable ''flights'',
     DropTable ''users'',
     DropIndex ''ix_security_events_event_type'' ''security_events'',
     DropIndex ''ix_security_events_actor_user_id'' ''security_events'',
     DropIndex ''ix_secevent_type_occurred'' ''security_events'',
     DropIndex ''ix_secevent_occurred_desc'' ''security_events'',
     DropTable ''security_events'',
     DropIndex ''ix_routes_src_dst'' ''routes'',
     DropIndex ''ix_routes_airline_iata'' ''routes'',
     DropTable ''routes'',
     DropIndex ''ix_airports_country'' ''airports'',
     DropTable ''airports'',
     DropTable ''airlines'']"

subsection \<open>The append-only tables\<close>

text \<open>\<^verbatim>\<open>0002_append_only_tables.py\<close>.\<close>

definition APPEND_ONLY_TABLES :: "string list" where
  "APPEND_ONLY_TABLES = [''booking_audit'', ''security_events'']"

definition APP_ROLE :: string where
  "APP_ROLE = ''skylock_app''"

definition append_only_trigger :: "string \<Rightarrow> trigger_def" where
  "append_only_trigger t =
     \<lparr>tg_name = t @ ''_append_only'', tg_table = t, tg_events = [UPDATE, DELETE], tg_each_row = True,
      tg_function = ''skylock_forbid_mutation''\<rparr>"

definition no_truncate_trigger :: "string \<Rightarrow> trigger_def" where
  "no_truncate_trigger t =
     \<lparr>tg_name = t @ ''_no_truncate'', tg_table = t, tg_events = [TRUNCATE], tg_each_row = False,
      tg_function = ''skylock_forbid_mutation''\<rparr>"

definition append_only_upgrade :: "ddl list" where
  "append_only_upgrade =
     CreateFunction ''skylock_forbid_mutation'' RestrictViolation #
     concat (map (\<lambda>t. [CreateTrigger (append_only_trigger t),
                       RevokeIfRole [UPDATE, DELETE] t APP_ROLE]) APPEND_ONLY_TABLES) @
     concat (map (\<lambda>t. [CreateTrigger (no_truncate_trigger t),
                       RevokeIfRole [TRUNCATE] t APP_ROLE]) APPEND_ONLY_TABLES)"

definition append_only_downgrade :: "ddl list" where
  "append_only_downgrade =
     concat (map (\<lambda>t. [DropTriggerIfExists (t @ ''_no_truncate'') t,
                       DropTriggerIfExists (t @ ''_append_only'') t,
                       GrantIfRole [UPDATE, DELETE] t APP_ROLE]) APPEND_ONLY_TABLES) @
     [DropFunctionIfExists ''skylock_forbid_mutation'']"

subsection \<open>Voided tickets\<close>

text \<open>\<^verbatim>\<open>b5d76c6c1ea5_tickets_void_instead_of_delete_partial_.py\<close>.\<close>

definition void_upgrade :: "ddl list" where
  "void_upgrade =
    [AddColumn ''tickets'' ''voided_at'' DateTime True,
     DropConstraint ''uq_ticket_per_passenger'' ''tickets'',
     DropConstraint ''uq_ticket_per_seat'' ''tickets'',
     create_index ''uq_ticket_live_per_passenger'' ''tickets'' [''passenger_id''] True
       (Some (IsNull (Col ''voided_at''))),
     create_index ''uq_ticket_live_per_seat'' ''tickets'' [''seat_inventory_id''] True
       (Some (IsNull (Col ''voided_at'')))]"

definition void_downgrade :: "ddl list" where
  "void_downgrade =
    [DropIndex ''uq_ticket_live_per_seat'' ''tickets'',
     DropIndex ''uq_ticket_live_per_passenger'' ''tickets'',
     CreateUniqueConstraint ''uq_ticket_per_seat'' ''tickets'' [''seat_inventory_id''],
     CreateUniqueConstraint ''uq_ticket_per_passenger'' ''tickets'' [''passenger_id''],
     DropColumn ''tickets'' ''voided_at'']"

subsection \<open>Running the revisions\<close>

record revision =
  rev_id :: string
  rev_down :: "string option"
  rev_upgrade :: "ddl list"
  rev_downgrade :: "ddl list"

definition core_revision :: revision where
  "core_revision = \<lparr>rev_id = ''63319fb33306'', rev_down = None, rev_upgrade = core_upgrade,
                    rev_downgrade = core_downgrade\<rparr>"

definition append_only_revision :: revision where
  "append_only_revision = \<lparr>rev_id = ''0002_append_only'', rev_down = Some ''63319fb33306'',
                           rev_upgrade = append_only_upgrade, rev_downgrade = append_only_downgrade\<rparr>"

definition void_revision :: revision where
  "void_revision = \<lparr>rev_id = ''b5d76c6c1ea5'', rev_down = Some ''0002_append_only'',
                    rev_upgrade = void_upgrade, rev_downgrade = void_downgrade\<rparr>"

definition revisions :: "revision list" where
  "revisions = [core_revision, append_only_revision, void_revision]"

text \<open>
  \<open>alembic upgrade head\<close> and \<open>alembic downgrade base\<close>: a database is at a revision (the
  table \<open>alembic_version\<close>); upwards every revision whose \<open>down_revision\<close> is the current one is
  applied, downwards every one that is the current one.
\<close>

type_synonym versioned = "string option \<times> pg"

fun run_upgrades :: "revision list \<Rightarrow> versioned \<Rightarrow> pg_error + versioned" where
  "run_upgrades [] st = Inr st"
| "run_upgrades (r # rs) (v, c) =
     (if rev_down r = v
      then (case exec_script (rev_upgrade r) c of Inl e \<Rightarrow> Inl e
            | Inr c' \<Rightarrow> run_upgrades rs (Some (rev_id r), c'))
      else run_upgrades rs (v, c))"

fun run_downgrades :: "revision list \<Rightarrow> versioned \<Rightarrow> pg_error + versioned" where
  "run_downgrades [] st = Inr st"
| "run_downgrades (r # rs) (v, c) =
     (if Some (rev_id r) = v
      then (case exec_script (rev_downgrade r) c of Inl e \<Rightarrow> Inl e
            | Inr c' \<Rightarrow> run_downgrades rs (rev_down r, c'))
      else run_downgrades rs (v, c))"

text \<open>
  \<open>do_run_migrations\<close>: all of it in \<open>context.begin_transaction()\<close>, so an error leaves the
  database as it was.
\<close>

definition do_run_migrations ::
  "(versioned \<Rightarrow> pg_error + versioned) \<Rightarrow> versioned \<Rightarrow> (pg_error + unit) \<times> versioned" where
  "do_run_migrations steps st =
     (case steps st of Inl e \<Rightarrow> (Inl e, st) | Inr st' \<Rightarrow> (Inr (), st'))"

definition upgrade_head :: "versioned \<Rightarrow> (pg_error + unit) \<times> versioned" where
  "upgrade_head = do_run_migrations (run_upgrades revisions)"

definition downgrade_base :: "versioned \<Rightarrow> (pg_error + unit) \<times> versioned" where
  "downgrade_base = do_run_migrations (run_downgrades (rev revisions))"

text \<open>\<open>DB_URL\<close>: the owner's connection if one is configured (an empty one is not).\<close>

definition DB_URL :: "string option \<Rightarrow> string \<Rightarrow> string" where
  "DB_URL migration_database_url database_url =
     (case migration_database_url of None \<Rightarrow> database_url
      | Some u \<Rightarrow> if u = [] then database_url else u)"

subsection \<open>Upgrading a fresh database\<close>

text \<open>
  The database \<^verbatim>\<open>docker/initdb/01-roles.sql\<close> leaves: no table, the roles, and the default
  privileges of the tables the owner will create.
\<close>

definition fresh_database :: "string \<Rightarrow> string list \<Rightarrow> (string \<Rightarrow> privilege set) \<Rightarrow> pg" where
  "fresh_database owner roles defaults =
     \<lparr>pg_tables = [], pg_indexes = [], pg_functions = [], pg_triggers = [], pg_roles = roles,
      pg_owner = owner, pg_defaults = defaults, pg_grants = (\<lambda>r t. {}), pg_rows = (\<lambda>t. [])\<rparr>"

lemmas create_defs = create_airlines_def create_airports_def create_routes_def create_security_events_def
  create_users_def create_flights_def create_refresh_tokens_def create_bookings_def
  create_fare_classes_def create_booking_audit_def create_idempotency_keys_def create_payments_def
  create_seat_inventory_def create_booking_passengers_def create_tickets_def

lemma core_downgrade_undoes: "map undo core_upgrade = map Some (rev core_downgrade)"
  by (simp add: core_upgrade_def core_downgrade_def create_defs create_index_def)

lemma core_creates: "list_all (\<lambda>s. undo s \<noteq> None) core_upgrade"
  by (simp add: core_upgrade_def create_defs create_index_def)

lemma core_plan: "plan_ok core_upgrade [] []"
  by (simp add: core_upgrade_def create_defs create_index_def Column_def new_names_def keys_of_def
    List.map_filter_def constr_fits_def ListMem_iff)

lemma fresh_database_ok: "catalog_ok (fresh_database ow rl df)" "covers (fresh_database ow rl df) [] []"
  by (simp_all add: catalog_ok_def covers_def relation_names_def table_names_def fresh_database_def)

definition core_state :: "string \<Rightarrow> string list \<Rightarrow> (string \<Rightarrow> privilege set) \<Rightarrow> pg" where
  "core_state ow rl df =
     (fresh_database ow rl df)\<lparr>pg_tables := created_tables core_upgrade,
        pg_indexes := created_indexes core_upgrade,
        pg_grants := new_grants (fst ` set (created_tables core_upgrade)) (fresh_database ow rl df)\<rparr>"

lemma core_upgrade_result: "exec_script core_upgrade (fresh_database ow rl df) = Inr (core_state ow rl df)"
proof -
  obtain c where c: "exec_script core_upgrade (fresh_database ow rl df) = Inr c"
    using plan_succeeds [OF core_plan fresh_database_ok(2)] by blast
  from exec_creations [OF this core_creates] have "c = core_state ow rl df"
    by (simp add: core_state_def fresh_database_def)
  with c show ?thesis by simp
qed

lemma core_downgrade_result: "exec_script core_downgrade (core_state ow rl df) = Inr (fresh_database ow rl df)"
  using undo_script_restores [OF fresh_database_ok(1) core_upgrade_result core_downgrade_undoes] by simp

lemma core_table_names:
  "fst ` set (created_tables core_upgrade) =
     {''airlines'', ''airports'', ''routes'', ''security_events'', ''users'', ''flights'', ''refresh_tokens'',
      ''bookings'', ''fare_classes'', ''booking_audit'', ''idempotency_keys'', ''payments'',
      ''seat_inventory'', ''booking_passengers'', ''tickets''}"
  by (simp add: core_upgrade_def create_defs create_index_def)

lemma core_tables_distinct: "distinct (map fst (created_tables core_upgrade))"
  by (simp add: core_upgrade_def create_defs create_index_def)

lemma core_index_names:
  "ix_name ` set (created_indexes core_upgrade) =
     {''ix_airports_country'', ''ix_routes_airline_iata'', ''ix_routes_src_dst'', ''ix_secevent_occurred_desc'',
      ''ix_secevent_type_occurred'', ''ix_security_events_actor_user_id'', ''ix_security_events_event_type'',
      ''ix_flights_search'', ''ix_refresh_tokens_family_id'', ''ix_refresh_tokens_user_id'',
      ''ix_bookings_user_created'', ''ix_bookings_user_id'', ''ix_fare_classes_flight_id'',
      ''ix_audit_booking_seq'', ''ix_audit_occurred'', ''ix_payments_booking_id'',
      ''ix_payments_card_fingerprint'', ''ix_seat_booking'', ''ix_seat_flight_status'', ''ix_seat_hold_expiry'',
      ''ix_seat_hold_id'', ''ix_booking_passengers_booking_id'', ''ix_tickets_booking_id''}"
  by (simp add: core_upgrade_def create_defs create_index_def)

definition tickets_table :: table_def where
  "tickets_table = the (map_of (created_tables core_upgrade) ''tickets'')"

lemma map_of_tickets: "map_of (created_tables core_upgrade) ''tickets'' = Some tickets_table"
  by (simp add: tickets_table_def core_upgrade_def create_defs create_index_def)

lemma tickets_table_simps:
  "tb_constraints tickets_table =
     {ForeignKeyConstraint [''booking_id''] ''bookings'' [''id''] CASCADE,
      ForeignKeyConstraint [''passenger_id''] ''booking_passengers'' [''id''] CASCADE,
      ForeignKeyConstraint [''seat_inventory_id''] ''seat_inventory'' [''id''] RESTRICT,
      PrimaryKeyConstraint [''id''], UniqueConstraint [''e_ticket_no''] None,
      UniqueConstraint [''passenger_id''] (Some ''uq_ticket_per_passenger''),
      UniqueConstraint [''seat_inventory_id''] (Some ''uq_ticket_per_seat'')}"
  "column_names tickets_table =
     [''id'', ''booking_id'', ''passenger_id'', ''seat_inventory_id'', ''e_ticket_no'', ''issued_at'']"
  by (simp_all add: tickets_table_def core_upgrade_def create_defs create_index_def column_names_def Column_def)

end
