(* ===== verification/Sky_MigrationFacts.thy ===== *)
theory Sky_MigrationFacts
  imports Sky_Migrations
begin

text \<open>
  What the revisions do to a database: append-only tables, voided tickets, and the whole
  way up to the head and back.
\<close>

subsection \<open>The append-only tables, up and down\<close>

definition append_only_state :: "string \<Rightarrow> string list \<Rightarrow> (string \<Rightarrow> privilege set) \<Rightarrow> pg" where
  "append_only_state ow rl df =
     (core_state ow rl df)\<lparr>
        pg_functions := [(''skylock_forbid_mutation'', RestrictViolation)],
        pg_triggers := map append_only_trigger APPEND_ONLY_TABLES @ map no_truncate_trigger APPEND_ONLY_TABLES,
        pg_grants := (\<lambda>r t. if r = APP_ROLE \<and> APP_ROLE \<in> set rl \<and> t \<in> set APPEND_ONLY_TABLES
                           then pg_grants (core_state ow rl df) r t - {UPDATE, DELETE, TRUNCATE}
                           else pg_grants (core_state ow rl df) r t)\<rparr>"

lemma core_state_simps:
  "pg_functions (core_state ow rl df) = []" "pg_triggers (core_state ow rl df) = []"
  "pg_roles (core_state ow rl df) = rl" "pg_owner (core_state ow rl df) = ow"
  "pg_rows (core_state ow rl df) = (\<lambda>t. [])"
  "pg_tables (core_state ow rl df) = created_tables core_upgrade"
  "pg_indexes (core_state ow rl df) = created_indexes core_upgrade"
  "table_names (core_state ow rl df) = fst ` set (created_tables core_upgrade)"
  by (simp_all add: core_state_def fresh_database_def table_names_def)

lemmas append_only_defs = append_only_upgrade_def append_only_downgrade_def append_only_state_def
  APPEND_ONLY_TABLES_def append_only_trigger_def no_truncate_trigger_def

lemma append_only_upgrade_result:
  "exec_script append_only_upgrade (core_state ow rl df) = Inr (append_only_state ow rl df)"
proof (cases "APP_ROLE \<in> set rl")
  case True
  then show ?thesis
    by (simp add: append_only_defs core_state_simps core_table_names cong: if_cong)
      (rule pg.equality, auto simp: fun_eq_iff)
next
  case False
  then show ?thesis
    by (simp add: append_only_defs core_state_simps core_table_names)
qed

text \<open>
  The downgrade gives UPDATE and DELETE to the application role and leaves TRUNCATE
  revoked: it is exact for the privileges \<^verbatim>\<open>docker/initdb/01-roles.sql\<close> hands out by default.
\<close>

definition app_privileges_as_in_initdb :: "string \<Rightarrow> string list \<Rightarrow> (string \<Rightarrow> privilege set) \<Rightarrow> bool" where
  "app_privileges_as_in_initdb ow rl df =
     (APP_ROLE \<in> set rl \<longrightarrow> ow \<noteq> APP_ROLE \<and> df APP_ROLE = {SELECT, INSERT, UPDATE, DELETE})"

lemma append_only_downgrade_result:
  assumes "app_privileges_as_in_initdb ow rl df"
  shows "exec_script append_only_downgrade (append_only_state ow rl df) = Inr (core_state ow rl df)"
proof -
  have app: "pg_grants (core_state ow rl df) APP_ROLE t = {SELECT, INSERT, UPDATE, DELETE}"
    if "APP_ROLE \<in> set rl" "t \<in> set APPEND_ONLY_TABLES" for t
    using assms that
    by (auto simp: core_state_def new_grants_def core_table_names initial_privileges_def fresh_database_def
      APPEND_ONLY_TABLES_def app_privileges_as_in_initdb_def)
  show ?thesis
  proof (cases "APP_ROLE \<in> set rl")
    case True
    then show ?thesis
      using app [OF True]
      by (simp add: append_only_defs core_state_simps core_table_names cong: if_cong)
        (rule pg.equality, auto simp: fun_eq_iff core_state_simps)
  next
    case False
    then show ?thesis
      by (simp add: append_only_defs core_state_simps core_table_names)
  qed
qed

subsection \<open>Voided tickets, up and down\<close>

lemma key_names_simps [simp]:
  "key_names n {} = {}"
  "key_names n (insert k ks) = (if key_columns k = None then {} else {constr_name n k}) \<union> key_names n ks"
  by (auto simp: key_names_def)

lemma relation_names_edit:
  "relation_names (edit_table n f c) =
     table_names c \<union> ix_name ` set (pg_indexes c) \<union>
     (\<Union>x\<in>set (pg_tables c). key_names (fst x) (tb_constraints (if fst x = n then f (snd x) else snd x)))"
proof -
  have "(\<Union>x\<in>set (map (\<lambda>(m, t). (m, if m = n then f t else t)) xs). key_names (fst x) (tb_constraints (snd x))) =
      (\<Union>x\<in>set xs. key_names (fst x) (tb_constraints (if fst x = n then f (snd x) else snd x)))" for xs
    by (induction xs) auto
  then show ?thesis by (simp add: relation_names_def) (simp add: edit_table_def)
qed

text \<open>The four index names of \<open>tickets\<close> are used by no other table.\<close>

definition ticket_keys :: "string set" where
  "ticket_keys = {''uq_ticket_per_seat'', ''uq_ticket_per_passenger'', ''uq_ticket_live_per_seat'',
                  ''uq_ticket_live_per_passenger''}"

lemma ticket_keys_free:
  "\<forall>x\<in>set (created_tables core_upgrade). fst x \<noteq> ''tickets'' \<longrightarrow>
     key_names (fst x) (tb_constraints (snd x)) \<inter> ticket_keys = {}"
  "ix_name ` set (created_indexes core_upgrade) \<inter> ticket_keys = {}"
  "fst ` set (created_tables core_upgrade) \<inter> ticket_keys = {}"
  unfolding core_index_names core_table_names ticket_keys_def
  by (simp_all add: core_upgrade_def create_defs create_index_def)

lemma tickets_unreferred:
  "\<forall>x\<in>set (created_tables core_upgrade). \<forall>k\<in>tb_constraints (snd x). map_option fst (references k) \<noteq> Some ''tickets''"
  by (simp add: core_upgrade_def create_defs create_index_def)

text \<open>
  The states between the revisions: the tables and indexes of the core schema, but with
  \<open>f\<close> applied to \<open>tickets\<close> and the indexes \<open>is\<close> more.
\<close>

definition shape :: "(table_def \<Rightarrow> table_def) \<Rightarrow> index_def list \<Rightarrow> pg \<Rightarrow> bool" where
  "shape f is d =
     (pg_tables d = map (\<lambda>(m, t). (m, if m = ''tickets'' then f t else t)) (created_tables core_upgrade) \<and>
      pg_indexes d = created_indexes core_upgrade @ is)"

lemma shape_core:
  "pg_tables d = created_tables core_upgrade \<Longrightarrow> pg_indexes d = created_indexes core_upgrade \<Longrightarrow>
   shape (\<lambda>t. t) [] d"
  by (simp add: shape_def case_prod_unfold)

lemma shape_edit: "shape f is d \<Longrightarrow> shape (\<lambda>t. g (f t)) is (edit_table ''tickets'' g d)"
  by (auto simp: shape_def edit_table_def)

lemma shape_indexes: "shape f is d \<Longrightarrow> shape f js (d\<lparr>pg_indexes := created_indexes core_upgrade @ js\<rparr>)"
  by (simp add: shape_def)

lemma shape_rows [simp]: "shape f is (d\<lparr>pg_rows := R\<rparr>) = shape f is d"
  by (simp add: shape_def)

lemma shape_names: "shape f is d \<Longrightarrow> table_names d = fst ` set (created_tables core_upgrade)"
  by (force simp: shape_def table_names_def)

lemma shape_lookup: "shape f is d \<Longrightarrow> map_of (pg_tables d) ''tickets'' = Some (f tickets_table)"
proof -
  have "map_of (map (\<lambda>(m, t). (m, if m = ''tickets'' then f t else t)) xs) ''tickets'' =
          map_option f (map_of xs ''tickets'')" for xs
    by (induction xs) auto
  then show "shape f is d \<Longrightarrow> ?thesis" by (simp add: shape_def map_of_tickets)
qed

lemma the_tickets: "x \<in> set (created_tables core_upgrade) \<Longrightarrow> fst x = ''tickets'' \<Longrightarrow> snd x = tickets_table"
  using map_of_tickets core_tables_distinct by (cases x) (auto simp: map_of_eq_Some_iff dest: eq_key_imp_eq_value)

lemma shape_taken:
  assumes d: "shape f is d" and n: "n \<in> ticket_keys"
  shows "n \<in> relation_names d \<longleftrightarrow>
           n \<in> key_names ''tickets'' (tb_constraints (f tickets_table)) \<or> n \<in> ix_name ` set is"
proof -
  have t: "n \<notin> table_names d" using ticket_keys_free(3) shape_names [OF d] n by auto
  have i: "n \<in> ix_name ` set (pg_indexes d) \<longleftrightarrow> n \<in> ix_name ` set is"
    using d n ticket_keys_free(2) by (auto simp: shape_def)
  have "n \<in> (\<Union>x\<in>set (pg_tables d). key_names (fst x) (tb_constraints (snd x))) \<longleftrightarrow>
          n \<in> key_names ''tickets'' (tb_constraints (f tickets_table))"
  proof
    assume "n \<in> (\<Union>x\<in>set (pg_tables d). key_names (fst x) (tb_constraints (snd x)))"
    then obtain x where x: "x \<in> set (created_tables core_upgrade)"
      "n \<in> key_names (fst x) (tb_constraints (if fst x = ''tickets'' then f (snd x) else snd x))"
      using d by (auto simp: shape_def split: if_splits)
    show "n \<in> key_names ''tickets'' (tb_constraints (f tickets_table))"
    proof (cases "fst x = ''tickets''")
      case True
      then show ?thesis using x the_tickets [OF x(1) True] by simp
    next
      case False
      then show ?thesis using x n ticket_keys_free(1) by auto
    qed
  next
    assume "n \<in> key_names ''tickets'' (tb_constraints (f tickets_table))"
    moreover have "(''tickets'', f tickets_table) \<in> set (pg_tables d)"
      using shape_lookup [OF d] by (rule map_of_SomeD)
    ultimately show "n \<in> (\<Union>x\<in>set (pg_tables d). key_names (fst x) (tb_constraints (snd x)))" by force
  qed
  with t i show ?thesis unfolding relation_names_def by blast
qed

lemma shape_unreferred:
  assumes d: "shape f is d"
    and f: "\<forall>k\<in>tb_constraints (f tickets_table). map_option fst (references k) \<noteq> Some ''tickets''"
  shows "\<not> referred_key ''tickets'' key d" "\<not> referred_columns ''tickets'' cols d"
proof -
  have *: "map_option fst (references k) \<noteq> Some ''tickets''"
    if "x \<in> set (pg_tables d)" "k \<in> tb_constraints (snd x)" for x k
  proof -
    have "x \<in> (\<lambda>(m, t). (m, if m = ''tickets'' then f t else t)) ` set (created_tables core_upgrade)"
      using that(1) d by (simp add: shape_def)
    then obtain y where y: "y \<in> set (created_tables core_upgrade)"
      "snd x = (if fst y = ''tickets'' then f (snd y) else snd y)"
      by (auto simp: case_prod_unfold)
    show ?thesis
    proof (cases "fst y = ''tickets''")
      case True
      then show ?thesis using that(2) y(2) f the_tickets [OF y(1) True] by simp
    next
      case False
      then show ?thesis using that(2) y tickets_unreferred by simp
    qed
  qed
  show "\<not> referred_key ''tickets'' key d"
    using * by (force simp: referred_key_def split: option.splits)
  show "\<not> referred_columns ''tickets'' cols d"
    using * by (force simp: referred_columns_def split: option.splits)
qed

lemmas key_calculus = tickets_table_simps ticket_keys_def

definition void_edit :: "table_def \<Rightarrow> table_def" where
  "void_edit t = t\<lparr>tb_columns := tb_columns t @ [Column ''voided_at'' DateTime True],
     tb_constraints := {k \<in> tb_constraints t. constr_name ''tickets'' k \<noteq> ''uq_ticket_per_passenger'' \<and>
                                              constr_name ''tickets'' k \<noteq> ''uq_ticket_per_seat''}\<rparr>"

definition live_index :: "string \<Rightarrow> string \<Rightarrow> index_def" where
  "live_index n col = \<lparr>ix_name = n, ix_table = ''tickets'', ix_columns = [col], ix_unique = True,
                       ix_where = Some (IsNull (Col ''voided_at''))\<rparr>"

definition live_indexes :: "index_def list" where
  "live_indexes = [live_index ''uq_ticket_live_per_passenger'' ''passenger_id'',
                   live_index ''uq_ticket_live_per_seat'' ''seat_inventory_id'']"

definition voided_state :: "pg \<Rightarrow> pg" where
  "voided_state c = (edit_table ''tickets'' void_edit c)\<lparr>pg_indexes := created_indexes core_upgrade @ live_indexes\<rparr>"

lemma filter_constraints:
  "{k \<in> insert a A. P k} = (if P a then insert a {k \<in> A. P k} else {k \<in> A. P k})"
  "{k \<in> {}. P k} = {}"
  by auto

lemma fewer_ticket_keys:
  "{k \<in> tb_constraints tickets_table. constr_name ''tickets'' k \<noteq> ''uq_ticket_per_passenger''} =
     {ForeignKeyConstraint [''booking_id''] ''bookings'' [''id''] CASCADE,
      ForeignKeyConstraint [''passenger_id''] ''booking_passengers'' [''id''] CASCADE,
      ForeignKeyConstraint [''seat_inventory_id''] ''seat_inventory'' [''id''] RESTRICT,
      PrimaryKeyConstraint [''id''], UniqueConstraint [''e_ticket_no''] None,
      UniqueConstraint [''seat_inventory_id''] (Some ''uq_ticket_per_seat'')}"
  "{k \<in> tb_constraints tickets_table. constr_name ''tickets'' k \<noteq> ''uq_ticket_per_passenger'' \<and>
                                   constr_name ''tickets'' k \<noteq> ''uq_ticket_per_seat''} =
     {ForeignKeyConstraint [''booking_id''] ''bookings'' [''id''] CASCADE,
      ForeignKeyConstraint [''passenger_id''] ''booking_passengers'' [''id''] CASCADE,
      ForeignKeyConstraint [''seat_inventory_id''] ''seat_inventory'' [''id''] RESTRICT,
      PrimaryKeyConstraint [''id''], UniqueConstraint [''e_ticket_no''] None}"
  unfolding tickets_table_simps filter_constraints by simp_all

lemma void_edit_constraints:
  "tb_constraints (void_edit tickets_table) =
     {ForeignKeyConstraint [''booking_id''] ''bookings'' [''id''] CASCADE,
      ForeignKeyConstraint [''passenger_id''] ''booking_passengers'' [''id''] CASCADE,
      ForeignKeyConstraint [''seat_inventory_id''] ''seat_inventory'' [''id''] RESTRICT,
      PrimaryKeyConstraint [''id''], UniqueConstraint [''e_ticket_no''] None}"
  by (simp add: void_edit_def fewer_ticket_keys)

lemma void_upgrade_result:
  assumes "shape (\<lambda>t. t) [] c"
    and rows: "\<forall>col\<in>{''passenger_id'', ''seat_inventory_id''}.
                 key_holds [col] (Some (IsNull (Col ''voided_at''))) (pg_rows c ''tickets'')"
  shows "exec_script void_upgrade c = Inr (voided_state c)"
proof -
  let ?add = "\<lambda>t. t\<lparr>tb_columns := tb_columns t @ [Column ''voided_at'' DateTime True]\<rparr>"
  let ?drop = "\<lambda>n t. t\<lparr>tb_constraints := {k \<in> tb_constraints t. constr_name ''tickets'' k \<noteq> n}\<rparr>"
  let ?c1 = "edit_table ''tickets'' ?add c"
  let ?c2 = "edit_table ''tickets'' (?drop ''uq_ticket_per_passenger'') ?c1"
  let ?v = "edit_table ''tickets'' void_edit c"
  let ?c3 = "edit_table ''tickets'' (?drop ''uq_ticket_per_seat'') ?c2"
  have c1: "exec_ddl (AddColumn ''tickets'' ''voided_at'' DateTime True) c = Inr ?c1"
    using shape_lookup [OF assms(1)] by (simp add: tickets_table_simps)
  note s1 = shape_edit [OF assms(1), of ?add]
  have c2: "exec_ddl (DropConstraint ''uq_ticket_per_passenger'' ''tickets'') ?c1 = Inr ?c2"
    using shape_lookup [OF s1] shape_unreferred(1) [OF s1]
    by (simp add: tickets_table_simps del: edit_table_twice)
  note s2 = shape_edit [OF s1, of "?drop ''uq_ticket_per_passenger''"]
  have c3: "exec_ddl (DropConstraint ''uq_ticket_per_seat'' ''tickets'') ?c2 = Inr ?c3"
    using shape_lookup [OF s2] shape_unreferred(1) [OF s2]
    by (simp add: fewer_ticket_keys del: edit_table_twice)
  have c3': "?c3 = ?v"
    by (auto simp: void_edit_def [abs_def] intro!: arg_cong [where f = "\<lambda>f. edit_table ''tickets'' f c"])
  note s3 = shape_edit [OF assms(1), of void_edit]
  let ?i1 = "live_index ''uq_ticket_live_per_passenger'' ''passenger_id''"
  let ?i2 = "live_index ''uq_ticket_live_per_seat'' ''seat_inventory_id''"
  let ?c4 = "?v\<lparr>pg_indexes := created_indexes core_upgrade @ [?i1]\<rparr>"
  have c4: "exec_ddl (CreateIndex ?i1) ?v = Inr ?c4"
    using shape_taken [OF s3] shape_names [OF s3] rows assms(1)
    by (simp add: ticket_keys_def live_index_def core_table_names shape_def void_edit_constraints)
  note s4 = shape_indexes [OF s3, of "[?i1]"]
  have c5: "exec_ddl (CreateIndex ?i2) ?c4 = Inr (voided_state c)"
    using shape_taken [OF s4] shape_names [OF s4] rows assms(1)
    by (simp add: ticket_keys_def live_index_def core_table_names shape_def void_edit_constraints voided_state_def
      live_indexes_def)
  show ?thesis
    unfolding void_upgrade_def create_index_def
    using c1 c2 c3 [unfolded c3'] c4 c5 by (simp add: live_index_def del: exec_ddl.simps edit_table_twice)
qed

lemma void_columns:
  "column_names (void_edit tickets_table) =
     [''id'', ''booking_id'', ''passenger_id'', ''seat_inventory_id'', ''e_ticket_no'', ''issued_at'', ''voided_at'']"
  "column_names (t\<lparr>tb_constraints := ks\<rparr>) = column_names t"
  using tickets_table_simps(2) by (simp_all add: column_names_def void_edit_def Column_def)

lemma core_indexes_not_live:
  assumes "n \<in> ticket_keys"
  shows "filter (\<lambda>i. ix_name i \<noteq> n) (created_indexes core_upgrade) = created_indexes core_upgrade"
proof -
  have "n \<notin> ix_name ` set (created_indexes core_upgrade)" using ticket_keys_free(2) assms by blast
  then show ?thesis by (auto simp: filter_id_conv)
qed

lemma core_indexes_no_void:
  "filter (\<lambda>i. \<not> (ix_table i = ''tickets'' \<and> (''voided_at'' \<in> set (ix_columns i) \<or>
       ''voided_at'' \<in> set (case ix_where i of None \<Rightarrow> [] | Some e \<Rightarrow> expr_columns e))))
     (created_indexes core_upgrade) = created_indexes core_upgrade"
  by (simp add: core_upgrade_def create_defs create_index_def)

definition unvoid_edit :: "table_def \<Rightarrow> table_def" where
  "unvoid_edit t =
     (let t' = t\<lparr>tb_constraints :=
          insert (UniqueConstraint [''passenger_id''] (Some ''uq_ticket_per_passenger''))
          (insert (UniqueConstraint [''seat_inventory_id''] (Some ''uq_ticket_per_seat'')) (tb_constraints t))\<rparr>
      in t'\<lparr>tb_columns := filter (\<lambda>k. col_name k \<noteq> ''voided_at'') (tb_columns t'),
            tb_constraints := {k \<in> tb_constraints t'. ''voided_at'' \<notin> set (constr_columns k)}\<rparr>)"

lemma unvoid_edit_inverse: "unvoid_edit (void_edit tickets_table) = tickets_table"
proof (rule table_def.equality)
  show "tb_constraints (unvoid_edit (void_edit tickets_table)) = tb_constraints tickets_table"
  proof -
    let ?A = "insert (UniqueConstraint [''passenger_id''] (Some ''uq_ticket_per_passenger''))
      (insert (UniqueConstraint [''seat_inventory_id''] (Some ''uq_ticket_per_seat''))
         (tb_constraints (void_edit tickets_table)))"
    have "\<forall>k\<in>?A. ''voided_at'' \<notin> set (constr_columns k)" by (simp add: void_edit_constraints)
    then have "{k \<in> ?A. ''voided_at'' \<notin> set (constr_columns k)} = ?A" by blast
    moreover have "?A = tb_constraints tickets_table"
      unfolding void_edit_constraints tickets_table_simps by (simp add: insert_commute)
    ultimately show ?thesis by (simp add: unvoid_edit_def Let_def)
  qed
  show "tb_columns (unvoid_edit (void_edit tickets_table)) = tb_columns tickets_table"
  proof -
    have "''voided_at'' \<notin> set (column_names tickets_table)" by (simp add: tickets_table_simps)
    then have "filter (\<lambda>k. col_name k \<noteq> ''voided_at'') (tb_columns tickets_table) = tb_columns tickets_table"
      unfolding filter_id_conv column_names_def by force
    then show ?thesis by (simp add: unvoid_edit_def void_edit_def Column_def)
  qed
qed simp

text \<open>
  The rows of \<open>tickets\<close> decide whether the last revision can be taken back: the full unique
  constraints count the voided tickets too.
\<close>

definition twice_ticketed :: "row list \<Rightarrow> bool" where
  "twice_ticketed rows =
     (\<not> key_holds [''seat_inventory_id''] None rows \<or> \<not> key_holds [''passenger_id''] None rows)"

lemma void_downgrade_result:
  assumes c: "shape (\<lambda>t. t) [] c"
  shows "exec_script void_downgrade ((voided_state c)\<lparr>pg_rows := R\<rparr>) =
    (if twice_ticketed (R ''tickets'') then Inl UniqueViolation
     else Inr (c\<lparr>pg_rows := R(''tickets'' := map (\<lambda>r. r(''voided_at'' := Null)) (R ''tickets''))\<rparr>))"
proof -
  let ?v = "edit_table ''tickets'' void_edit c"
  let ?i1 = "live_index ''uq_ticket_live_per_passenger'' ''passenger_id''"
  let ?d0 = "(voided_state c)\<lparr>pg_rows := R\<rparr>"
  let ?d1 = "?v\<lparr>pg_indexes := created_indexes core_upgrade @ [?i1], pg_rows := R\<rparr>"
  let ?d2 = "?v\<lparr>pg_indexes := created_indexes core_upgrade @ [], pg_rows := R\<rparr>"
  let ?u1 = "\<lambda>t. t\<lparr>tb_constraints :=
      insert (UniqueConstraint [''seat_inventory_id''] (Some ''uq_ticket_per_seat'')) (tb_constraints t)\<rparr>"
  let ?u2 = "\<lambda>t. t\<lparr>tb_constraints :=
      insert (UniqueConstraint [''passenger_id''] (Some ''uq_ticket_per_passenger'')) (tb_constraints t)\<rparr>"
  note s = shape_edit [OF c, of void_edit]
  have d1: "exec_ddl (DropIndex ''uq_ticket_live_per_seat'' ''tickets'') ?d0 = Inr ?d1"
    by (simp add: voided_state_def live_indexes_def live_index_def core_indexes_not_live ticket_keys_def)
  have d2: "exec_ddl (DropIndex ''uq_ticket_live_per_passenger'' ''tickets'') ?d1 = Inr ?d2"
    by (simp add: live_index_def core_indexes_not_live ticket_keys_def)
  have s2: "shape void_edit [] ?d2" using s by (simp add: shape_def)
  let ?d3 = "edit_table ''tickets'' ?u1 ?d2"
  have d3: "exec_ddl (CreateUniqueConstraint ''uq_ticket_per_seat'' ''tickets'' [''seat_inventory_id'']) ?d2 =
      (if key_holds [''seat_inventory_id''] None (R ''tickets'') then Inr ?d3 else Inl UniqueViolation)"
    using shape_taken [OF s2] shape_lookup [OF s2]
    by (simp add: ticket_keys_def void_edit_constraints void_columns)
  note s3 = shape_edit [OF s2, of ?u1]
  let ?d4 = "edit_table ''tickets'' ?u2 ?d3"
  have d4: "exec_ddl (CreateUniqueConstraint ''uq_ticket_per_passenger'' ''tickets'' [''passenger_id'']) ?d3 =
      (if key_holds [''passenger_id''] None (R ''tickets'') then Inr ?d4 else Inl UniqueViolation)"
    using shape_taken [OF s3] shape_lookup [OF s3]
    by (simp add: ticket_keys_def void_edit_constraints void_columns)
  note s4 = shape_edit [OF s3, of ?u2]
  let ?R = "R(''tickets'' := map (\<lambda>r. r(''voided_at'' := Null)) (R ''tickets''))"
  have d5: "exec_ddl (DropColumn ''tickets'' ''voided_at'') ?d4 = Inr (c\<lparr>pg_rows := ?R\<rparr>)"
  proof -
    have same: "edit_table ''tickets'' (\<lambda>t. unvoid_edit (void_edit t)) c = c"
      by (rule edit_table_same [of _ _ tickets_table])
        (use c shape_lookup [OF c] core_tables_distinct unvoid_edit_inverse in
          \<open>auto simp: shape_def case_prod_unfold\<close>)
    show ?thesis
      using shape_lookup [OF s4] shape_unreferred(2) [OF s4] core_indexes_no_void c same
      by (simp add: void_edit_constraints void_columns shape_def unvoid_edit_def Let_def)
  qed
  show ?thesis
    unfolding void_downgrade_def
    using d1 d2 d3 d4 d5 by (auto simp: twice_ticketed_def simp del: exec_ddl.simps edit_table_twice)
qed

subsection \<open>To the head and back\<close>

definition head_state :: "string \<Rightarrow> string list \<Rightarrow> (string \<Rightarrow> privilege set) \<Rightarrow> pg" where
  "head_state ow rl df = voided_state (append_only_state ow rl df)"

lemma append_only_shape: "shape (\<lambda>t. t) [] (append_only_state ow rl df)"
  by (rule shape_core) (simp_all add: append_only_state_def core_state_simps)

lemma append_only_rows [simp]: "pg_rows (append_only_state ow rl df) = (\<lambda>t. [])"
  by (simp add: append_only_state_def core_state_simps)

lemma key_holds_Nil [simp]: "key_holds cols w []"
  by (simp add: key_holds_def)

lemma head_upgrade: "exec_script void_upgrade (append_only_state ow rl df) = Inr (head_state ow rl df)"
  using void_upgrade_result [OF append_only_shape] by (simp add: head_state_def)

lemma voided_state_rows [simp]: "pg_rows (voided_state c) = pg_rows c"
  by (simp add: voided_state_def)

lemma head_downgrade: "exec_script void_downgrade (head_state ow rl df) = Inr (append_only_state ow rl df)"
proof -
  let ?a = "append_only_state ow rl df"
  have [simp]: "c\<lparr>pg_rows := (\<lambda>t. [])\<rparr> = c" if "pg_rows c = (\<lambda>t. [])" for c :: pg
    using that by (intro pg.equality) simp_all
  show ?thesis
    using void_downgrade_result [OF append_only_shape [of ow rl df], where R = "\<lambda>t. []"]
    by (simp add: twice_ticketed_def head_state_def fun_upd_idem)
qed

definition at_head :: "string \<Rightarrow> string list \<Rightarrow> (string \<Rightarrow> privilege set) \<Rightarrow> versioned" where
  "at_head ow rl df = (Some (rev_id void_revision), head_state ow rl df)"

definition with_rows :: "(string \<Rightarrow> row list) \<Rightarrow> versioned \<Rightarrow> versioned" where
  "with_rows R = apsnd (\<lambda>c. c\<lparr>pg_rows := R\<rparr>)"

lemmas revision_defs = revisions_def core_revision_def append_only_revision_def void_revision_def

lemma upgrade_head_result: "upgrade_head (None, fresh_database ow rl df) = (Inr (), at_head ow rl df)"
  using core_upgrade_result append_only_upgrade_result head_upgrade
  by (simp add: at_head_def upgrade_head_def do_run_migrations_def revision_defs)

text \<open>
  C28: \<open>alembic upgrade head\<close> on a fresh database succeeds and a second run changes nothing;
  \<open>alembic downgrade base\<close> then gives the fresh database back, with the privileges that
  \<^verbatim>\<open>docker/initdb\<close> hands out by default.
\<close>

theorem migrations_roundtrip:
  fixes ow :: string and rl :: "string list" and df :: "string \<Rightarrow> privilege set"
  assumes "app_privileges_as_in_initdb ow rl df"
  shows "upgrade_head (None, fresh_database ow rl df) = (Inr (), at_head ow rl df) \<and>
         upgrade_head (at_head ow rl df) = (Inr (), at_head ow rl df) \<and>
         downgrade_base (at_head ow rl df) = (Inr (), (None, fresh_database ow rl df))"
  using upgrade_head_result head_downgrade append_only_downgrade_result [OF assms(1)] core_downgrade_result
  by (simp add: at_head_def upgrade_head_def downgrade_base_def do_run_migrations_def revision_defs)

definition initdb_defaults :: "string \<Rightarrow> privilege set" where
  "initdb_defaults r = (if r = APP_ROLE then {SELECT, INSERT, UPDATE, DELETE} else {})"

theorem migrations_roundtrip_witness:
  "downgrade_base (snd (upgrade_head (None, fresh_database ''skylock_owner'' [''skylock_owner'', APP_ROLE] initdb_defaults)))
     = (Inr (), (None, fresh_database ''skylock_owner'' [''skylock_owner'', APP_ROLE] initdb_defaults))"
proof -
  have "app_privileges_as_in_initdb ''skylock_owner'' [''skylock_owner'', APP_ROLE] initdb_defaults"
    by (simp add: app_privileges_as_in_initdb_def initdb_defaults_def APP_ROLE_def)
  from migrations_roundtrip [OF this] show ?thesis by simp
qed

text \<open>The step back from the last revision, on any rows.\<close>

lemma unvoid_step:
  fixes ow :: string and rl :: "string list" and df :: "string \<Rightarrow> privilege set" and R :: "string \<Rightarrow> row list"
  shows "do_run_migrations (run_downgrades [void_revision]) (with_rows R (at_head ow rl df)) =
    (if twice_ticketed (R ''tickets'') then (Inl UniqueViolation, with_rows R (at_head ow rl df))
     else (Inr (), (Some (rev_id append_only_revision), (append_only_state ow rl df)
       \<lparr>pg_rows := R(''tickets'' := map (\<lambda>r. r(''voided_at'' := Null)) (R ''tickets''))\<rparr>)))"
  using void_downgrade_result [OF append_only_shape [of ow rl df], where R = R]
  by (simp add: with_rows_def at_head_def do_run_migrations_def revision_defs head_state_def)

lemma head_tables:
  "pg_tables (head_state ow rl df) =
     map (\<lambda>(m, t). (m, if m = ''tickets'' then void_edit t else t)) (created_tables core_upgrade)"
  using shape_edit [OF append_only_shape, of void_edit ow rl df]
  by (simp add: head_state_def voided_state_def shape_def)

lemma head_indexes: "pg_indexes (head_state ow rl df) = created_indexes core_upgrade @ live_indexes"
  by (simp add: head_state_def voided_state_def)

subsection \<open>The history cannot be rewritten\<close>

lemma head_state_simps:
  "pg_triggers (head_state ow rl df) =
     map append_only_trigger APPEND_ONLY_TABLES @ map no_truncate_trigger APPEND_ONLY_TABLES"
  "pg_functions (head_state ow rl df) = [(''skylock_forbid_mutation'', RestrictViolation)]"
  "table_names (head_state ow rl df) = fst ` set (created_tables core_upgrade)"
  "pg_grants (head_state ow rl df) = pg_grants (append_only_state ow rl df)"
  by (simp_all add: head_state_def voided_state_def append_only_state_def core_state_simps)

lemma audit_cascades: "''booking_audit'' \<in> set (cascades ''bookings'' ((head_state ow rl df)\<lparr>pg_rows := R\<rparr>))"
proof -
  obtain t where t: "map_of (created_tables core_upgrade) ''booking_audit'' = Some t"
    "\<exists>k\<in>tb_constraints t. cascade_from ''bookings'' k"
    by (simp add: core_upgrade_def create_defs create_index_def)
  have "(''booking_audit'', t) \<in> set (created_tables core_upgrade)" using t(1) by (rule map_of_SomeD)
  then have "(''booking_audit'', t) \<in> set (pg_tables (head_state ow rl df))" unfolding head_tables by force
  with t(2) show ?thesis by (force simp: cascades_def)
qed

lemma triggers_refuse:
  assumes "t \<in> set APPEND_ONLY_TABLES" "verb = TRUNCATE \<or> verb \<in> {UPDATE, DELETE} \<and> 0 < k"
    and "pg_triggers c = pg_triggers (head_state ow rl df)" "pg_functions c = pg_functions (head_state ow rl df)"
    and "t \<in> table_names c"
  shows "dml_guard role verb t k c \<in> {Some InsufficientPrivilege, Some RestrictViolation}"
  using assms
  by (auto simp: dml_guard_def head_state_simps APPEND_ONLY_TABLES_def fires_def append_only_trigger_def
    no_truncate_trigger_def)



end
