(* ===== verification/Sky_Metadata.thy ===== *)
theory Sky_Metadata
  imports Sky_MigrationFacts
begin

text \<open>
  The declarations of \<^verbatim>\<open>app/domain/models.py\<close> a second time, now as SQLAlchemy reads them:
  each mapped class with the type, key, index and default of every column and its table
  arguments. \<open>class_table\<close> and \<open>class_indexes\<close> are the tables and indexes this metadata
  stands for; the main lemma says that the migrated database has exactly those.
\<close>

subsection \<open>Mapped classes\<close>

datatype py_type = PyStr | PyUUID | PyBool | PyInt | PyFloat | PyBytes | PyDatetime | PyDecimal | PyDict

text \<open>
  A column: its annotation (the Python type, and whether it is \<open>X | None\<close>) and the arguments
  of \<open>mapped_column\<close>.
\<close>

record mapped =
  m_name :: string
  m_python :: py_type
  m_optional :: bool
  m_type :: "sql_type option"
  m_nullable :: "bool option"
  m_primary_key :: bool
  m_unique :: bool
  m_index :: bool
  m_autoincrement :: bool
  m_foreign_key :: "(string \<times> string \<times> ondelete) option"
  m_server_default :: "server_default option"

definition mapped_column :: "string \<Rightarrow> py_type \<Rightarrow> bool \<Rightarrow> mapped" where
  "mapped_column n py opt =
     \<lparr>m_name = n, m_python = py, m_optional = opt, m_type = None, m_nullable = None,
      m_primary_key = False, m_unique = False, m_index = False, m_autoincrement = False,
      m_foreign_key = None, m_server_default = None\<rparr>"

definition uuid_pk :: "string \<Rightarrow> mapped" where
  "uuid_pk n = (mapped_column n PyUUID False)\<lparr>m_type := Some UUID, m_primary_key := True\<rparr>"

datatype table_arg =
    TableConstraint constr
  | TableIndex string "string list" bool "sql_expr option"

record mapped_class =
  cl_table :: string
  cl_columns :: "mapped list"
  cl_args :: "table_arg list"

subsection \<open>What the metadata stands for\<close>

text \<open>
  The type of a column: the one given, else the type of the column a foreign key refers
  to, else the one of the annotation.
\<close>

fun annotated_type :: "py_type \<Rightarrow> sql_type" where
  "annotated_type PyStr = Text"
| "annotated_type PyUUID = UUID"
| "annotated_type PyBool = Boolean"
| "annotated_type PyInt = Integer"
| "annotated_type PyFloat = Float"
| "annotated_type PyBytes = LargeBinary"
| "annotated_type PyDatetime = DateTime"
| "annotated_type PyDecimal = Numeric 12 2"
| "annotated_type PyDict = JSONB"

definition plain_type :: "mapped \<Rightarrow> sql_type" where
  "plain_type m = (case m_type m of Some ty \<Rightarrow> ty | None \<Rightarrow> annotated_type (m_python m))"

definition referred_type :: "mapped_class list \<Rightarrow> string \<Rightarrow> string \<Rightarrow> sql_type option" where
  "referred_type cs t c =
     (case List.find (\<lambda>k. cl_table k = t) cs of
        None \<Rightarrow> None
      | Some k \<Rightarrow> map_option plain_type (List.find (\<lambda>m. m_name m = c) (cl_columns k)))"

definition resolved_type :: "mapped_class list \<Rightarrow> mapped \<Rightarrow> sql_type" where
  "resolved_type cs m =
     (case (m_type m, m_foreign_key m) of
        (None, Some (t, c, od)) \<Rightarrow>
          (case referred_type cs t c of Some ty \<Rightarrow> ty | None \<Rightarrow> plain_type m)
      | _ \<Rightarrow> plain_type m)"

text \<open>A column is nullable as told, else if its annotation says so; a primary key never is.\<close>

definition resolved_nullable :: "mapped \<Rightarrow> bool" where
  "resolved_nullable m =
     (\<not> m_primary_key m \<and> (case m_nullable m of Some b \<Rightarrow> b | None \<Rightarrow> m_optional m))"

definition class_column :: "mapped_class list \<Rightarrow> mapped \<Rightarrow> column" where
  "class_column cs m =
     \<lparr>col_name = m_name m, col_type = resolved_type cs m, col_nullable = resolved_nullable m,
      col_autoincrement = m_autoincrement m, col_server_default = m_server_default m\<rparr>"

definition column_constraints :: "mapped \<Rightarrow> constr list" where
  "column_constraints m =
     (if m_unique m then [UniqueConstraint [m_name m] None] else []) @
     (case m_foreign_key m of None \<Rightarrow> []
      | Some (t, c, od) \<Rightarrow> [ForeignKeyConstraint [m_name m] t [c] od])"

fun arg_constraint :: "table_arg \<Rightarrow> constr list" where
  "arg_constraint (TableConstraint k) = [k]"
| "arg_constraint (TableIndex n cs u w) = []"

definition class_table :: "mapped_class list \<Rightarrow> mapped_class \<Rightarrow> string \<times> table_def" where
  "class_table cs k =
     (cl_table k,
      \<lparr>tb_columns = map (class_column cs) (cl_columns k),
       tb_constraints = set (PrimaryKeyConstraint (map m_name (filter m_primary_key (cl_columns k))) #
          concat (map column_constraints (cl_columns k)) @ concat (map arg_constraint (cl_args k)))\<rparr>)"

text \<open>\<open>index=True\<close> makes the index \<open>ix_table_column\<close>.\<close>

fun arg_index :: "string \<Rightarrow> table_arg \<Rightarrow> index_def list" where
  "arg_index t (TableConstraint k) = []"
| "arg_index t (TableIndex n cs u w) =
     [\<lparr>ix_name = n, ix_table = t, ix_columns = cs, ix_unique = u, ix_where = w\<rparr>]"

definition column_index :: "string \<Rightarrow> mapped \<Rightarrow> index_def list" where
  "column_index t m =
     (if m_index m
      then [\<lparr>ix_name = ''ix_'' @ t @ ''_'' @ m_name m, ix_table = t, ix_columns = [m_name m],
             ix_unique = False, ix_where = None\<rparr>]
      else [])"

definition class_indexes :: "mapped_class \<Rightarrow> index_def list" where
  "class_indexes k =
     concat (map (column_index (cl_table k)) (cl_columns k)) @
     concat (map (arg_index (cl_table k)) (cl_args k))"

subsection \<open>The classes\<close>

definition mapped_User :: mapped_class where
  "mapped_User =
    \<lparr>cl_table = ''users'',
     cl_columns =
      [uuid_pk ''id'',
       (mapped_column ''email'' PyStr False)\<lparr>m_type := Some (String 320), m_unique := True, m_nullable := Some False\<rparr>,
       (mapped_column ''password_hash'' PyStr False)\<lparr>m_type := Some Text, m_nullable := Some False\<rparr>,
       (mapped_column ''full_name'' PyStr True)\<lparr>m_type := Some (String 200)\<rparr>,
       (mapped_column ''is_admin'' PyBool False)\<lparr>m_type := Some Boolean, m_nullable := Some False\<rparr>,
       (mapped_column ''is_active'' PyBool False)\<lparr>m_type := Some Boolean, m_nullable := Some False\<rparr>,
       (mapped_column ''failed_login_count'' PyInt False)\<lparr>m_type := Some Integer, m_nullable := Some False\<rparr>,
       (mapped_column ''locked_until'' PyDatetime True)\<lparr>m_type := Some DateTime\<rparr>,
       mapped_column ''mfa_secret_enc'' PyBytes True,
       (mapped_column ''created_at'' PyDatetime False)\<lparr>m_type := Some DateTime, m_nullable := Some False, m_server_default := Some (SqlText ''now()'')\<rparr>],
     cl_args =
      []\<rparr>"

definition mapped_RefreshToken :: mapped_class where
  "mapped_RefreshToken =
    \<lparr>cl_table = ''refresh_tokens'',
     cl_columns =
      [uuid_pk ''id'',
       (mapped_column ''family_id'' PyUUID False)\<lparr>m_type := Some UUID, m_nullable := Some False, m_index := True\<rparr>,
       (mapped_column ''user_id'' PyUUID False)\<lparr>m_foreign_key := Some (''users'', ''id'', CASCADE), m_nullable := Some False, m_index := True\<rparr>,
       (mapped_column ''token_hash'' PyStr False)\<lparr>m_type := Some (String 64), m_unique := True, m_nullable := Some False\<rparr>,
       (mapped_column ''parent_id'' PyUUID True)\<lparr>m_foreign_key := Some (''refresh_tokens'', ''id'', SET_NULL)\<rparr>,
       (mapped_column ''issued_at'' PyDatetime False)\<lparr>m_type := Some DateTime, m_nullable := Some False, m_server_default := Some (SqlText ''now()'')\<rparr>,
       (mapped_column ''used_at'' PyDatetime True)\<lparr>m_type := Some DateTime\<rparr>,
       (mapped_column ''revoked_at'' PyDatetime True)\<lparr>m_type := Some DateTime\<rparr>,
       (mapped_column ''revoked_reason'' PyStr True)\<lparr>m_type := Some (String 64)\<rparr>,
       (mapped_column ''expires_at'' PyDatetime False)\<lparr>m_type := Some DateTime, m_nullable := Some False\<rparr>,
       (mapped_column ''user_agent'' PyStr True)\<lparr>m_type := Some (String 400)\<rparr>,
       (mapped_column ''ip'' PyStr True)\<lparr>m_type := Some INET\<rparr>],
     cl_args =
      []\<rparr>"

definition mapped_Airport :: mapped_class where
  "mapped_Airport =
    \<lparr>cl_table = ''airports'',
     cl_columns =
      [(mapped_column ''iata'' PyStr False)\<lparr>m_type := Some (String 3), m_primary_key := True\<rparr>,
       (mapped_column ''icao'' PyStr True)\<lparr>m_type := Some (String 4)\<rparr>,
       (mapped_column ''name'' PyStr False)\<lparr>m_type := Some (String 200), m_nullable := Some False\<rparr>,
       (mapped_column ''city'' PyStr True)\<lparr>m_type := Some (String 120)\<rparr>,
       (mapped_column ''country'' PyStr True)\<lparr>m_type := Some (String 2), m_index := True\<rparr>,
       mapped_column ''latitude'' PyFloat True,
       mapped_column ''longitude'' PyFloat True,
       (mapped_column ''timezone'' PyStr True)\<lparr>m_type := Some (String 64)\<rparr>],
     cl_args =
      []\<rparr>"

definition mapped_Airline :: mapped_class where
  "mapped_Airline =
    \<lparr>cl_table = ''airlines'',
     cl_columns =
      [(mapped_column ''iata'' PyStr False)\<lparr>m_type := Some (String 2), m_primary_key := True\<rparr>,
       (mapped_column ''icao'' PyStr True)\<lparr>m_type := Some (String 3)\<rparr>,
       (mapped_column ''name'' PyStr False)\<lparr>m_type := Some (String 200), m_nullable := Some False\<rparr>,
       (mapped_column ''country'' PyStr True)\<lparr>m_type := Some (String 80)\<rparr>,
       (mapped_column ''active'' PyBool False)\<lparr>m_type := Some Boolean, m_nullable := Some False\<rparr>],
     cl_args =
      []\<rparr>"

definition mapped_Route :: mapped_class where
  "mapped_Route =
    \<lparr>cl_table = ''routes'',
     cl_columns =
      [(mapped_column ''id'' PyInt False)\<lparr>m_type := Some Integer, m_primary_key := True, m_autoincrement := True\<rparr>,
       (mapped_column ''airline_iata'' PyStr False)\<lparr>m_type := Some (String 2), m_nullable := Some False, m_index := True\<rparr>,
       (mapped_column ''src_iata'' PyStr False)\<lparr>m_type := Some (String 3), m_nullable := Some False\<rparr>,
       (mapped_column ''dst_iata'' PyStr False)\<lparr>m_type := Some (String 3), m_nullable := Some False\<rparr>,
       (mapped_column ''equipment'' PyStr True)\<lparr>m_type := Some (String 120)\<rparr>],
     cl_args =
      [TableConstraint (UniqueConstraint [''airline_iata'', ''src_iata'', ''dst_iata''] (Some ''uq_route'')),
       TableIndex ''ix_routes_src_dst'' [''src_iata'', ''dst_iata''] False None]\<rparr>"

definition mapped_Flight :: mapped_class where
  "mapped_Flight =
    \<lparr>cl_table = ''flights'',
     cl_columns =
      [uuid_pk ''id'',
       (mapped_column ''flight_no'' PyStr False)\<lparr>m_type := Some (String 8), m_nullable := Some False\<rparr>,
       (mapped_column ''airline_iata'' PyStr False)\<lparr>m_foreign_key := Some (''airlines'', ''iata'', RESTRICT), m_nullable := Some False\<rparr>,
       (mapped_column ''src_iata'' PyStr False)\<lparr>m_foreign_key := Some (''airports'', ''iata'', RESTRICT), m_nullable := Some False\<rparr>,
       (mapped_column ''dst_iata'' PyStr False)\<lparr>m_foreign_key := Some (''airports'', ''iata'', RESTRICT), m_nullable := Some False\<rparr>,
       (mapped_column ''depart_at'' PyDatetime False)\<lparr>m_type := Some DateTime, m_nullable := Some False\<rparr>,
       (mapped_column ''arrive_at'' PyDatetime False)\<lparr>m_type := Some DateTime, m_nullable := Some False\<rparr>,
       (mapped_column ''aircraft_type'' PyStr False)\<lparr>m_type := Some (String 8), m_nullable := Some False\<rparr>,
       (mapped_column ''base_fare'' PyDecimal False)\<lparr>m_type := Some (Numeric 12 2), m_nullable := Some False\<rparr>,
       (mapped_column ''currency'' PyStr False)\<lparr>m_type := Some (String 3), m_nullable := Some False\<rparr>],
     cl_args =
      [TableConstraint (UniqueConstraint [''airline_iata'', ''flight_no'', ''depart_at''] (Some ''uq_flight_instance'')),
       TableIndex ''ix_flights_search'' [''src_iata'', ''dst_iata'', ''depart_at''] False None,
       TableConstraint (CheckConstraint
          (Gt (Col ''arrive_at'') (Col ''depart_at'')) ''ck_flight_times''),
       TableConstraint (CheckConstraint
          (Ge (Col ''base_fare'') (Num 0)) ''ck_flight_fare_nonneg'')]\<rparr>"

definition mapped_FareClass :: mapped_class where
  "mapped_FareClass =
    \<lparr>cl_table = ''fare_classes'',
     cl_columns =
      [uuid_pk ''id'',
       (mapped_column ''flight_id'' PyUUID False)\<lparr>m_foreign_key := Some (''flights'', ''id'', CASCADE), m_nullable := Some False, m_index := True\<rparr>,
       (mapped_column ''code'' PyStr False)\<lparr>m_type := Some (String 2), m_nullable := Some False\<rparr>,
       (mapped_column ''cabin'' PyStr False)\<lparr>m_type := Some (String 16), m_nullable := Some False\<rparr>,
       (mapped_column ''multiplier'' PyDecimal False)\<lparr>m_type := Some (Numeric 6 3), m_nullable := Some False\<rparr>,
       (mapped_column ''seats_total'' PyInt False)\<lparr>m_type := Some Integer, m_nullable := Some False\<rparr>],
     cl_args =
      [TableConstraint (UniqueConstraint [''flight_id'', ''code''] (Some ''uq_fare_class''))]\<rparr>"

definition mapped_SeatInventory :: mapped_class where
  "mapped_SeatInventory =
    \<lparr>cl_table = ''seat_inventory'',
     cl_columns =
      [uuid_pk ''id'',
       (mapped_column ''flight_id'' PyUUID False)\<lparr>m_foreign_key := Some (''flights'', ''id'', CASCADE), m_nullable := Some False\<rparr>,
       (mapped_column ''seat_no'' PyStr False)\<lparr>m_type := Some (String 4), m_nullable := Some False\<rparr>,
       (mapped_column ''row_no'' PyInt False)\<lparr>m_type := Some SmallInteger, m_nullable := Some False\<rparr>,
       (mapped_column ''seat_letter'' PyStr False)\<lparr>m_type := Some (String 1), m_nullable := Some False\<rparr>,
       (mapped_column ''cabin'' PyStr False)\<lparr>m_type := Some (String 16), m_nullable := Some False\<rparr>,
       (mapped_column ''fare_class_id'' PyUUID False)\<lparr>m_foreign_key := Some (''fare_classes'', ''id'', CASCADE), m_nullable := Some False\<rparr>,
       (mapped_column ''is_exit_row'' PyBool False)\<lparr>m_type := Some Boolean, m_nullable := Some False\<rparr>,
       (mapped_column ''price'' PyDecimal False)\<lparr>m_type := Some (Numeric 12 2), m_nullable := Some False\<rparr>,
       (mapped_column ''status'' PyStr False)\<lparr>m_type := Some (String 12), m_nullable := Some False, m_server_default := Some (SqlLiteral ''available'')\<rparr>,
       (mapped_column ''held_by_user_id'' PyUUID True)\<lparr>m_foreign_key := Some (''users'', ''id'', SET_NULL)\<rparr>,
       (mapped_column ''hold_id'' PyUUID True)\<lparr>m_type := Some UUID\<rparr>,
       (mapped_column ''hold_expires_at'' PyDatetime True)\<lparr>m_type := Some DateTime\<rparr>,
       (mapped_column ''booking_id'' PyUUID True)\<lparr>m_foreign_key := Some (''bookings'', ''id'', SET_NULL)\<rparr>,
       (mapped_column ''version'' PyInt False)\<lparr>m_type := Some Integer, m_nullable := Some False, m_server_default := Some (SqlLiteral ''0'')\<rparr>],
     cl_args =
      [TableConstraint (UniqueConstraint [''flight_id'', ''seat_no''] (Some ''uq_seat_per_flight'')),
       TableIndex ''ix_seat_flight_status'' [''flight_id'', ''status''] False None,
       TableIndex ''ix_seat_hold_expiry'' [''hold_expires_at''] False (Some (Eq (Col ''status'') (Lit ''held''))),
       TableIndex ''ix_seat_hold_id'' [''hold_id''] False (Some (IsNotNull (Col ''hold_id''))),
       TableIndex ''ix_seat_booking'' [''booking_id''] False (Some (IsNotNull (Col ''booking_id''))),
       TableConstraint (CheckConstraint
          (InList (Col ''status'') [''available'', ''held'', ''booked'']) ''ck_seat_status''),
       TableConstraint (CheckConstraint
          (Or (Ne (Col ''status'') (Lit ''held''))
           (And (And (IsNotNull (Col ''held_by_user_id'')) (IsNotNull (Col ''hold_expires_at'')))
                (IsNotNull (Col ''hold_id'')))) ''ck_held_seat_has_holder''),
       TableConstraint (CheckConstraint
          (Or (Ne (Col ''status'') (Lit ''booked'')) (IsNotNull (Col ''booking_id''))) ''ck_booked_seat_has_booking'')]\<rparr>"

definition mapped_Booking :: mapped_class where
  "mapped_Booking =
    \<lparr>cl_table = ''bookings'',
     cl_columns =
      [uuid_pk ''id'',
       (mapped_column ''ref'' PyStr False)\<lparr>m_type := Some (String 6), m_unique := True, m_nullable := Some False\<rparr>,
       (mapped_column ''user_id'' PyUUID False)\<lparr>m_foreign_key := Some (''users'', ''id'', RESTRICT), m_nullable := Some False, m_index := True\<rparr>,
       (mapped_column ''flight_id'' PyUUID False)\<lparr>m_foreign_key := Some (''flights'', ''id'', RESTRICT), m_nullable := Some False\<rparr>,
       (mapped_column ''state'' PyStr False)\<lparr>m_type := Some (String 24), m_nullable := Some False\<rparr>,
       (mapped_column ''total_amount'' PyDecimal False)\<lparr>m_type := Some (Numeric 12 2), m_nullable := Some False\<rparr>,
       (mapped_column ''currency'' PyStr False)\<lparr>m_type := Some (String 3), m_nullable := Some False\<rparr>,
       (mapped_column ''idempotency_key'' PyStr True)\<lparr>m_type := Some (String 128)\<rparr>,
       (mapped_column ''created_at'' PyDatetime False)\<lparr>m_type := Some DateTime, m_nullable := Some False, m_server_default := Some (SqlText ''now()'')\<rparr>,
       (mapped_column ''updated_at'' PyDatetime False)\<lparr>m_type := Some DateTime, m_nullable := Some False, m_server_default := Some (SqlText ''now()'')\<rparr>],
     cl_args =
      [TableIndex ''ix_bookings_user_created'' [''user_id'', ''created_at''] False None,
       TableConstraint (CheckConstraint
          (Ge (Col ''total_amount'') (Num 0)) ''ck_booking_total_nonneg'')]\<rparr>"

definition mapped_BookingPassenger :: mapped_class where
  "mapped_BookingPassenger =
    \<lparr>cl_table = ''booking_passengers'',
     cl_columns =
      [uuid_pk ''id'',
       (mapped_column ''booking_id'' PyUUID False)\<lparr>m_foreign_key := Some (''bookings'', ''id'', CASCADE), m_nullable := Some False, m_index := True\<rparr>,
       (mapped_column ''given_name'' PyStr False)\<lparr>m_type := Some (String 100), m_nullable := Some False\<rparr>,
       (mapped_column ''family_name'' PyStr False)\<lparr>m_type := Some (String 100), m_nullable := Some False\<rparr>,
       mapped_column ''dob_enc'' PyBytes True,
       mapped_column ''passport_enc'' PyBytes True,
       (mapped_column ''passport_last4'' PyStr True)\<lparr>m_type := Some (String 4)\<rparr>,
       (mapped_column ''seat_inventory_id'' PyUUID True)\<lparr>m_foreign_key := Some (''seat_inventory'', ''id'', SET_NULL)\<rparr>],
     cl_args =
      []\<rparr>"

definition mapped_Payment :: mapped_class where
  "mapped_Payment =
    \<lparr>cl_table = ''payments'',
     cl_columns =
      [uuid_pk ''id'',
       (mapped_column ''booking_id'' PyUUID False)\<lparr>m_foreign_key := Some (''bookings'', ''id'', CASCADE), m_nullable := Some False, m_index := True\<rparr>,
       (mapped_column ''provider'' PyStr False)\<lparr>m_type := Some (String 32), m_nullable := Some False\<rparr>,
       (mapped_column ''provider_ref'' PyStr True)\<lparr>m_type := Some (String 64)\<rparr>,
       (mapped_column ''card_token'' PyStr False)\<lparr>m_type := Some (String 64), m_nullable := Some False\<rparr>,
       (mapped_column ''card_fingerprint'' PyStr False)\<lparr>m_type := Some (String 64), m_nullable := Some False, m_index := True\<rparr>,
       (mapped_column ''card_last4'' PyStr True)\<lparr>m_type := Some (String 4)\<rparr>,
       (mapped_column ''amount'' PyDecimal False)\<lparr>m_type := Some (Numeric 12 2), m_nullable := Some False\<rparr>,
       (mapped_column ''currency'' PyStr False)\<lparr>m_type := Some (String 3), m_nullable := Some False\<rparr>,
       (mapped_column ''state'' PyStr False)\<lparr>m_type := Some (String 16), m_nullable := Some False\<rparr>,
       (mapped_column ''failure_code'' PyStr True)\<lparr>m_type := Some (String 48)\<rparr>,
       (mapped_column ''idempotency_key'' PyStr False)\<lparr>m_type := Some (String 128), m_nullable := Some False\<rparr>,
       (mapped_column ''created_at'' PyDatetime False)\<lparr>m_type := Some DateTime, m_nullable := Some False, m_server_default := Some (SqlText ''now()'')\<rparr>,
       (mapped_column ''updated_at'' PyDatetime False)\<lparr>m_type := Some DateTime, m_nullable := Some False, m_server_default := Some (SqlText ''now()'')\<rparr>],
     cl_args =
      []\<rparr>"

definition mapped_Ticket :: mapped_class where
  "mapped_Ticket =
    \<lparr>cl_table = ''tickets'',
     cl_columns =
      [uuid_pk ''id'',
       (mapped_column ''booking_id'' PyUUID False)\<lparr>m_foreign_key := Some (''bookings'', ''id'', CASCADE), m_nullable := Some False, m_index := True\<rparr>,
       (mapped_column ''passenger_id'' PyUUID False)\<lparr>m_foreign_key := Some (''booking_passengers'', ''id'', CASCADE), m_nullable := Some False\<rparr>,
       (mapped_column ''seat_inventory_id'' PyUUID False)\<lparr>m_foreign_key := Some (''seat_inventory'', ''id'', RESTRICT), m_nullable := Some False\<rparr>,
       (mapped_column ''e_ticket_no'' PyStr False)\<lparr>m_type := Some (String 16), m_unique := True, m_nullable := Some False\<rparr>,
       (mapped_column ''issued_at'' PyDatetime False)\<lparr>m_type := Some DateTime, m_nullable := Some False, m_server_default := Some (SqlText ''now()'')\<rparr>,
       (mapped_column ''voided_at'' PyDatetime True)\<lparr>m_type := Some DateTime\<rparr>],
     cl_args =
      [TableIndex ''uq_ticket_live_per_seat'' [''seat_inventory_id''] True (Some (IsNull (Col ''voided_at''))),
       TableIndex ''uq_ticket_live_per_passenger'' [''passenger_id''] True (Some (IsNull (Col ''voided_at'')))]\<rparr>"

definition mapped_IdempotencyKey :: mapped_class where
  "mapped_IdempotencyKey =
    \<lparr>cl_table = ''idempotency_keys'',
     cl_columns =
      [(mapped_column ''key'' PyStr False)\<lparr>m_type := Some (String 128), m_primary_key := True\<rparr>,
       (mapped_column ''user_id'' PyUUID False)\<lparr>m_foreign_key := Some (''users'', ''id'', CASCADE), m_primary_key := True\<rparr>,
       (mapped_column ''endpoint'' PyStr False)\<lparr>m_type := Some (String 80), m_nullable := Some False\<rparr>,
       (mapped_column ''request_hash'' PyStr False)\<lparr>m_type := Some (String 64), m_nullable := Some False\<rparr>,
       (mapped_column ''state'' PyStr False)\<lparr>m_type := Some (String 16), m_nullable := Some False\<rparr>,
       (mapped_column ''response_status'' PyInt True)\<lparr>m_type := Some Integer\<rparr>,
       (mapped_column ''response_body'' PyDict True)\<lparr>m_type := Some JSONB\<rparr>,
       (mapped_column ''booking_id'' PyUUID True)\<lparr>m_foreign_key := Some (''bookings'', ''id'', SET_NULL)\<rparr>,
       (mapped_column ''created_at'' PyDatetime False)\<lparr>m_type := Some DateTime, m_nullable := Some False, m_server_default := Some (SqlText ''now()'')\<rparr>,
       (mapped_column ''expires_at'' PyDatetime False)\<lparr>m_type := Some DateTime, m_nullable := Some False\<rparr>],
     cl_args =
      []\<rparr>"

definition mapped_BookingAudit :: mapped_class where
  "mapped_BookingAudit =
    \<lparr>cl_table = ''booking_audit'',
     cl_columns =
      [(mapped_column ''id'' PyInt False)\<lparr>m_type := Some BigInteger, m_primary_key := True, m_autoincrement := True\<rparr>,
       (mapped_column ''booking_id'' PyUUID False)\<lparr>m_foreign_key := Some (''bookings'', ''id'', CASCADE), m_nullable := Some False\<rparr>,
       (mapped_column ''seq'' PyInt False)\<lparr>m_type := Some Integer, m_nullable := Some False\<rparr>,
       (mapped_column ''event_type'' PyStr False)\<lparr>m_type := Some (String 40), m_nullable := Some False\<rparr>,
       (mapped_column ''actor_type'' PyStr False)\<lparr>m_type := Some (String 16), m_nullable := Some False\<rparr>,
       (mapped_column ''actor_id'' PyUUID True)\<lparr>m_type := Some UUID\<rparr>,
       (mapped_column ''from_state'' PyStr True)\<lparr>m_type := Some (String 24)\<rparr>,
       (mapped_column ''to_state'' PyStr True)\<lparr>m_type := Some (String 24)\<rparr>,
       (mapped_column ''detail'' PyDict False)\<lparr>m_type := Some JSONB, m_nullable := Some False, m_server_default := Some (SqlText empty_jsonb)\<rparr>,
       (mapped_column ''occurred_at'' PyDatetime False)\<lparr>m_type := Some DateTime, m_nullable := Some False, m_server_default := Some (SqlText ''now()'')\<rparr>],
     cl_args =
      [TableConstraint (UniqueConstraint [''booking_id'', ''seq''] (Some ''uq_audit_seq'')),
       TableIndex ''ix_audit_booking_seq'' [''booking_id'', ''seq''] False None,
       TableIndex ''ix_audit_occurred'' [''occurred_at''] False None]\<rparr>"

definition mapped_SecurityEvent :: mapped_class where
  "mapped_SecurityEvent =
    \<lparr>cl_table = ''security_events'',
     cl_columns =
      [(mapped_column ''id'' PyInt False)\<lparr>m_type := Some BigInteger, m_primary_key := True, m_autoincrement := True\<rparr>,
       (mapped_column ''occurred_at'' PyDatetime False)\<lparr>m_type := Some DateTime, m_nullable := Some False, m_server_default := Some (SqlText ''now()'')\<rparr>,
       (mapped_column ''event_type'' PyStr False)\<lparr>m_type := Some (String 40), m_nullable := Some False, m_index := True\<rparr>,
       (mapped_column ''severity'' PyStr False)\<lparr>m_type := Some (String 10), m_nullable := Some False\<rparr>,
       (mapped_column ''actor_user_id'' PyUUID True)\<lparr>m_type := Some UUID, m_index := True\<rparr>,
       (mapped_column ''actor_email'' PyStr True)\<lparr>m_type := Some (String 320)\<rparr>,
       (mapped_column ''ip'' PyStr True)\<lparr>m_type := Some INET\<rparr>,
       (mapped_column ''user_agent'' PyStr True)\<lparr>m_type := Some (String 400)\<rparr>,
       (mapped_column ''method'' PyStr True)\<lparr>m_type := Some (String 8)\<rparr>,
       (mapped_column ''path'' PyStr True)\<lparr>m_type := Some (String 200)\<rparr>,
       (mapped_column ''resource_type'' PyStr True)\<lparr>m_type := Some (String 32)\<rparr>,
       (mapped_column ''resource_id'' PyStr True)\<lparr>m_type := Some (String 64)\<rparr>,
       (mapped_column ''decision'' PyStr True)\<lparr>m_type := Some (String 16)\<rparr>,
       (mapped_column ''detail'' PyDict False)\<lparr>m_type := Some JSONB, m_nullable := Some False, m_server_default := Some (SqlText empty_jsonb)\<rparr>],
     cl_args =
      [TableIndex ''ix_secevent_occurred_desc'' [''occurred_at DESC''] False None,
       TableIndex ''ix_secevent_type_occurred'' [''event_type'', ''occurred_at''] False None]\<rparr>"

definition model_classes :: "mapped_class list" where
  "model_classes =
    [mapped_User,
     mapped_RefreshToken,
     mapped_Airport,
     mapped_Airline,
     mapped_Route,
     mapped_Flight,
     mapped_FareClass,
     mapped_SeatInventory,
     mapped_Booking,
     mapped_BookingPassenger,
     mapped_Payment,
     mapped_Ticket,
     mapped_IdempotencyKey,
     mapped_BookingAudit,
     mapped_SecurityEvent]"

subsection \<open>The migrations build what the models declare\<close>

lemmas mapped_defs = mapped_User_def mapped_RefreshToken_def mapped_Airport_def mapped_Airline_def
  mapped_Route_def mapped_Flight_def mapped_FareClass_def mapped_SeatInventory_def mapped_Booking_def
  mapped_BookingPassenger_def mapped_Payment_def mapped_Ticket_def mapped_IdempotencyKey_def
  mapped_BookingAudit_def mapped_SecurityEvent_def

lemmas metadata_defs = class_table_def class_column_def resolved_type_def resolved_nullable_def plain_type_def
  column_constraints_def uuid_pk_def mapped_column_def Column_def

text \<open>Types that are looked up in another class.\<close>

lemma referred_types:
  "referred_type model_classes ''users'' ''id'' = Some UUID"
  "referred_type model_classes ''refresh_tokens'' ''id'' = Some UUID"
  "referred_type model_classes ''airlines'' ''iata'' = Some (String 2)"
  "referred_type model_classes ''airports'' ''iata'' = Some (String 3)"
  "referred_type model_classes ''flights'' ''id'' = Some UUID"
  "referred_type model_classes ''fare_classes'' ''id'' = Some UUID"
  "referred_type model_classes ''bookings'' ''id'' = Some UUID"
  "referred_type model_classes ''booking_passengers'' ''id'' = Some UUID"
  "referred_type model_classes ''seat_inventory'' ''id'' = Some UUID"
  by (simp_all add: referred_type_def model_classes_def mapped_defs uuid_pk_def mapped_column_def plain_type_def)

abbreviation "declared k \<equiv> class_table model_classes k"

lemma tables_agree:
  "created_tables create_airlines = [declared mapped_Airline]"
  "created_tables create_airports = [declared mapped_Airport]"
  "created_tables create_routes = [declared mapped_Route]"
  "created_tables create_security_events = [declared mapped_SecurityEvent]"
  "created_tables create_users = [declared mapped_User]"
  "created_tables create_flights = [declared mapped_Flight]"
  "created_tables create_refresh_tokens = [declared mapped_RefreshToken]"
  "created_tables create_bookings = [declared mapped_Booking]"
  "created_tables create_fare_classes = [declared mapped_FareClass]"
  "created_tables create_booking_audit = [declared mapped_BookingAudit]"
  "created_tables create_idempotency_keys = [declared mapped_IdempotencyKey]"
  "created_tables create_payments = [declared mapped_Payment]"
  "created_tables create_seat_inventory = [declared mapped_SeatInventory]"
  "created_tables create_booking_passengers = [declared mapped_BookingPassenger]"
  by (simp_all add: create_defs create_index_def mapped_defs metadata_defs referred_types insert_commute)

lemma tickets_agree: "(''tickets'', void_edit tickets_table) = declared mapped_Ticket"
proof -
  have "tb_columns (void_edit tickets_table) = tb_columns (snd (declared mapped_Ticket))"
    by (simp add: tickets_table_def core_upgrade_def create_defs create_index_def void_edit_def mapped_defs
      metadata_defs referred_types)
  moreover have "tb_constraints (void_edit tickets_table) = tb_constraints (snd (declared mapped_Ticket))"
    unfolding void_edit_constraints
    by (simp add: mapped_defs metadata_defs referred_types insert_commute)
  moreover have "fst (declared mapped_Ticket) = ''tickets''" by (simp add: class_table_def mapped_defs)
  ultimately show ?thesis by (intro prod_eqI table_def.equality) simp_all
qed

lemma created_append:
  "created_tables (xs @ ys) = created_tables xs @ created_tables ys"
  "created_indexes (xs @ ys) = created_indexes xs @ created_indexes ys"
  by (induction xs rule: created_tables.induct) auto

lemma indexes_agree:
  "set (created_indexes create_airlines) = set (class_indexes mapped_Airline)"
  "set (created_indexes create_airports) = set (class_indexes mapped_Airport)"
  "set (created_indexes create_routes) = set (class_indexes mapped_Route)"
  "set (created_indexes create_security_events) = set (class_indexes mapped_SecurityEvent)"
  "set (created_indexes create_users) = set (class_indexes mapped_User)"
  "set (created_indexes create_flights) = set (class_indexes mapped_Flight)"
  "set (created_indexes create_refresh_tokens) = set (class_indexes mapped_RefreshToken)"
  "set (created_indexes create_bookings) = set (class_indexes mapped_Booking)"
  "set (created_indexes create_fare_classes) = set (class_indexes mapped_FareClass)"
  "set (created_indexes create_booking_audit) = set (class_indexes mapped_BookingAudit)"
  "set (created_indexes create_idempotency_keys) = set (class_indexes mapped_IdempotencyKey)"
  "set (created_indexes create_payments) = set (class_indexes mapped_Payment)"
  "set (created_indexes create_seat_inventory) = set (class_indexes mapped_SeatInventory)"
  "set (created_indexes create_booking_passengers) = set (class_indexes mapped_BookingPassenger)"
  "set (created_indexes create_tickets @ live_indexes) = set (class_indexes mapped_Ticket)"
  by (simp_all add: create_defs create_index_def mapped_defs metadata_defs class_indexes_def column_index_def
    live_indexes_def live_index_def insert_commute)

lemma created_core:
  "created_tables core_upgrade =
     map (class_table model_classes)
       [mapped_Airline, mapped_Airport, mapped_Route, mapped_SecurityEvent, mapped_User, mapped_Flight,
        mapped_RefreshToken, mapped_Booking, mapped_FareClass, mapped_BookingAudit, mapped_IdempotencyKey,
        mapped_Payment, mapped_SeatInventory, mapped_BookingPassenger] @ [(''tickets'', tickets_table)]"
proof -
  have "created_tables create_tickets = [(''tickets'', tickets_table)]"
    by (simp add: tickets_table_def core_upgrade_def create_defs create_index_def)
  then show ?thesis by (simp add: core_upgrade_def created_append tables_agree)
qed

lemma declared_other: "cl_table k \<noteq> ''tickets'' \<Longrightarrow>
   (case declared k of (m, t) \<Rightarrow> (m, if m = ''tickets'' then void_edit t else t)) = declared k"
  by (simp add: class_table_def)

lemma class_names:
  "cl_table mapped_User = ''users''" "cl_table mapped_RefreshToken = ''refresh_tokens''"
  "cl_table mapped_Airport = ''airports''" "cl_table mapped_Airline = ''airlines''"
  "cl_table mapped_Route = ''routes''" "cl_table mapped_Flight = ''flights''"
  "cl_table mapped_FareClass = ''fare_classes''" "cl_table mapped_SeatInventory = ''seat_inventory''"
  "cl_table mapped_Booking = ''bookings''" "cl_table mapped_BookingPassenger = ''booking_passengers''"
  "cl_table mapped_Payment = ''payments''" "cl_table mapped_Ticket = ''tickets''"
  "cl_table mapped_IdempotencyKey = ''idempotency_keys''" "cl_table mapped_BookingAudit = ''booking_audit''"
  "cl_table mapped_SecurityEvent = ''security_events''"
  by (simp_all add: mapped_defs)

lemma set_model_classes:
  "set model_classes =
     {mapped_User, mapped_RefreshToken, mapped_Airport, mapped_Airline, mapped_Route, mapped_Flight,
      mapped_FareClass, mapped_SeatInventory, mapped_Booking, mapped_BookingPassenger, mapped_Payment,
      mapped_Ticket, mapped_IdempotencyKey, mapped_BookingAudit, mapped_SecurityEvent}"
  by (simp add: model_classes_def)

lemma head_tables_declared: "set (pg_tables (head_state ow rl df)) = class_table model_classes ` set model_classes"
  unfolding head_tables created_core
  by (simp add: declared_other class_names tickets_agree set_model_classes insert_commute)

lemma head_indexes_declared:
  "set (pg_indexes (head_state ow rl df)) = (\<Union>k\<in>set model_classes. set (class_indexes k))"
proof -
  have "set (pg_indexes (head_state ow rl df)) =
      (\<Union>k\<in>{mapped_Airline, mapped_Airport, mapped_Route, mapped_SecurityEvent, mapped_User, mapped_Flight,
        mapped_RefreshToken, mapped_Booking, mapped_FareClass, mapped_BookingAudit, mapped_IdempotencyKey,
        mapped_Payment, mapped_SeatInventory, mapped_BookingPassenger, mapped_Ticket}. set (class_indexes k))"
    unfolding head_indexes core_upgrade_def created_append set_append indexes_agree
    by (simp add: indexes_agree(15) [symmetric] Un_assoc)
  also have "\<dots> = (\<Union>k\<in>set model_classes. set (class_indexes k))"
    by (simp add: set_model_classes Un_ac)
  finally show ?thesis .
qed

text \<open>
  C26: \<open>alembic upgrade head\<close> on a fresh database builds exactly the tables, columns, types,
  defaults, keys, checks, foreign keys and indexes that the models declare: comparing the
  two, as \<open>compare_type\<close> and \<open>compare_server_default\<close> ask Alembic to do, finds nothing.
\<close>

theorem migrations_match_models:
  "set (pg_tables (snd (snd (upgrade_head (None, fresh_database ow rl df))))) =
     class_table model_classes ` set model_classes \<and>
   set (pg_indexes (snd (snd (upgrade_head (None, fresh_database ow rl df))))) =
     (\<Union>k\<in>set model_classes. set (class_indexes k)) \<and>
   distinct (map fst (pg_tables (snd (snd (upgrade_head (None, fresh_database ow rl df))))))"
  using head_tables_declared head_indexes_declared core_tables_distinct
  by (simp add: upgrade_head_result at_head_def) (simp add: head_tables case_prod_unfold o_def)

end
