(* ===== verification/Sky_Rows.thy ===== *)
theory Sky_Rows
  imports Sky_Metadata Sky_Admin
begin

text \<open>
  The database of the services as rows of the migrated schema. \<open>rows_of\<close> renders each record
  of \<open>db\<close> as the row the ORM writes for it, \<open>accepts\<close> is what Postgres checks of the rows of
  every table: column types and widths, NOT NULL, keys, CHECKs, foreign keys and unique
  indexes. The main lemma: what the migrated schema accepts satisfies \<open>db_ok\<close>, the
  constraints all other theories rely on.
\<close>

subsection \<open>Rows\<close>

definition row_of :: "(string \<times> cell) list \<Rightarrow> row" where
  "row_of kvs = (\<lambda>c. case map_of kvs c of None \<Rightarrow> Null | Some v \<Rightarrow> v)"

fun null_or :: "('a \<Rightarrow> cell) \<Rightarrow> 'a option \<Rightarrow> cell" where
  "null_or f None = Null"
| "null_or f (Some x) = f x"

text \<open>
  \<open>now\<close> stands for the server-side timestamps that no operation reads and the records leave
  out (\<open>updated_at\<close>, \<open>idempotency_keys.created_at\<close>, \<open>booking_audit.occurred_at\<close>).
\<close>

definition user_cells :: "user \<Rightarrow> row" where
  "user_cells u = row_of
     [(''id'', VUuid (u_id u)), (''email'', VText (u_email u)), (''password_hash'', VText (u_password_hash u)),
      (''full_name'', null_or VText (u_full_name u)), (''is_admin'', VBool (u_is_admin u)),
      (''is_active'', VBool (u_is_active u)), (''failed_login_count'', VNum (u_failed_login_count u)),
      (''locked_until'', null_or VTime (u_locked_until u)), (''mfa_secret_enc'', Null),
      (''created_at'', VTime (u_created_at u))]"

definition token_cells :: "refresh_token \<Rightarrow> row" where
  "token_cells r = row_of
     [(''id'', VUuid (rt_id r)), (''family_id'', VUuid (rt_family_id r)), (''user_id'', VUuid (rt_user_id r)),
      (''token_hash'', VText (rt_token_hash r)), (''parent_id'', null_or VUuid (rt_parent_id r)),
      (''issued_at'', VTime (rt_issued_at r)), (''used_at'', null_or VTime (rt_used_at r)),
      (''revoked_at'', null_or VTime (rt_revoked_at r)),
      (''revoked_reason'', null_or VText (rt_revoked_reason r)), (''expires_at'', VTime (rt_expires_at r)),
      (''user_agent'', null_or VText (rt_user_agent r)), (''ip'', null_or VText (rt_ip r))]"

definition airport_cells :: "airport \<Rightarrow> row" where
  "airport_cells a = row_of
     [(''iata'', VText (ap_iata a)), (''icao'', null_or VText (ap_icao a)), (''name'', VText (ap_name a)),
      (''city'', null_or VText (ap_city a)), (''country'', null_or VText (ap_country a)),
      (''latitude'', null_or (VRat \<circ> fst) (ap_coords a)), (''longitude'', null_or (VRat \<circ> snd) (ap_coords a)),
      (''timezone'', Null)]"

definition airline_cells :: "airline \<Rightarrow> row" where
  "airline_cells a = row_of
     [(''iata'', VText (al_iata a)), (''icao'', null_or VText (al_icao a)), (''name'', VText (al_name a)),
      (''country'', null_or VText (al_country a)), (''active'', VBool (al_active a))]"

definition route_cells :: "nat \<times> route \<Rightarrow> row" where
  "route_cells = (\<lambda>(i, r). row_of
     [(''id'', VNum (int i)), (''airline_iata'', VText (ro_airline_iata r)),
      (''src_iata'', VText (ro_src_iata r)), (''dst_iata'', VText (ro_dst_iata r)),
      (''equipment'', null_or VText (ro_equipment r))])"

definition flight_cells :: "flight \<Rightarrow> row" where
  "flight_cells f = row_of
     [(''id'', VUuid (fl_id f)), (''flight_no'', VText (fl_flight_no f)),
      (''airline_iata'', VText (fl_airline_iata f)), (''src_iata'', VText (fl_src_iata f)),
      (''dst_iata'', VText (fl_dst_iata f)), (''depart_at'', VTime (fl_depart_at f)),
      (''arrive_at'', VTime (fl_arrive_at f)), (''aircraft_type'', VText (fl_aircraft_type f)),
      (''base_fare'', VNum (fl_base_fare f)), (''currency'', VText (fl_currency f))]"

definition fare_cells :: "fare_class \<Rightarrow> row" where
  "fare_cells f = row_of
     [(''id'', VUuid (fc_id f)), (''flight_id'', VUuid (fc_flight_id f)), (''code'', VText (fc_code f)),
      (''cabin'', VText (fc_cabin f)), (''multiplier'', VRat (fc_multiplier f)),
      (''seats_total'', VNum (int (fc_seats_total f)))]"

definition seat_cells :: "seat \<Rightarrow> row" where
  "seat_cells s = row_of
     [(''id'', VUuid (s_id s)), (''flight_id'', VUuid (s_flight_id s)), (''seat_no'', VText (s_seat_no s)),
      (''row_no'', VNum (int (s_row_no s))), (''seat_letter'', VText (s_letter s)),
      (''cabin'', VText (s_cabin s)), (''fare_class_id'', VUuid (s_fare_class_id s)),
      (''is_exit_row'', VBool (s_is_exit_row s)), (''price'', VNum (s_price s)),
      (''status'', VText (seat_status_value (s_status s))),
      (''held_by_user_id'', null_or VUuid (s_held_by s)), (''hold_id'', null_or VUuid (s_hold_id s)),
      (''hold_expires_at'', null_or VTime (s_hold_expires_at s)),
      (''booking_id'', null_or VUuid (s_booking_id s)), (''version'', VNum (int (s_version s)))]"

definition booking_cells :: "time \<Rightarrow> booking \<Rightarrow> row" where
  "booking_cells now b = row_of
     [(''id'', VUuid (b_id b)), (''ref'', VText (b_ref b)), (''user_id'', VUuid (b_user_id b)),
      (''flight_id'', VUuid (b_flight_id b)), (''state'', VText (booking_state_value (b_state b))),
      (''total_amount'', VNum (b_total_amount b)), (''currency'', VText (b_currency b)),
      (''idempotency_key'', null_or VText (b_idempotency_key b)), (''created_at'', VTime (b_created_at b)),
      (''updated_at'', VTime now)]"

definition passenger_cells :: "passenger \<Rightarrow> row" where
  "passenger_cells p = row_of
     [(''id'', VUuid (p_id p)), (''booking_id'', VUuid (p_booking_id p)), (''given_name'', VText (p_given_name p)),
      (''family_name'', VText (p_family_name p)), (''dob_enc'', null_or VText (p_dob_enc p)),
      (''passport_enc'', null_or VText (p_passport_enc p)),
      (''passport_last4'', null_or VText (p_passport_last4 p)),
      (''seat_inventory_id'', null_or VUuid (p_seat_inventory_id p))]"

definition payment_cells :: "time \<Rightarrow> payment \<Rightarrow> row" where
  "payment_cells now p = row_of
     [(''id'', VUuid (pay_id p)), (''booking_id'', VUuid (pay_booking_id p)), (''provider'', VText (pay_provider p)),
      (''provider_ref'', null_or VText (pay_provider_ref p)), (''card_token'', VText (pay_card_token p)),
      (''card_fingerprint'', VText (pay_card_fingerprint p)), (''card_last4'', null_or VText (pay_card_last4 p)),
      (''amount'', VNum (pay_amount p)), (''currency'', VText (pay_currency p)),
      (''state'', VText (payment_state_value (pay_state p))),
      (''failure_code'', null_or VText (pay_failure_code p)),
      (''idempotency_key'', VText (pay_idempotency_key p)), (''created_at'', VTime (pay_created_at p)),
      (''updated_at'', VTime now)]"

definition ticket_cells :: "ticket \<Rightarrow> row" where
  "ticket_cells t = row_of
     [(''id'', VUuid (t_id t)), (''booking_id'', VUuid (t_booking_id t)), (''passenger_id'', VUuid (t_passenger_id t)),
      (''seat_inventory_id'', VUuid (t_seat_id t)), (''e_ticket_no'', VText (t_e_ticket_no t)),
      (''issued_at'', VTime (t_issued_at t)), (''voided_at'', null_or VTime (t_voided_at t))]"

definition idem_cells :: "time \<Rightarrow> idempotency_key \<Rightarrow> row" where
  "idem_cells now k = row_of
     [(''key'', VText (ik_key k)), (''user_id'', VUuid (ik_user_id k)), (''endpoint'', VText (ik_endpoint k)),
      (''request_hash'', VText (ik_request_hash k)), (''state'', VText (idempotency_state_value (ik_state k))),
      (''response_status'', null_or VNum (ik_response_status k)),
      (''response_body'', null_or (VJson \<circ> JObj) (ik_response_body k)),
      (''booking_id'', null_or VUuid (ik_booking_id k)), (''created_at'', VTime now),
      (''expires_at'', VTime (ik_expires_at k))]"

definition audit_cells :: "time \<Rightarrow> booking_audit \<Rightarrow> row" where
  "audit_cells now a = row_of
     [(''id'', VNum (int (a_id a))), (''booking_id'', VUuid (a_booking_id a)), (''seq'', VNum (int (a_seq a))),
      (''event_type'', VText (audit_event_value (a_event_type a))), (''actor_type'', VText (a_actor_type a)),
      (''actor_id'', null_or VUuid (a_actor_id a)),
      (''from_state'', null_or (VText \<circ> booking_state_value) (a_from_state a)),
      (''to_state'', null_or (VText \<circ> booking_state_value) (a_to_state a)),
      (''detail'', VJson (a_detail a)), (''occurred_at'', VTime now)]"

definition event_cells :: "security_event \<Rightarrow> row" where
  "event_cells e = row_of
     [(''id'', VNum (int (se_id e))), (''occurred_at'', VTime (se_occurred_at e)),
      (''event_type'', VText (security_event_type_value (se_event_type e))),
      (''severity'', VText (severity_value (se_severity e))),
      (''actor_user_id'', null_or VUuid (se_actor_user_id e)),
      (''actor_email'', null_or VText (se_actor_email e)), (''ip'', null_or VText (se_ip e)),
      (''user_agent'', null_or VText (se_user_agent e)), (''method'', null_or VText (se_method e)),
      (''path'', null_or VText (se_path e)), (''resource_type'', null_or VText (se_resource_type e)),
      (''resource_id'', null_or VText (se_resource_id e)), (''decision'', null_or VText (se_decision e)),
      (''detail'', VJson (se_detail e))]"

definition rows_of :: "time \<Rightarrow> db \<Rightarrow> string \<Rightarrow> row list" where
  "rows_of now d = (\<lambda>t. case map_of
     [(''users'', map user_cells (d_users d)), (''refresh_tokens'', map token_cells (d_tokens d)),
      (''airports'', map airport_cells (d_airports d)), (''airlines'', map airline_cells (d_airlines d)),
      (''routes'', map route_cells (enumerate 1 (d_routes d))), (''flights'', map flight_cells (d_flights d)),
      (''fare_classes'', map fare_cells (d_fares d)), (''seat_inventory'', map seat_cells (d_seats d)),
      (''bookings'', map (booking_cells now) (d_bookings d)),
      (''booking_passengers'', map passenger_cells (d_passengers d)),
      (''payments'', map (payment_cells now) (d_payments d)), (''tickets'', map ticket_cells (d_tickets d)),
      (''idempotency_keys'', map (idem_cells now) (d_idem d)),
      (''booking_audit'', map (audit_cells now) (d_audit d)), (''security_events'', map event_cells (d_events d))] t
     of None \<Rightarrow> [] | Some rs \<Rightarrow> rs)"

subsection \<open>What Postgres checks\<close>

text \<open>A NUMERIC(p, s) of cents is a whole number below \<open>10 ^ p\<close>; bytes are a string.\<close>

fun cell_fits :: "sql_type \<Rightarrow> cell \<Rightarrow> bool" where
  "cell_fits (String n) v = (case v of VText s \<Rightarrow> length s \<le> n | _ \<Rightarrow> False)"
| "cell_fits Text v = (case v of VText s \<Rightarrow> True | _ \<Rightarrow> False)"
| "cell_fits UUID v = (case v of VUuid u \<Rightarrow> True | _ \<Rightarrow> False)"
| "cell_fits Integer v = (case v of VNum n \<Rightarrow> - (2 ^ 31) \<le> n \<and> n < 2 ^ 31 | _ \<Rightarrow> False)"
| "cell_fits SmallInteger v = (case v of VNum n \<Rightarrow> - (2 ^ 15) \<le> n \<and> n < 2 ^ 15 | _ \<Rightarrow> False)"
| "cell_fits BigInteger v = (case v of VNum n \<Rightarrow> - (2 ^ 63) \<le> n \<and> n < 2 ^ 63 | _ \<Rightarrow> False)"
| "cell_fits Boolean v = (case v of VBool b \<Rightarrow> True | _ \<Rightarrow> False)"
| "cell_fits Float v = (case v of VRat q \<Rightarrow> True | _ \<Rightarrow> False)"
| "cell_fits (Numeric p s) v =
     (case v of VNum n \<Rightarrow> \<bar>n\<bar> < 10 ^ p | VRat q \<Rightarrow> \<bar>q\<bar> < 10 ^ (p - s) | _ \<Rightarrow> False)"
| "cell_fits DateTime v = (case v of VTime t \<Rightarrow> True | _ \<Rightarrow> False)"
| "cell_fits INET v = (case v of VText s \<Rightarrow> True | _ \<Rightarrow> False)"
| "cell_fits JSONB v = (case v of VJson j \<Rightarrow> True | _ \<Rightarrow> False)"
| "cell_fits LargeBinary v = (case v of VText s \<Rightarrow> True | _ \<Rightarrow> False)"

definition column_accepts :: "row list \<Rightarrow> column \<Rightarrow> bool" where
  "column_accepts rows c =
     list_all (\<lambda>r. if r (col_name c) = Null then col_nullable c else cell_fits (col_type c) (r (col_name c))) rows"

fun constr_accepts :: "(string \<Rightarrow> row list) \<Rightarrow> row list \<Rightarrow> constr \<Rightarrow> bool" where
  "constr_accepts R rows (PrimaryKeyConstraint cs) =
     (key_holds cs None rows \<and> list_all (\<lambda>r. list_all (\<lambda>c. r c \<noteq> Null) cs) rows)"
| "constr_accepts R rows (UniqueConstraint cs n) = key_holds cs None rows"
| "constr_accepts R rows (ForeignKeyConstraint cs t rs od) =
     list_all (\<lambda>r. list_ex (\<lambda>c. r c = Null) cs \<or> list_ex (\<lambda>r'. map r' rs = map r cs) (R t)) rows"
| "constr_accepts R rows (CheckConstraint e n) = list_all (check_passes e) rows"

definition index_accepts :: "(string \<Rightarrow> row list) \<Rightarrow> index_def \<Rightarrow> bool" where
  "index_accepts R i = (ix_unique i \<longrightarrow> key_holds (ix_columns i) (ix_where i) (R (ix_table i)))"

definition accepts :: "pg \<Rightarrow> bool" where
  "accepts c =
     (list_all (\<lambda>(n, t). list_all (column_accepts (pg_rows c n)) (tb_columns t) \<and>
                        (\<forall>k\<in>tb_constraints t. constr_accepts (pg_rows c) (pg_rows c n) k)) (pg_tables c) \<and>
      list_all (index_accepts (pg_rows c)) (pg_indexes c))"

subsection \<open>Accepted rows satisfy \<open>db_ok\<close>\<close>

definition stored :: "time \<Rightarrow> db \<Rightarrow> string \<Rightarrow> string list \<Rightarrow> (string \<Rightarrow> privilege set) \<Rightarrow> pg" where
  "stored now d ow rl df = snd (with_rows (rows_of now d) (at_head ow rl df))"

lemma stored_table:
  assumes "accepts (stored now d ow rl df)" "k \<in> set model_classes"
  shows "list_all (column_accepts (rows_of now d (cl_table k))) (tb_columns (snd (declared k)))"
    and "\<forall>c\<in>tb_constraints (snd (declared k)). constr_accepts (rows_of now d) (rows_of now d (cl_table k)) c"
proof -
  have "list_all (\<lambda>(n, t). list_all (column_accepts (rows_of now d n)) (tb_columns t) \<and>
      (\<forall>k\<in>tb_constraints t. constr_accepts (rows_of now d) (rows_of now d n) k)) (pg_tables (head_state ow rl df))"
    using assms(1) by (simp add: accepts_def stored_def with_rows_def at_head_def)
  moreover have "(cl_table k, snd (declared k)) \<in> set (pg_tables (head_state ow rl df))"
    using assms(2) head_tables_declared by (force simp: class_table_def)
  ultimately have "case (cl_table k, snd (declared k)) of (n, t) \<Rightarrow>
      list_all (column_accepts (rows_of now d n)) (tb_columns t) \<and>
      (\<forall>k\<in>tb_constraints t. constr_accepts (rows_of now d) (rows_of now d n) k)"
    unfolding list_all_iff by (rule bspec)
  then show "list_all (column_accepts (rows_of now d (cl_table k))) (tb_columns (snd (declared k)))"
    "\<forall>c\<in>tb_constraints (snd (declared k)). constr_accepts (rows_of now d) (rows_of now d (cl_table k)) c"
    by simp_all
qed

lemma stored_constraint:
  assumes "accepts (stored now d ow rl df)" "k \<in> set model_classes" "c \<in> tb_constraints (snd (declared k))"
  shows "constr_accepts (rows_of now d) (rows_of now d (cl_table k)) c"
  using stored_table(2) [OF assms(1,2)] assms(3) by (rule bspec)

lemma stored_column:
  assumes "accepts (stored now d ow rl df)" "k \<in> set model_classes" "m \<in> set (cl_columns k)"
  shows "column_accepts (rows_of now d (cl_table k)) (class_column model_classes m)"
  using stored_table(1) [OF assms(1,2)] assms(3) by (simp add: class_table_def list_all_iff)

lemma stored_index:
  assumes "accepts (stored now d ow rl df)" "k \<in> set model_classes" "i \<in> set (class_indexes k)"
  shows "index_accepts (rows_of now d) i"
proof -
  have "i \<in> set (pg_indexes (head_state ow rl df))" using assms(2,3) head_indexes_declared by blast
  then show ?thesis using assms(1) by (simp add: accepts_def stored_def with_rows_def at_head_def list_all_iff)
qed

text \<open>A key that holds on the rows is a key of the records.\<close>

lemma key_holds_unique:
  assumes "key_holds cols w (map f xs)"
    and "\<And>x. x \<in> set xs \<Longrightarrow> p x \<Longrightarrow> where_holds w (f x) \<and> (\<forall>c\<in>set cols. f x c \<noteq> Null)"
    and "\<And>x y. key x = key y \<Longrightarrow> map (f x) cols = map (f y) cols"
  shows "unique_key key (filter p xs)"
proof -
  let ?q = "\<lambda>x. where_holds w (f x) \<and> (\<forall>c\<in>set cols. f x c \<noteq> Null)"
  have "distinct (map (\<lambda>x. map (f x) cols) (filter ?q xs))"
    using assms(1) by (simp add: key_holds_def filter_map o_def)
  then have d: "distinct (filter ?q xs)" "inj_on (\<lambda>x. map (f x) cols) {x \<in> set xs. ?q x}"
    by (simp_all add: distinct_map)
  have q: "p x = (?q x \<and> p x)" if "x \<in> set xs" for x using assms(2) [OF that] by blast
  have e: "filter p xs = filter p (filter ?q xs)"
    unfolding filter_filter by (rule filter_cong [OF refl]) (rule q)
  have "distinct (filter p xs)" by (subst e) (rule distinct_filter [OF d(1)])
  moreover have "inj_on key {x \<in> set xs. p x}"
  proof (rule inj_onI)
    fix x y assume x: "x \<in> {x \<in> set xs. p x}" and y: "y \<in> {x \<in> set xs. p x}" and k: "key x = key y"
    have "x \<in> {x \<in> set xs. ?q x}" "y \<in> {x \<in> set xs. ?q x}" using x y q by blast+
    then show "x = y" using inj_onD [OF d(2)] assms(3) [OF k] by blast
  qed
  ultimately show ?thesis by (simp add: unique_key_def distinct_map)
qed

lemma stored_key:
  assumes "accepts (stored now d ow rl df)" "c \<in> tb_constraints (snd (declared k))" "k \<in> set model_classes"
    and "key_columns c = Some cols" "rows_of now d (cl_table k) = map f xs"
    and "\<And>x. x \<in> set xs \<Longrightarrow> \<forall>c\<in>set cols. f x c \<noteq> Null"
    and "\<And>x y. key x = key y \<Longrightarrow> map (f x) cols = map (f y) cols"
  shows "unique_key key xs"
proof -
  have "key_holds cols None (map f xs)"
    using stored_constraint [OF assms(1,3,2)] assms(4,5) by (cases c) simp_all
  then have "unique_key key (filter (\<lambda>x. True) xs)"
  proof (rule key_holds_unique)
    show "where_holds None (f x) \<and> (\<forall>c\<in>set cols. f x c \<noteq> Null)" if "x \<in> set xs" for x
      using assms(6) [OF that] by (simp add: where_holds_def)
  qed (rule assms(7))
  then show ?thesis by simp
qed

lemma stored_check:
  assumes "accepts (stored now d ow rl df)" "CheckConstraint e n \<in> tb_constraints (snd (declared k))"
    and "k \<in> set model_classes" "rows_of now d (cl_table k) = map f xs" "x \<in> set xs"
  shows "check_passes e (f x)"
  using stored_constraint [OF assms(1,3,2)] assms(4,5) by (simp add: list_all_iff)

lemma stored_cell:
  assumes "accepts (stored now d ow rl df)" "k \<in> set model_classes" "m \<in> set (cl_columns k)"
    and "rows_of now d (cl_table k) = map f xs" "x \<in> set xs" "f x (m_name m) \<noteq> Null"
  shows "cell_fits (resolved_type model_classes m) (f x (m_name m))"
proof -
  have "f x \<in> set (rows_of now d (cl_table k))" using assms(4,5) by simp
  with stored_column [OF assms(1-3)] have
    "if f x (m_name m) = Null then resolved_nullable m else cell_fits (resolved_type model_classes m) (f x (m_name m))"
    unfolding column_accepts_def list_all_iff by (fastforce simp: class_column_def)
  then show ?thesis using assms(6) by simp
qed

lemmas row_defs = user_cells_def token_cells_def flight_cells_def seat_cells_def booking_cells_def passenger_cells_def
  payment_cells_def ticket_cells_def idem_cells_def audit_cells_def event_cells_def row_of_def

lemma rows_simps:
  "rows_of now d ''users'' = map user_cells (d_users d)" "rows_of now d ''refresh_tokens'' = map token_cells (d_tokens d)"
  "rows_of now d ''flights'' = map flight_cells (d_flights d)" "rows_of now d ''seat_inventory'' = map seat_cells (d_seats d)"
  "rows_of now d ''bookings'' = map (booking_cells now) (d_bookings d)"
  "rows_of now d ''booking_passengers'' = map passenger_cells (d_passengers d)"
  "rows_of now d ''payments'' = map (payment_cells now) (d_payments d)"
  "rows_of now d ''tickets'' = map ticket_cells (d_tickets d)"
  "rows_of now d ''idempotency_keys'' = map (idem_cells now) (d_idem d)"
  "rows_of now d ''booking_audit'' = map (audit_cells now) (d_audit d)"
  "rows_of now d ''security_events'' = map event_cells (d_events d)"
  "rows_of now d ''airports'' = map airport_cells (d_airports d)"
  "rows_of now d ''airlines'' = map airline_cells (d_airlines d)"
  "rows_of now d ''routes'' = map route_cells (enumerate 1 (d_routes d))"
  "rows_of now d ''fare_classes'' = map fare_cells (d_fares d)"
  by (simp_all add: rows_of_def)

lemma declared_constraints:
  "{PrimaryKeyConstraint [''id''], UniqueConstraint [''email''] None} \<subseteq> tb_constraints (snd (declared mapped_User))"
  "{PrimaryKeyConstraint [''id''], UniqueConstraint [''token_hash''] None} \<subseteq> tb_constraints (snd (declared mapped_RefreshToken))"
  "{PrimaryKeyConstraint [''id''], CheckConstraint (Gt (Col ''arrive_at'') (Col ''depart_at'')) ''ck_flight_times'',
    CheckConstraint (Ge (Col ''base_fare'') (Num 0)) ''ck_flight_fare_nonneg''} \<subseteq> tb_constraints (snd (declared mapped_Flight))"
  "{PrimaryKeyConstraint [''id''], UniqueConstraint [''flight_id'', ''seat_no''] (Some ''uq_seat_per_flight''),
    CheckConstraint (Or (Ne (Col ''status'') (Lit ''held''))
      (And (And (IsNotNull (Col ''held_by_user_id'')) (IsNotNull (Col ''hold_expires_at'')))
           (IsNotNull (Col ''hold_id'')))) ''ck_held_seat_has_holder'',
    CheckConstraint (Or (Ne (Col ''status'') (Lit ''booked'')) (IsNotNull (Col ''booking_id''))) ''ck_booked_seat_has_booking''}
     \<subseteq> tb_constraints (snd (declared mapped_SeatInventory))"
  "{PrimaryKeyConstraint [''id''], UniqueConstraint [''ref''] None,
    CheckConstraint (Ge (Col ''total_amount'') (Num 0)) ''ck_booking_total_nonneg''} \<subseteq> tb_constraints (snd (declared mapped_Booking))"
  "{PrimaryKeyConstraint [''id'']} \<subseteq> tb_constraints (snd (declared mapped_BookingPassenger))"
  "{PrimaryKeyConstraint [''id'']} \<subseteq> tb_constraints (snd (declared mapped_Payment))"
  "{PrimaryKeyConstraint [''id''], UniqueConstraint [''e_ticket_no''] None} \<subseteq> tb_constraints (snd (declared mapped_Ticket))"
  "{PrimaryKeyConstraint [''key'', ''user_id'']} \<subseteq> tb_constraints (snd (declared mapped_IdempotencyKey))"
  "{PrimaryKeyConstraint [''id''], UniqueConstraint [''booking_id'', ''seq''] (Some ''uq_audit_seq'')}
     \<subseteq> tb_constraints (snd (declared mapped_BookingAudit))"
  "{PrimaryKeyConstraint [''id'']} \<subseteq> tb_constraints (snd (declared mapped_SecurityEvent))"
  by (simp_all add: mapped_defs metadata_defs)

lemmas declared_constraint = declared_constraints [THEN subsetD]

lemma model_class [simp]:
  "mapped_User \<in> set model_classes" "mapped_RefreshToken \<in> set model_classes" "mapped_Flight \<in> set model_classes"
  "mapped_SeatInventory \<in> set model_classes" "mapped_Booking \<in> set model_classes"
  "mapped_BookingPassenger \<in> set model_classes" "mapped_Payment \<in> set model_classes"
  "mapped_Ticket \<in> set model_classes" "mapped_IdempotencyKey \<in> set model_classes"
  "mapped_BookingAudit \<in> set model_classes" "mapped_SecurityEvent \<in> set model_classes"
  by (simp_all add: set_model_classes)

lemmas stored_simps = declared_constraint class_names rows_simps row_defs

lemma stored_keys:
  assumes acc: "accepts (stored now d ow rl df)"
  shows "unique_key u_id (d_users d)"
    "unique_key u_email (d_users d)"
    "unique_key rt_id (d_tokens d)"
    "unique_key rt_token_hash (d_tokens d)"
    "unique_key fl_id (d_flights d)"
    "unique_key s_id (d_seats d)"
    "unique_key (\<lambda>s. (s_flight_id s, s_seat_no s)) (d_seats d)"
    "unique_key b_id (d_bookings d)"
    "unique_key b_ref (d_bookings d)"
    "unique_key p_id (d_passengers d)"
    "unique_key pay_id (d_payments d)"
    "unique_key t_id (d_tickets d)"
    "unique_key t_e_ticket_no (d_tickets d)"
    "unique_key (\<lambda>k. (ik_key k, ik_user_id k)) (d_idem d)"
    "unique_key a_id (d_audit d)"
    "unique_key (\<lambda>a. (a_booking_id a, a_seq a)) (d_audit d)"
    "unique_key se_id (d_events d)"
proof -
  show "unique_key u_id (d_users d)"
    by (rule stored_key [where c = "PrimaryKeyConstraint [''id'']" and cols = "[''id'']" and k = mapped_User and f = "user_cells", OF acc]) (simp_all add: stored_simps)
  show "unique_key u_email (d_users d)"
    by (rule stored_key [where c = "UniqueConstraint [''email''] None" and cols = "[''email'']" and k = mapped_User and f = "user_cells", OF acc]) (simp_all add: stored_simps)
  show "unique_key rt_id (d_tokens d)"
    by (rule stored_key [where c = "PrimaryKeyConstraint [''id'']" and cols = "[''id'']" and k = mapped_RefreshToken and f = "token_cells", OF acc]) (simp_all add: stored_simps)
  show "unique_key rt_token_hash (d_tokens d)"
    by (rule stored_key [where c = "UniqueConstraint [''token_hash''] None" and cols = "[''token_hash'']" and k = mapped_RefreshToken and f = "token_cells", OF acc]) (simp_all add: stored_simps)
  show "unique_key fl_id (d_flights d)"
    by (rule stored_key [where c = "PrimaryKeyConstraint [''id'']" and cols = "[''id'']" and k = mapped_Flight and f = "flight_cells", OF acc]) (simp_all add: stored_simps)
  show "unique_key s_id (d_seats d)"
    by (rule stored_key [where c = "PrimaryKeyConstraint [''id'']" and cols = "[''id'']" and k = mapped_SeatInventory and f = "seat_cells", OF acc]) (simp_all add: stored_simps)
  show "unique_key (\<lambda>s. (s_flight_id s, s_seat_no s)) (d_seats d)"
    by (rule stored_key [where c = "UniqueConstraint [''flight_id'', ''seat_no''] (Some ''uq_seat_per_flight'')" and cols = "[''flight_id'', ''seat_no'']" and k = mapped_SeatInventory and f = "seat_cells", OF acc]) (simp_all add: stored_simps)
  show "unique_key b_id (d_bookings d)"
    by (rule stored_key [where c = "PrimaryKeyConstraint [''id'']" and cols = "[''id'']" and k = mapped_Booking and f = "booking_cells now", OF acc]) (simp_all add: stored_simps)
  show "unique_key b_ref (d_bookings d)"
    by (rule stored_key [where c = "UniqueConstraint [''ref''] None" and cols = "[''ref'']" and k = mapped_Booking and f = "booking_cells now", OF acc]) (simp_all add: stored_simps)
  show "unique_key p_id (d_passengers d)"
    by (rule stored_key [where c = "PrimaryKeyConstraint [''id'']" and cols = "[''id'']" and k = mapped_BookingPassenger and f = "passenger_cells", OF acc]) (simp_all add: stored_simps)
  show "unique_key pay_id (d_payments d)"
    by (rule stored_key [where c = "PrimaryKeyConstraint [''id'']" and cols = "[''id'']" and k = mapped_Payment and f = "payment_cells now", OF acc]) (simp_all add: stored_simps)
  show "unique_key t_id (d_tickets d)"
    by (rule stored_key [where c = "PrimaryKeyConstraint [''id'']" and cols = "[''id'']" and k = mapped_Ticket and f = "ticket_cells", OF acc]) (simp_all add: stored_simps)
  show "unique_key t_e_ticket_no (d_tickets d)"
    by (rule stored_key [where c = "UniqueConstraint [''e_ticket_no''] None" and cols = "[''e_ticket_no'']" and k = mapped_Ticket and f = "ticket_cells", OF acc]) (simp_all add: stored_simps)
  show "unique_key (\<lambda>k. (ik_key k, ik_user_id k)) (d_idem d)"
    by (rule stored_key [where c = "PrimaryKeyConstraint [''key'', ''user_id'']" and cols = "[''key'', ''user_id'']" and k = mapped_IdempotencyKey and f = "idem_cells now", OF acc]) (simp_all add: stored_simps)
  show "unique_key a_id (d_audit d)"
    by (rule stored_key [where c = "PrimaryKeyConstraint [''id'']" and cols = "[''id'']" and k = mapped_BookingAudit and f = "audit_cells now", OF acc]) (simp_all add: stored_simps)
  show "unique_key (\<lambda>a. (a_booking_id a, a_seq a)) (d_audit d)"
    by (rule stored_key [where c = "UniqueConstraint [''booking_id'', ''seq''] (Some ''uq_audit_seq'')" and cols = "[''booking_id'', ''seq'']" and k = mapped_BookingAudit and f = "audit_cells now", OF acc]) (simp_all add: stored_simps)
  show "unique_key se_id (d_events d)"
    by (rule stored_key [where c = "PrimaryKeyConstraint [''id'']" and cols = "[''id'']" and k = mapped_SecurityEvent and f = "event_cells", OF acc]) (simp_all add: stored_simps)
qed

lemma stored_flights:
  assumes acc: "accepts (stored now d ow rl df)"
  shows "list_all flight_ok (d_flights d)"
  unfolding list_all_iff
proof
  fix x assume x: "x \<in> set (d_flights d)"
  have "check_passes (Gt (Col ''arrive_at'') (Col ''depart_at'')) (flight_cells x)"
    by (rule stored_check [where k = mapped_Flight and n = "''ck_flight_times''" and f = flight_cells and xs = "d_flights d", OF acc])
      (simp_all add: stored_simps x)
  moreover have "check_passes (Ge (Col ''base_fare'') (Num 0)) (flight_cells x)"
    by (rule stored_check [where k = mapped_Flight and n = "''ck_flight_fare_nonneg''" and f = flight_cells and xs = "d_flights d", OF acc])
      (simp_all add: stored_simps x)
  ultimately show "flight_ok x" by (simp add: check_passes_def flight_ok_def stored_simps)
qed

lemma seat_status_value_eq [simp]:
  "seat_status_value s = ''held'' \<longleftrightarrow> s = HELD" "seat_status_value s = ''booked'' \<longleftrightarrow> s = BOOKED"
  by (cases s; simp)+

lemma null_or_Null [simp]:
  "null_or VUuid x = Null \<longleftrightarrow> x = None" "null_or VTime y = Null \<longleftrightarrow> y = None" "null_or VText z = Null \<longleftrightarrow> z = None"
  by (cases x, simp_all, cases y, simp_all, cases z, simp_all)

lemma sql_bool [simp]:
  "sql_or (VBool a) (VBool b) = VBool (a \<or> b)" "sql_and (VBool a) (VBool b) = VBool (a \<and> b)"
  by (cases a; cases b; simp)+

lemma stored_seats:
  assumes acc: "accepts (stored now d ow rl df)"
  shows "list_all seat_ok (d_seats d)"
  unfolding list_all_iff
proof
  fix x assume x: "x \<in> set (d_seats d)"
  have "check_passes (Or (Ne (Col ''status'') (Lit ''held''))
      (And (And (IsNotNull (Col ''held_by_user_id'')) (IsNotNull (Col ''hold_expires_at'')))
           (IsNotNull (Col ''hold_id'')))) (seat_cells x)"
    by (rule stored_check [where k = mapped_SeatInventory and n = "''ck_held_seat_has_holder''" and f = seat_cells and xs = "d_seats d", OF acc])
      (simp_all add: stored_simps x)
  moreover have "check_passes (Or (Ne (Col ''status'') (Lit ''booked'')) (IsNotNull (Col ''booking_id''))) (seat_cells x)"
    by (rule stored_check [where k = mapped_SeatInventory and n = "''ck_booked_seat_has_booking''" and f = seat_cells and xs = "d_seats d", OF acc])
      (simp_all add: stored_simps x)
  ultimately show "seat_ok x"
    by (cases "s_status x") (auto simp: check_passes_def seat_ok_def stored_simps cell_eq_def)
qed

lemma declared_columns:
  "(mapped_column ''ref'' PyStr False)\<lparr>m_type := Some (String 6), m_unique := True, m_nullable := Some False\<rparr>
     \<in> set (cl_columns mapped_Booking)"
  "(mapped_column ''total_amount'' PyDecimal False)\<lparr>m_type := Some (Numeric 12 2), m_nullable := Some False\<rparr>
     \<in> set (cl_columns mapped_Booking)"
  "(mapped_column ''idempotency_key'' PyStr True)\<lparr>m_type := Some (String 128)\<rparr> \<in> set (cl_columns mapped_Booking)"
  "(mapped_column ''provider'' PyStr False)\<lparr>m_type := Some (String 32), m_nullable := Some False\<rparr> \<in> set (cl_columns mapped_Payment)"
  "(mapped_column ''card_token'' PyStr False)\<lparr>m_type := Some (String 64), m_nullable := Some False\<rparr> \<in> set (cl_columns mapped_Payment)"
  "(mapped_column ''card_fingerprint'' PyStr False)\<lparr>m_type := Some (String 64), m_nullable := Some False, m_index := True\<rparr>
     \<in> set (cl_columns mapped_Payment)"
  "(mapped_column ''idempotency_key'' PyStr False)\<lparr>m_type := Some (String 128), m_nullable := Some False\<rparr>
     \<in> set (cl_columns mapped_Payment)"
  by (simp_all add: mapped_Booking_def mapped_Payment_def mapped_column_def)

lemmas column_simps = mapped_column_def resolved_type_def plain_type_def

lemma stored_bookings:
  assumes acc: "accepts (stored now d ow rl df)"
  shows "list_all booking_ok (d_bookings d)"
  unfolding list_all_iff
proof
  fix x assume x: "x \<in> set (d_bookings d)"
  have rows: "rows_of now d (cl_table mapped_Booking) = map (booking_cells now) (d_bookings d)"
    by (simp add: class_names rows_simps)
  note cell = stored_cell [OF acc _ _ rows x]
  have "check_passes (Ge (Col ''total_amount'') (Num 0)) (booking_cells now x)"
    by (rule stored_check [where k = mapped_Booking and n = "''ck_booking_total_nonneg''" and f = "booking_cells now" and xs = "d_bookings d", OF acc])
      (simp_all add: stored_simps x)
  moreover note cell [OF _ declared_columns(1)] cell [OF _ declared_columns(2)] cell [OF _ declared_columns(3)]
  ultimately show "booking_ok x"
    by (cases "b_idempotency_key x")
      (simp_all add: check_passes_def booking_ok_def row_defs column_simps)
qed

lemma stored_payments:
  assumes acc: "accepts (stored now d ow rl df)"
  shows "list_all payment_ok (d_payments d)"
  unfolding list_all_iff
proof
  fix x assume x: "x \<in> set (d_payments d)"
  have rows: "rows_of now d (cl_table mapped_Payment) = map (payment_cells now) (d_payments d)"
    by (simp add: class_names rows_simps)
  note cell = stored_cell [OF acc _ _ rows x]
  show "payment_ok x"
    using cell [OF _ declared_columns(4)] cell [OF _ declared_columns(5)] cell [OF _ declared_columns(6)]
      cell [OF _ declared_columns(7)]
    by (simp add: payment_ok_def row_defs column_simps)
qed

lemma stored_live_tickets:
  assumes acc: "accepts (stored now d ow rl df)"
  shows "unique_key t_seat_id (filter live_ticket (d_tickets d))"
    "unique_key t_passenger_id (filter live_ticket (d_tickets d))"
proof -
  have i: "index_accepts (rows_of now d) \<lparr>ix_name = n, ix_table = ''tickets'', ix_columns = [c], ix_unique = True,
             ix_where = Some (IsNull (Col ''voided_at''))\<rparr>"
    if "(n, c) \<in> {(''uq_ticket_live_per_seat'', ''seat_inventory_id''), (''uq_ticket_live_per_passenger'', ''passenger_id'')}" for n c
    by (rule stored_index [OF acc model_class(8)])
      (use that in \<open>auto simp: class_indexes_def column_index_def mapped_Ticket_def\<close>)
  have w: "where_holds (Some (IsNull (Col ''voided_at''))) (ticket_cells x) \<longleftrightarrow> live_ticket x" for x
    by (simp add: where_holds_def live_ticket_def row_defs)
  show "unique_key t_seat_id (filter live_ticket (d_tickets d))"
    by (rule key_holds_unique [where cols = "[''seat_inventory_id'']" and w = "Some (IsNull (Col ''voided_at''))" and f = ticket_cells])
      (use i [of "''uq_ticket_live_per_seat''" "''seat_inventory_id''"] in
        \<open>simp_all add: index_accepts_def rows_simps w\<close>, simp_all add: row_defs)
  show "unique_key t_passenger_id (filter live_ticket (d_tickets d))"
    by (rule key_holds_unique [where cols = "[''passenger_id'']" and w = "Some (IsNull (Col ''voided_at''))" and f = ticket_cells])
      (use i [of "''uq_ticket_live_per_passenger''" "''passenger_id''"] in
        \<open>simp_all add: index_accepts_def rows_simps w\<close>, simp_all add: row_defs)
qed

text \<open>
  C25: What the migrated schema accepts satisfies \<open>db_ok\<close>: each constraint the proofs about
  the services rest on is one that the migrations install.
\<close>

theorem migrated_schema_enforces_db_ok:
  assumes "accepts (snd (with_rows (rows_of now d) (at_head ow rl df)))"
  shows "db_ok d"
proof -
  have acc: "accepts (stored now d ow rl df)" using assms by (simp add: stored_def)
  show ?thesis
    unfolding db_ok_def seats_ok_def tickets_ok_def audit_ok_def
    using stored_keys [OF acc] stored_flights [OF acc] stored_seats [OF acc] stored_bookings [OF acc]
      stored_payments [OF acc] stored_live_tickets [OF acc]
    by blast
qed

subsection \<open>A seat sold twice\<close>

text \<open>
  A database in which a seat was sold, the booking cancelled, and the seat sold again: one
  voided and one valid ticket for it.
\<close>

definition resold_db :: db where
  "resold_db = empty_db\<lparr>
     d_users := [\<lparr>u_id = 1, u_email = ''a@b.ca'', u_password_hash = ''h'', u_full_name = None, u_is_admin = False,
                 u_is_active = True, u_failed_login_count = 0, u_locked_until = None, u_created_at = 0\<rparr>],
     d_airports := [\<lparr>ap_iata = ''YYZ'', ap_icao = None, ap_name = ''T'', ap_city = None, ap_country = Some ''CA'',
                     ap_coords = None\<rparr>],
     d_airlines := [\<lparr>al_iata = ''AC'', al_icao = None, al_name = ''A'', al_country = None, al_active = True\<rparr>],
     d_flights := [\<lparr>fl_id = 2, fl_flight_no = ''AC1'', fl_airline_iata = ''AC'', fl_src_iata = ''YYZ'',
                    fl_dst_iata = ''YYZ'', fl_depart_at = 100, fl_arrive_at = 200, fl_aircraft_type = ''320'',
                    fl_base_fare = 9900, fl_currency = ''CAD''\<rparr>],
     d_fares := [\<lparr>fc_id = 3, fc_flight_id = 2, fc_code = ''Y'', fc_cabin = ''economy'', fc_multiplier = 1,
                  fc_seats_total = 1\<rparr>],
     d_seats := [\<lparr>s_id = 4, s_flight_id = 2, s_seat_no = ''1A'', s_row_no = 1, s_letter = ''A'',
                  s_cabin = ''economy'', s_fare_class_id = 3, s_is_exit_row = False, s_price = 9900,
                  s_status = BOOKED, s_held_by = None, s_hold_id = None, s_hold_expires_at = None,
                  s_booking_id = Some 6, s_version = 4\<rparr>],
     d_bookings := [\<lparr>b_id = 5, b_ref = ''AAAAAA'', b_user_id = 1, b_flight_id = 2, b_state = BS_CANCELLED,
                     b_total_amount = 9900, b_currency = ''CAD'', b_idempotency_key = None, b_created_at = 0\<rparr>,
                    \<lparr>b_id = 6, b_ref = ''BBBBBB'', b_user_id = 1, b_flight_id = 2, b_state = BS_CONFIRMED,
                     b_total_amount = 9900, b_currency = ''CAD'', b_idempotency_key = None, b_created_at = 1\<rparr>],
     d_passengers := [\<lparr>p_id = 7, p_booking_id = 5, p_given_name = ''G'', p_family_name = ''F'', p_dob_enc = None,
                       p_passport_enc = None, p_passport_last4 = None, p_seat_inventory_id = Some 4\<rparr>,
                      \<lparr>p_id = 8, p_booking_id = 6, p_given_name = ''G'', p_family_name = ''F'', p_dob_enc = None,
                       p_passport_enc = None, p_passport_last4 = None, p_seat_inventory_id = Some 4\<rparr>],
     d_tickets := [\<lparr>t_id = 9, t_booking_id = 5, t_passenger_id = 7, t_seat_id = 4, t_e_ticket_no = ''1'',
                    t_issued_at = 0, t_voided_at = Some 1\<rparr>,
                   \<lparr>t_id = 10, t_booking_id = 6, t_passenger_id = 8, t_seat_id = 4, t_e_ticket_no = ''2'',
                    t_issued_at = 1, t_voided_at = None\<rparr>]\<rparr>"

definition class_accepts :: "(string \<Rightarrow> row list) \<Rightarrow> mapped_class \<Rightarrow> bool" where
  "class_accepts R k =
     (list_all (\<lambda>m. column_accepts (R (cl_table k)) (class_column model_classes m)) (cl_columns k) \<and>
      (\<forall>c\<in>tb_constraints (snd (declared k)). constr_accepts R (R (cl_table k)) c) \<and>
      list_all (index_accepts R) (class_indexes k))"

lemma accepts_by_class:
  "accepts (stored now d ow rl df) \<longleftrightarrow> (\<forall>k\<in>set model_classes. class_accepts (rows_of now d) k)"
proof -
  have "accepts (stored now d ow rl df) \<longleftrightarrow>
      (\<forall>x\<in>class_table model_classes ` set model_classes.
         list_all (column_accepts (rows_of now d (fst x))) (tb_columns (snd x)) \<and>
         (\<forall>c\<in>tb_constraints (snd x). constr_accepts (rows_of now d) (rows_of now d (fst x)) c)) \<and>
      (\<forall>i\<in>(\<Union>k\<in>set model_classes. set (class_indexes k)). index_accepts (rows_of now d) i)"
    unfolding head_tables_declared [of ow rl df, symmetric] head_indexes_declared [of ow rl df, symmetric]
    by (simp add: accepts_def stored_def with_rows_def at_head_def list_all_iff case_prod_unfold)
  moreover have "fst (declared k) = cl_table k"
    "set (tb_columns (snd (declared k))) = class_column model_classes ` set (cl_columns k)" for k
    by (simp_all add: class_table_def)
  ultimately show ?thesis
    unfolding class_accepts_def list_all_iff by (simp add: ball_conj_distrib)
qed

lemmas accept_eval = class_accepts_def mapped_defs metadata_defs referred_types class_indexes_def column_index_def
  column_accepts_def index_accepts_def key_holds_def where_holds_def check_passes_def rows_simps resold_db_def
  empty_db_def cell_eq_def airport_cells_def airline_cells_def route_cells_def fare_cells_def row_defs

lemma resold_reference_accepted:
  "class_accepts (rows_of 0 resold_db) mapped_Airport" "class_accepts (rows_of 0 resold_db) mapped_Airline"
  "class_accepts (rows_of 0 resold_db) mapped_Route" "class_accepts (rows_of 0 resold_db) mapped_Flight"
  "class_accepts (rows_of 0 resold_db) mapped_FareClass" "class_accepts (rows_of 0 resold_db) mapped_User"
  "class_accepts (rows_of 0 resold_db) mapped_RefreshToken"
  by (simp_all add: accept_eval)

lemma resold_sale_accepted:
  "class_accepts (rows_of 0 resold_db) mapped_SeatInventory" "class_accepts (rows_of 0 resold_db) mapped_Booking"
  "class_accepts (rows_of 0 resold_db) mapped_BookingPassenger" "class_accepts (rows_of 0 resold_db) mapped_Payment"
  "class_accepts (rows_of 0 resold_db) mapped_Ticket" "class_accepts (rows_of 0 resold_db) mapped_IdempotencyKey"
  "class_accepts (rows_of 0 resold_db) mapped_BookingAudit" "class_accepts (rows_of 0 resold_db) mapped_SecurityEvent"
  by (simp_all add: accept_eval)

lemma resold_db_accepted: "accepts (stored 0 resold_db ow rl df)"
  unfolding accepts_by_class set_model_classes
  using resold_reference_accepted resold_sale_accepted by simp

theorem migrated_schema_enforces_db_ok_witness: "db_ok resold_db"
  by (rule migrated_schema_enforces_db_ok [OF resold_db_accepted [unfolded stored_def]])

text \<open>Taking \<open>voided_at\<close> away from the rows makes every ticket a valid one.\<close>

lemma unvoided_rows:
  "(rows_of now d)(''tickets'' := map (\<lambda>r. r(''voided_at'' := Null)) (rows_of now d ''tickets'')) =
     rows_of now (d\<lparr>d_tickets := map (\<lambda>t. t\<lparr>t_voided_at := None\<rparr>) (d_tickets d)\<rparr>)"
  by (auto simp: rows_of_def fun_eq_iff row_defs)

lemma ticket_keys_of_rows:
  "key_holds [''seat_inventory_id''] None (rows_of now d ''tickets'') = unique_key t_seat_id (d_tickets d)"
  "key_holds [''passenger_id''] None (rows_of now d ''tickets'') = unique_key t_passenger_id (d_tickets d)"
proof -
  have inj: "inj (\<lambda>u. [VUuid u])" by (simp add: inj_def)
  show "key_holds [''seat_inventory_id''] None (rows_of now d ''tickets'') = unique_key t_seat_id (d_tickets d)"
    "key_holds [''passenger_id''] None (rows_of now d ''tickets'') = unique_key t_passenger_id (d_tickets d)"
    using distinct_map [of "\<lambda>u. [VUuid u]" "map t_seat_id (d_tickets d)"]
      distinct_map [of "\<lambda>u. [VUuid u]" "map t_passenger_id (d_tickets d)"] inj_on_subset [OF inj]
    by (simp_all add: key_holds_def rows_simps where_holds_def filter_map o_def row_defs unique_key_def)
qed

text \<open>
  C29: The step back from the last revision fails, and leaves everything as it is, exactly when
  a seat or a passenger has been ticketed more than once, voided tickets included, as after a
  cancelled seat is sold again; when it succeeds, every voided ticket is a valid one again.
\<close>

theorem unvoiding_is_lossy:
  "do_run_migrations (run_downgrades [void_revision]) (with_rows (rows_of now d) (at_head ow rl df)) =
     (if unique_key t_seat_id (d_tickets d) \<and> unique_key t_passenger_id (d_tickets d)
      then (Inr (), with_rows (rows_of now (d\<lparr>d_tickets := map (\<lambda>t. t\<lparr>t_voided_at := None\<rparr>) (d_tickets d)\<rparr>))
                      (Some (rev_id append_only_revision), append_only_state ow rl df))
      else (Inl UniqueViolation, with_rows (rows_of now d) (at_head ow rl df)))"
  unfolding unvoid_step unvoided_rows twice_ticketed_def ticket_keys_of_rows
  by (simp add: with_rows_def)

lemma resold_seat_cannot_step_back:
  "fst (do_run_migrations (run_downgrades [void_revision]) (with_rows (rows_of now resold_db) (at_head ow rl df))) =
     Inl UniqueViolation"
  unfolding unvoid_step twice_ticketed_def ticket_keys_of_rows by (simp add: resold_db_def unique_key_def)

end
