(* ===== verification/Sky_Exploit.thy ===== *)
theory Sky_Exploit
  imports Sky_Routes "HOL-Library.Sublist"
begin

text \<open>
  The routes of one booking on the wire (\<^verbatim>\<open>app/api/bookings.py\<close> behind \<open>OwnedBooking\<close>), and
  \<^verbatim>\<open>scripts/exploit_bola.py\<close>, the attack on them: its search for a seat, its four probes, its
  test for an enumeration oracle and its verdict. The lemmas compute the verdict for an attacker
  who owns nothing.
\<close>

subsection \<open>Answers as texts\<close>

text \<open>
  \<open>JSONResponse\<close>: \<open>json.dumps\<close> with \<open>ensure_ascii=False\<close> and separators without blanks. Ids, instants
  and amounts are written as in \<open>canonical\<close>.
\<close>

definition escape_text :: "char \<Rightarrow> string" where
  "escape_text c =
     (let n = of_char c :: nat in
      if n = 34 then [CHR 0x5C, CHR 0x22]
      else if n = 92 then [CHR 0x5C, CHR 0x5C]
      else if n = 10 then [CHR 0x5C, CHR ''n'']
      else if n = 13 then [CHR 0x5C, CHR ''r'']
      else if n = 9 then [CHR 0x5C, CHR ''t'']
      else if n = 12 then [CHR 0x5C, CHR ''f'']
      else if n = 8 then [CHR 0x5C, CHR ''b'']
      else if n < 32 then [CHR 0x5C, CHR ''u'', CHR ''0'', CHR ''0'', hex_digit (n div 16), hex_digit (n mod 16)]
      else [c])"

definition quoted :: "string \<Rightarrow> string" where
  "quoted s = [CHR 0x22] @ concat (map escape_text s) @ [CHR 0x22]"

fun dumps :: "json \<Rightarrow> string" where
  "dumps JNull = ''null''"
| "dumps (JBool b) = (if b then ''true'' else ''false'')"
| "dumps (JInt i) = show_int i"
| "dumps (JStr s) = quoted s"
| "dumps (JUuid u) = quoted (uuid_str u)"
| "dumps (JTime t) = quoted (show_int t)"
| "dumps (JMoney c) = quoted (show_cents c)"
| "dumps (JList xs) = ''['' @ join '','' (map dumps xs) @ '']''"
| "dumps (JObj kvs) = ''{'' @ join '','' (map (\<lambda>(k, v). quoted k @ '':'' @ dumps v) kvs) @ ''}''"

datatype content = Json json | Plain string

record answer =
  an_status :: int
  an_content :: content

definition answer_text :: "answer \<Rightarrow> string" where
  "answer_text a = (case an_content a of Json j \<Rightarrow> dumps j | Plain s \<Rightarrow> s)"

definition on_the_wire :: "response \<Rightarrow> answer" where
  "on_the_wire r = \<lparr>an_status = rsp_status r, an_content = Json (JObj (rsp_body r))\<rparr>"

text \<open>An exception without a handler of its own is the plain text 500 of the server.\<close>

definition wire_error :: "string \<Rightarrow> exn \<Rightarrow> answer" where
  "wire_error path e =
     (case e of
        App a \<Rightarrow> on_the_wire (app_error_handler a path)
      | HttpError code detail \<Rightarrow> on_the_wire (http_error_handler code detail [] path)
      | _ \<Rightarrow> \<lparr>an_status = 500, an_content = Plain ''Internal Server Error''\<rparr>)"

subsection \<open>The routes of one booking\<close>

text \<open>
  The session, the caller, the reference, \<open>OwnedBooking\<close>, the body, the handler: in this order. The
  handlers of \<open>Sky_Bookings\<close> begin with \<open>owned_booking\<close>; a body that is refused is refused after it.
\<close>

definition booking_route ::
  "crypto \<Rightarrow> (string \<Rightarrow> string option) \<Rightarrow> call \<Rightarrow> string \<Rightarrow> 'p option \<Rightarrow>
   (user \<Rightarrow> 'p \<Rightarrow> world \<Rightarrow> (exn + json) \<times> world) \<Rightarrow> world \<Rightarrow> answer \<times> world" where
  "booking_route cr bearer c ref payload handler w =
     (let path = rq_path (hc_request c); refuse = (\<lambda>w. map_prod on_the_wire id (reject c (rollback w))) in
      case current_user cr (hc_now c) (bearer (hc_authorization c)) (w_com w) of
        Inl e \<Rightarrow> (wire_error path e, rollback w)
      | Inr u \<Rightarrow>
          if \<not> valid_ref ref then refuse w
          else
            (case payload of
               None \<Rightarrow>
                 (case owned_booking (hc_now c) (Some (hc_request c)) ref u (rollback w) of
                    (Inl e, w1) \<Rightarrow> (wire_error path e, rollback w1)
                  | (Inr b, w1) \<Rightarrow> refuse w1)
             | Some p \<Rightarrow>
                 (case handler u p (rollback w) of
                    (Inl e, w1) \<Rightarrow> (wire_error path e, rollback w1)
                  | (Inr j, w1) \<Rightarrow> (\<lparr>an_status = 200, an_content = Json j\<rparr>, w1))))"

definition map_result :: "('a \<Rightarrow> 'b) \<Rightarrow> (exn + 'a) \<times> world \<Rightarrow> (exn + 'b) \<times> world" where
  "map_result f r = map_prod (map_sum id f) id r"

text \<open>\<open>AuditEntryResponse\<close>; \<open>occurred_at\<close> is the column filled by the server, an argument here.\<close>

definition audit_entry_json :: "(booking_audit \<Rightarrow> time) \<Rightarrow> booking_audit \<Rightarrow> json" where
  "audit_entry_json occurred_at a = JObj
     [(''seq'', JInt (int (a_seq a))), (''event_type'', JStr (audit_event_value (a_event_type a))),
      (''actor_type'', JStr (a_actor_type a)),
      (''from_state'', opt_str (map_option booking_state_value (a_from_state a))),
      (''to_state'', opt_str (map_option booking_state_value (a_to_state a))), (''detail'', a_detail a),
      (''occurred_at'', JTime (occurred_at a))]"

definition get_booking_route ::
  "crypto \<Rightarrow> (string \<Rightarrow> string option) \<Rightarrow> call \<Rightarrow> string \<Rightarrow> world \<Rightarrow> answer \<times> world" where
  "get_booking_route cr bearer c ref =
     booking_route cr bearer c ref (Some ())
       (\<lambda>u _ w. map_result JObj (get_booking (hc_now c) (Some (hc_request c)) ref u w))"

definition audit_route ::
  "crypto \<Rightarrow> (string \<Rightarrow> string option) \<Rightarrow> (booking_audit \<Rightarrow> time) \<Rightarrow> call \<Rightarrow> string \<Rightarrow> world \<Rightarrow> answer \<times> world" where
  "audit_route cr bearer occurred_at c ref =
     booking_route cr bearer c ref (Some ())
       (\<lambda>u _ w. map_result (JList \<circ> map (audit_entry_json occurred_at))
          (booking_audit_log (hc_now c) (Some (hc_request c)) ref u w))"

definition patch_route ::
  "crypto \<Rightarrow> (string \<Rightarrow> string option) \<Rightarrow> call \<Rightarrow> string \<Rightarrow> passenger_update list \<Rightarrow> world \<Rightarrow> answer \<times> world" where
  "patch_route cr bearer c ref body =
     booking_route cr bearer c ref (parse_booking_patch body)
       (\<lambda>u updates w. map_result JObj (update_booking (hc_now c) (Some (hc_request c)) ref u updates w))"

definition cancel_route ::
  "crypto \<Rightarrow> (string \<Rightarrow> string option) \<Rightarrow> call \<Rightarrow> string \<Rightarrow> world \<Rightarrow> answer \<times> world" where
  "cancel_route cr bearer c ref =
     booking_route cr bearer c ref (Some ())
       (\<lambda>u _ w. map_result JObj (cancel_booking (hc_now c) (Some (hc_request c)) ref u w))"

subsection \<open>Finding a seat\<close>

fun first_some :: "('a \<Rightarrow> 'b option) \<Rightarrow> 'a list \<Rightarrow> 'b option" where
  "first_some f [] = None"
| "first_some f (x # xs) = (case f x of None \<Rightarrow> first_some f xs | Some y \<Rightarrow> Some y)"

text \<open>
  The loop both demonstration scripts start with: ten days, the given pairs of airports, the items
  of the first search page. A flight with more than \<open>threshold\<close> free seats is looked up, and \<open>pick\<close>
  says what becomes of it and its free seats.
\<close>

definition SEARCH_PAGE_SIZE :: nat where "SEARCH_PAGE_SIZE = 20"

definition free_seats :: "time \<Rightarrow> uuid \<Rightarrow> db \<Rightarrow> string list" where
  "free_seats now flight_id d =
     (case seat_map now flight_id d of
        Inl e \<Rightarrow> []
      | Inr m \<Rightarrow> map sr_seat_no (filter sr_available (sm_seats m)))"

definition scan_flights ::
  "time \<Rightarrow> int \<Rightarrow> (string \<times> string) list \<Rightarrow> nat \<Rightarrow> (uuid \<Rightarrow> string list \<Rightarrow> 'a option) \<Rightarrow> db \<Rightarrow> 'a option" where
  "scan_flights now today routes threshold pick d =
     first_some (\<lambda>(days, origin, destination).
       first_some (\<lambda>item.
           if fs_seats_available item > threshold
           then pick (fl_id (fs_flight item)) (free_seats now (fl_id (fs_flight item)) d) else None)
         (case search_flights now today origin destination (today + int days) 1 SEARCH_PAGE_SIZE d of
            Inl e \<Rightarrow> [] | Inr page \<Rightarrow> pg_items page))
       (List.product [0..<10] routes)"

definition EXPLOIT_ROUTES :: "(string \<times> string) list" where
  "EXPLOIT_ROUTES =
     [(''YOW'', ''YYZ''), (''JFK'', ''LHR''), (''SFO'', ''JFK''), (''LHR'', ''SFO''),
      (''YVR'', ''YUL''), (''ORD'', ''SFO''), (''YUL'', ''LHR''), (''SFO'', ''YVR'')]"

definition find_seat :: "time \<Rightarrow> int \<Rightarrow> db \<Rightarrow> (uuid \<times> string) option" where
  "find_seat now today =
     scan_flights now today EXPLOIT_ROUTES 2 (\<lambda>flight free. case free of [] \<Rightarrow> None | s # _ \<Rightarrow> Some (flight, s))"

subsection \<open>The attack\<close>

definition VICTIM_PASSPORT :: string where "VICTIM_PASSPORT = ''X9987654''"
definition VICTIM_GIVEN :: string where "VICTIM_GIVEN = ''Marguerite''"
definition VICTIM_FAMILY :: string where "VICTIM_FAMILY = ''Ashworth''"

definition markers :: "string list" where
  "markers = [last4 VICTIM_PASSPORT, VICTIM_GIVEN, VICTIM_FAMILY]"

datatype probe = ReadBooking | ReadHistory | RenamePassenger uuid | CancelFlight

fun probe_method :: "probe \<Rightarrow> string" where
  "probe_method ReadBooking = ''GET''"
| "probe_method ReadHistory = ''GET''"
| "probe_method (RenamePassenger i) = ''PATCH''"
| "probe_method CancelFlight = ''POST''"

fun probe_path :: "string \<Rightarrow> probe \<Rightarrow> string" where
  "probe_path pnr ReadBooking = ''/bookings/'' @ pnr"
| "probe_path pnr ReadHistory = ''/bookings/'' @ pnr @ ''/audit''"
| "probe_path pnr (RenamePassenger i) = ''/bookings/'' @ pnr"
| "probe_path pnr CancelFlight = ''/bookings/'' @ pnr @ ''/cancel''"

definition probe_call :: "call \<Rightarrow> string \<Rightarrow> probe \<Rightarrow> call" where
  "probe_call c pnr p =
     c\<lparr>hc_request := (hc_request c)\<lparr>rq_method := probe_method p, rq_path := probe_path pnr p\<rparr>\<rparr>"

fun send :: "crypto \<Rightarrow> (string \<Rightarrow> string option) \<Rightarrow> (booking_audit \<Rightarrow> time) \<Rightarrow> call \<Rightarrow> string \<Rightarrow> probe \<Rightarrow> world \<Rightarrow> answer \<times> world" where
  "send cr bearer occ c pnr ReadBooking = get_booking_route cr bearer (probe_call c pnr ReadBooking) pnr"
| "send cr bearer occ c pnr ReadHistory = audit_route cr bearer occ (probe_call c pnr ReadHistory) pnr"
| "send cr bearer occ c pnr (RenamePassenger i) =
     patch_route cr bearer (probe_call c pnr (RenamePassenger i)) pnr
       [\<lparr>pu_passenger_id = i, pu_given_name = Some ''Mallory'', pu_family_name = None\<rparr>]"
| "send cr bearer occ c pnr CancelFlight = cancel_route cr bearer (probe_call c pnr CancelFlight) pnr"

definition exposed :: "answer \<Rightarrow> bool" where
  "exposed a = list_ex (\<lambda>m. sublist m (answer_text a)) markers"

definition is_leak :: "answer \<Rightarrow> bool" where
  "is_leak a = (an_status a < 400 \<or> exposed a)"

type_synonym leak = "string \<times> string \<times> int \<times> string"

text \<open>The loop over the probes; \<open>cs\<close> is what the service sees of the requests besides method and path.\<close>

fun run_probes ::
  "crypto \<Rightarrow> (string \<Rightarrow> string option) \<Rightarrow> (booking_audit \<Rightarrow> time) \<Rightarrow> string \<Rightarrow> (call \<times> probe) list \<Rightarrow> world \<Rightarrow> leak list \<times> world" where
  "run_probes cr bearer occ pnr [] w = ([], w)"
| "run_probes cr bearer occ pnr ((c, p) # cps) w =
     (case send cr bearer occ c pnr p w of
        (a, w1) \<Rightarrow>
          (case run_probes cr bearer occ pnr cps w1 of
             (leaked, w2) \<Rightarrow>
               (if is_leak a
                then (probe_method p, probe_path pnr p, an_status a, take 220 (answer_text a)) # leaked
                else leaked, w2)))"

text \<open>\<open>comparable\<close>: \<open>body.get\<close> of a JSON value that is not an object raises.\<close>

datatype view = Fields int "json option list" | Text int string

definition comparable :: "answer \<Rightarrow> exn + view" where
  "comparable a =
     (case an_content a of
        Plain s \<Rightarrow> Inr (Text (an_status a) s)
      | Json (JObj kvs) \<Rightarrow> Inr (Fields (an_status a) (map (map_of kvs) [''code'', ''title'', ''detail'']))
      | Json j \<Rightarrow> Inl (ValueError ''AttributeError''))"

definition fake_for :: "string \<Rightarrow> string" where
  "fake_for pnr = (if pnr \<noteq> ''ZZZZZZ'' then ''ZZZZZZ'' else ''YYYYYY'')"

definition oracle_check ::
  "crypto \<Rightarrow> (string \<Rightarrow> string option) \<Rightarrow> (booking_audit \<Rightarrow> time) \<Rightarrow> string \<Rightarrow> call \<Rightarrow> call \<Rightarrow> world \<Rightarrow> (exn + bool) \<times> world" where
  "oracle_check cr bearer occ pnr c1 c2 w =
     (case send cr bearer occ c1 pnr ReadBooking w of
        (mine, w1) \<Rightarrow>
          (case send cr bearer occ c2 (fake_for pnr) ReadBooking w1 of
             (fake, w2) \<Rightarrow>
               (case comparable mine of
                  Inl e \<Rightarrow> (Inl e, w2)
                | Inr v \<Rightarrow> (case comparable fake of Inl e \<Rightarrow> (Inl e, w2) | Inr v' \<Rightarrow> (Inr (v \<noteq> v'), w2)))))"

text \<open>From the second account on: the probes, the oracle check, the exit status.\<close>

definition exploit ::
  "crypto \<Rightarrow> (string \<Rightarrow> string option) \<Rightarrow> (booking_audit \<Rightarrow> time) \<Rightarrow> (nat \<Rightarrow> call) \<Rightarrow> uuid \<Rightarrow> string \<Rightarrow> world \<Rightarrow> (exn + int) \<times> world" where
  "exploit cr bearer occ c stray pnr w =
     (case run_probes cr bearer occ pnr
             [(c 0, ReadBooking), (c 1, ReadHistory), (c 2, RenamePassenger stray), (c 3, CancelFlight)] w of
        (leaked, w1) \<Rightarrow>
          (case oracle_check cr bearer occ pnr (c 4) (c 5) w1 of
             (Inl e, w2) \<Rightarrow> (Inl e, w2)
           | (Inr oracle, w2) \<Rightarrow> (Inr (if leaked \<noteq> [] \<or> oracle then 1 else 0), w2)))"

subsection \<open>A stranger's answers\<close>

definition missing_problem :: "string \<Rightarrow> (string \<times> json) list" where
  "missing_problem path =
     [(''type'', JStr ''https://skylock.dev/problems/not_found''), (''title'', JStr ''Resource not found''),
      (''status'', JInt 404), (''detail'', JStr ''No such booking''), (''code'', JStr ''not_found''),
      (''instance'', JStr path)]"

definition missing_answer :: "string \<Rightarrow> answer" where
  "missing_answer path = \<lparr>an_status = 404, an_content = Json (JObj (missing_problem path))\<rparr>"

lemma missing_booking: "wire_error path (raise_app NotFound ''No such booking'') = missing_answer path"
  by (simp add: wire_error_def raise_app_def on_the_wire_def app_error_handler_def to_problem_def app_error_def
      dict_update_def missing_answer_def missing_problem_def)

lemma stranger_denied:
  assumes "bookings_of (u_id u) (w_cur w) = []"
  shows "owned_booking now rq ref u w =
    (Inl (raise_app NotFound ''No such booking''), deny now rq (u_id u) ''booking'' ref w)"
proof -
  have "fst (owned_booking now rq ref u w) = Inl (raise_app NotFound ''No such booking'')"
    using assms by (simp add: owned_booking_local select_one_def)
  then show ?thesis
    by (cases "owned_booking now rq ref u w") (use owned_booking_Inl in fastforce)
qed

text \<open>Every probe of a stranger gets the same 404 and leaves one event.\<close>

definition denied_event :: "call \<Rightarrow> user \<Rightarrow> string \<Rightarrow> world \<Rightarrow> world" where
  "denied_event c u ref w = rollback (deny (hc_now c) (Some (hc_request c)) (u_id u) ''booking'' ref (rollback w))"

lemma mallory_ok: "name_ok (strip ''Mallory'')"
  by code_simp

lemma stranger_probe:
  assumes u: "current_user cr (hc_now c) (bearer (hc_authorization c)) (w_com w) = Inr u"
    and none: "bookings_of (u_id u) (w_com w) = []" and ref: "valid_ref ref"
  shows "send cr bearer occ c ref p w =
    (missing_answer (probe_path ref p), denied_event (probe_call c ref p) u ref w)"
proof -
  have n: "bookings_of (u_id u) (w_cur (rollback w)) = []" using none by simp
  have cu: "current_user cr (hc_now (probe_call c ref p)) (bearer (hc_authorization (probe_call c ref p))) (w_com w) = Inr u"
    using u by (simp add: probe_call_def)
  have path: "rq_path (hc_request (probe_call c ref p)) = probe_path ref p" by (simp add: probe_call_def)
  have mallory: "parse_booking_patch [\<lparr>pu_passenger_id = i, pu_given_name = Some ''Mallory'', pu_family_name = None\<rparr>] \<noteq> None" for i
    using mallory_ok by (simp add: parse_booking_patch_def option_name_ok_def)
  let ?c = "probe_call c ref p"
  have wb: "map_result f (with_booking (hc_now ?c) (Some (hc_request ?c)) ref u h (rollback w)) =
      (Inl (raise_app NotFound ''No such booking''),
       deny (hc_now ?c) (Some (hc_request ?c)) (u_id u) ''booking'' ref (rollback w))" for f h
    by (simp add: with_booking_def stranger_denied [OF n] map_result_def)
  have sr: "\<And>payload handler. payload \<noteq> None \<Longrightarrow>
      (\<And>q. handler u q (rollback w) = (Inl (raise_app NotFound ''No such booking''),
         deny (hc_now ?c) (Some (hc_request ?c)) (u_id u) ''booking'' ref (rollback w))) \<Longrightarrow>
      booking_route cr bearer ?c ref payload handler w = (missing_answer (probe_path ref p), denied_event ?c u ref w)"
    using cu none ref by (auto simp: booking_route_def Let_def missing_booking path denied_event_def)
  show ?thesis
  proof (cases p)
    case ReadBooking
    show ?thesis
      unfolding ReadBooking send.simps get_booking_route_def
      by (rule sr [unfolded ReadBooking]) (simp_all add: get_booking_def wb [unfolded ReadBooking])
  next
    case ReadHistory
    show ?thesis
      unfolding ReadHistory send.simps audit_route_def
      by (rule sr [unfolded ReadHistory]) (simp_all add: booking_audit_log_def wb [unfolded ReadHistory])
  next
    case (RenamePassenger i)
    show ?thesis
      unfolding RenamePassenger send.simps patch_route_def
      by (rule sr [unfolded RenamePassenger]) (simp_all add: mallory update_booking_def wb [unfolded RenamePassenger])
  next
    case CancelFlight
    show ?thesis
      unfolding CancelFlight send.simps cancel_route_def
      by (rule sr [unfolded CancelFlight]) (simp_all add: cancel_booking_def wb [unfolded CancelFlight])
  qed
qed

subsection \<open>What a text can show\<close>

lemma sublist_around:
  assumes "c \<notin> set m" "m \<noteq> []"
  shows "sublist m (xs @ c # ys) \<longleftrightarrow> sublist m xs \<or> sublist m ys"
proof -
  have pre: "prefix k (c # ys) \<longleftrightarrow> k = []" if "set k \<subseteq> set m" for k
    using that assms(1) by (cases k) auto
  have "sublist m (c # ys) \<longleftrightarrow> sublist m ys"
    using pre [of m] assms(2) by (simp add: sublist_Cons_right)
  moreover have "sublist m xs" if "m = m1 @ m2" "suffix m1 xs" "prefix m2 (c # ys)" for m1 m2
    using that pre [of m2] by (auto intro: suffix_imp_sublist)
  ultimately show ?thesis by (auto simp: sublist_append)
qed

definition printable :: "char \<Rightarrow> bool" where
  "printable c = (32 \<le> (of_char c :: nat) \<and> (of_char c :: nat) \<noteq> 34 \<and> (of_char c :: nat) \<noteq> 92)"

lemma escape_printable: "list_all printable s \<Longrightarrow> concat (map escape_text s) = s"
  by (induction s) (auto simp: printable_def escape_text_def Let_def)

lemma ref_printable: "valid_ref ref \<Longrightarrow> list_all printable ref"
proof -
  have "list_all printable PNR_ALPHABET" by code_simp
  then show "valid_ref ref \<Longrightarrow> list_all printable ref" by (auto simp: valid_ref_def list_all_iff)
qed

text \<open>The constant part of the 404 before the last slash of its \<open>instance\<close> that precedes the reference.\<close>

definition missing_head :: string where
  "missing_head =
     ''{'' @ join '','' (map (\<lambda>(k, v). quoted k @ '':'' @ dumps v) (take 5 (missing_problem []))) @ '','' @
     quoted ''instance'' @ '':'' @ [CHR 0x22] @ ''/bookings''"

lemma missing_text:
  assumes "valid_ref pnr" "list_all printable sfx"
  shows "answer_text (missing_answer (''/bookings/'' @ pnr @ sfx)) =
    missing_head @ CHR ''/'' # pnr @ sfx @ [CHR 0x22] @ ''}''"
proof -
  have "list_all printable ''/bookings/''" by code_simp
  then have "list_all printable (''/bookings/'' @ pnr @ sfx)" using assms ref_printable by (simp only: list_all_append)
  from escape_printable [OF this]
  have q: "quoted (''/bookings/'' @ pnr @ sfx) = CHR 0x22 # ''/bookings'' @ CHR ''/'' # pnr @ sfx @ [CHR 0x22]"
    unfolding quoted_def by simp
  show ?thesis
    unfolding answer_text_def missing_answer_def missing_problem_def missing_head_def
    by (simp add: q [simplified append_Cons append_Nil])
qed

text \<open>
  The marker of the passport is four digits of the alphabet of references, the names are
  longer than a reference: what the 404 can show of the victim is the reference the attacker sent.
\<close>

lemma missing_exposes:
  assumes ref: "valid_ref pnr" and sfx: "sfx \<in> {[], ''/audit'', ''/cancel''}"
  shows "exposed (missing_answer (''/bookings/'' @ pnr @ sfx)) \<longleftrightarrow> sublist ''7654'' pnr"
proof -
  have len: "length pnr = 6" using ref by (simp add: valid_ref_def)
  have pr: "list_all printable sfx" using sfx by (elim insertE emptyE; simp only:; code_simp)
  have mk: "markers = [''7654'', VICTIM_GIVEN, VICTIM_FAMILY]" by code_simp
  have head: "\<not> sublist ''7654'' missing_head" "\<not> sublist VICTIM_GIVEN missing_head" "\<not> sublist VICTIM_FAMILY missing_head"
    by code_simp+
  have tail: "\<not> sublist m z" if "m \<in> set markers" "z \<in> {''}'', ''audit'' @ CHR 0x22 # ''}'', ''cancel'' @ CHR 0x22 # ''}''}" for m z
    using that unfolding mk by (elim insertE emptyE; simp only: set_simps; elim insertE emptyE; simp only:; code_simp)
  have sep: "CHR ''/'' \<notin> set m \<and> CHR 0x22 \<notin> set m \<and> m \<noteq> []" if "m \<in> set markers" for m
    using that by (auto simp: mk VICTIM_GIVEN_def VICTIM_FAMILY_def)
  have shown: "sublist m (answer_text (missing_answer (''/bookings/'' @ pnr @ sfx))) \<longleftrightarrow> sublist m pnr"
    if m: "m \<in> set markers" for m
  proof -
    have "\<not> sublist m missing_head" using m head by (auto simp: mk)
    then have "sublist m (answer_text (missing_answer (''/bookings/'' @ pnr @ sfx))) \<longleftrightarrow>
        sublist m (pnr @ sfx @ CHR 0x22 # ''}'')"
      using sep [OF m] by (simp add: missing_text [OF ref pr, simplified] sublist_around)
    also have "\<dots> \<longleftrightarrow> sublist m pnr"
      using sfx
    proof (elim insertE emptyE)
      assume "sfx = []"
      then show ?thesis using sep [OF m] tail [OF m] by (simp add: sublist_around)
    next
      assume s: "sfx = ''/audit''"
      have "\<not> sublist m (''audit'' @ CHR 0x22 # ''}'')" using tail [OF m] by blast
      then show ?thesis unfolding s using sublist_around [of "CHR ''/''" m pnr "''audit'' @ CHR 0x22 # ''}''"] sep [OF m] by simp
    next
      assume s: "sfx = ''/cancel''"
      have "\<not> sublist m (''cancel'' @ CHR 0x22 # ''}'')" using tail [OF m] by blast
      then show ?thesis unfolding s using sublist_around [of "CHR ''/''" m pnr "''cancel'' @ CHR 0x22 # ''}''"] sep [OF m] by simp
    qed
    finally show ?thesis .
  qed
  have long: "\<not> sublist VICTIM_GIVEN pnr" "\<not> sublist VICTIM_FAMILY pnr"
    using len sublist_length_le [of VICTIM_GIVEN pnr] sublist_length_le [of VICTIM_FAMILY pnr]
    by (auto simp: VICTIM_GIVEN_def VICTIM_FAMILY_def)
  show ?thesis using shown long by (auto simp: exposed_def mk)
qed

subsection \<open>The verdict\<close>

lemma current_user_rows:
  assumes "d_users d' = d_users d"
  shows "current_user cr now cred d' = current_user cr now cred d"
  unfolding current_user_def find_user_def assms ..

text \<open>What a sequence of denials leaves: the same rows, one event each.\<close>

definition denial :: "uuid \<Rightarrow> security_event \<Rightarrow> bool" where
  "denial u e = (se_event_type e = SE_AUTHZ_DENIED \<and> se_actor_user_id e = Some u)"

definition denials :: "nat \<Rightarrow> uuid \<Rightarrow> world \<Rightarrow> world \<Rightarrow> bool" where
  "denials k u w w' =
     (same_but_events (w_com w) (w_com w') \<and> w_gw w' = w_gw w \<and>
      (\<exists>es. d_events (w_com w') = d_events (w_com w) @ es \<and> length es = k \<and> list_all (denial u) es))"

lemma denials_0 [simp]: "denials 0 u w w"
  by (simp add: denials_def)

lemma denials_Suc: "denials k (u_id u) w w1 \<Longrightarrow> denials (Suc k) (u_id u) w (denied_event c u ref w1)"
  by (auto simp: denials_def denied_event_def deny_def same_but_events_def add_event_def denial_def no_args_def
    split: prod.split)

lemma denials_rows:
  assumes "denials k u w w'"
  shows "d_users (w_com w') = d_users (w_com w)" "bookings_of i (w_com w') = bookings_of i (w_com w)"
proof -
  have d: "(w_com w')\<lparr>d_events := d_events (w_com w)\<rparr> = w_com w"
    using assms by (simp add: denials_def same_but_events_def)
  from arg_cong [OF d, of d_users] show "d_users (w_com w') = d_users (w_com w)" by simp
  from arg_cong [OF d, of d_bookings] show "bookings_of i (w_com w') = bookings_of i (w_com w)"
    by (simp add: bookings_of_def)
qed

lemma stranger_again:
  assumes "current_user cr (hc_now c) (bearer (hc_authorization c)) (w_com w) = Inr u"
    and "bookings_of (u_id u) (w_com w) = []" "valid_ref ref" "denials k (u_id u) w w1"
  shows "\<exists>w2. send cr bearer occ c ref p w1 = (missing_answer (probe_path ref p), w2) \<and> denials (Suc k) (u_id u) w w2"
  using stranger_probe [of cr c bearer w1 u ref occ p] denials_Suc [OF assms(4)] assms
    denials_rows [OF assms(4)] current_user_rows by metis

lemma fake_ref: "valid_ref (fake_for pnr)"
  by (simp add: fake_for_def valid_ref_def PNR_ALPHABET_def)

lemma probe_leaks:
  assumes "valid_ref pnr"
  shows "is_leak (missing_answer (probe_path pnr p)) \<longleftrightarrow> sublist ''7654'' pnr"
proof -
  have "exposed (missing_answer (probe_path pnr p)) \<longleftrightarrow> sublist ''7654'' pnr"
    using missing_exposes [OF assms, of "[]"] missing_exposes [OF assms, of "''/audit''"]
      missing_exposes [OF assms, of "''/cancel''"] by (cases p) simp_all
  then show ?thesis by (simp add: is_leak_def) (simp add: missing_answer_def)
qed

text \<open>
  C13: the attack of the demonstration script on this service. Whatever booking reference an
  account without bookings of its own sends, all four probes and both requests of the oracle
  check are refused, nothing changes but the event log, and each refusal is recorded with the
  attacker's id; the script reports NOT VULNERABLE, except that it takes a reference that
  itself contains the victim's passport digits, echoed in the 404, for a leak.
\<close>

theorem attack_is_refused:
  assumes attacker: "\<forall>i. current_user cr (hc_now (c i)) (bearer (hc_authorization (c i))) (w_com w) = Inr u"
    and none: "bookings_of (u_id u) (w_com w) = []" and ref: "valid_ref pnr"
  shows "\<exists>w'. exploit cr bearer occ c stray pnr w = (Inr (if sublist ''7654'' pnr then 1 else 0), w') \<and>
    same_but_events (w_com w) (w_com w') \<and> w_gw w' = w_gw w \<and>
    (\<exists>es. d_events (w_com w') = d_events (w_com w) @ es \<and> length es = 6 \<and> list_all (denial (u_id u)) es)"
proof -
  have again: "\<exists>w2. send cr bearer occ (c i) ref p v = (missing_answer (probe_path ref p), w2) \<and> denials (Suc k) (u_id u) w w2"
    if "valid_ref ref" "denials k (u_id u) w v" for i ref p v k
    using stranger_again [of cr "c i" bearer w u ref k v occ p] attacker none that by blast
  obtain w1 where 1: "send cr bearer occ (c 0) pnr ReadBooking w = (missing_answer (probe_path pnr ReadBooking), w1)"
    "denials (Suc 0) (u_id u) w w1" using again [where i = 0 and p = ReadBooking, OF ref denials_0] by blast
  obtain w2 where 2: "send cr bearer occ (c 1) pnr ReadHistory w1 = (missing_answer (probe_path pnr ReadHistory), w2)"
    "denials (Suc (Suc 0)) (u_id u) w w2" using again [where i = 1 and p = ReadHistory, OF ref 1(2)] by blast
  obtain w3 where 3: "send cr bearer occ (c 2) pnr (RenamePassenger stray) w2 =
      (missing_answer (probe_path pnr (RenamePassenger stray)), w3)"
    "denials (Suc (Suc (Suc 0))) (u_id u) w w3" using again [where i = 2 and p = "RenamePassenger stray", OF ref 2(2)] by blast
  obtain w4 where 4: "send cr bearer occ (c 3) pnr CancelFlight w3 = (missing_answer (probe_path pnr CancelFlight), w4)"
    "denials (Suc (Suc (Suc (Suc 0)))) (u_id u) w w4" using again [where i = 3 and p = CancelFlight, OF ref 3(2)] by blast
  obtain w5 where 5: "send cr bearer occ (c 4) pnr ReadBooking w4 = (missing_answer (probe_path pnr ReadBooking), w5)"
    "denials (Suc (Suc (Suc (Suc (Suc 0))))) (u_id u) w w5" using again [where i = 4 and p = ReadBooking, OF ref 4(2)] by blast
  obtain w6 where 6: "send cr bearer occ (c 5) (fake_for pnr) ReadBooking w5 =
      (missing_answer (probe_path (fake_for pnr) ReadBooking), w6)"
    "denials (Suc (Suc (Suc (Suc (Suc (Suc 0)))))) (u_id u) w w6" using again [where i = 5 and p = ReadBooking, OF fake_ref 5(2)] by blast
  have same: "comparable (missing_answer path) =
      Inr (Fields 404 [Some (JStr ''not_found''), Some (JStr ''Resource not found''), Some (JStr ''No such booking'')])" for path
    by (simp add: comparable_def missing_answer_def missing_problem_def)
  have "oracle_check cr bearer occ pnr (c 4) (c 5) w4 = (Inr False, w6)"
    unfolding oracle_check_def 5(1) by (simp only: prod.case 6(1) same sum.case not_True_eq_False simp_thms)
  then have "exploit cr bearer occ c stray pnr w = (Inr (if sublist ''7654'' pnr then 1 else 0), w6)"
    using 1(1) 2(1) 3(1) 4(1) probe_leaks [OF ref]
    by (simp add: exploit_def del: send.simps probe_path.simps probe_method.simps)
  then show ?thesis using 6(2) by (auto simp: denials_def eval_nat_numeral)
qed

definition attacker_call :: call where
  "attacker_call =
     \<lparr>hc_request = \<lparr>rq_client = Some ''10.0.0.1'', rq_user_agent = ''httpx'', rq_method = [], rq_path = []\<rparr>,
      hc_authorization = cr_encode (one_token_crypto (access_claims default_settings 0 3 demo_user))
        (access_claims default_settings 0 3 demo_user),
      hc_redis_up = True, hc_ms = 5000, hc_hexes = (''a1'', ''b2''), hc_now = 5, hc_errors = []\<rparr>"

theorem attack_is_refused_witness:
  "fst (exploit (one_token_crypto (access_claims default_settings 0 3 demo_user)) Some (\<lambda>_. 0) (\<lambda>_. attacker_call) 77 ''K7654Q''
     (account_world [])) = Inr 1 \<and>
   fst (exploit (one_token_crypto (access_claims default_settings 0 3 demo_user)) Some (\<lambda>_. 0) (\<lambda>_. attacker_call) 77 ''K7R2MQ''
     (account_world [])) = Inr 0"
proof -
  let ?cr = "one_token_crypto (access_claims default_settings 0 3 demo_user)"
  have u: "\<forall>i :: nat. current_user ?cr (hc_now attacker_call) (Some (hc_authorization attacker_call)) (w_com (account_world [])) =
      Inr demo_user"
    by (simp add: current_user_def decode_access_token_def attacker_call_def one_token_crypto_def access_claims_def
      account_world_def Let_def find_user_def select_one_def demo_user_def default_settings_def seconds_def)
  have n: "bookings_of (u_id demo_user) (w_com (account_world [])) = []"
    by (simp add: account_world_def Let_def bookings_of_def empty_db_def)
  have r: "valid_ref ''K7654Q''" "valid_ref ''K7R2MQ''" "sublist ''7654'' ''K7654Q''" "\<not> sublist ''7654'' ''K7R2MQ''"
    by code_simp+
  note a = attack_is_refused [where c = "\<lambda>_. attacker_call" and bearer = Some and occ = "\<lambda>_. 0" and stray = 77, OF u n]
  show ?thesis using a [OF r(1)] a [OF r(2)] r(3,4) by auto
qed

subsection \<open>The seats the scripts pick\<close>

lemma first_some_Some: "first_some f xs = Some y \<Longrightarrow> \<exists>x \<in> set xs. f x = Some y"
  by (induction xs) (auto split: option.splits)

lemma scanned:
  assumes "scan_flights now today routes threshold pick d = Some x"
  obtains f where "f \<in> set (d_flights d)" "threshold < seats_available now d (fl_id f)"
    "pick (fl_id f) (free_seats now (fl_id f) d) = Some x"
proof -
  obtain k ori dst item where p: "item \<in> set (case search_flights now today ori dst (today + int k) 1 SEARCH_PAGE_SIZE d of
        Inl e \<Rightarrow> [] | Inr page \<Rightarrow> pg_items page)"
    "threshold < fs_seats_available item"
    "pick (fl_id (fs_flight item)) (free_seats now (fl_id (fs_flight item)) d) = Some x"
    using assms by (fastforce simp: scan_flights_def dest!: first_some_Some split: prod.splits if_splits)
  have "fs_flight item \<in> set (d_flights d) \<and> fs_seats_available item = seats_available now d (fl_id (fs_flight item))"
    using p(1) by (auto simp: search_flights_def page_of_def page_slice_def matching_flights_def select_where_def
      dest!: in_set_takeD in_set_dropD split: if_splits)
  with p(2,3) that [of "fs_flight item"] show thesis by simp
qed

text \<open>A seat a script picks is one that a hold request gets.\<close>

lemma free_seats_holdable:
  assumes "sound d" "n \<in> set (free_seats now f d)" "upper n = n" "count_active_holds now u d < max_active_holds_per_user st"
  shows "\<exists>s d'. acquire_hold st now h u f n None d = Inr (s, d') \<and> s_held_by s = Some u"
proof -
  obtain m r where m: "seat_map now f d = Inr m" "r \<in> set (sm_seats m)" "sr_available r" "sr_seat_no r = n"
    using assms(2) by (cases "seat_map now f d") (auto simp: free_seats_def)
  then obtain s where s: "s \<in> set (d_seats d)" "s_flight_id s = f" "r = seat_response_of now s"
    using seat_map_available(3) [OF m(1)] by auto
  have "takeable now s" "s_seat_no s = n" using s(3) m(3,4) by (simp_all add: seat_response_of_def)
  then show ?thesis using acquire_decides(1) [OF assms(1) s(1) _ assms(4), of h] assms(3) s(2) by auto
qed

lemma found_seat_is_holdable:
  assumes "sound d" "find_seat now today d = Some (f, n)" "upper n = n"
    and "count_active_holds now u d < max_active_holds_per_user st"
  shows "\<exists>s d'. acquire_hold st now h u f n None d = Inr (s, d') \<and> s_held_by s = Some u"
proof -
  have "n \<in> set (free_seats now f d)"
    using assms(2) unfolding find_seat_def by (auto elim!: scanned split: list.splits)
  from free_seats_holdable [OF assms(1) this assms(3,4)] show ?thesis .
qed

end
