(* ===== verification/Sky_LoadProof.thy ===== *)
theory Sky_LoadProof
  imports Sky_Routes Sky_Seed
begin

text \<open>
  \<^verbatim>\<open>load/oversell_proof.py\<close>, the load test that is to show that a flight is never oversold:
  the flight it creates, the outcome of one racer, and the verdict it draws from the answers
  and the database. The lemmas say which of its checks can fail on this service.
\<close>

subsection \<open>Seats are never created, deleted or moved\<close>

definition seat_column :: "seat \<Rightarrow> uuid \<times> uuid \<times> string" where
  "seat_column s = (s_id s, s_flight_id s, s_seat_no s)"

definition inventory :: "db \<Rightarrow> (uuid \<times> uuid \<times> string) list" where
  "inventory d = map seat_column (d_seats d)"

lemma inventory_update:
  assumes "\<And>s. seat_column (g s) = seat_column s"
  shows "inventory (d\<lparr>d_seats := update_where p g (d_seats d')\<rparr>) = inventory d'"
  using assms by (simp add: inventory_def map_key_update_where)

lemma inventory_cong: "d_seats d' = d_seats d \<Longrightarrow> inventory d' = inventory d"
  by (simp add: inventory_def)

lemma seat_column_writes [simp]:
  "seat_column (take_seat u h e s) = seat_column s" "seat_column (free_hold s) = seat_column s"
  "seat_column (free_seat s) = seat_column s" "seat_column (flush_seat old new s) = seat_column s"
  by (simp_all add: seat_column_def flush_seat_def)

lemma inventory_rows [simp]:
  "inventory (audit_record b et a d) = inventory d" "inventory (add_event now rq se sv ea d) = inventory d"
  "inventory (set_booking_state bid st d) = inventory d" "inventory (set_payment p d) = inventory d"
  "inventory (d\<lparr>d_passengers := ps\<rparr>) = inventory d" "inventory (d\<lparr>d_idem := ks\<rparr>) = inventory d"
  "inventory (set_user u d) = inventory d"
  by (simp_all add: inventory_def set_booking_state_def set_payment_def set_user_def audit_record_def add_event_def
    split: prod.split)

lemma inventory_flush: "flush_seats ps d = Inr d' \<Longrightarrow> inventory d' = inventory d"
proof (induction ps d rule: flush_seats.induct)
  case (1 d)
  then show ?case by simp
next
  case (2 old new ps d)
  then obtain d1 where
    d1: "update_seats (\<lambda>r. s_id r = s_id old) (flush_seat old new) d = Inr d1" "flush_seats ps d1 = Inr d'"
    by (auto split: sum.splits)
  have "inventory d1 = inventory d"
    using d1(1) by (auto simp: update_seats_def inventory_update split: if_splits)
  with "2.IH" [OF d1] show ?case by simp
qed

lemma inventory_statements:
  "insert_tickets ts d = Inr d' \<Longrightarrow> inventory d' = inventory d"
  "insert_booking b d = Inr d' \<Longrightarrow> inventory d' = inventory d"
  "insert_payment p d = Inr d' \<Longrightarrow> inventory d' = inventory d"
  "release_seats_for_booking now bid d = (k, d') \<Longrightarrow> inventory d' = inventory d"
  "verify_seats clock bid u ss d = (l, d') \<Longrightarrow> inventory d' = inventory d"
proof -
  show "insert_tickets ts d = Inr d' \<Longrightarrow> inventory d' = inventory d"
    using insert_tickets_rows [of ts d d'] by (simp add: inventory_def)
  show "insert_booking b d = Inr d' \<Longrightarrow> inventory d' = inventory d"
    "insert_payment p d = Inr d' \<Longrightarrow> inventory d' = inventory d"
    by (auto simp: insert_booking_def insert_payment_def inventory_def split: if_splits)
  show "release_seats_for_booking now bid d = (k, d') \<Longrightarrow> inventory d' = inventory d"
    by (auto simp: release_seats_for_booking_def inventory_update [where d' = d])
  show "verify_seats clock bid u ss d = (l, d') \<Longrightarrow> inventory d' = inventory d"
    using verify_frame [of clock bid u ss d l d'] by (auto simp: inventory_def)
qed

lemma inventory_create:
  assumes "create_step clock now n draw u payload key d = Inr (x, d')"
  shows "inventory d' = inventory d"
proof -
  obtain b seats where "book_seats n u payload key b seats d = Inr (x, d')"
    using assms by (auto simp: create_step_def Let_def split: if_splits sum.splits)
  then show ?thesis
    by (auto simp: book_seats_def Let_def dest!: inventory_flush inventory_statements(2) split: sum.splits if_splits)
qed

lemma inventory_fail: "fail_payment reread mem b c det ev d = Inr (y, d') \<Longrightarrow> inventory d' = inventory d"
  by (auto simp: fail_payment_def Let_def dest!: inventory_flush split: sum.splits)

lemma inventory_issue:
  assumes "issue_tickets reread clock now draw n b ps mem u tok d = (z, d')"
  shows "inventory d' = inventory d"
proof -
  let ?lk = "locked_seats reread mem d"
  obtain lost d1 where v: "verify_seats clock (b_id b) u ?lk d = (lost, d1)"
    by (cases "verify_seats clock (b_id b) u ?lk d")
  have i1: "inventory d1 = inventory d" by (rule inventory_statements(5) [OF v])
  have i2: "inventory d2 = inventory d" if "flush_issued ts ws d1 = Inr d2" for ts ws d2
    using that i1 by (auto simp: flush_issued_def dest!: inventory_flush inventory_statements(1) split: sum.splits)
  obtain err ts ws where il: "issue_loop now draw n (b_id b) 0 ?lk ps = (err, ts, ws)"
    by (cases "issue_loop now draw n (b_id b) 0 ?lk ps")
  show ?thesis
    using assms v il i1 by (auto simp: issue_tickets_def Let_def i2 split: if_splits sum.splits option.splits)
qed

lemma inventory_steps:
  "start_payment p d = Inr (q, d') \<Longrightarrow> inventory d' = inventory d"
  "mark_unknown p d = Inr (q, d') \<Longrightarrow> inventory d' = inventory d"
  "decline_step reread dft p r a d = Inr (y, d') \<Longrightarrow> inventory d' = inventory d"
  "approve_step b p r d = Inr (bp, d') \<Longrightarrow> inventory d' = inventory d"
  "begin_compensation b p msg d = Inr (b', d') \<Longrightarrow> inventory d' = inventory d"
  "review_step now b p e d = Inr (b', d') \<Longrightarrow> inventory d' = inventory d"
  "void_step now b p ev d = Inr (b', d') \<Longrightarrow> inventory d' = inventory d"
  "confirm_step b p d = Inr (b', d') \<Longrightarrow> inventory d' = inventory d"
  "cancel_review_step b e d = Inr (b', d') \<Longrightarrow> inventory d' = inventory d"
  "cancel_step now b u paid d = Inr (bn, d') \<Longrightarrow> inventory d' = inventory d"
proof -
  show "start_payment p d = Inr (q, d') \<Longrightarrow> inventory d' = inventory d"
    by (auto simp: start_payment_def dest!: inventory_statements(3) split: sum.splits)
  show "mark_unknown p d = Inr (q, d') \<Longrightarrow> inventory d' = inventory d" by (auto simp: mark_unknown_def Let_def)
  show "decline_step reread dft p r a d = Inr (y, d') \<Longrightarrow> inventory d' = inventory d"
    unfolding decline_step_def by (drule inventory_fail) simp
  show "approve_step b p r d = Inr (bp, d') \<Longrightarrow> inventory d' = inventory d"
    by (auto simp: approve_step_def Let_def split: sum.splits)
  show "begin_compensation b p msg d = Inr (b', d') \<Longrightarrow> inventory d' = inventory d"
    by (auto simp: begin_compensation_def split: sum.splits)
  show "review_step now b p e d = Inr (b', d') \<Longrightarrow> inventory d' = inventory d"
    by (auto simp: review_step_def Let_def dest!: inventory_statements(4) split: prod.splits)
  show "void_step now b p ev d = Inr (b', d') \<Longrightarrow> inventory d' = inventory d"
    by (auto simp: void_step_def Let_def dest!: inventory_statements(4) split: prod.splits sum.splits)
  show "confirm_step b p d = Inr (b', d') \<Longrightarrow> inventory d' = inventory d"
    by (auto simp: confirm_step_def split: sum.splits)
  show "cancel_review_step b e d = Inr (b', d') \<Longrightarrow> inventory d' = inventory d"
    by (auto simp: cancel_review_step_def)
  show "cancel_step now b u paid d = Inr (bn, d') \<Longrightarrow> inventory d' = inventory d"
    by (auto simp: cancel_step_def Let_def dest!: inventory_statements(4) split: prod.splits sum.splits option.splits)
qed

lemma inventory_accounts:
  "issue_refresh_token cr st now i raw u rq fam par d = Inr d' \<Longrightarrow> inventory d' = inventory d"
  "exchange cr st now i raw rq row u d = Inr d' \<Longrightarrow> inventory d' = inventory d"
  "revoke_family now fm reason d = (k, d') \<Longrightarrow> inventory d' = inventory d"
  "register_step cr st now i salt raw rq rr d = Inr (usr, d') \<Longrightarrow> inventory d' = inventory d"
proof -
  show i: "issue_refresh_token cr st now i raw u rq fam par d = Inr d' \<Longrightarrow> inventory d' = inventory d"
    for cr st now i raw u rq fam par d d'
    by (auto simp: issue_refresh_token_def insert_token_def inventory_def split: if_splits)
  show "exchange cr st now i raw rq row u d = Inr d' \<Longrightarrow> inventory d' = inventory d"
    by (auto simp: exchange_def Let_def inventory_def dest!: i split: sum.splits)
  show "revoke_family now fm reason d = (k, d') \<Longrightarrow> inventory d' = inventory d"
    by (auto simp: revoke_family_def inventory_def)
  show "register_step cr st now i salt raw rq rr d = Inr (usr, d') \<Longrightarrow> inventory d' = inventory d"
    by (auto simp: register_step_def Let_def insert_user_def inventory_def dest!: i split: sum.splits if_splits)
qed

lemma txn_inventory: "txn s s' \<Longrightarrow> inventory (snd s') = inventory (snd s)"
proof (induction rule: txn.induct)
  case (complete n w key u status body bk)
  then show ?case
    using complete_claim_db [where key = key and u = u and status = status and body = body and bk = bk and w = w] by auto
next
  case (unclaim n w key u)
  then show ?case using release_claim_db [of key u w] by auto
next
  case (claim st now key u ep dg d c d' n)
  then show ?case using try_claim_frame [OF claim] by auto
next
  case (patch u us b w x w' n)
  obtain ps rows cs where "idle w'" "w_com w' = (write_names ps (w_cur w))\<lparr>d_audit := d_audit (w_cur w) @ rows\<rparr>"
    by (rule update_passengers_effect [OF patch])
  then show ?case by (simp add: inventory_def idle_def write_names_def)
next
  case (hold now ttl n u f sn d s d')
  then show ?case using acquire_after_cap_Inr [OF hold] by (auto simp: hold_update_def Let_def inventory_update)
qed (auto simp: release_hold_def sweep_expired_holds_def Let_def inventory_update dest: inventory_create inventory_issue
      inventory_fail inventory_steps inventory_accounts)

lemma txn_path_inventory: "txn\<^sup>*\<^sup>* s t \<Longrightarrow> inventory (snd t) = inventory (snd s)"
  by (induction rule: rtranclp_induct) (auto dest: txn_inventory)

subsection \<open>The script\<close>

definition pad4 :: "nat \<Rightarrow> string" where
  "pad4 n = (if n < 10 then ''000'' else if n < 100 then ''00'' else if n < 1000 then ''0'' else []) @ show_nat n"

definition approve_token :: "nat \<Rightarrow> string" where
  "approve_token i = ''tok_test_load'' @ pad4 i @ ''0000''"

text \<open>\<open>on_conflict_do_nothing(index_elements=["iata"])\<close>.\<close>

definition ensure_airline :: "airline \<Rightarrow> db \<Rightarrow> db" where
  "ensure_airline a d = (if al_iata a \<in> al_iata ` set (d_airlines d) then d else d\<lparr>d_airlines := d_airlines d @ [a]\<rparr>)"

definition ensure_airport :: "airport \<Rightarrow> db \<Rightarrow> db" where
  "ensure_airport a d = (if ap_iata a \<in> ap_iata ` set (d_airports d) then d else d\<lparr>d_airports := d_airports d @ [a]\<rparr>)"

definition load_airport :: "string \<Rightarrow> airport" where
  "load_airport iata = \<lparr>ap_iata = iata, ap_icao = None, ap_name = ''Load '' @ iata, ap_city = None,
                        ap_country = Some ''CA'', ap_coords = Some (45, -75)\<rparr>"

definition load_reference :: "db \<Rightarrow> db" where
  "load_reference d =
     fold (\<lambda>iata. ensure_airport (load_airport iata)) [''XLA'', ''XLB'']
       (ensure_airline \<lparr>al_iata = ''ZL'', al_icao = None, al_name = ''Load Test Air'', al_country = Some ''CA'',
                        al_active = True\<rparr> d)"

definition load_flight :: "time \<Rightarrow> uuid \<Rightarrow> nat \<Rightarrow> flight" where
  "load_flight now flight_id draw =
     (let depart = now - now mod seconds 1 + seconds (30 * 86400) in
      \<lparr>fl_id = flight_id, fl_flight_no = ''ZL'' @ show_nat (draw mod 900 + 100), fl_airline_iata = ''ZL'',
       fl_src_iata = ''XLA'', fl_dst_iata = ''XLB'', fl_depart_at = depart, fl_arrive_at = depart + seconds (2 * 3600),
       fl_aircraft_type = ''A320'', fl_base_fare = 19900, fl_currency = ''CAD''\<rparr>)"

definition load_seat :: "uuid \<Rightarrow> uuid \<Rightarrow> uuid \<Rightarrow> nat \<Rightarrow> seat" where
  "load_seat flight_id fare_class_id fresh i =
     (let letter = ''ABCDEF'' ! (i mod length ''ABCDEF''); row_no = i div length ''ABCDEF'' + 10 in
      \<lparr>s_id = fresh + i, s_flight_id = flight_id, s_seat_no = show_nat row_no @ [letter], s_row_no = row_no,
       s_letter = [letter], s_cabin = ''economy'', s_fare_class_id = fare_class_id, s_is_exit_row = False,
       s_price = 19900, s_status = AVAILABLE, s_held_by = None, s_hold_id = None, s_hold_expires_at = None,
       s_booking_id = None, s_version = 0\<rparr>)"

text \<open>
  \<open>_make_flight\<close>: one transaction. The ids are the flight, the fare class, then the seats. An INSERT
  of no rows leaves the NOT NULL columns out; a seat number must fit \<open>String(4)\<close>.
\<close>

definition load_fare :: "uuid \<Rightarrow> uuid \<Rightarrow> nat \<Rightarrow> fare_class" where
  "load_fare fare_class_id flight_id seats =
     \<lparr>fc_id = fare_class_id, fc_flight_id = flight_id, fc_code = ''Y'', fc_cabin = ''economy'', fc_multiplier = 1,
      fc_seats_total = seats\<rparr>"

definition load_seats :: "uuid \<Rightarrow> nat \<Rightarrow> seat list" where
  "load_seats fresh seats = map (load_seat fresh (fresh + 1) (fresh + 2)) [0..<seats]"

definition make_flight :: "time \<Rightarrow> uuid \<Rightarrow> nat \<Rightarrow> nat \<Rightarrow> db \<Rightarrow> exn + ((uuid \<times> string list) \<times> uuid) \<times> db" where
  "make_flight now fresh draw seats d =
     (let rows = load_seats fresh seats in
      case insert_generated ([load_flight now fresh draw], [load_fare (fresh + 1) fresh seats], rows) (load_reference d) of
        Inl e \<Rightarrow> Inl e
      | Inr d' \<Rightarrow>
          if rows = [] then Inl (IntegrityError ''seat_inventory'')
          else if \<exists>s \<in> set rows. length (s_seat_no s) > 4 then Inl (DataError ''seat_inventory'')
          else Inr (((fresh, map s_seat_no rows), fresh + 2 + seats), d'))"

text \<open>
  One racer: the answer to its POST \<open>/holds\<close> (status and \<open>code\<close>), and, when that is a 201, the
  status of its POST \<open>/bookings\<close>. An exception of the client stands with its \<open>repr\<close>.
\<close>

definition POOL_LIMIT :: nat where
  "POOL_LIMIT = 8"

definition pool_size :: "nat \<Rightarrow> nat" where
  "pool_size racers = min racers POOL_LIMIT"

definition racer_seat :: "string list \<Rightarrow> nat \<Rightarrow> nat \<Rightarrow> string" where
  "racer_seat seat_numbers seats index = seat_numbers ! (index mod seats)"

definition race_result :: "int \<times> string \<Rightarrow> int \<Rightarrow> int \<times> string" where
  "race_result held booked_status =
     (if fst held \<noteq> 201
      then (fst held, if (if fst held = 409 then snd held else []) = ''too_many_holds'' then ''hold-cap'' else ''hold'')
      else (booked_status, ''book''))"

type_synonym race_outcome = "string + (int \<times> string)"

definition outcome_key :: "int \<times> string \<Rightarrow> string" where
  "outcome_key r = show_int (fst r) @ '' @'' @ snd r"

text \<open>\<open>Counter\<close>: the keys in the order of their first occurrence, with their numbers.\<close>

fun tally :: "string \<Rightarrow> (string \<times> nat) list \<Rightarrow> (string \<times> nat) list" where
  "tally k [] = [(k, 1)]"
| "tally k ((k', c) # kcs) = (if k' = k then (k', Suc c) # kcs else (k', c) # tally k kcs)"

definition counter :: "string list \<Rightarrow> (string \<times> nat) list" where
  "counter ks = fold tally ks []"

definition count_keys :: "(string \<Rightarrow> bool) \<Rightarrow> (string \<times> nat) list \<Rightarrow> nat" where
  "count_keys p outcomes = sum_list (map snd (filter (p \<circ> fst) outcomes))"

definition starts_with :: "string \<Rightarrow> string \<Rightarrow> bool" where
  "starts_with pre s = (take (length pre) s = pre)"

definition outcomes_of :: "race_outcome list \<Rightarrow> (string \<times> nat) list" where
  "outcomes_of results = counter (map outcome_key (List.map_filter (\<lambda>r. case r of Inl e \<Rightarrow> None | Inr x \<Rightarrow> Some x) results))"

definition confirmed_of :: "race_outcome list \<Rightarrow> nat" where
  "confirmed_of results = count_keys (starts_with ''201 @book'') (outcomes_of results)"

definition server_errors_of :: "race_outcome list \<Rightarrow> nat" where
  "server_errors_of results =
     count_keys (\<lambda>k. starts_with ''5'' (takeWhile (\<lambda>c. c \<noteq> CHR '' '') k)) (outcomes_of results)"

definition crashes_of :: "race_outcome list \<Rightarrow> string list" where
  "crashes_of results = List.map_filter (\<lambda>r. case r of Inl e \<Rightarrow> Some e | Inr x \<Rightarrow> None) results"

subsection \<open>The verdict\<close>

definition booked_seats :: "uuid \<Rightarrow> db \<Rightarrow> nat" where
  "booked_seats flight_id d = count_where (\<lambda>s. s_flight_id s = flight_id \<and> s_status s = BOOKED) (d_seats d)"

definition flight_tickets :: "uuid \<Rightarrow> db \<Rightarrow> ticket list" where
  "flight_tickets flight_id d =
     (let seat_ids = map s_id (select_where (\<lambda>s. s_flight_id s = flight_id) (d_seats d))
      in select_where (\<lambda>t. t_seat_id t \<in> set seat_ids \<and> t_voided_at t = None) (d_tickets d))"

definition verify :: "uuid \<Rightarrow> nat \<Rightarrow> nat \<Rightarrow> db \<Rightarrow> string list" where
  "verify flight_id seats confirmed d =
     (let booked = booked_seats flight_id d;
          tickets = length (flight_tickets flight_id d);
          distinct_ticketed_seats = card (t_seat_id ` set (flight_tickets flight_id d))
      in (if booked > seats
          then [''OVERSOLD: '' @ show_nat booked @ '' seats booked on a '' @ show_nat seats @ ''-seat flight''] else []) @
         (if booked \<noteq> confirmed
          then [''booked seats ('' @ show_nat booked @ '') != confirmed bookings ('' @ show_nat confirmed @ '')''] else []) @
         (if confirmed > seats
          then [''more bookings ('' @ show_nat confirmed @ '') than seats ('' @ show_nat seats @ '')''] else []) @
         (if tickets \<noteq> distinct_ticketed_seats
          then [''a seat backs more than one ticket ('' @ show_nat tickets @ '' vs '' @
                show_nat distinct_ticketed_seats @ '')''] else []))"

definition verdict :: "uuid \<Rightarrow> nat \<Rightarrow> race_outcome list \<Rightarrow> db \<Rightarrow> string list" where
  "verdict flight_id seats results d =
     verify flight_id seats (confirmed_of results) d @
     (if server_errors_of results > 0
      then [show_nat (server_errors_of results) @ '' server errors '' @ em_dash @ '' losing a race must not be a 5xx'']
      else []) @
     (if crashes_of results \<noteq> []
      then [show_nat (length (crashes_of results)) @ '' client exceptions: '' @ hd (crashes_of results)] else [])"

definition exit_code :: "string list \<Rightarrow> int" where
  "exit_code problems = (if problems = [] then 0 else 1)"

subsection \<open>What the verdict can say\<close>

lemma tally_count: "count_keys p (tally k kcs) = count_keys p kcs + (if p k then 1 else 0)"
  by (induction k kcs rule: tally.induct) (auto simp: count_keys_def)

lemma count_keys_counter: "count_keys p (counter ks) = length (filter p ks)"
proof -
  have "count_keys p (fold tally ks kcs) = count_keys p kcs + length (filter p ks)" for kcs
    by (induction ks arbitrary: kcs) (auto simp: tally_count)
  then show ?thesis by (simp add: counter_def count_keys_def)
qed

text \<open>The rows of the new flight are the generated ones.\<close>

lemma load_reference_rows [simp]:
  "d_flights (load_reference d) = d_flights d" "d_fares (load_reference d) = d_fares d"
  "d_seats (load_reference d) = d_seats d"
  by (simp_all add: load_reference_def ensure_airline_def ensure_airport_def)

lemma sound_load_reference: "sound d \<Longrightarrow> sound (load_reference d)"
  by (simp add: load_reference_def ensure_airline_def ensure_airport_def sound_def db_ok_def gap_free_def audit_ids_def
      event_ids_def audit_rows_def)

lemma fresh_load_reference: "fresh_for n d \<Longrightarrow> fresh_for n (load_reference d)"
  by (simp add: load_reference_def ensure_airline_def ensure_airport_def fresh_for_def)

lemma generated_rows:
  "insert_generated (fs, fcs, ss) d = Inr d' \<Longrightarrow>
   d' = d\<lparr>d_flights := d_flights d @ fs, d_fares := d_fares d @ fcs, d_seats := d_seats d @ ss\<rparr>"
  by (simp add: insert_generated_def Let_def split: if_splits)

lemma sound_generated:
  assumes "sound d" "insert_generated (fs, fcs, ss) d = Inr d'"
  shows "sound d'" and "d_seats d' = d_seats d @ ss" and "unique_key fl_id (d_flights d @ fs)"
proof -
  note d' = generated_rows [OF assms(2)]
  have c: "unique_key fl_id (d_flights d')" "list_all flight_ok fs" "unique_key s_id (d_seats d')"
      "unique_key (\<lambda>s. (s_flight_id s, s_seat_no s)) (d_seats d')" "list_all seat_ok ss"
    using assms(2) by (auto simp: insert_generated_def Let_def split: if_splits)
  show "d_seats d' = d_seats d @ ss" "unique_key fl_id (d_flights d @ fs)" using d' c(1) by simp_all
  have "db_ok d'"
    using assms(1) c unfolding d' by (simp add: sound_def db_ok_def seats_ok_def)
  then show "sound d'"
    using assms(1) unfolding d' by (simp add: sound_def gap_free_def audit_ids_def event_ids_def audit_rows_def)
qed

lemma load_seats_columns:
  "length (load_seats n seats) = seats" "\<And>s. s \<in> set (load_seats n seats) \<Longrightarrow> s_flight_id s = n \<and> s_booking_id s = None"
  by (auto simp: load_seats_def load_seat_def Let_def)

lemma make_flight_result:
  assumes "make_flight now n draw seats d = Inr (((fid, nos), n'), d')"
  shows "insert_generated ([load_flight now n draw], [load_fare (n + 1) n seats], load_seats n seats) (load_reference d) = Inr d'"
    "fid = n" "nos = map s_seat_no (load_seats n seats)" "n' = n + 2 + seats" "load_seats n seats \<noteq> []"
  using assms unfolding make_flight_def Let_def by (auto split: sum.splits if_splits)

lemma make_flight_rows:
  assumes "system_ok (n, d)" "make_flight now n draw seats d = Inr (((fid, nos), n'), d')"
    and fk: "\<forall>s \<in> set (d_seats d). s_flight_id s \<in> fl_id ` set (d_flights d)"
  shows "system_ok (n', d')" "length nos = seats"
    "length (filter (\<lambda>c. fst (snd c) = fid) (inventory d')) = seats"
proof -
  note r = make_flight_result [OF assms(2)]
  have s: "sound d" "fresh_for n d" using assms(1) by simp_all
  note g = sound_generated [OF sound_load_reference [OF s(1)] r(1)]
  have rows: "d_seats d' = d_seats d @ load_seats n seats" using g(2) by simp
  have same: "d_bookings d' = d_bookings d" "d_passengers d' = d_passengers d" "d_payments d' = d_payments d"
    "d_tickets d' = d_tickets d"
    using generated_rows [OF r(1)] by (simp_all add: load_reference_def ensure_airline_def ensure_airport_def)
  have "fresh_for n' d" using fresh_mono [OF s(2)] r(4) by simp
  then have "fresh_for n' d'"
    using load_seats_columns(2) [of _ n seats] by (auto simp: fresh_for_def rows same)
  with g(1) show "system_ok (n', d')" by simp
  show "length nos = seats" using r(3) load_seats_columns(1) by simp
  have "n \<notin> fl_id ` set (d_flights d)"
    using g(3) by (auto simp: unique_key_append_one load_flight_def Let_def)
  then have "filter (\<lambda>c. fst (snd c) = n) (map seat_column (d_seats d)) = []"
    using fk by (auto simp: filter_empty_conv seat_column_def)
  moreover have "filter (\<lambda>c. fst (snd c) = n) (map seat_column (load_seats n seats)) = map seat_column (load_seats n seats)"
    using load_seats_columns(2) by (fastforce simp: filter_id_conv seat_column_def)
  ultimately show "length (filter (\<lambda>c. fst (snd c) = fid) (inventory d')) = seats"
    using rows r(2) load_seats_columns(1) by (simp add: inventory_def)
qed

lemma booked_seats_le: "booked_seats f d \<le> length (filter (\<lambda>c. fst (snd c) = f) (inventory d))"
proof -
  have "length (filter (\<lambda>c. fst (snd c) = f) (inventory d)) = length (filter (\<lambda>s. s_flight_id s = f) (d_seats d))"
    by (simp add: inventory_def filter_map o_def seat_column_def)
  then show ?thesis unfolding booked_seats_def count_where_def by (auto intro: length_filter_impl)
qed

text \<open>With one valid ticket per seat the count of tickets is the count of their seats.\<close>

lemma flight_tickets_distinct:
  assumes "tickets_ok (d_tickets d)"
  shows "card (t_seat_id ` set (flight_tickets f d)) = length (flight_tickets f d)"
proof -
  have "unique_key t_seat_id (filter live_ticket (d_tickets d))" using assms by (simp add: tickets_ok_def)
  from unique_key_filter [OF this, of "\<lambda>t. t_seat_id t \<in> set (map s_id (select_where (\<lambda>s. s_flight_id s = f) (d_seats d)))"]
  have "distinct (map t_seat_id (flight_tickets f d))"
    by (simp add: flight_tickets_def Let_def select_where_def unique_key_def live_ticket_def conj_commute)
  then show ?thesis by (metis distinct_card length_map set_map)
qed

text \<open>What a racer got, as statuses of its requests: \<open>held\<close> with its \<open>code\<close>, then \<open>booked\<close>.\<close>

type_synonym race_answer = "string + (int \<times> string) \<times> int"

definition race_outcome_of :: "race_answer \<Rightarrow> race_outcome" where
  "race_outcome_of a = map_sum id (\<lambda>(held, booked). race_result held booked) a"

definition is_sale :: "race_answer \<Rightarrow> bool" where
  "is_sale a = (case a of Inl e \<Rightarrow> False | Inr ((held, code), booked) \<Rightarrow> held = 201 \<and> booked = 201)"

definition is_5xx :: "race_answer \<Rightarrow> bool" where
  "is_5xx a = (case a of Inl e \<Rightarrow> False | Inr ((held, code), booked) \<Rightarrow> 500 \<le> (if held = 201 then booked else held))"

definition is_http_status :: "int \<Rightarrow> bool" where
  "is_http_status st = (100 \<le> st \<and> st < 600)"

lemma five: "digit_char 5 = CHR ''5''"
  by code_simp

lemma show_status:
  assumes "is_http_status st"
  shows "\<exists>x y z. show_int st = [x, y, z] \<and> x \<noteq> CHR '' '' \<and> y \<noteq> CHR '' '' \<and> z \<noteq> CHR '' '' \<and>
    (x = CHR ''5'' \<longleftrightarrow> 500 \<le> st)"
proof -
  let ?n = "nat st"
  have n: "100 \<le> ?n" "?n < 600" using assms unfolding is_http_status_def by linarith+
  have "?n div 100 < 10" using n by simp
  then have "show_nat (?n div 100) = [digit_char (?n div 100)]" by (subst show_nat.simps) simp
  then have "show_nat (?n div 10) = [digit_char (?n div 100), digit_char (?n div 10 mod 10)]"
    using n by (subst show_nat.simps) (simp add: div_mult2_eq [symmetric])
  then have s: "show_nat ?n = [digit_char (?n div 100), digit_char (?n div 10 mod 10), digit_char (?n mod 10)]"
    using n by (subst show_nat.simps) simp
  have blank: "digit_char k \<noteq> CHR '' ''" if "k < 10" for k
    using is_digit_digit_char [OF that] by (auto simp: is_digit_def)
  have "digit_char (?n div 100) = CHR ''5'' \<longleftrightarrow> ?n div 100 = 5"
    using of_digit_char [of "?n div 100"] of_digit_char [of 5] n five by fastforce
  moreover have "?n div 100 = 5 \<longleftrightarrow> 500 \<le> st" using n by linarith
  ultimately show ?thesis using s assms blank [of "?n div 100"] blank [of "?n div 10 mod 10"] blank [of "?n mod 10"] n
    by (simp add: show_int_def is_http_status_def)
qed

lemma show_created: "is_http_status st \<Longrightarrow> show_int st = ''201'' \<longleftrightarrow> st = 201"
proof -
  assume st: "is_http_status st"
  have "show_int 201 = ''201''" by code_simp
  moreover have "show_int st = show_int 201 \<longleftrightarrow> st = 201" using st by (auto simp: show_int_def is_http_status_def)
  ultimately show ?thesis by simp
qed

lemma outcome_read:
  assumes "is_http_status h" "is_http_status b"
  shows "starts_with ''201 @book'' (outcome_key (race_result (h, c) b)) \<longleftrightarrow> h = 201 \<and> b = 201"
    "starts_with ''5'' (takeWhile (\<lambda>c. c \<noteq> CHR '' '') (outcome_key (race_result (h, c) b))) \<longleftrightarrow>
       500 \<le> (if h = 201 then b else h)"
proof -
  obtain st tag where r: "race_result (h, c) b = (st, tag)" "st = (if h = 201 then b else h)" "is_http_status st"
    and tag: "tag = ''book'' \<and> h = 201 \<or> tag \<in> {''hold'', ''hold-cap''} \<and> h \<noteq> 201"
  proof (rule that [of "fst (race_result (h, c) b)" "snd (race_result (h, c) b)"])
  qed (use assms in \<open>auto simp: race_result_def\<close>)
  obtain x y z where xyz: "show_int st = [x, y, z]" "x \<noteq> CHR '' ''" "y \<noteq> CHR '' ''" "z \<noteq> CHR '' ''"
      "x = CHR ''5'' \<longleftrightarrow> 500 \<le> st"
    using show_status [OF r(3)] by blast
  have key: "outcome_key (race_result (h, c) b) = [x, y, z] @ '' @'' @ tag"
    using r(1) xyz(1) by (simp add: outcome_key_def)
  show "starts_with ''201 @book'' (outcome_key (race_result (h, c) b)) \<longleftrightarrow> h = 201 \<and> b = 201"
    unfolding key using tag r(2) show_created [OF r(3)] xyz(1) by (auto simp: starts_with_def)
  show "starts_with ''5'' (takeWhile (\<lambda>c. c \<noteq> CHR '' '') (outcome_key (race_result (h, c) b))) \<longleftrightarrow>
       500 \<le> (if h = 201 then b else h)"
    unfolding key using xyz(2-5) r(2) by (simp add: starts_with_def)
qed

definition answers_http :: "race_answer list \<Rightarrow> bool" where
  "answers_http answers =
     (\<forall>a \<in> set answers. \<forall>h c b. a = Inr ((h, c), b) \<longrightarrow> is_http_status h \<and> is_http_status b)"

lemma counted:
  assumes "answers_http answers"
  shows "confirmed_of (map race_outcome_of answers) = length (filter is_sale answers)"
    "server_errors_of (map race_outcome_of answers) = length (filter is_5xx answers)"
    "crashes_of (map race_outcome_of answers) = [] \<longleftrightarrow> list_all (\<lambda>a. \<not> isl a) answers"
proof -
  let ?keys = "\<lambda>as. map outcome_key (List.map_filter (\<lambda>r. case r of Inl e \<Rightarrow> None | Inr x \<Rightarrow> Some x) (map race_outcome_of as))"
  have "length (filter (starts_with ''201 @book'') (?keys answers)) = length (filter is_sale answers) \<and>
    length (filter (\<lambda>k. starts_with ''5'' (takeWhile (\<lambda>c. c \<noteq> CHR '' '') k)) (?keys answers)) = length (filter is_5xx answers)"
    using assms
  proof (induction answers)
    case Nil
    then show ?case by (simp add: List.map_filter_def)
  next
    case (Cons a answers)
    have ih: "answers_http answers" using Cons.prems by (simp add: answers_http_def)
    show ?case
    proof (cases a)
      case (Inl e)
      then show ?thesis using Cons.IH [OF ih] by (simp add: race_outcome_of_def List.map_filter_def is_sale_def is_5xx_def)
    next
      case (Inr x)
      then obtain h c b where a: "a = Inr ((h, c), b)" by (metis surj_pair)
      have st: "is_http_status h" "is_http_status b" using Cons.prems a by (auto simp: answers_http_def)
      show ?thesis
        using Cons.IH [OF ih] outcome_read [OF st, of c] a
        by (simp add: race_outcome_of_def List.map_filter_def is_sale_def is_5xx_def)
    qed
  qed
  then show "confirmed_of (map race_outcome_of answers) = length (filter is_sale answers)"
    "server_errors_of (map race_outcome_of answers) = length (filter is_5xx answers)"
    by (simp_all add: confirmed_of_def server_errors_of_def outcomes_of_def count_keys_counter)
  show "crashes_of (map race_outcome_of answers) = [] \<longleftrightarrow> list_all (\<lambda>a. \<not> isl a) answers"
  proof (induction answers)
    case Nil
    then show ?case by (simp add: crashes_of_def List.map_filter_def)
  next
    case (Cons a answers)
    then show ?case by (cases a) (auto simp: crashes_of_def race_outcome_of_def List.map_filter_def)
  qed
qed

text \<open>
  C14: whatever the racers and everybody else do, in whatever order their transactions commit,
  the load test can only complain about 5xx answers, exceptions of its client, or a number of
  booked seats that differs from the number of 201 answers it counted: neither an oversold
  flight nor a seat with two tickets can show up, and exit status 0 means that exactly the
  confirmed bookings are booked, within the seats offered.
\<close>

theorem load_test_never_finds_overselling:
  assumes start: "system_ok (n, d)" "\<forall>s \<in> set (d_seats d). s_flight_id s \<in> fl_id ` set (d_flights d)"
    and flight: "make_flight now n draw seats d = Inr (((fid, nos), n'), d')"
    and run: "txn\<^sup>*\<^sup>* (n', d') (m, e)"
    and http: "answers_http answers"
  shows "booked_seats fid e \<le> seats \<and> length nos = seats \<and>
    verify fid seats (booked_seats fid e) e = [] \<and>
    (exit_code (verdict fid seats (map race_outcome_of answers) e) = 0 \<longleftrightarrow>
       length (filter is_sale answers) = booked_seats fid e \<and> filter is_5xx answers = [] \<and> list_all (\<lambda>a. \<not> isl a) answers)"
proof -
  note rows = make_flight_rows [OF start(1) flight start(2)]
  have ok: "tickets_ok (d_tickets e)" using txn_path [OF run rows(1)] by (simp add: soundD(5))
  have le: "booked_seats fid e \<le> seats"
    using booked_seats_le [of fid e] txn_path_inventory [OF run] rows(3) by simp
  note ft = flight_tickets_distinct [OF ok, of fid]
  have v: "verify fid seats c e = [] \<longleftrightarrow> c = booked_seats fid e" for c
    using le by (auto simp: verify_def Let_def ft)
  show ?thesis
    using le rows(2) v by (auto simp: exit_code_def verdict_def counted [OF http])
qed

text \<open>One racer of a two-seat flight gets its hold, and another one is refused.\<close>

lemma small_race:
  obtains d s e where "make_flight 0 1 7 2 empty_db = Inr (((1, [''10A'', ''10B'']), 5), d)"
    "acquire_after_cap 0 600 5 9 1 ''10a'' d = Inr (s, e)" "booked_seats 1 e = 0"
proof -
  let ?run = "case make_flight 0 1 7 2 empty_db of Inl e \<Rightarrow> None
      | Inr (x, d) \<Rightarrow> (case acquire_after_cap 0 600 5 9 1 ''10a'' d of Inl e \<Rightarrow> None | Inr (s, e) \<Rightarrow> Some (x, booked_seats 1 e))"
  have "?run = Some (((1, [''10A'', ''10B'']), 5), 0)" by code_simp
  with that show thesis by (auto split: sum.splits)
qed

theorem load_test_never_finds_overselling_witness:
  "\<exists>d s e. make_flight 0 1 7 2 empty_db = Inr (((1, [''10A'', ''10B'']), 5), d) \<and>
     acquire_after_cap 0 600 5 9 1 ''10a'' d = Inr (s, e) \<and>
     exit_code (verdict 1 2 (map race_outcome_of [Inr ((409, ''seat_unavailable''), 409)]) e) = 0"
proof -
  obtain d s e where r: "make_flight 0 1 7 2 empty_db = Inr (((1, [''10A'', ''10B'']), 5), d)"
    "acquire_after_cap 0 600 5 9 1 ''10a'' d = Inr (s, e)" "booked_seats 1 e = 0"
    by (rule small_race)
  have ok: "system_ok (1, empty_db)"
    by (simp add: sound_def db_ok_def empty_db_def seats_ok_def tickets_ok_def audit_ok_def unique_key_def
        gap_free_def audit_rows_def audit_ids_def event_ids_def fresh_for_def)
  have fk: "\<forall>s \<in> set (d_seats empty_db). s_flight_id s \<in> fl_id ` set (d_flights empty_db)" by (simp add: empty_db_def)
  have "txn\<^sup>*\<^sup>* (5, d) (Suc 5, e)" using txn.hold [OF r(2)] by blast
  moreover have "answers_http [Inr ((409, ''seat_unavailable''), 409)]" by (simp add: answers_http_def is_http_status_def)
  ultimately show ?thesis
    using load_test_never_finds_overselling [OF ok fk r(1), of "Suc 5" e "[Inr ((409, ''seat_unavailable''), 409)]"] r
    by (auto simp: is_sale_def is_5xx_def)
qed

text \<open>
  What the module's list of assertions promises and \<open>_verify\<close> does not check: a booked seat without
  any ticket passes, since tickets are only compared with the seats they are for.
\<close>

lemma ticketless_seat_passes:
  assumes "d_tickets d = []" "booked_seats f d \<le> seats"
  shows "verify f seats (booked_seats f d) d = []"
  using assms by (simp add: verify_def Let_def flight_tickets_def select_where_def)

end
