(* ===== verification/Sky_CardWatch.thy ===== *)
theory Sky_CardWatch
  imports Sky_Routes
begin

text \<open>
  What the two sorted sets that stop card testing, the distinct cards of an account and its booking
  attempts, see of a request. \<open>quiet\<close>: the sets and the gateway stay as they are. \<open>watched\<close>: either
  that, or one assessment was made, whose BLOCK keeps the request away from the gateway. The sets
  hold evidence: \<open>seen\<close> says which members they still count.
\<close>

subsection \<open>Other keys\<close>

definition card_keys :: "uuid \<Rightarrow> string set" where
  "card_keys u = {k_distinct_cards u, k_bookings u}"

definition same_keys :: "uuid \<Rightarrow> redis \<Rightarrow> redis \<Rightarrow> bool" where
  "same_keys u r r' = (\<forall>k \<in> card_keys u. r_zsets r' k = r_zsets r k \<and> r_expiry r' k = r_expiry r k)"

lemma same_keys_refl [simp]: "same_keys u r r"
  by (simp add: same_keys_def)

lemma same_keys_trans: "same_keys u r r1 \<Longrightarrow> same_keys u r1 r2 \<Longrightarrow> same_keys u r r2"
  by (simp add: same_keys_def)

lemma command_other_key:
  assumes "k \<notin> card_keys u"
  shows "same_keys u r (zremrangebyscore now k lo hi r)" "same_keys u r (zadd now k m sc r)"
    "same_keys u r (expire now k n r)" "same_keys u r (redis_set now k v ex r)"
  using assms by (auto simp: same_keys_def zremrangebyscore_def zadd_def expire_def redis_set_def purge_def Let_def)

lemma touch_other_key:
  assumes "k \<notin> card_keys u"
  shows "same_keys u r (snd (carding_touch now k m win r))" "same_keys u r (snd (carding_count now k win r))"
    "same_keys u r (snd (carding_members now k win r))" "same_keys u r (snd (limit_count l k now m r))"
proof -
  have z: "same_keys u r (zremrangebyscore now k 0 hi r)" for hi by (rule command_other_key [OF assms])
  have a: "same_keys u r (zadd now k m now (zremrangebyscore now k 0 hi r))" for hi
    by (rule same_keys_trans [OF z command_other_key(2) [OF assms]])
  have e: "same_keys u r (expire now k n (zadd now k m now (zremrangebyscore now k 0 hi r)))" for hi n
    by (rule same_keys_trans [OF a command_other_key(3) [OF assms]])
  show "same_keys u r (snd (carding_touch now k m win r))" "same_keys u r (snd (carding_count now k win r))"
    "same_keys u r (snd (carding_members now k win r))" "same_keys u r (snd (limit_count l k now m r))"
    by (simp_all add: carding_touch_def carding_count_def carding_members_def limit_count_def Let_def z e)
qed

lemma other_keys [simp]:
  "k_card_accounts fp \<notin> card_keys u" "k_declines_user v \<notin> card_keys u" "k_declines_ip ip \<notin> card_keys u"
  "k_outcomes v \<notin> card_keys u" "k_small v \<notin> card_keys u" "k_risk v \<notin> card_keys u" "limit_key l s \<notin> card_keys u"
  by (simp_all add: card_keys_def k_distinct_cards_def k_bookings_def k_card_accounts_def k_declines_user_def
      k_declines_ip_def k_outcomes_def k_small_def k_risk_def limit_key_def)

lemma key_of_cards [simp]: "k_distinct_cards u \<noteq> k_bookings u" "k_bookings u \<noteq> k_distinct_cards u"
  by (simp_all add: k_distinct_cards_def k_bookings_def)

subsection \<open>Requests that leave the evidence alone\<close>

definition quiet :: "uuid \<Rightarrow> world \<Rightarrow> world \<Rightarrow> bool" where
  "quiet u w w' = (w_gw w' = w_gw w \<and> same_keys u (w_redis w) (w_redis w'))"

lemma quiet_refl [simp]: "quiet u w w"
  by (simp add: quiet_def)

lemma quiet_trans: "quiet u w w1 \<Longrightarrow> quiet u w1 w2 \<Longrightarrow> quiet u w w2"
  by (auto simp: quiet_def intro: same_keys_trans)

lemma quiet_simps [simp]:
  "quiet u w (rollback w1) = quiet u w w1" "quiet u w (commit w1) = quiet u w w1"
  "quiet u w (map_cur f w1) = quiet u w w1" "quiet u w (record_security_event_bg now rq et sv a w1) = quiet u w w1"
  "quiet u (rollback w) w1 = quiet u w w1"
  "quiet u w (w1\<lparr>w_fresh := n\<rparr>) = quiet u w w1" "quiet u (w\<lparr>w_fresh := n\<rparr>) w1 = quiet u w w1"
  by (simp_all add: quiet_def)

lemma transact_quiet: "transact body w = (x, w') \<Longrightarrow> quiet u w w'"
  by (auto simp: transact_def split: sum.splits prod.splits)

lemma transact_redis: "transact body w = (x, w') \<Longrightarrow> w_redis w' = w_redis w"
  by (auto simp: transact_def split: sum.splits prod.splits)

lemma check_limit_quiet: "check_limit st up l subj ms h now rq w = (x, w') \<Longrightarrow> quiet u w w'"
  using touch_other_key(4) [where u = u and k = "limit_key l subj" and l = l and now = ms and m = "limit_member ms h" and r = "w_redis w"]
  by (auto simp: check_limit_def quiet_def Let_def split: if_splits prod.splits)

lemma rate_limit_quiet: "rate_limit st up b uid ms h now rq w = (x, w') \<Longrightarrow> quiet u w w'"
  by (auto simp: rate_limit_def Let_def split: option.splits prod.splits sum.splits if_splits
      dest: check_limit_quiet [where u = u] intro: quiet_trans)

lemma begin_claim_quiet: "begin_claim sha st now key v ep p w = (x, w') \<Longrightarrow> quiet u w w'"
  by (auto simp: begin_claim_def Let_def split: prod.splits if_splits sum.splits)

lemma claim_quiet [simp]:
  "quiet u w (complete_claim key v st body bid w1) = quiet u w w1" "quiet u w (release_claim key v w1) = quiet u w w1"
  by (simp_all add: complete_claim_def release_claim_def)

lemma record_outcome_keys:
  "same_keys u (w_redis w) (w_redis (record_outcome up ms hx now rq v ip fp ok w))"
proof -
  let ?r = "w_redis w"
  define r1 where "r1 = snd (carding_touch (ms 1) (k_outcomes v) (outcome_member (ms 0) ok) W_OUTCOME_SEQUENCE ?r)"
  have 1: "same_keys u ?r r1" unfolding r1_def by (rule touch_other_key) simp
  define r2 where "r2 = snd (carding_touch (ms 2) (k_declines_user v) (hx 0) W_DECLINES r1)"
  have 2: "same_keys u ?r r2" unfolding r2_def by (rule same_keys_trans [OF 1 touch_other_key(1)]) simp
  have 3: "same_keys u ?r (snd (carding_touch (ms 3) (k_declines_ip i) (hx 1) W_DECLINES r2))" for i
    by (rule same_keys_trans [OF 2 touch_other_key(1)]) simp
  define r3 where "r3 = snd (carding_members (ms 2) (k_outcomes v) W_OUTCOME_SEQUENCE r1)"
  have 4: "same_keys u ?r r3" unfolding r3_def by (rule same_keys_trans [OF 1 touch_other_key(3)]) simp
  have 5: "same_keys u ?r (redis_set t (k_risk v) x n r3)" for t x n
    by (rule same_keys_trans [OF 4 command_other_key(4)]) simp
  show ?thesis
    unfolding record_outcome_def Let_def prod.case_eq_if r1_def [symmetric] r2_def [symmetric] r3_def [symmetric]
    by (simp add: 2 3 [simplified] 4 5)
qed

lemma charge_redis: "charge hex p w = (x, w') \<Longrightarrow> w_redis w' = w_redis w"
  by (auto simp: charge_def call_gateway_def transact_redis split: prod.splits sum.splits exn.splits dest!: transact_redis)

lemma compensate_redis: "compensate now rq v tok b p why w = (x, w') \<Longrightarrow> w_redis w' = w_redis w"
  by (auto simp: compensate_def review_event_def split: prod.splits sum.splits if_splits dest!: transact_redis)

lemma ticket_redis: "ticket_and_confirm reread dr rq v tok dft b p w = (x, w') \<Longrightarrow> w_redis w' = w_redis w"
  by (auto simp: ticket_and_confirm_def Let_def split: prod.splits sum.splits if_splits dest!: transact_redis compensate_redis)

lemma take_payment_keys:
  assumes "take_payment reread dr rq v tok fp key a dft w = (x, w')"
  shows "same_keys u (w_redis w) (w_redis w')"
  using assms record_outcome_keys [where u = u]
  by (auto simp: take_payment_def decline_event_def Let_def split: prod.splits sum.splits if_splits
      dest!: transact_redis charge_redis) (metis (no_types, lifting))+

subsection \<open>What an assessment sees\<close>

text \<open>
  One assessment of account \<open>u\<close> with the draws \<open>dr\<close> and the fingerprint \<open>fp\<close>: what comes before and
  after it leaves the two sets alone, and a BLOCK leaves the gateway as it was.
\<close>

definition assessed :: "uuid \<Rightarrow> draws \<Rightarrow> string \<Rightarrow> world \<Rightarrow> world \<Rightarrow> bool" where
  "assessed u dr fp w w' =
     (\<exists>ip amount r1 s r2. same_keys u (w_redis w) r1 \<and>
        read_signals (dr_ms dr 0) (dr_member dr 0) u ip fp amount r1 = (s, r2) \<and> same_keys u r2 (w_redis w') \<and>
        (as_decision (assess s) = BLOCK \<longrightarrow> w_gw w' = w_gw w))"

definition watched :: "uuid \<Rightarrow> draws \<Rightarrow> string \<Rightarrow> world \<Rightarrow> world \<Rightarrow> bool" where
  "watched u dr fp w w' = (quiet u w w' \<or> assessed u dr fp w w')"

lemma watched_after: "quiet u w w1 \<Longrightarrow> watched u dr fp w1 w' \<Longrightarrow> watched u dr fp w w'"
  unfolding watched_def assessed_def quiet_def by (metis same_keys_trans)

lemma watched_before: "watched u dr fp w w1 \<Longrightarrow> quiet u w1 w' \<Longrightarrow> watched u dr fp w w'"
  unfolding watched_def assessed_def quiet_def by (metis same_keys_trans)

lemma quiet_watched: "quiet u w w' \<Longrightarrow> watched u dr fp w w'"
  by (simp add: watched_def)

lemma run_watched:
  assumes r: "run fingerprint reread dr rq u p key w = (x, w')" and up: "dr_up dr 0"
  shows "watched u dr (fingerprint (bc_card_token p)) w w'"
proof -
  let ?fp = "fingerprint (bc_card_token p)"
  obtain y w1 where c: "transact (create_step (dr_clock dr 0) (dr_now dr 0) (w_fresh w) (dr_pnr dr) u p key)
      (w\<lparr>w_fresh := w_fresh w + Suc (length (bc_passengers p))\<rparr>) = (y, w1)" by (metis surj_pair)
  have q: "quiet u w w1" using transact_quiet [OF c] by simp
  show ?thesis
  proof (cases y)
    case (Inl e)
    then show ?thesis using r c q by (auto simp: run_def intro: quiet_watched)
  next
    case (Inr dft)
    obtain a w2 where a: "assess_payment_attempt (dr_up dr 0) (dr_ms dr 0) (dr_member dr 0) (dr_now dr 1) rq u
        (client_ip rq) ?fp (b_total_amount (dft_booking dft)) w1 = (a, w2)" by (metis surj_pair)
    obtain s r2 where s: "read_signals (dr_ms dr 0) (dr_member dr 0) u (client_ip rq) ?fp
        (b_total_amount (dft_booking dft)) (w_redis w1) = (s, r2)" by (metis surj_pair)
    have w2: "a = assess s" "w_redis w2 = r2" "w_gw w2 = w_gw w1"
      using a s up by (auto simp: assess_payment_attempt_def Let_def split: if_splits)
    have "same_keys u r2 (w_redis w') \<and> (as_decision a = BLOCK \<longrightarrow> w_gw w' = w_gw w)"
    proof (cases "as_decision a = BLOCK")
      case True
      then show ?thesis
        using r c Inr a w2(2,3) q
        by (auto simp: run_def Let_def quiet_def split: prod.splits sum.splits dest!: transact_quiet [where u = u])
    next
      case False
      then obtain z w3 where t: "take_payment reread dr rq u (bc_card_token p) ?fp key a dft w2 = (z, w3)"
        "(\<exists>e. z = Inl e \<and> w' = w3) \<or> (\<exists>b1 q. z = Inr (b1, q) \<and>
          ticket_and_confirm reread dr rq u (bc_card_token p) dft b1 q w3 = (x, w'))"
        using r c Inr a by (auto simp: run_def Let_def split: prod.splits sum.splits)
      have "same_keys u r2 (w_redis w3)" using take_payment_keys [OF t(1)] w2(2) by simp
      with t(2) False show ?thesis by (auto dest: ticket_redis)
    qed
    then have "assessed u dr ?fp w w'"
      using q s w2(1) unfolding assessed_def quiet_def by blast
    then show ?thesis by (simp add: watched_def)
  qed
qed

lemma create_booking_watched:
  assumes c: "create_booking sha fingerprint reread st now dr rq u p key w = (x, w')" and up: "dr_up dr 0"
  shows "watched u dr (fingerprint (bc_card_token p)) w w'"
proof -
  obtain y w1 where b: "begin_claim sha st now key u ''POST /bookings'' (model_dump p) w = (y, w1)" by (metis surj_pair)
  note q = begin_claim_quiet [OF b, of u]
  obtain z w2 where r: "run fingerprint reread dr (Some rq) u p key w1 = (z, w2)" by (metis surj_pair)
  show ?thesis
  proof (cases "y = Inr None")
    case True
    have "watched u dr (fingerprint (bc_card_token p)) w w2"
      by (rule watched_after [OF q run_watched [OF r up]])
    moreover have "quiet u w2 w'"
      using c b r True by (auto simp: create_booking_def split: sum.splits exn.splits prod.splits)
    ultimately show ?thesis by (rule watched_before)
  next
    case False
    then have "quiet u w w'"
      using c b q by (auto simp: create_booking_def split: sum.splits option.splits)
    then show ?thesis by (rule quiet_watched)
  qed
qed

text \<open>The stages before the handler leave the evidence alone.\<close>

lemma serve_quiet_or:
  assumes "serve cr st b c caller payload handler w = (r, w')"
  shows "quiet u w w' \<or> (\<exists>v p w1 x w2. caller (w_cur w1) = Inr v \<and> payload = Some p \<and> quiet u w w1 \<and>
    handler v p w1 = (x, w2) \<and> quiet u w2 w')"
proof -
  let ?rl = "rate_limit st (hc_redis_up c) b (fst (auth_context cr (hc_now c) (hc_authorization c)))
             (hc_ms c) (hc_hexes c) (hc_now c) (Some (hc_request c)) (rollback w)"
  obtain x w1 where rl: "?rl = (x, w1)" by (metis surj_pair)
  have q: "quiet u w w1" using rate_limit_quiet [OF rl, of u] by simp
  show ?thesis
  proof (cases "\<exists>v p. x = Inr () \<and> caller (w_cur w1) = Inr v \<and> payload = Some p")
    case True
    then obtain v p where v: "x = Inr ()" "caller (w_cur w1) = Inr v" "payload = Some p" by blast
    obtain y w2 where h: "handler v p w1 = (y, w2)" by (metis surj_pair)
    have "quiet u w2 w'" using assms rl v h by (auto simp: serve_def Let_def split: sum.splits)
    with v h q show ?thesis by blast
  next
    case False
    then have "quiet u w w'"
      using assms rl q by (auto simp: serve_def Let_def reject_def split: sum.splits option.splits)
    then show ?thesis ..
  qed
qed

text \<open>The credential of a call names at most the account \<open>u\<close>.\<close>

definition names_only :: "crypto \<Rightarrow> (string \<Rightarrow> string option) \<Rightarrow> uuid \<Rightarrow> call \<Rightarrow> bool" where
  "names_only cr bearer u c = (\<forall>d x. current_user cr (hc_now c) (bearer (hc_authorization c)) d = Inr x \<longrightarrow> u_id x = u)"

lemma post_booking_watched:
  assumes p: "post_booking sha fingerprint reread cr bearer st today dr c body key w = (r, w')"
    and up: "dr_up dr 0" and u: "names_only cr bearer u c"
  shows "watched u dr (fingerprint (strip (bc_card_token body))) w w'"
proof -
  have "quiet u w w' \<or> (\<exists>v p w1 x w2. current_user cr (hc_now c) (bearer (hc_authorization c)) (w_cur w1) = Inr v \<and>
      (if idem_key_ok key then parse_booking_create today body else None) = Some p \<and> quiet u w w1 \<and>
      create_booking sha fingerprint reread st (hc_now c) dr (hc_request c) (u_id v) p key w1 = (x, w2) \<and> quiet u w2 w')"
    using serve_quiet_or [OF p [unfolded post_booking_def]] .
  then show ?thesis
  proof (elim disjE exE conjE)
    show "quiet u w w' \<Longrightarrow> ?thesis" by (rule quiet_watched)
  next
    fix v q w1 x w2
    assume v: "current_user cr (hc_now c) (bearer (hc_authorization c)) (w_cur w1) = Inr v"
      and q: "(if idem_key_ok key then parse_booking_create today body else None) = Some q"
      and w1: "quiet u w w1" and w2: "quiet u w2 w'"
      and cb: "create_booking sha fingerprint reread st (hc_now c) dr (hc_request c) (u_id v) q key w1 = (x, w2)"
    have "u_id v = u" using u v by (auto simp: names_only_def)
    moreover have "bc_card_token q = strip (bc_card_token body)"
      using q by (auto simp: parse_booking_create_def Let_def split: if_splits)
    ultimately have "watched u dr (fingerprint (strip (bc_card_token body))) w1 w2"
      using create_booking_watched [OF cb up] by simp
    then show ?thesis by (rule watched_after [OF w1 watched_before [OF _ w2]])
  qed
qed

subsection \<open>Evidence\<close>

text \<open>The members \<open>M\<close> have been added to the set at \<open>k\<close> since \<open>t0\<close>.\<close>

definition seen :: "int \<Rightarrow> int \<Rightarrow> int \<Rightarrow> string \<Rightarrow> string set \<Rightarrow> redis \<Rightarrow> bool" where
  "seen t0 now win k M r = (window_key now win k r \<and> (\<forall>m \<in> M. \<exists>t \<ge> t0. (m, t) \<in> set (r_zsets r k)))"

lemma seen_cong:
  assumes "seen t0 now win k M r" "r_zsets r' k = r_zsets r k" "r_expiry r' k = r_expiry r k"
  shows "seen t0 now win k M r'"
  using assms(1) unfolding seen_def window_key_def assms(2,3) .

lemma seen_later: "seen t0 now win k M r \<Longrightarrow> now \<le> now' \<Longrightarrow> seen t0 now' win k M r"
  by (auto simp: seen_def intro: window_key_later)

lemma seen_finite: "seen t0 now win k M r \<Longrightarrow> finite M"
  by (rule finite_subset [of _ "fst ` set (r_zsets r k)"]) (force simp: seen_def)+

lemma seen_touch:
  assumes M: "seen t0 now win k M r" and t: "t0 \<le> now" "now \<le> t" "0 \<le> t0" "t < t0 + win * 1000"
    and touch: "carding_touch t k m win r = (n, r')"
  shows "seen t0 t win k (insert m M) r'" "card (insert m M) \<le> n"
proof -
  have wk: "window_key t win k r" using M t(2) by (auto simp: seen_def intro: window_key_later)
  have "0 \<le> t" "0 \<le> win" using t by linarith+
  note spec = touch_pipe_spec [OF wk touch [unfolded carding_touch_pipe] this]
  have "\<exists>s \<ge> t0. (x, s) \<in> set (r_zsets r' k)" if "x \<in> insert m M" for x
  proof (cases "x = m")
    case True
    then show ?thesis using t unfolding spec(2) by (intro exI [of _ t]) (simp add: set_insort_key)
  next
    case False
    then have "\<exists>s \<ge> t0. (x, s) \<in> set (r_zsets r k)" using M that unfolding seen_def by blast
    then obtain s where "t0 \<le> s" "(x, s) \<in> set (r_zsets r k)" by blast
    then show ?thesis
      using t False unfolding spec(2)
      by (intro exI [of _ s]) (auto simp: set_insort_key window_def in_window_def)
  qed
  with spec(3) show s: "seen t0 t win k (insert m M) r'" by (simp add: seen_def)
  have "insert m M \<subseteq> fst ` set (r_zsets r' k)" using s by (force simp: seen_def)
  then have "card (insert m M) \<le> card (fst ` set (r_zsets r' k))" by (intro card_mono) simp
  also have "\<dots> \<le> length (r_zsets r' k)" by (metis card_image_le card_length le_trans List.finite_set)
  finally show "card (insert m M) \<le> n" using spec(1) by simp
qed

text \<open>Both sets of an account.\<close>

definition evidence :: "int \<Rightarrow> int \<Rightarrow> uuid \<Rightarrow> string set \<Rightarrow> string set \<Rightarrow> redis \<Rightarrow> bool" where
  "evidence t0 now u M B r =
     (seen t0 now W_DISTINCT_CARDS (k_distinct_cards u) M r \<and> seen t0 now W_RAPID_BOOKINGS (k_bookings u) B r)"

lemma evidence_same: "evidence t0 now u M B r \<Longrightarrow> same_keys u r r' \<Longrightarrow> evidence t0 now u M B r'"
  by (auto simp: evidence_def same_keys_def card_keys_def intro: seen_cong)

lemma evidence_later: "evidence t0 now u M B r \<Longrightarrow> now \<le> now' \<Longrightarrow> evidence t0 now' u M B r"
  by (auto simp: evidence_def intro: seen_later)

lemma touched_elsewhere: "carding_touch t k m win r = (n, r') \<Longrightarrow> k' \<noteq> k \<Longrightarrow> r_zsets r' k' = r_zsets r k' \<and> r_expiry r' k' = r_expiry r k'"
proof -
  have "k' \<noteq> k \<Longrightarrow> r_zsets (snd (carding_touch t k m win r)) k' = r_zsets r k' \<and> r_expiry (snd (carding_touch t k m win r)) k' = r_expiry r k'"
    unfolding carding_touch_def zremrangebyscore_def zadd_def expire_def purge_def Let_def snd_conv by simp
  then show "carding_touch t k m win r = (n, r') \<Longrightarrow> k' \<noteq> k \<Longrightarrow> r_zsets r' k' = r_zsets r k' \<and> r_expiry r' k' = r_expiry r k'"
    by simp
qed

lemma signals_of_evidence:
  assumes E: "evidence t0 now u M B r" and t: "t0 \<le> now" "0 \<le> t0" "now' < t0 + W_RAPID_BOOKINGS * 1000"
    and ms: "\<forall>i. now \<le> ms i \<and> ms i \<le> now'" and s: "read_signals ms hx u ip fp amount r = (s, r')"
  shows "evidence t0 now' u (insert fp M) (insert (hx 0) B) r'"
    "card (insert fp M) \<le> sg_distinct_cards s" "card (insert (hx 0) B) \<le> sg_rapid_bookings s"
proof -
  have late: "ms i < t0 + W_RAPID_BOOKINGS * 1000" "ms i < t0 + W_DISTINCT_CARDS * 1000" for i
    using ms [rule_format, of i] t(3) by (auto simp: carding_constants)
  obtain dc r1 where 1: "carding_touch (ms 0) (k_distinct_cards u) fp W_DISTINCT_CARDS r = (dc, r1)" by (metis surj_pair)
  obtain ca r2 where 2: "carding_touch (ms 1) (k_card_accounts fp) (uuid_str u) W_CARD_ACROSS_ACCOUNTS r1 = (ca, r2)" by (metis surj_pair)
  obtain rb r3 where 3: "carding_touch (ms 2) (k_bookings u) (hx 0) W_RAPID_BOOKINGS r2 = (rb, r3)" by (metis surj_pair)
  obtain du r4 where 4: "carding_count (ms 3) (k_declines_user u) W_DECLINES r3 = (du, r4)" by (metis surj_pair)
  obtain di r5 where 5: "(if truthy_ip ip then carding_count (ms 4) (k_declines_ip (the ip)) W_DECLINES r4 else (0, r4)) = (di, r5)"
    by (metis surj_pair)
  obtain sc r6 where 6: "(if amount \<le> SMALL_AMOUNT_CEILING
            then carding_touch (ms 5) (k_small u) (hx 1) W_SMALL_AMOUNTS r5
            else carding_count (ms 5) (k_small u) W_SMALL_AMOUNTS r5) = (sc, r6)" by (metis surj_pair)
  have sig: "sg_distinct_cards s = dc" "sg_rapid_bookings s = rb" "r' = r6"
    using s unfolding read_signals_def 1 prod.case 2 3 4 5 6 by auto
  have D: "seen t0 (ms 0) W_DISTINCT_CARDS (k_distinct_cards u) (insert fp M) r1" "card (insert fp M) \<le> dc"
    using seen_touch [OF _ t(1) _ t(2) late(2) 1, of M] E ms by (auto simp: evidence_def)
  have B1: "seen t0 now W_RAPID_BOOKINGS (k_bookings u) B r1"
    by (rule seen_cong [OF _ conjunct1 [OF touched_elsewhere [OF 1]] conjunct2 [OF touched_elsewhere [OF 1]]])
      (use E in \<open>simp_all add: evidence_def\<close>)
  have k2: "same_keys u r1 r2" using touch_other_key(1) [of "k_card_accounts fp" u] 2 by (metis other_keys(1) snd_conv)
  have E2: "seen t0 (ms 0) W_DISTINCT_CARDS (k_distinct_cards u) (insert fp M) r2"
    "seen t0 now W_RAPID_BOOKINGS (k_bookings u) B r2"
    using D(1) B1 k2 by (auto simp: same_keys_def card_keys_def intro: seen_cong)
  have B3: "seen t0 (ms 2) W_RAPID_BOOKINGS (k_bookings u) (insert (hx 0) B) r3" "card (insert (hx 0) B) \<le> rb"
    using seen_touch [OF E2(2) t(1) _ t(2) late(1) 3] ms by auto
  have D3: "seen t0 (ms 0) W_DISTINCT_CARDS (k_distinct_cards u) (insert fp M) r3"
    by (rule seen_cong [OF E2(1) conjunct1 [OF touched_elsewhere [OF 3]] conjunct2 [OF touched_elsewhere [OF 3]]]) simp_all
  have "same_keys u r3 r4" using touch_other_key(2) [of "k_declines_user u" u] 4 by (metis other_keys(2) snd_conv)
  moreover have "same_keys u r4 r5"
    using 5 touch_other_key(2) [of "k_declines_ip (the ip)" u] by (metis other_keys(3) prod.inject same_keys_refl snd_conv)
  moreover have "same_keys u r5 r6"
    using 6 touch_other_key(1,2) [of "k_small u" u] by (metis other_keys(5) snd_conv)
  ultimately have same: "same_keys u r3 r6" by (blast intro: same_keys_trans)
  have "evidence t0 now' u (insert fp M) (insert (hx 0) B) r3"
    using seen_later [OF D3] seen_later [OF B3(1)] ms by (auto simp: evidence_def)
  then show "evidence t0 now' u (insert fp M) (insert (hx 0) B) r'"
    unfolding sig by (rule evidence_same) (rule same)
  show "card (insert fp M) \<le> sg_distinct_cards s" "card (insert (hx 0) B) \<le> sg_rapid_bookings s"
    using D(2) B3(2) sig by simp_all
qed

text \<open>After three cards in three bookings the fourth one is blocked.\<close>

lemma fourth_card_blocked: "4 \<le> sg_distinct_cards s \<Longrightarrow> 3 \<le> sg_rapid_bookings s \<Longrightarrow> as_decision (assess s) = BLOCK"
  unfolding as_decision_def score_assess by (simp add: carding_constants)

lemma watched_step:
  assumes W: "watched u dr fp w w'" and E: "evidence t0 now u M B (w_redis w)"
    and t: "t0 \<le> now" "0 \<le> t0" "now \<le> now'" "now' < t0 + W_RAPID_BOOKINGS * 1000"
    and ms: "\<forall>i. now \<le> dr_ms dr 0 i \<and> dr_ms dr 0 i \<le> now'" and new: "fp \<notin> M" "dr_member dr 0 0 \<notin> B"
  shows "w_gw w' = w_gw w \<and> evidence t0 now' u M B (w_redis w') \<or>
    evidence t0 now' u (insert fp M) (insert (dr_member dr 0 0) B) (w_redis w') \<and>
    (3 \<le> card M \<longrightarrow> 3 \<le> card B \<longrightarrow> w_gw w' = w_gw w)"
  using W unfolding watched_def
proof (elim disjE)
  assume "quiet u w w'"
  then have "w_gw w' = w_gw w" "same_keys u (w_redis w) (w_redis w')" by (auto simp: quiet_def)
  then show ?thesis using evidence_later [OF evidence_same [OF E] t(3)] by blast
next
  assume "assessed u dr fp w w'"
  then obtain ip amount r1 s r2 where k: "same_keys u (w_redis w) r1" "same_keys u r2 (w_redis w')"
    and s: "read_signals (dr_ms dr 0) (dr_member dr 0) u ip fp amount r1 = (s, r2)"
    and blk: "as_decision (assess s) = BLOCK \<longrightarrow> w_gw w' = w_gw w"
    by (auto simp: assessed_def)
  note E2 = signals_of_evidence [OF evidence_same [OF E k(1)] t(1,2,4) ms s]
  have fin: "finite M" "finite B" using E by (auto simp: evidence_def dest: seen_finite)
  have "w_gw w' = w_gw w" if "3 \<le> card M" "3 \<le> card B"
    using blk fourth_card_blocked [of s] E2(2,3) that new fin by (simp add: le_trans [OF _ E2(2)] le_trans [OF _ E2(3)])
  then show ?thesis using evidence_same [OF E2(1) k(2)] by blast
qed

end
