(* ===== verification/Sky_CardTest.thy ===== *)
theory Sky_CardTest
  imports Sky_Exploit Sky_LoadProof Sky_CardWatch Sky_Admin
begin

text \<open>
  \<^verbatim>\<open>scripts/simulate_carding.py\<close>: an attacker who tries one stolen card after the other on one
  account. The script's attempt, its phases and its summary; and what the fraud controls make of
  it: within two minutes at most three cards are ever presented to the payment gateway.
\<close>

subsection \<open>The script\<close>

definition CARD_DECLINE :: string where "CARD_DECLINE = ''0002''"
definition CARD_APPROVE :: string where "CARD_APPROVE = ''0000''"
definition TEST_PASSWORD :: string where "TEST_PASSWORD = ''correct-horse-battery-staple''"

definition card_token :: "string \<Rightarrow> string \<Rightarrow> string" where
  "card_token hex8 ending = ''tok_test_'' @ hex8 @ ending"

definition CARDING_ROUTES :: "(string \<times> string) list" where
  "CARDING_ROUTES =
     [(''YOW'', ''YYZ''), (''YYZ'', ''YVR''), (''JFK'', ''LHR''), (''SFO'', ''JFK''),
      (''LHR'', ''SFO''), (''YVR'', ''YUL''), (''ORD'', ''SFO''), (''YUL'', ''LHR'')]"

definition find_a_flight :: "time \<Rightarrow> int \<Rightarrow> db \<Rightarrow> (uuid \<times> string list) option" where
  "find_a_flight now today = scan_flights now today CARDING_ROUTES 12 (\<lambda>flight free. Some (flight, free))"

text \<open>The service the script talks to, and what the service sees of one registration and one attempt.\<close>

record service =
  sv_sha256 :: "string \<Rightarrow> string"
  sv_fingerprint :: "string \<Rightarrow> string"
  sv_reread :: "seat \<Rightarrow> seat \<Rightarrow> seat"
  sv_crypto :: crypto
  sv_bearer :: "string \<Rightarrow> string option"
  sv_valid_email :: "string \<Rightarrow> bool"
  sv_settings :: settings
  sv_today :: date

record registration =
  rg_call :: call
  rg_salt :: string
  rg_raw :: string
  rg_hex :: string

record attempt_data =
  at_hold :: call
  at_book :: call
  at_delete :: call
  at_clock :: time
  at_draws :: draws
  at_hex :: string
  at_key :: string
  at_flight :: uuid
  at_seat :: string
  at_card :: string

text \<open>\<open>register\<close>: the headers of the new account. \<open>SystemExit\<close> and httpx's errors end the script.\<close>

definition register_account :: "service \<Rightarrow> string \<Rightarrow> registration \<Rightarrow> world \<Rightarrow> (exn + string) \<times> world" where
  "register_account sv label rg w =
     (case post_register (sv_crypto sv) (sv_valid_email sv) (sv_settings sv) (rg_salt rg) (rg_raw rg) (rg_call rg)
             \<lparr>rr_email = label @ ''-'' @ rg_hex rg @ ''@example.com'', rr_password = TEST_PASSWORD, rr_full_name = None\<rparr> w of
        (r, w1) \<Rightarrow>
          if rsp_status r = 429 then (Inl (RuntimeError ''SystemExit''), w1)
          else if rsp_status r < 200 \<or> 300 \<le> rsp_status r then (Inl (RuntimeError ''HTTPStatusError''), w1)
          else
            (case map_of (rsp_body r) ''access_token'' of
               Some (JStr token) \<Rightarrow> (Inr (''Bearer '' @ token), w1)
             | _ \<Rightarrow> (Inl (ValueError ''access_token''), w1)))"

definition test_buyer :: "uuid \<Rightarrow> string \<Rightarrow> booking_create" where
  "test_buyer hold_id token =
     \<lparr>bc_hold_ids = [hold_id],
      bc_passengers = [\<lparr>pi_given_name = ''Test'', pi_family_name = ''Buyer'', pi_dob = None, pi_passport_number = None\<rparr>],
      bc_card_token = token, bc_contact_email = None\<rparr>"

text \<open>\<open>DELETE /holds/{hold_id}\<close>, whose answer the script ignores.\<close>

definition delete_hold_route :: "crypto \<Rightarrow> (string \<Rightarrow> string option) \<Rightarrow> call \<Rightarrow> uuid \<Rightarrow> world \<Rightarrow> world" where
  "delete_hold_route cr bearer c hold_id w =
     (case current_user cr (hc_now c) (bearer (hc_authorization c)) (w_com w) of
        Inl e \<Rightarrow> rollback w
      | Inr u \<Rightarrow> rollback (snd (delete_hold (hc_now c) (Some (hc_request c)) hold_id u (rollback w))))"

text \<open>
  \<open>attempt\<close>: the status and the \<open>code\<close> or \<open>state\<close> of the last answer. A failed hold request is
  read as JSON, which the plain text of an unhandled error is not.
\<close>

definition answered_or :: "string \<Rightarrow> json \<Rightarrow> (string \<times> json) list \<Rightarrow> json" where
  "answered_or k dflt body = (case map_of body k of None \<Rightarrow> dflt | Some j \<Rightarrow> j)"

definition attempt :: "service \<Rightarrow> attempt_data \<Rightarrow> world \<Rightarrow> (exn + int \<times> json) \<times> world" where
  "attempt sv a w =
     (case post_hold (sv_crypto sv) (sv_bearer sv) (sv_settings sv) (at_clock a) (at_hold a) (at_flight a, at_seat a) w of
        (held, w1) \<Rightarrow>
          if rsp_status held \<noteq> 201
          then (if rsp_body held = [] then Inl (ValueError ''JSONDecodeError'')
                else Inr (rsp_status held, answered_or ''code'' (JStr ''?'') (rsp_body held)), w1)
          else
            (case map_of (rsp_body held) ''hold_id'' of
               Some (JUuid hold_id) \<Rightarrow>
                 (case post_booking (sv_sha256 sv) (sv_fingerprint sv) (sv_reread sv) (sv_crypto sv) (sv_bearer sv)
                         (sv_settings sv) (sv_today sv) (at_draws a) (at_book a) (test_buyer hold_id (at_card a)) (at_key a) w1 of
                    (booked, w2) \<Rightarrow>
                      (Inr (rsp_status booked, answered_or ''code'' (answered_or ''state'' (JStr ''?'') (rsp_body booked)) (rsp_body booked)),
                       if rsp_status booked \<noteq> 201
                       then delete_hold_route (sv_crypto sv) (sv_bearer sv) (at_delete a) hold_id w2 else w2))
             | _ \<Rightarrow> (Inl (ValueError ''hold_id''), w1)))"

text \<open>
  What the phases fill in: the headers, the flight, the next seat of the pool (\<open>next\<close> on an exhausted
  iterator inside a coroutine is a \<open>RuntimeError\<close>) and the card.
\<close>

definition signed :: "string \<Rightarrow> attempt_data \<Rightarrow> attempt_data" where
  "signed headers a =
     a\<lparr>at_hold := (at_hold a)\<lparr>hc_authorization := headers\<rparr>, at_book := (at_book a)\<lparr>hc_authorization := headers\<rparr>,
       at_delete := (at_delete a)\<lparr>hc_authorization := headers\<rparr>\<rparr>"

definition attempt_next ::
  "service \<Rightarrow> string \<Rightarrow> uuid \<Rightarrow> string list \<Rightarrow> nat \<Rightarrow> string \<Rightarrow> attempt_data \<Rightarrow> world \<Rightarrow> (exn + int \<times> json) \<times> world" where
  "attempt_next sv headers flight seats i token a w =
     (if i < length seats
      then attempt sv ((signed headers a)\<lparr>at_flight := flight, at_seat := seats ! i, at_card := token\<rparr>) w
      else (Inl (RuntimeError ''coroutine raised StopIteration''), w))"

text \<open>Phase 2: one account, a new card each time; an exception ends the script.\<close>

fun many_cards ::
  "service \<Rightarrow> string \<Rightarrow> uuid \<Rightarrow> string list \<Rightarrow> nat \<Rightarrow> attempt_data list \<Rightarrow> world \<Rightarrow> (exn + (int \<times> json) list) \<times> world" where
  "many_cards sv headers flight seats i [] w = (Inr [], w)"
| "many_cards sv headers flight seats i (a # as) w =
     (case attempt_next sv headers flight seats i (card_token (at_hex a) CARD_DECLINE) a w of
        (Inl e, w1) \<Rightarrow> (Inl e, w1)
      | (Inr r, w1) \<Rightarrow>
          (case many_cards sv headers flight seats (Suc i) as w1 of
             (Inl e, w2) \<Rightarrow> (Inl e, w2)
           | (Inr rs, w2) \<Rightarrow> (Inr (r # rs), w2)))"

text \<open>Phase 4: one card, a new account each time.\<close>

fun many_accounts ::
  "service \<Rightarrow> uuid \<Rightarrow> string list \<Rightarrow> string \<Rightarrow> nat \<Rightarrow> nat \<Rightarrow> (registration \<times> attempt_data) list \<Rightarrow> world \<Rightarrow>
   (exn + (int \<times> json) list) \<times> world" where
  "many_accounts sv flight seats shared i index [] w = (Inr [], w)"
| "many_accounts sv flight seats shared i index ((rg, a) # as) w =
     (case register_account sv (''mule'' @ show_nat index) rg w of
        (Inl e, w0) \<Rightarrow> (Inl e, w0)
      | (Inr headers, w0) \<Rightarrow>
          (case attempt_next sv headers flight seats i shared a w0 of
             (Inl e, w1) \<Rightarrow> (Inl e, w1)
           | (Inr r, w1) \<Rightarrow>
               (case many_accounts sv flight seats shared (Suc i) (Suc index) as w1 of
                  (Inl e, w2) \<Rightarrow> (Inl e, w2)
                | (Inr rs, w2) \<Rightarrow> (Inr (r # rs), w2))))"

text \<open>
  \<open>main\<close> from the search for a flight on: the outcomes of the four phases, and which notes are
  printed. \<open>any_rate_limited\<close> is False until phase 4 sets it.
\<close>

record demo_report =
  rp_legit :: "int \<times> json"
  rp_cards :: "(int \<times> json) list"
  rp_live :: "int \<times> json"
  rp_mules :: "(int \<times> json) list"
  rp_phase2_note :: bool
  rp_never_reached_gateway :: bool
  rp_phase4_note :: bool

definition simulate ::
  "service \<Rightarrow> time \<Rightarrow> int \<Rightarrow> registration \<times> attempt_data \<Rightarrow> registration \<Rightarrow> attempt_data list \<Rightarrow> attempt_data \<Rightarrow>
   string \<Rightarrow> (registration \<times> attempt_data) list \<Rightarrow> world \<Rightarrow> (exn + demo_report) \<times> world" where
  "simulate sv now today legit attacker cards live shared_hex mules w =
     (let any_rate_limited = False in
      case find_a_flight now today (w_com w) of
        None \<Rightarrow> (Inl (RuntimeError ''SystemExit''), w)
      | Some (flight, seats) \<Rightarrow>
          (case register_account sv ''legit'' (fst legit) w of
             (Inl e, w0) \<Rightarrow> (Inl e, w0)
           | (Inr h1, w0) \<Rightarrow>
          (case attempt_next sv h1 flight seats 0 (card_token (at_hex (snd legit)) CARD_APPROVE) (snd legit) w0 of
             (Inl e, w1) \<Rightarrow> (Inl e, w1)
           | (Inr r1, w1) \<Rightarrow>
          (case register_account sv ''attacker'' attacker w1 of
             (Inl e, w2) \<Rightarrow> (Inl e, w2)
           | (Inr h2, w2) \<Rightarrow>
          (case many_cards sv h2 flight seats 1 cards w2 of
             (Inl e, w3) \<Rightarrow> (Inl e, w3)
           | (Inr r2, w3) \<Rightarrow>
          (case attempt_next sv h2 flight seats (1 + length cards) (card_token (at_hex live) CARD_APPROVE) live w3 of
             (Inl e, w4) \<Rightarrow> (Inl e, w4)
           | (Inr r3, w4) \<Rightarrow>
          (case many_accounts sv flight seats (card_token shared_hex CARD_DECLINE) (2 + length cards) 0 mules w4 of
             (Inl e, w5) \<Rightarrow> (Inl e, w5)
           | (Inr r4, w5) \<Rightarrow>
               (Inr \<lparr>rp_legit = r1, rp_cards = r2, rp_live = r3, rp_mules = r4,
                     rp_phase2_note = any_rate_limited, rp_never_reached_gateway = (fst r3 = 403),
                     rp_phase4_note = fold (\<lambda>r limited. limited \<or> fst r = 429) r4 any_rate_limited\<rparr>, w5))))))))"

text \<open>\<open>summarize\<close>: what the detector recorded in the last three minutes.\<close>

definition recent_carding :: "time \<Rightarrow> db \<Rightarrow> security_event list" where
  "recent_carding clock d =
     take 500 (order_by_desc se_id (select_where
       (\<lambda>e. se_event_type e \<in> {SE_CARDING_SUSPECTED, SE_CARDING_BLOCKED} \<and> clock - seconds (3 * 60) \<le> se_occurred_at e)
       (d_events d)))"

definition detail_rules :: "json \<Rightarrow> string list" where
  "detail_rules j =
     (case j of
        JObj kvs \<Rightarrow>
          (case map_of kvs ''rules_hit'' of
             Some (JList rs) \<Rightarrow> List.map_filter (\<lambda>r. case r of JStr s \<Rightarrow> Some s | _ \<Rightarrow> None) rs
           | _ \<Rightarrow> [])
      | _ \<Rightarrow> [])"

definition detail_rule :: "json \<Rightarrow> string option" where
  "detail_rule j =
     (case j of JObj kvs \<Rightarrow> (case map_of kvs ''rule'' of Some (JStr s) \<Rightarrow> Some s | _ \<Rightarrow> None) | _ \<Rightarrow> None)"

definition most_common :: "(string \<times> nat) list \<Rightarrow> (string \<times> nat) list" where
  "most_common kcs = sort_key (\<lambda>kc. - int (snd kc)) kcs"

definition summarize :: "time \<Rightarrow> db \<Rightarrow> (nat \<times> (string \<times> nat) list \<times> (string \<times> nat) list) option" where
  "summarize clock d =
     (let rows = recent_carding clock d in
      if rows = [] then None
      else Some (length rows, most_common (counter (map (security_event_type_value \<circ> se_event_type) rows)),
                 most_common (counter (concat (map (detail_rules \<circ> se_detail) rows) @
                                       List.map_filter (detail_rule \<circ> se_detail) rows))))"

subsection \<open>How many cards are judged\<close>

text \<open>
  The gateway answers a new key by storing the outcome, approval or decline, so an attempt after
  which it is as before has told the attacker nothing about the card.
\<close>

fun cards_judged :: "service \<Rightarrow> attempt_data list \<Rightarrow> world \<Rightarrow> nat" where
  "cards_judged sv [] w = 0"
| "cards_judged sv (a # as) w =
     (case attempt sv a w of
        (_, w1) \<Rightarrow> (if w_gw w1 = w_gw w then 0 else 1) + cards_judged sv as w1)"

lemma create_hold_quiet: "create_hold st now clock v p w = (x, w') \<Longrightarrow> quiet u w w'"
  by (auto simp: create_hold_def split: prod.splits sum.splits dest!: transact_quiet [where u = u])

lemma json_answer_world: "json_answer st body r = (x, w') \<Longrightarrow> w' = snd r"
  by (auto simp: json_answer_def split: prod.splits sum.splits)

lemma post_hold_quiet:
  assumes "post_hold cr bearer st clock c body w = (r, w')"
  shows "quiet u w w'"
proof -
  have h: "quiet u w1 (snd (create_hold st now clock v p w1))" for now v p w1
    by (rule create_hold_quiet) (rule prod.collapse [symmetric])
  show ?thesis
    using serve_quiet_or [OF assms [unfolded post_hold_def], of u] h
    by (auto dest!: json_answer_world) (metis h quiet_trans)
qed

lemma owned_hold_quiet: "owned_hold now rq i v w = (x, w') \<Longrightarrow> quiet u w w'"
  by (auto simp: owned_hold_def deny_def split: option.splits)

lemma delete_hold_quiet: "quiet u w (delete_hold_route cr bearer c i w)"
proof -
  have "quiet u v (snd (delete_hold now rq i x v))" for now rq x v
    by (auto simp: delete_hold_def split: prod.splits sum.splits dest!: owned_hold_quiet [where u = u])
  from this [of "rollback w"] show ?thesis by (auto simp: delete_hold_route_def split: sum.splits)
qed

lemma attempt_watched:
  assumes a: "attempt sv a w = (x, w')" and u: "names_only (sv_crypto sv) (sv_bearer sv) u (at_book a)"
    and up: "dr_up (at_draws a) 0"
  shows "watched u (at_draws a) (sv_fingerprint sv (strip (at_card a))) w w'"
proof -
  obtain held w1 where h: "post_hold (sv_crypto sv) (sv_bearer sv) (sv_settings sv) (at_clock a) (at_hold a)
      (at_flight a, at_seat a) w = (held, w1)" by (metis surj_pair)
  note q = post_hold_quiet [OF h, of u]
  show ?thesis
  proof (cases "rsp_status held = 201 \<and> (\<exists>i. map_of (rsp_body held) ''hold_id'' = Some (JUuid i))")
    case True
    then obtain i where i: "rsp_status held = 201" "map_of (rsp_body held) ''hold_id'' = Some (JUuid i)" by blast
    obtain booked w2 where b: "post_booking (sv_sha256 sv) (sv_fingerprint sv) (sv_reread sv) (sv_crypto sv) (sv_bearer sv)
        (sv_settings sv) (sv_today sv) (at_draws a) (at_book a) (test_buyer i (at_card a)) (at_key a) w1 = (booked, w2)"
      by (metis surj_pair)
    have "watched u (at_draws a) (sv_fingerprint sv (strip (at_card a))) w w2"
      using watched_after [OF q post_booking_watched [OF b up u]] by (simp add: test_buyer_def)
    moreover have "quiet u w2 w'"
      using a h i b delete_hold_quiet by (auto simp: attempt_def split: if_splits)
    ultimately show ?thesis by (rule watched_before)
  next
    case False
    then have "w' = w1"
      using a h by (auto simp: attempt_def split: if_splits option.splits json.splits)
    with q show ?thesis by (simp add: quiet_watched)
  qed
qed

text \<open>A burst of one account: the credentials, the clock readings, the cards and the draws of its attempts.\<close>

definition burst :: "service \<Rightarrow> uuid \<Rightarrow> int \<Rightarrow> attempt_data list \<Rightarrow> bool" where
  "burst sv u t0 as =
     ((\<forall>a \<in> set as. names_only (sv_crypto sv) (sv_bearer sv) u (at_book a) \<and> dr_up (at_draws a) 0 \<and>
         (\<forall>i. t0 \<le> dr_ms (at_draws a) 0 i \<and> dr_ms (at_draws a) 0 i < t0 + W_RAPID_BOOKINGS * 1000)) \<and>
      sorted_wrt (\<lambda>a b. \<forall>i j. dr_ms (at_draws a) 0 i \<le> dr_ms (at_draws b) 0 j) as \<and>
      distinct (map (\<lambda>a. sv_fingerprint sv (strip (at_card a))) as) \<and>
      distinct (map (\<lambda>a. dr_member (at_draws a) 0 0) as))"

lemma burst_Cons:
  assumes b: "burst sv u t0 (a # as)" and now: "\<forall>b \<in> set (a # as). \<forall>i. now \<le> dr_ms (at_draws b) 0 i"
  obtains now' where "now \<le> now'" "now' < t0 + W_RAPID_BOOKINGS * 1000"
    "\<forall>i. now \<le> dr_ms (at_draws a) 0 i \<and> dr_ms (at_draws a) 0 i \<le> now'"
    "\<forall>b \<in> set as. \<forall>i. now' \<le> dr_ms (at_draws b) 0 i" "burst sv u t0 as"
proof -
  let ?R = "range (dr_ms (at_draws a) 0)"
  have sub: "?R \<subseteq> {t0..<t0 + W_RAPID_BOOKINGS * 1000}" using b by (auto simp: burst_def)
  have fin: "finite ?R" by (rule finite_subset [OF sub]) simp
  have M: "Max ?R \<in> ?R" by (rule Max_in [OF fin]) simp
  then obtain k where k: "Max ?R = dr_ms (at_draws a) 0 k" by blast
  show thesis
  proof (rule that [of "Max ?R"])
    show "now \<le> Max ?R" using now k by simp
    show "Max ?R < t0 + W_RAPID_BOOKINGS * 1000" using M sub by (meson atLeastLessThan_iff subsetD)
    show "\<forall>i. now \<le> dr_ms (at_draws a) 0 i \<and> dr_ms (at_draws a) 0 i \<le> Max ?R" using now fin by simp
    show "\<forall>b \<in> set as. \<forall>i. Max ?R \<le> dr_ms (at_draws b) 0 i" using b k by (simp add: burst_def)
    show "burst sv u t0 as" using b by (simp add: burst_def)
  qed
qed

lemma judged_bound:
  assumes "evidence t0 now u M B (w_redis w)" "card M = n" "card B = n" "burst sv u t0 as" "0 \<le> t0" "t0 \<le> now"
    and "\<forall>a \<in> set as. \<forall>i. now \<le> dr_ms (at_draws a) 0 i"
    and "\<forall>a \<in> set as. sv_fingerprint sv (strip (at_card a)) \<notin> M \<and> dr_member (at_draws a) 0 0 \<notin> B"
  shows "cards_judged sv as w \<le> 3 - n"
  using assms
proof (induction as arbitrary: now M B w n)
  case Nil
  then show ?case by simp
next
  case (Cons a as)
  let ?fp = "sv_fingerprint sv (strip (at_card a))" and ?m = "dr_member (at_draws a) 0 0"
  note E = Cons.prems(1) and new = Cons.prems(8)
  obtain now' where t: "now \<le> now'" "now' < t0 + W_RAPID_BOOKINGS * 1000"
    "\<forall>i. now \<le> dr_ms (at_draws a) 0 i \<and> dr_ms (at_draws a) 0 i \<le> now'"
    "\<forall>b \<in> set as. \<forall>i. now' \<le> dr_ms (at_draws b) 0 i" "burst sv u t0 as"
    by (rule burst_Cons [OF Cons.prems(4,7)])
  have later: "t0 \<le> now'" using Cons.prems(6) t(1) by simp
  obtain x w1 where a: "attempt sv a w = (x, w1)" by (metis surj_pair)
  have W: "watched u (at_draws a) ?fp w w1"
    by (rule attempt_watched [OF a]) (use Cons.prems(4) in \<open>auto simp: burst_def\<close>)
  have "?fp \<notin> M" "?m \<notin> B" using new by simp_all
  note step = watched_step [OF W E Cons.prems(6,5) t(1,2,3) this]
  from step show ?case
  proof (elim disjE conjE)
    assume g: "w_gw w1 = w_gw w" and E1: "evidence t0 now' u M B (w_redis w1)"
    have "cards_judged sv as w1 \<le> 3 - n"
      by (rule Cons.IH [OF E1 Cons.prems(2,3) t(5) Cons.prems(5) later t(4)]) (use new in simp)
    then show ?thesis using a g by simp
  next
    assume E1: "evidence t0 now' u (insert ?fp M) (insert ?m B) (w_redis w1)"
      and blk: "3 \<le> card M \<longrightarrow> 3 \<le> card B \<longrightarrow> w_gw w1 = w_gw w"
    have fin: "finite M" "finite B" using E by (auto simp: evidence_def dest: seen_finite)
    have c: "card (insert ?fp M) = Suc n" "card (insert ?m B) = Suc n"
      using fin new Cons.prems(2,3) by simp_all
    have "cards_judged sv as w1 \<le> 3 - Suc n"
    proof (rule Cons.IH [OF E1 c t(5) Cons.prems(5) later t(4)])
      show "\<forall>b \<in> set as. sv_fingerprint sv (strip (at_card b)) \<notin> insert ?fp M \<and> dr_member (at_draws b) 0 0 \<notin> insert ?m B"
        using new Cons.prems(4) by (auto simp: burst_def image_iff)
    qed
    moreover have "w_gw w1 = w_gw w \<or> n < 3" using blk Cons.prems(2,3) by auto
    ultimately show ?thesis using a by auto
  qed
qed

text \<open>
  C12: card testing gets three tries. However many cards one account tries within two minutes,
  each in a hold and a POST of its own as the script does, with Redis up and the two windows of the account
  in any state the code leaves them in: at most three of them are judged by the payment
  gateway. From the fourth assessed attempt on, four distinct cards (40) and four rapid bookings (25) reach
  the block threshold of 60, and a blocked attempt leaves the gateway as it was.
\<close>

theorem card_testing_gets_three_tries:
  assumes windows: "window_key t0 W_DISTINCT_CARDS (k_distinct_cards u) (w_redis w)"
      "window_key t0 W_RAPID_BOOKINGS (k_bookings u) (w_redis w)" and t0: "0 \<le> t0"
    and burst: "burst sv u t0 as"
  shows "cards_judged sv as w \<le> 3"
proof -
  have E: "evidence t0 t0 u {} {} (w_redis w)" using windows by (simp add: evidence_def seen_def)
  show ?thesis
    using judged_bound [OF E _ _ burst t0, of 0] burst by (simp add: burst_def)
qed

text \<open>Account 7 tries one card after the other on the free seat 12B, a second apart.\<close>

definition burst_world :: world where
  "burst_world = (let d = held_db\<lparr>d_users := [demo_user]\<rparr> in
     \<lparr>w_com = d, w_cur = d, w_gw = empty_gateway, w_redis = empty_redis, w_fresh = 20\<rparr>)"

definition burst_service :: service where
  "burst_service = \<lparr>sv_sha256 = id, sv_fingerprint = id, sv_reread = (\<lambda>_ s. s),
     sv_crypto = one_token_crypto (access_claims default_settings 0 3 demo_user), sv_bearer = Some,
     sv_valid_email = (\<lambda>_. True), sv_settings = default_settings\<lparr>rate_limit_enabled := False\<rparr>, sv_today = (2026, 1, 1)\<rparr>"

definition burst_draws :: "nat \<Rightarrow> draws" where
  "burst_draws k = \<lparr>dr_clock = (\<lambda>_. 1), dr_now = (\<lambda>_. 1), dr_pnr = (\<lambda>i j. i + j + k), dr_eticket = (\<lambda>i j. i),
     dr_hex = (\<lambda>_. ''0123456789abcdef''), dr_up = (\<lambda>_. True), dr_ms = (\<lambda>_ _. 1000 + 1000 * int k),
     dr_member = (\<lambda>_ _. show_nat k)\<rparr>"

definition burst_try :: "nat \<Rightarrow> attempt_data" where
  "burst_try k =
     (let c = attacker_call in
      \<lparr>at_hold = c, at_book = c, at_delete = c, at_clock = 1, at_draws = burst_draws k, at_hex = ''0000000'' @ show_nat k,
       at_key = ''key-000'' @ show_nat k, at_flight = 1, at_seat = ''12B'',
       at_card = card_token (''0000000'' @ show_nat k) CARD_DECLINE\<rparr>)"

lemma burst_of_five: "burst burst_service 7 1000 (map burst_try [0..<5])"
proof -
  have u: "u_id x = 7" if "current_user (sv_crypto burst_service) now cred d = Inr x" for now cred d x
  proof -
    have "sv_crypto burst_service = one_token_crypto (access_claims default_settings 0 3 demo_user)"
      by (simp add: burst_service_def)
    moreover have "find_user i d = Some x \<Longrightarrow> u_id x = i" for i by (auto simp: find_user_def dest: select_one_Some)
    ultimately show ?thesis
      using that by (auto simp: current_user_def decode_access_token_def one_token_crypto_def access_claims_def demo_user_def
        split: option.splits sum.splits if_splits)
  qed
  have five: "[0..<5] = [0 :: nat, 1, 2, 3, 4]" by (simp add: upt_rec)
  have cards: "distinct (map (\<lambda>k. sv_fingerprint burst_service (strip (at_card (burst_try k)))) [0, 1, 2, 3, 4])"
    by code_simp
  have draws: "distinct (map (\<lambda>k. dr_member (at_draws (burst_try k)) 0 0) [0, 1, 2, 3, 4])" by code_simp
  show ?thesis
    using cards draws u unfolding burst_def five names_only_def
    by (simp add: burst_try_def burst_draws_def carding_constants Let_def)
qed

theorem card_testing_gets_three_tries_witness:
  "cards_judged burst_service (map burst_try [0..<5]) burst_world \<le> 3"
proof -
  have "window_key 1000 win k (w_redis burst_world)" for win k
    by (simp add: burst_world_def Let_def window_key_initial)
  then show ?thesis using card_testing_gets_three_tries [OF _ _ _ burst_of_five] by simp
qed

text \<open>The second phase never notes that the rate limiter answered: its flag is only set in the fourth.\<close>

lemma phase_two_note_is_silent:
  assumes "simulate sv now today legit attacker cards live shared_hex mules w = (Inr rp, w')"
  shows "\<not> rp_phase2_note rp"
  using assms by (auto simp: simulate_def Let_def split: option.splits sum.splits prod.splits)

end
