(* ===== verification/Sky_SeedRun.thy ===== *)
theory Sky_SeedRun
  imports Sky_SeedFacts Sky_LoadProof
begin

text \<open>
  The seeding scripts as a whole: \<open>fetch\<close> with its cache of downloaded files and \<open>main\<close> of
  \<^verbatim>\<open>scripts/seed_reference.py\<close>, the closing reports of both scripts, and the great-circle distance of
  \<^verbatim>\<open>scripts/seed_flights.py\<close>, with real numbers for its floats.
\<close>

subsection \<open>The files\<close>

text \<open>
  The data directory is a map from names to texts. \<open>read_text\<close> translates line ends to newlines;
  \<open>download\<close> is the HTTP client. The new files are kept when a later step fails.
\<close>

fun universal_newlines :: "string \<Rightarrow> string" where
  "universal_newlines [] = []"
| "universal_newlines (c # cs) =
     (if c = CHR 0x0D
      then (case cs of
              [] \<Rightarrow> [CHR 0x0A]
            | d # ds \<Rightarrow> if d = CHR 0x0A then universal_newlines cs else CHR 0x0A # universal_newlines cs)
      else c # universal_newlines cs)"

definition fetch ::
  "(string \<Rightarrow> exn + string) \<Rightarrow> bool \<Rightarrow> string \<Rightarrow> (string \<rightharpoonup> string) \<Rightarrow> (exn + string) \<times> (string \<rightharpoonup> string)" where
  "fetch download refresh name files =
     (case (if refresh then None else files name) of
        Some raw \<Rightarrow> (Inr (universal_newlines raw), files)
      | None \<Rightarrow>
          (case download name of
             Inl e \<Rightarrow> (Inl e, files)
           | Inr raw \<Rightarrow> (Inr raw, files(name \<mapsto> raw))))"

definition fetch_all ::
  "(string \<Rightarrow> exn + string) \<Rightarrow> bool \<Rightarrow> (string \<rightharpoonup> string) \<Rightarrow> (exn + string \<times> string \<times> string) \<times> (string \<rightharpoonup> string)" where
  "fetch_all download refresh files =
     (case fetch download refresh ''airports.csv'' files of
        (Inl e, f1) \<Rightarrow> (Inl e, f1)
      | (Inr a, f1) \<Rightarrow>
          (case fetch download refresh ''airlines.dat'' f1 of
             (Inl e, f2) \<Rightarrow> (Inl e, f2)
           | (Inr l, f2) \<Rightarrow>
               (case fetch download refresh ''routes.dat'' f2 of
                  (Inl e, f3) \<Rightarrow> (Inl e, f3)
                | (Inr r, f3) \<Rightarrow> (Inr (a, l, r), f3))))"

subsection \<open>The reports\<close>

text \<open>
  The airlines departing from Ottawa by their number of routes, grouped by name; SQL leaves the
  order of equal counts open, here it is that of the routes.
\<close>

definition departing :: "string \<Rightarrow> db \<Rightarrow> (string \<times> nat) list" where
  "departing iata d =
     take 5 (sort_key (\<lambda>nc. - int (snd nc))
       (counter (concat (map (\<lambda>r. map al_name (filter (\<lambda>a. al_iata a = ro_airline_iata r) (d_airlines d)))
          (filter (\<lambda>r. ro_src_iata r = iata) (d_routes d))))))"

definition reference_report :: "db \<Rightarrow> (nat \<times> nat \<times> nat) \<times> (string \<times> nat) list" where
  "reference_report d = ((length (d_airports d), length (d_airlines d), length (d_routes d)), departing ''YOW'' d)"

definition reference_main ::
  "(string \<Rightarrow> exn + string) \<Rightarrow> (string \<Rightarrow> rat option) \<Rightarrow> bool \<Rightarrow> (string \<rightharpoonup> string) \<Rightarrow> db \<Rightarrow>
   (exn + db \<times> (nat \<times> nat \<times> nat) \<times> (string \<times> nat) list) \<times> (string \<rightharpoonup> string)" where
  "reference_main download to_float refresh files d =
     (case fetch_all download refresh files of
        (Inl e, f) \<Rightarrow> (Inl e, f)
      | (Inr (a, l, r), f) \<Rightarrow>
          (case seed_reference to_float a l r d of
             Inl e \<Rightarrow> (Inl e, f)
           | Inr d' \<Rightarrow> (Inr (d', reference_report d'), f)))"

text \<open>The first five flights with seats, by departure, with their number of seats.\<close>

definition flight_sample :: "db \<Rightarrow> (flight \<times> nat) list" where
  "flight_sample d =
     take 5 (map (\<lambda>f. (f, count_where (\<lambda>s. s_flight_id s = fl_id f) (d_seats d)))
       (order_by fl_depart_at (filter (\<lambda>f. \<exists>s \<in> set (d_seats d). s_flight_id s = fl_id f) (d_flights d))))"

subsection \<open>A second run\<close>

lemma universal_newlines_id: "CHR 0x0D \<notin> set s \<Longrightarrow> universal_newlines s = s"
  by (induction s rule: universal_newlines.induct) auto

text \<open>
  After a run that got its files, every later run without \<open>--refresh\<close> works from the cache, whatever
  the network would answer, and loads nothing new when the files have no carriage returns.
\<close>

lemma fetch_downloads:
  "fetch download refresh name files = (Inr raw, f) \<Longrightarrow> refresh \<or> files name = None \<Longrightarrow> f = files(name \<mapsto> raw)"
  by (auto simp: fetch_def split: option.splits sum.splits if_splits)

lemma fetch_cached: "files name = Some raw \<Longrightarrow> fetch download False name files = (Inr (universal_newlines raw), files)"
  by (simp add: fetch_def)

lemma fetched_is_cached:
  assumes "fetch_all download refresh files = (Inr (a, l, r), f)" and "refresh \<or> files = Map.empty"
  shows "f ''airports.csv'' = Some a" "f ''airlines.dat'' = Some l" "f ''routes.dat'' = Some r"
    "fetch_all download' False f = (Inr (universal_newlines a, universal_newlines l, universal_newlines r), f)"
proof -
  obtain f1 f2 where f: "fetch download refresh ''airports.csv'' files = (Inr a, f1)"
    "fetch download refresh ''airlines.dat'' f1 = (Inr l, f2)" "fetch download refresh ''routes.dat'' f2 = (Inr r, f)"
    using assms(1) unfolding fetch_all_def by (auto split: prod.splits sum.splits)
  have 1: "f1 = files(''airports.csv'' \<mapsto> a)" using fetch_downloads [OF f(1)] assms(2) by auto
  have 2: "f2 = f1(''airlines.dat'' \<mapsto> l)" using fetch_downloads [OF f(2)] assms(2) 1 by auto
  have 3: "f = f2(''routes.dat'' \<mapsto> r)" using fetch_downloads [OF f(3)] assms(2) 1 2 by auto
  show c: "f ''airports.csv'' = Some a" "f ''airlines.dat'' = Some l" "f ''routes.dat'' = Some r"
    by (simp_all add: 1 2 3)
  show "fetch_all download' False f = (Inr (universal_newlines a, universal_newlines l, universal_newlines r), f)"
    unfolding fetch_all_def by (simp only: fetch_cached [where files = f, OF c(1)] fetch_cached [where files = f, OF c(2)] fetch_cached [where files = f, OF c(3)] prod.case sum.case)
qed

lemma second_run_changes_nothing:
  assumes run: "reference_main download to_float refresh files d = (Inr (d', rep), f)" "refresh \<or> files = Map.empty"
    and newlines: "\<forall>raw \<in> ran f. CHR 0x0D \<notin> set raw"
  shows "reference_main download' to_float False f d' = (Inr (d', rep), f)"
proof -
  obtain a l r where fa: "fetch_all download refresh files = (Inr (a, l, r), f)"
    and s: "seed_reference to_float a l r d = Inr d'" "rep = reference_report d'"
    using run(1) by (auto simp: reference_main_def split: prod.splits sum.splits)
  note c = fetched_is_cached [OF fa run(2)]
  have raw: "universal_newlines a = a" "universal_newlines l = l" "universal_newlines r = r"
    using newlines c(1-3) universal_newlines_id by (meson ranI)+
  have "seed_reference to_float a l r d' = Inr d'" by (rule seed_reference_again [OF s(1)])
  then show ?thesis using c(4) raw s(2) by (simp add: reference_main_def)
qed

subsection \<open>The great-circle distance\<close>

definition radians :: "real \<Rightarrow> real" where
  "radians x = x * pi / 180"

definition haversine :: "real \<Rightarrow> real \<Rightarrow> real \<Rightarrow> real \<Rightarrow> real" where
  "haversine lat1 lon1 lat2 lon2 =
     (let p1 = radians lat1; p2 = radians lat2; dp = p2 - p1; dl = radians (lon2 - lon1)
      in sin (dp / 2) ^ 2 + cos p1 * cos p2 * sin (dl / 2) ^ 2)"

definition great_circle_km :: "real \<Rightarrow> real \<Rightarrow> real \<Rightarrow> real \<Rightarrow> real" where
  "great_circle_km lat1 lon1 lat2 lon2 = 2 * 6371 * arcsin (sqrt (haversine lat1 lon1 lat2 lon2))"

text \<open>Half of one minus the cosine of the angle between the two points, so between 0 and 1.\<close>

lemma haversine_angle:
  "haversine lat1 lon1 lat2 lon2 =
     (1 - (sin (radians lat1) * sin (radians lat2) + cos (radians lat1) * cos (radians lat2) * cos (radians (lon2 - lon1)))) / 2"
proof -
  have half: "sin (x / 2) ^ 2 = (1 - cos x) / 2" for x :: real
    using cos_double_sin [of "x / 2"] by simp
  show ?thesis
    unfolding haversine_def Let_def half by (simp add: cos_diff field_simps)
qed

lemma angle_cosine_bounds:
  fixes a b c :: real
  shows "\<bar>sin a * sin b + cos a * cos b * cos c\<bar> \<le> 1"
proof -
  have sq: "\<bar>x * y\<bar> \<le> (x\<^sup>2 + y\<^sup>2) / 2" for x y :: real
    using sum_squares_bound [of "\<bar>x\<bar>" "\<bar>y\<bar>"] by (simp add: abs_mult)
  have "\<bar>sin a * sin b + cos a * cos b * cos c\<bar> \<le> \<bar>sin a * sin b\<bar> + \<bar>cos a * cos b\<bar> * \<bar>cos c\<bar>"
    by (metis abs_mult abs_triangle_ineq)
  also have "\<dots> \<le> \<bar>sin a * sin b\<bar> + \<bar>cos a * cos b\<bar>"
    by (simp add: mult_left_le)
  also have "\<dots> \<le> ((sin a)\<^sup>2 + (sin b)\<^sup>2) / 2 + ((cos a)\<^sup>2 + (cos b)\<^sup>2) / 2"
    using sq by (intro add_mono)
  also have "\<dots> = 1"
  proof -
    have half: "(p + q) / 2 + (r + s) / 2 = 1" if "p + r = 1" "q + s = 1" for p q r s :: real
      using that by (simp add: field_simps)
    show ?thesis by (rule half) (rule sin_cos_squared_add)+
  qed
  finally show ?thesis .
qed

lemma haversine_bounds: "0 \<le> haversine a b c d" "haversine a b c d \<le> 1"
  using angle_cosine_bounds [of "radians a" "radians c" "radians (d - b)"] by (simp_all add: haversine_angle abs_le_iff)

text \<open>The distance is defined for any two points, symmetric, zero from a point to itself and at most half a circumference.\<close>

lemma great_circle_bounds: "0 \<le> great_circle_km a b c d" "great_circle_km a b c d \<le> 6371 * pi"
proof -
  have s: "0 \<le> sqrt (haversine a b c d)" "sqrt (haversine a b c d) \<le> 1"
    using haversine_bounds by simp_all
  show "0 \<le> great_circle_km a b c d" "great_circle_km a b c d \<le> 6371 * pi"
    using arcsin_le_arcsin [of 0 "sqrt (haversine a b c d)"] arcsin_bounded [of "sqrt (haversine a b c d)"] s
    by (simp_all add: great_circle_km_def)
qed

lemma great_circle_sym: "great_circle_km a b c d = great_circle_km c d a b"
proof -
  have "cos (radians (d - b)) = cos (radians (b - d))"
    using cos_minus [of "radians (d - b)"] by (simp add: radians_def algebra_simps diff_divide_distrib)
  then show ?thesis by (simp add: great_circle_km_def haversine_angle mult.commute)
qed

lemma great_circle_refl [simp]: "great_circle_km a b a b = 0"
  by (simp add: great_circle_km_def haversine_def radians_def)

end
