(* ===== verification/Sky_Lifecycle.thy ===== *)
theory Sky_Lifecycle
  imports Sky_Inventory
begin

text \<open>
  \<^verbatim>\<open>app/jobs/scheduler.py\<close>, \<^verbatim>\<open>app/redis_client.py\<close> and the lifespan of \<^verbatim>\<open>app/main.py\<close>: what runs
  between the start and the end of a process. APScheduler's instances are records of their jobs and
  whether they run; its timing is not modelled: a tick is a time at which the job of a running
  scheduler is called.
\<close>

subsection \<open>The scheduler of a process\<close>

record job =
  jb_id :: string
  jb_seconds :: int
  jb_max_instances :: nat
  jb_coalesce :: bool

record scheduler =
  sc_jobs :: "job list"
  sc_running :: bool

text \<open>
  The process: every scheduler it has created, the one the module global \<open>_scheduler\<close> names, the
  connection pools of Redis and of the engine.
\<close>

record process =
  ps_scheduler :: "nat option"
  ps_instances :: "scheduler list"
  ps_redis_open :: bool
  ps_engine_open :: bool

definition new_process :: process where
  "new_process = \<lparr>ps_scheduler = None, ps_instances = [], ps_redis_open = True, ps_engine_open = True\<rparr>"

text \<open>\<open>add_job\<close> with \<open>replace_existing=True\<close>.\<close>

definition add_job :: "job \<Rightarrow> scheduler \<Rightarrow> scheduler" where
  "add_job j s = s\<lparr>sc_jobs := filter (\<lambda>k. jb_id k \<noteq> jb_id j) (sc_jobs s) @ [j]\<rparr>"

definition sweep_job :: "int \<Rightarrow> job" where
  "sweep_job interval = \<lparr>jb_id = ''sweep_expired_holds'', jb_seconds = interval, jb_max_instances = 1, jb_coalesce = True\<rparr>"

definition start_scheduler :: "int \<Rightarrow> process \<Rightarrow> process" where
  "start_scheduler interval p =
     (case ps_scheduler p of
        Some i \<Rightarrow> p
      | None \<Rightarrow>
          (let s = (add_job (sweep_job interval) \<lparr>sc_jobs = [], sc_running = False\<rparr>)\<lparr>sc_running := True\<rparr>
           in p\<lparr>ps_instances := ps_instances p @ [s], ps_scheduler := Some (length (ps_instances p))\<rparr>))"

definition stop_scheduler :: "process \<Rightarrow> process" where
  "stop_scheduler p =
     (case ps_scheduler p of
        None \<Rightarrow> p
      | Some i \<Rightarrow> p\<lparr>ps_instances := (ps_instances p)[i := (ps_instances p ! i)\<lparr>sc_running := False\<rparr>], ps_scheduler := None\<rparr>)"

definition close_redis :: "process \<Rightarrow> process" where
  "close_redis p = p\<lparr>ps_redis_open := False\<rparr>"

text \<open>
  \<open>lifespan\<close>: the two probes and the closing of the Redis pool return None or the name of the
  exception they raise; \<open>body\<close> is what happens while the application serves.
\<close>

definition lifespan ::
  "int \<Rightarrow> string option \<Rightarrow> string option \<Rightarrow> (process \<Rightarrow> string option \<times> process) \<Rightarrow> string option \<Rightarrow> process \<Rightarrow>
   string option \<times> process" where
  "lifespan interval database redis body closing p =
     (case database of
        Some exc \<Rightarrow> (Some exc, p)
      | None \<Rightarrow>
          (case redis of
             Some exc \<Rightarrow> (Some exc, p)
           | None \<Rightarrow>
               (case body (start_scheduler interval p) of
                  (r, p1) \<Rightarrow>
                    (let p2 = stop_scheduler p1 in
                     case closing of
                       Some exc \<Rightarrow> (Some exc, p2)
                     | None \<Rightarrow> (r, (close_redis p2)\<lparr>ps_engine_open := False\<rparr>)))))"

subsection \<open>At most one scheduler runs\<close>

definition running :: "process \<Rightarrow> nat list" where
  "running p = filter (\<lambda>i. sc_running (ps_instances p ! i)) [0..<length (ps_instances p)]"

definition process_ok :: "process \<Rightarrow> bool" where
  "process_ok p = (running p = (case ps_scheduler p of None \<Rightarrow> [] | Some i \<Rightarrow> [i]))"

lemma process_ok_new: "process_ok new_process"
  by (simp add: process_ok_def new_process_def running_def)

lemma start_ok:
  assumes "process_ok p"
  shows "process_ok (start_scheduler n p)"
proof (cases "ps_scheduler p")
  case None
  then have "\<forall>i < length (ps_instances p). \<not> sc_running (ps_instances p ! i)"
    using assms by (simp add: process_ok_def running_def filter_empty_conv)
  with None show ?thesis
    by (simp add: process_ok_def start_scheduler_def running_def Let_def nth_append filter_empty_conv)
next
  case (Some i)
  with assms show ?thesis by (simp add: start_scheduler_def)
qed

lemma start_idempotent: "start_scheduler n (start_scheduler m p) = start_scheduler m p"
  by (simp add: start_scheduler_def Let_def split: option.split)

lemma start_runs: "process_ok p \<Longrightarrow> \<exists>i. running (start_scheduler n p) = [i]"
  using start_ok [of p n] by (auto simp: process_ok_def start_scheduler_def Let_def split: option.splits)

lemma stop_ok:
  assumes "process_ok p"
  shows "process_ok (stop_scheduler p)" "running (stop_scheduler p) = []"
proof -
  have "running (stop_scheduler p) = []"
  proof (cases "ps_scheduler p")
    case None
    then show ?thesis using assms by (simp add: process_ok_def stop_scheduler_def)
  next
    case (Some i)
    then have only: "running p = [i]" using assms by (simp add: process_ok_def)
    have "\<not> sc_running (ps_instances p ! j)" if "j < length (ps_instances p)" "j \<noteq> i" for j
    proof
      assume "sc_running (ps_instances p ! j)"
      with that have "j \<in> set (running p)" by (simp add: running_def)
      with only that show False by simp
    qed
    moreover have "i < length (ps_instances p)"
    proof -
      have "i \<in> set (running p)" using only by simp
      then show ?thesis by (simp add: running_def)
    qed
    ultimately show ?thesis
      using Some by (auto simp: stop_scheduler_def running_def filter_empty_conv nth_list_update)
  qed
  then show "running (stop_scheduler p) = []" "process_ok (stop_scheduler p)"
    by (auto simp: process_ok_def stop_scheduler_def split: option.splits)
qed

lemma running_pools [simp]:
  "running (close_redis p) = running p" "running (p\<lparr>ps_engine_open := b\<rparr>) = running p"
  by (simp_all add: running_def close_redis_def)

text \<open>
  However serving ends, no scheduler of the process runs after it; a failed probe starts nothing.
\<close>

lemma lifespan_stops:
  assumes "process_ok p" "ps_scheduler p = None" "\<And>q. process_ok q \<Longrightarrow> process_ok (snd (body q))"
  shows "running (snd (lifespan n db rd body cl p)) = []"
    and "db \<noteq> None \<or> rd \<noteq> None \<Longrightarrow> snd (lifespan n db rd body cl p) = p"
proof -
  have "running p = []" using assms(1,2) by (simp add: process_ok_def)
  moreover have "running (stop_scheduler (snd (body (start_scheduler n p)))) = []"
    using assms(1,3) by (simp add: stop_ok start_ok)
  ultimately show "running (snd (lifespan n db rd body cl p)) = []"
    by (auto simp: lifespan_def Let_def split: option.splits prod.splits)
  show "db \<noteq> None \<or> rd \<noteq> None \<Longrightarrow> snd (lifespan n db rd body cl p) = p"
    by (auto simp: lifespan_def split: option.splits)
qed

subsection \<open>Replicas\<close>

datatype activity = Start int | Stop | Tick time

text \<open>A tick calls the sweep once per running scheduler.\<close>

definition tick :: "time \<Rightarrow> process \<Rightarrow> db \<Rightarrow> db" where
  "tick t p d = fold (\<lambda>i d. snd (sweep_expired_holds t d)) (running p) d"

fun act :: "nat \<times> activity \<Rightarrow> (nat \<Rightarrow> process) \<times> db \<Rightarrow> (nat \<Rightarrow> process) \<times> db" where
  "act (i, Start n) (ps, d) = (ps(i := start_scheduler n (ps i)), d)"
| "act (i, Stop) (ps, d) = (ps(i := stop_scheduler (ps i)), d)"
| "act (i, Tick t) (ps, d) = (ps, tick t (ps i) d)"

text \<open>The times at which some replica swept.\<close>

fun sweeps :: "(nat \<times> activity) list \<Rightarrow> (nat \<Rightarrow> process) \<Rightarrow> time list" where
  "sweeps [] ps = []"
| "sweeps ((i, Start n) # xs) ps = sweeps xs (ps(i := start_scheduler n (ps i)))"
| "sweeps ((i, Stop) # xs) ps = sweeps xs (ps(i := stop_scheduler (ps i)))"
| "sweeps ((i, Tick t) # xs) ps = (if running (ps i) = [] then [] else [t]) @ sweeps xs ps"

lemma sweep_absorbs:
  assumes "t \<le> t'"
  shows "snd (sweep_expired_holds t' (snd (sweep_expired_holds t d))) = snd (sweep_expired_holds t' d)"
proof -
  have "sweepable t s \<Longrightarrow> sweepable t' s" for s using assms by (auto simp: sweepable_def before_def split: option.splits)
  moreover have "\<not> sweepable t' (free_hold s)" for s by (simp add: sweepable_def free_hold_def)
  ultimately show ?thesis by (auto simp: sweep_expired_holds_def update_where_def)
qed

lemma fold_sweeps: "sorted ts \<Longrightarrow> fold (\<lambda>t d. snd (sweep_expired_holds t d)) ts d = (if ts = [] then d else snd (sweep_expired_holds (last ts) d))"
  by (induction ts arbitrary: d) (auto simp: sweep_absorbs)

lemma act_sweeps:
  assumes "\<forall>i. process_ok (ps i)"
  shows "(\<forall>i. process_ok (fst (fold act xs (ps, d)) i)) \<and>
    snd (fold act xs (ps, d)) = fold (\<lambda>t d. snd (sweep_expired_holds t d)) (sweeps xs ps) d"
  using assms
proof (induction xs arbitrary: ps d)
  case Nil
  then show ?case by simp
next
  case (Cons x xs)
  obtain i a where x: "x = (i, a)" by (cases x)
  show ?case
  proof (cases a)
    case (Tick t)
    have "tick t (ps i) d = (if running (ps i) = [] then d else snd (sweep_expired_holds t d))"
      using Cons.prems by (auto simp: tick_def process_ok_def split: option.splits)
    then show ?thesis using Cons x Tick by simp
  next
    case (Start n)
    have "\<forall>j. process_ok ((ps(i := start_scheduler n (ps i))) j)" using Cons.prems start_ok by simp
    with Cons.IH [of "ps(i := start_scheduler n (ps i))" d] show ?thesis using x Start by (simp add: fun_upd_def)
  next
    case Stop
    have "\<forall>j. process_ok ((ps(i := stop_scheduler (ps i))) j)" using Cons.prems stop_ok by simp
    with Cons.IH [of "ps(i := stop_scheduler (ps i))" d] show ?thesis using x Stop by (simp add: fun_upd_def)
  qed
qed

text \<open>
  C17: several replicas, each with a scheduler that is started and stopped at any time, sweep
  as one: each runs at most one scheduler, and the rows are those of a single sweep at the last
  time any of them swept.
\<close>

theorem replicas_sweep_as_one:
  assumes "sorted (sweeps xs (\<lambda>_. new_process))" and "fold act xs (\<lambda>_. new_process, d) = (ps, d')"
  shows "length (running (ps i)) \<le> 1 \<and>
    d' = (if sweeps xs (\<lambda>_. new_process) = [] then d
          else snd (sweep_expired_holds (last (sweeps xs (\<lambda>_. new_process))) d))"
  using act_sweeps [of "\<lambda>_. new_process" xs d] fold_sweeps [OF assms(1), of d] assms(2) process_ok_new
  by (auto simp: process_ok_def split: option.splits)

theorem replicas_sweep_as_one_witness:
  "\<exists>ps d'. fold act [(0, Start 30), (1, Start 30), (0, Tick 4), (1, Tick 9), (0, Stop), (0, Tick 11)] (\<lambda>_. new_process, lapsed_db) = (ps, d') \<and>
     d' = snd (sweep_expired_holds 9 lapsed_db)"
proof -
  let ?xs = "[(0 :: nat, Start 30), (1, Start 30), (0, Tick 4), (1, Tick 9), (0, Stop), (0, Tick 11)]"
  have s: "sweeps ?xs (\<lambda>_. new_process) = [4, 9]"
    by (simp add: start_scheduler_def stop_scheduler_def new_process_def running_def add_job_def)
  obtain ps d' where f: "fold act ?xs (\<lambda>_. new_process, lapsed_db) = (ps, d')" by (metis surj_pair)
  show ?thesis using replicas_sweep_as_one [OF _ f, of 0] f unfolding s by auto
qed

end
