(* ===== verification/Spec2Isabelle.thy ===== *)
theory Spec2Isabelle
  imports Sky_Routes Sky_Admin Sky_SeedFacts Sky_Rows Sky_CardTest Sky_SeedRun Sky_Lifecycle
begin

text \<open>
  SkyLock, a flight booking service (\<^verbatim>\<open>src/app\<close>), and what it guarantees.

  The program. A client registers and logs in, searches flights, holds a seat for ten
  minutes, and turns its holds into a booking by one POST with an Idempotency-Key. The
  booking runs as a saga of short transactions around a call to the payment gateway: create
  and pin the seats, assess the card for card testing, charge, issue the tickets after
  verifying the seats again, confirm; a failure after the charge is compensated by voiding it
  and releasing the seats. A background sweep returns lapsed holds. Postgres holds all truth,
  Redis the windows of the rate limiter and of the card-testing counters.

  The theories, from the bottom, and the code they model:
  \<^item> \<open>Sky_Prelude\<close>: rows, tables as lists, SQL's SELECT, UPDATE, DELETE, ORDER BY; JSON values;
    the \<open>named_theorems\<close> of the development.
  \<^item> \<open>Sky_Enums\<close>, \<open>Sky_Errors\<close>, \<open>Sky_Money\<close>: \<^verbatim>\<open>app/domain/enums.py\<close>, \<^verbatim>\<open>states.py\<close>, \<^verbatim>\<open>money.py\<close>,
    \<^verbatim>\<open>pnr.py\<close>, \<^verbatim>\<open>app/errors.py\<close>: the state machine of a booking with its ranking, the exceptions
    and their problem responses, exact decimal money.
  \<^item> \<open>Sky_Models\<close>: \<^verbatim>\<open>app/domain/models.py\<close>: one record per table, the constraints \<open>db_ok\<close>, and the
    statements that can break one.
  \<^item> \<open>Sky_Holds\<close>: \<^verbatim>\<open>app/services/holds.py\<close>, \<^verbatim>\<open>app/jobs/sweep.py\<close>: a hold is one conditional UPDATE.
  \<^item> \<open>Sky_Redis\<close>, \<open>Sky_RateLimit\<close>, \<open>Sky_Carding\<close>: the sorted sets the code uses,
    \<^verbatim>\<open>app/security/ratelimit.py\<close>, \<^verbatim>\<open>app/security/carding.py\<close>.
  \<^item> \<open>Sky_Gateway\<close>: \<^verbatim>\<open>app/services/payments\<close>, the deterministic gateway the service ships with.
  \<^item> \<open>Sky_World\<close>: the committed rows, the rows as the session of a request sees them, the gateway,
    Redis and the supply of ids; \<open>transact\<close>, \<open>commit\<close>, \<open>rollback\<close> (\<^verbatim>\<open>app/db.py\<close>), the audit
    trail (\<^verbatim>\<open>app/services/audit.py\<close>) and the event log (\<^verbatim>\<open>app/security/events.py\<close>).
  \<^item> \<open>Sky_Schemas\<close>: the request bodies, \<^verbatim>\<open>app/schemas\<close>.
  \<^item> \<open>Sky_Saga\<close> and the theories \<open>Sky_SagaFacts\<close>, \<open>Sky_SagaRun\<close>, \<open>Sky_SagaOutcome\<close>,
    \<open>Sky_SagaRaces\<close>, \<open>Sky_SagaFrame\<close>: \<^verbatim>\<open>app/services/booking_saga.py\<close>: the steps, what each
    changes, the outcomes of a whole run, the races, and what no run changes.
  \<^item> \<open>Sky_Idempotency\<close>, \<open>Sky_Tokens\<close>, \<open>Sky_Accounts\<close>, \<open>Sky_Authz\<close>: \<^verbatim>\<open>app/services/idempotency.py\<close>,
    \<^verbatim>\<open>app/security/hashing.py\<close>, \<^verbatim>\<open>tokens.py\<close>, \<^verbatim>\<open>authz.py\<close>, \<^verbatim>\<open>context.py\<close>, \<^verbatim>\<open>app/deps.py\<close>, \<^verbatim>\<open>app/api/auth.py\<close>.
  \<^item> \<open>Sky_Pages\<close>, \<open>Sky_Bookings\<close>, \<open>Sky_Inventory\<close>, \<open>Sky_Admin\<close>: the routes of \<^verbatim>\<open>app/api\<close>.
  \<^item> \<open>Sky_System\<close>, \<open>Sky_Requests\<close>, \<open>Sky_Routes\<close>: the system as a whole.
  \<^item> \<open>Sky_Lifecycle\<close>: \<^verbatim>\<open>app/jobs/scheduler.py\<close>, \<^verbatim>\<open>app/redis_client.py\<close> and the lifespan of
    \<^verbatim>\<open>app/main.py\<close>: what runs between the start and the end of a process.
  \<^item> \<open>Sky_Reference\<close>, \<open>Sky_Seed\<close>, \<open>Sky_SeedFacts\<close>, \<open>Sky_SeedRun\<close>: \<^verbatim>\<open>scripts/seed_reference.py\<close> and
    \<^verbatim>\<open>scripts/seed_flights.py\<close>, which fill the database the service runs on.
  \<^item> \<open>Sky_Schema\<close>, \<open>Sky_Migrations\<close>, \<open>Sky_MigrationFacts\<close>, \<open>Sky_Metadata\<close>, \<open>Sky_Rows\<close>: DDL on a
    catalogue of tables, indexes, triggers, roles and grants; \<^verbatim>\<open>alembic/versions\<close> and
    \<^verbatim>\<open>alembic/env.py\<close> as scripts of it; the declarations of \<^verbatim>\<open>models.py\<close> as Alembic sees them; and
    the records of \<open>db\<close> as rows of the migrated tables.
  \<^item> \<open>Sky_LoadProof\<close>, \<open>Sky_Exploit\<close>, \<open>Sky_CardWatch\<close>, \<open>Sky_CardTest\<close>: \<^verbatim>\<open>load/oversell_proof.py\<close>,
    \<^verbatim>\<open>scripts/exploit_bola.py\<close> and \<^verbatim>\<open>scripts/simulate_carding.py\<close>, the repository's own
    demonstrations, as clients of the model; the second one with the routes of one booking as they
    answer on the wire, the third one with what a request leaves in the sets that count cards.

  How the program is modelled. An operation of the code is a function on the database or on
  the world, with its exceptions as values of \<open>exn\<close> in a sum; every raise and early return is a
  branch. What Postgres makes atomic is one transaction, a function \<open>db \<Rightarrow> exn + 'a \<times> db\<close> run by
  \<open>transact\<close>; a handler is a sequence of them with the gateway and Redis in between. Clocks, random
  draws and fresh ids are arguments (\<open>draws\<close>, \<open>w_fresh\<close>), so every theorem holds for all of them.
  Concurrency: \<open>txn\<close> of \<open>Sky_System\<close> has one rule per transaction with whatever a request remembers
  as free parameters, so its paths are all interleavings of any number of requests; \<open>serves\<close> of
  \<open>Sky_Requests\<close> has one rule per route, and refines \<open>txn\<close>. All recursion is structural; no fuel is
  needed.

  Parameters. Argon2, SHA-256, JWT and the HTTPBearer parser (\<open>crypto\<close>, \<open>sha256\<close>, \<open>bearer\<close>), the
  email validator, pydantic's error list, the great-circle distance as the generator calls it (\<open>Sky_SeedRun\<close> has it
  with real numbers), float rounding, md5 and the
  random draws of the flight generator, and \<open>reread\<close>: what a second SELECT of a row gives to a
  session that has loaded the row before. The ORM returns its own copy unless told otherwise;
  theorems about the saga that depend on it say for which \<open>reread\<close> they hold.

  What is shown.
  \<^item> The whole: no interleaving breaks a constraint, sells a seat twice or leaves a gap in a
    history; the handlers do nothing but these transactions; history is append-only; a POST
    to \<open>/bookings\<close> that fails a guard changes nothing.
  \<^item> The saga: what a 201 means in rows and money, that a reported error keeps nothing, that a
    seat lost during payment is compensated, what cancellation does, and the paths on
    which the code keeps a charge or refunds without cancelling.
  \<^item> Holds: one winner per seat, the first; the cap; what is advertised can be held; the sweep
    changes nothing a reader can see, and the sweeps of several replicas are one sweep.
  \<^item> Retries: a repeated request replays the stored outcome; claims separate bodies, accounts and
    running requests; the gateway charges once per key.
  \<^item> Abuse controls: the limiter is a sliding window, the fraud decision is monotone, wrong
    passwords lock an account, a replayed refresh token ends its family.
  \<^item> Access and reading: what a caller learns depends on the caller's rows only; pages and the
    event feed are complete and without repetition.
  \<^item> Seeding: the reference load can be repeated, and the generated inventory breaks no
    constraint and can be sold.
  \<^item> The schema: the migrations build exactly what the models declare, can be undone on a fresh
    database, refuse every change of history, and install every constraint of \<open>db_ok\<close>; the last
    one can be undone on live data only while no seat or passenger was ticketed twice.
  \<^item> The demonstrations: the load test can never report overselling, the attack of a stranger
    on a booking is refused at every probe, and an account that tries card after card has at most
    three of them judged by the gateway within two minutes.
  The interfaces are locales with interpretations on the model: \<open>ranked_machine\<close>,
  \<open>saga_invariant\<close>, \<open>untouched\<close>, \<open>numbered_pages\<close>, \<open>cursor_feed\<close> and those of the lower theories.

  Not modelled. The offline mode of the Alembic environment, the timing of
  APScheduler, the assembly of the app, the templates, the HTTP
  clients and printed reports of the three demonstrations, and the tests. The records of \<open>db\<close>
  leave out the server-side timestamps that no operation reads; \<open>db_ok\<close> leaves out foreign keys (a
  theorem that needs one says so).
  SQL's isolation is taken as one transaction at a time on the rows it touches, which the row
  locks and conditional updates of the code give at READ COMMITTED for the rows they lock.
\<close>

end
